(* ===== verification/Prelude.thy ===== *)
theory Prelude
  imports Main "HOL-Library.List_Lexorder" "HOL-Library.Char_ord" "HOL-Library.AList"
begin

section \<open>Prelude: the Python vocabulary of the model\<close>

text \<open>
  What every component of the model shares: the exceptions the code raises, Python's
  slices, dictionaries (association lists in insertion order) and string methods, the
  two list loops the JSONL stores use (replace-or-append, and scan-until-limit), and
  the lemmas about them. Strings are lists of characters; \<open>casefold\<close>, \<open>strip\<close>
  and \<open>split\<close> are Python's on ASCII text.
\<close>

named_theorems py "unfolding rules of the Python helpers"
named_theorems frames "what an operation leaves unchanged"

subsection \<open>Exceptions\<close>

datatype exc =
    HTTPException nat string
  | ValueError string
  | KeyError string
  | TypeError string
  | AttributeError string
  | RuntimeError string
  | IndexError string
  | OverflowError string
  | OtherException string
  | ServiceDegraded string "string option"

type_synonym 'a res = "exc + 'a"

text \<open>\<open>str(exc)\<close>: the message; \<open>KeyError\<close> prints the repr of its key.\<close>

fun exc_str :: "exc \<Rightarrow> string" where
  "exc_str (HTTPException _ d) = d"
| "exc_str (ValueError s) = s"
| "exc_str (KeyError s) = [CHR 0x27] @ s @ [CHR 0x27]"
| "exc_str (TypeError s) = s"
| "exc_str (AttributeError s) = s"
| "exc_str (RuntimeError s) = s"
| "exc_str (IndexError s) = s"
| "exc_str (OverflowError s) = s"
| "exc_str (OtherException s) = s"
| "exc_str (ServiceDegraded service err) =
     ''service_degraded:'' @ service @ (case err of None \<Rightarrow> [] | Some e \<Rightarrow> if e = [] then [] else '': '' @ e)"

subsection \<open>Slices\<close>

text \<open>\<open>xs[-n:]\<close> for \<open>n > 0\<close>, and \<open>xs[:n]\<close> for any \<open>n\<close>.\<close>

definition last_n :: "int \<Rightarrow> 'a list \<Rightarrow> 'a list" where
  "last_n n xs = drop (length xs - nat n) xs"

definition py_take :: "int \<Rightarrow> 'a list \<Rightarrow> 'a list" where
  "py_take n xs = (if 0 \<le> n then take (nat n) xs else take (nat (int (length xs) + n)) xs)"

lemma length_last_n [simp]: "length (last_n n xs) = min (nat n) (length xs)"
  by (simp add: last_n_def min_def)

lemma last_n_all [simp]: "int (length xs) \<le> n \<Longrightarrow> last_n n xs = xs"
  by (simp add: last_n_def)

lemma set_last_n: "set (last_n n xs) \<subseteq> set xs"
  by (simp add: last_n_def set_drop_subset)

lemma last_n_snoc: "0 < n \<Longrightarrow> last_n n (xs @ [x]) = last_n (n - 1) xs @ [x]"
  by (auto simp: last_n_def Suc_diff_le drop_append nat_diff_distrib)

lemma last_n_append_long:
  "int (length ys) \<le> n \<Longrightarrow> last_n n (xs @ ys) = last_n (n - int (length ys)) xs @ ys"
  by (auto simp: last_n_def nat_diff_distrib)

lemma distinct_last_n: "distinct xs \<Longrightarrow> distinct (last_n n xs)"
  by (simp add: last_n_def)

lemma last_n_suffix: "\<exists>ys. xs = ys @ last_n n xs"
  by (metis append_take_drop_id last_n_def)

lemma filter_last_n: "filter P (last_n n xs) = last_n (int (length (filter P (last_n n xs)))) (filter P xs)"
proof -
  obtain ys where "xs = ys @ last_n n xs" using last_n_suffix by blast
  then have "filter P xs = filter P ys @ filter P (last_n n xs)" by (metis filter_append)
  then show ?thesis by (simp add: last_n_def)
qed

subsection \<open>Dictionaries\<close>

type_synonym 'v dict = "(string \<times> 'v) list"

definition setdefault :: "string \<Rightarrow> 'v \<Rightarrow> 'v dict \<Rightarrow> 'v dict" where
  "setdefault k v d = (if k \<in> fst ` set d then d else d @ [(k, v)])"

text \<open>\<open>d.update(u)\<close> and \<open>{**d, **u}\<close>.\<close>

definition dict_update :: "'v dict \<Rightarrow> 'v dict \<Rightarrow> 'v dict" where
  "dict_update d u = fold (\<lambda>(k, v). AList.update k v) u d"

lemma map_of_setdefault:
  "map_of (setdefault k v d) = (map_of d)(k \<mapsto> (case map_of d k of None \<Rightarrow> v | Some x \<Rightarrow> x))"
proof (cases "k \<in> fst ` set d")
  case True
  then obtain x where "map_of d k = Some x" by (metis map_of_eq_None_iff not_None_eq)
  with True show ?thesis by (auto simp: setdefault_def)
next
  case False
  then have "map_of d k = None" by (simp add: map_of_eq_None_iff)
  with False show ?thesis by (auto simp: setdefault_def map_add_def fun_eq_iff split: option.splits)
qed

lemma map_of_dict_update: "map_of (dict_update d u) k = (case map_of (rev u) k of None \<Rightarrow> map_of d k | Some v \<Rightarrow> Some v)"
  unfolding dict_update_def
  by (induction u arbitrary: d) (auto simp: update_conv' map_add_def split: option.splits prod.splits)

subsection \<open>Scan until the limit is reached\<close>

text \<open>
  The search loops of the stores: \<open>for x in xs: if p(x): matches.append(x); if
  len(matches) >= limit: break\<close>. With a positive limit it is the first \<open>limit\<close> matches.
\<close>

fun scan_matches :: "('a \<Rightarrow> bool) \<Rightarrow> int \<Rightarrow> 'a list \<Rightarrow> 'a list \<Rightarrow> 'a list" where
  "scan_matches p limit acc [] = acc"
| "scan_matches p limit acc (x # xs) =
     (let acc' = (if p x then acc @ [x] else acc)
      in if limit \<le> int (length acc') then acc' else scan_matches p limit acc' xs)"

lemma scan_matches_take_acc:
  "int (length acc) < limit \<Longrightarrow>
   scan_matches p limit acc xs = acc @ take (nat limit - length acc) (filter p xs)"
proof (induction xs arbitrary: acc)
  case Nil
  then show ?case by simp
next
  case (Cons x xs)
  show ?case
  proof (cases "p x \<and> limit \<le> int (length (acc @ [x]))")
    case True
    with Cons.prems have "nat limit - length acc = 1" by auto
    with True show ?thesis by simp
  next
    case False
    have suc: "p x \<Longrightarrow> nat limit - length acc = Suc (nat limit - Suc (length acc))"
      using Cons.prems by linarith
    show ?thesis
      using False Cons.prems Cons.IH[of "acc @ [x]"] Cons.IH[of acc] suc
      by (auto simp: Let_def)
  qed
qed

lemma scan_matches_take:
  "0 < limit \<Longrightarrow> scan_matches p limit [] xs = take (nat limit) (filter p xs)"
  by (simp add: scan_matches_take_acc)

text \<open>Scanning backwards and reversing gives the last \<open>limit\<close> matches, in order.\<close>

lemma scan_matches_rev:
  "0 < limit \<Longrightarrow> rev (scan_matches p limit [] (rev xs)) = last_n limit (filter p xs)"
  by (simp add: scan_matches_take rev_filter [symmetric] take_rev last_n_def)

subsection \<open>Replace the first match, or append\<close>

fun upsert_first :: "('a \<Rightarrow> bool) \<Rightarrow> 'a \<Rightarrow> 'a list \<Rightarrow> 'a list" where
  "upsert_first p r [] = [r]"
| "upsert_first p r (x # xs) = (if p x then r # xs else x # upsert_first p r xs)"

lemma upsert_first_in: "r \<in> set (upsert_first p r xs)"
  by (induction xs) auto

lemma set_upsert_first: "set (upsert_first p r xs) \<subseteq> insert r (set xs)"
  by (induction xs) auto

lemma upsert_first_append: "\<forall>x\<in>set xs. \<not> p x \<Longrightarrow> upsert_first p r xs = xs @ [r]"
  by (induction xs) auto

lemma find_upsert_first_same:
  "key r = k \<Longrightarrow> find (\<lambda>x. key x = k) (upsert_first (\<lambda>x. key x = k) r xs) = Some r"
  by (induction xs) auto

lemma find_upsert_first_other:
  "key r = k \<Longrightarrow> k' \<noteq> k \<Longrightarrow>
   find (\<lambda>x. key x = k') (upsert_first (\<lambda>x. key x = k) r xs) = find (\<lambda>x. key x = k') xs"
  by (induction xs) auto

lemma keys_upsert_first:
  "key r = k \<Longrightarrow> map key (upsert_first (\<lambda>x. key x = k) r xs) =
     (if k \<in> key ` set xs then map key xs else map key xs @ [k])"
  by (induction xs) auto

lemma distinct_upsert_first:
  "key r = k \<Longrightarrow> distinct (map key xs) \<Longrightarrow>
   distinct (map key (upsert_first (\<lambda>x. key x = k) r xs))"
  by (simp add: keys_upsert_first image_set del: set_map)

lemma find_filter_same: "find (\<lambda>x. key x = k) (filter (\<lambda>x. key x \<noteq> k) xs) = None"
  by (induction xs) auto

lemma find_filter_other:
  "k' \<noteq> k \<Longrightarrow> find (\<lambda>x. key x = k') (filter (\<lambda>x. key x \<noteq> k) xs) = find (\<lambda>x. key x = k') xs"
  by (induction xs) auto

lemma find_SomeD: "find p xs = Some x \<Longrightarrow> x \<in> set xs \<and> p x"
  by (induction xs) (auto split: if_splits)

lemma find_None_iff_all: "find p xs = None \<longleftrightarrow> (\<forall>x\<in>set xs. \<not> p x)"
  by (induction xs) auto

lemma find_append:
  "find p (xs @ ys) = (case find p xs of None \<Rightarrow> find p ys | Some x \<Rightarrow> Some x)"
  by (induction xs) auto

end
