(* ===== verification/PyText.thy ===== *)
theory PyText
  imports Prelude
begin

section \<open>Python's string methods\<close>

text \<open>
  \<open>casefold\<close>, \<open>strip\<close>, \<open>split\<close>, \<open>join\<close>, \<open>startswith\<close>, \<open>in\<close>, \<open>replace\<close>,
  \<open>str(int)\<close> and \<open>int(str)\<close> as executable functions, with the facts the components use.
  A \<^typ>\<open>char\<close> is one code point; the functions are Python's on ASCII text.
\<close>

subsection \<open>Case and white space\<close>

definition casefold_char :: "char \<Rightarrow> char" where
  "casefold_char c =
     (if 65 \<le> (of_char c :: nat) \<and> (of_char c :: nat) \<le> 90 then char_of ((of_char c :: nat) + 32) else c)"

definition casefold :: "string \<Rightarrow> string" where
  "casefold s = map casefold_char s"

definition is_space :: "char \<Rightarrow> bool" where
  "is_space c \<longleftrightarrow> (let n = (of_char c :: nat) in n = 32 \<or> (9 \<le> n \<and> n \<le> 13) \<or> (28 \<le> n \<and> n \<le> 31))"

definition lstrip :: "string \<Rightarrow> string" where
  "lstrip s = dropWhile is_space s"

definition rstrip :: "string \<Rightarrow> string" where
  "rstrip s = rev (dropWhile is_space (rev s))"

definition strip :: "string \<Rightarrow> string" where
  "strip s = rstrip (lstrip s)"

lemma length_lstrip: "length (lstrip s) \<le> length s"
  by (simp add: lstrip_def length_dropWhile_le)

lemma length_rstrip: "length (rstrip s) \<le> length s"
  by (metis length_dropWhile_le length_rev rstrip_def)

lemma length_strip: "length (strip s) \<le> length s"
  unfolding strip_def using length_lstrip length_rstrip le_trans by blast

lemma length_casefold [simp]: "length (casefold s) = length s"
  by (simp add: casefold_def)

lemma casefold_char_idem [simp]: "casefold_char (casefold_char c) = casefold_char c"
proof (cases "65 \<le> (of_char c :: nat) \<and> (of_char c :: nat) \<le> 90")
  case True
  then have "(of_char (char_of ((of_char c :: nat) + 32) :: char) :: nat) = of_char c + 32" by simp
  with True show ?thesis by (simp add: casefold_char_def)
next
  case False
  then show ?thesis by (auto simp: casefold_char_def)
qed

lemma casefold_idem [simp]: "casefold (casefold s) = casefold s"
  by (simp add: casefold_def)

lemma dropWhile_idem [simp]: "dropWhile P (dropWhile P xs) = dropWhile P xs"
  by (induction xs) auto

lemma rstrip_lstrip_first: "s = [] \<or> \<not> is_space (hd s) \<Longrightarrow> rstrip s = [] \<or> \<not> is_space (hd (rstrip s))"
proof -
  assume a: "s = [] \<or> \<not> is_space (hd s)"
  obtain ys where ys: "s = rstrip s @ ys"
    by (metis rstrip_def rev_append rev_rev_ident takeWhile_dropWhile_id)
  show ?thesis
  proof (cases "rstrip s")
    case (Cons c cs)
    then have "hd s = hd (rstrip s)" and "s \<noteq> []" using ys by (metis append_Cons list.sel(1), auto)
    then show ?thesis using a by simp
  qed simp
qed

lemma strip_idem [simp]: "strip (strip s) = strip s"
proof -
  have l: "lstrip s = [] \<or> \<not> is_space (hd (lstrip s))"
    unfolding lstrip_def using hd_dropWhile by blast
  have "lstrip (strip s) = strip s"
    using rstrip_lstrip_first [OF l] unfolding strip_def lstrip_def
    by (cases "rstrip (dropWhile is_space s)") auto
  moreover have "rstrip (strip s) = strip s"
    by (simp add: strip_def rstrip_def)
  ultimately show ?thesis by (simp add: strip_def)
qed

subsection \<open>Prefixes, substrings, replacement, splitting\<close>

definition startswith :: "string \<Rightarrow> string \<Rightarrow> bool" where
  "startswith s p \<longleftrightarrow> take (length p) s = p"

definition endswith :: "string \<Rightarrow> string \<Rightarrow> bool" where
  "endswith s p \<longleftrightarrow> startswith (rev s) (rev p)"

text \<open>\<open>p in s\<close>.\<close>

fun str_in :: "string \<Rightarrow> string \<Rightarrow> bool" where
  "str_in p [] \<longleftrightarrow> p = []"
| "str_in p (c # cs) \<longleftrightarrow> startswith (c # cs) p \<or> str_in p cs"

text \<open>\<open>s.replace(old, new)\<close> for a non-empty \<open>old\<close>: left to right, without overlaps.\<close>

function str_replace :: "string \<Rightarrow> string \<Rightarrow> string \<Rightarrow> string" where
  "str_replace old new s =
     (if old = [] \<or> s = [] then s
      else if startswith s old then new @ str_replace old new (drop (length old) s)
      else hd s # str_replace old new (tl s))"
  by pat_completeness auto
termination
  by (relation "measure (\<lambda>(old, new, s). length s)") auto

declare str_replace.simps [simp del]

text \<open>\<open>s.split(c)\<close> and \<open>s.split(c, 1)\<close> on one separator character.\<close>

fun split_char :: "char \<Rightarrow> string \<Rightarrow> string list" where
  "split_char c [] = [[]]"
| "split_char c (x # xs) =
     (if x = c then [] # split_char c xs
      else (case split_char c xs of [] \<Rightarrow> [[x]] | w # ws \<Rightarrow> (x # w) # ws))"

definition split_once :: "char \<Rightarrow> string \<Rightarrow> string list" where
  "split_once c s =
     (if c \<in> set s then [takeWhile (\<lambda>x. x \<noteq> c) s, tl (dropWhile (\<lambda>x. x \<noteq> c) s)] else [s])"

fun join :: "string \<Rightarrow> string list \<Rightarrow> string" where
  "join sep [] = []"
| "join sep [x] = x"
| "join sep (x # y # ys) = x @ sep @ join sep (y # ys)"

text \<open>\<open>s.split()\<close>: the maximal runs of non-space characters.\<close>

fun words_acc :: "string \<Rightarrow> string \<Rightarrow> string list" where
  "words_acc w [] = (if w = [] then [] else [w])"
| "words_acc w (c # cs) =
     (if is_space c then (if w = [] then words_acc [] cs else w # words_acc [] cs)
      else words_acc (w @ [c]) cs)"

definition py_words :: "string \<Rightarrow> string list" where
  "py_words s = words_acc [] s"

lemma startswith_append [simp]: "startswith (p @ s) p"
  by (simp add: startswith_def)

lemma startswithD: "startswith s p \<Longrightarrow> s = p @ drop (length p) s"
  by (metis append_take_drop_id startswith_def)

lemma str_in_iff: "str_in p s \<longleftrightarrow> (\<exists>a b. s = a @ p @ b)"
proof (induction s)
  case Nil
  then show ?case by auto
next
  case (Cons c cs)
  have "startswith (c # cs) p \<longleftrightarrow> (\<exists>b. c # cs = p @ b)"
    by (metis startswithD startswith_append)
  moreover have "(\<exists>a b. c # cs = a @ p @ b) \<longleftrightarrow> (\<exists>b. c # cs = p @ b) \<or> (\<exists>a b. cs = a @ p @ b)"
    by (metis append_Cons append_Nil list.exhaust list.inject)
  ultimately show ?case using Cons.IH by simp
qed

lemma split_char_nonempty: "split_char c s \<noteq> []"
  by (induction s) (auto split: list.splits)

lemma split_char_none: "c \<notin> set s \<Longrightarrow> split_char c s = [s]"
  by (induction s) auto

lemma split_char_append: "c \<notin> set a \<Longrightarrow> split_char c (a @ c # b) = a # split_char c b"
  by (induction a) auto

lemma split_once_append: "c \<notin> set a \<Longrightarrow> split_once c (a @ c # b) = [a, b]"
  by (induction a) (auto simp: split_once_def)

subsection \<open>Decimal numbers\<close>

definition digit_char :: "nat \<Rightarrow> char" where
  "digit_char d = char_of (48 + d)"

definition digit_val :: "char \<Rightarrow> nat" where
  "digit_val c = of_char c - 48"

definition is_digit :: "char \<Rightarrow> bool" where
  "is_digit c \<longleftrightarrow> 48 \<le> (of_char c :: nat) \<and> (of_char c :: nat) \<le> 57"

fun show_nat :: "nat \<Rightarrow> string" where
  "show_nat n = (if n < 10 then [digit_char n] else show_nat (n div 10) @ [digit_char (n mod 10)])"

declare show_nat.simps [simp del]

definition show_int :: "int \<Rightarrow> string" where
  "show_int i = (if i < 0 then CHR ''-'' # show_nat (nat (- i)) else show_nat (nat i))"

definition nat_of_digits :: "string \<Rightarrow> nat" where
  "nat_of_digits s = foldl (\<lambda>n c. 10 * n + digit_val c) 0 s"

text \<open>
  \<open>s.isdigit()\<close> and \<open>int(s)\<close>: optional white space and sign around decimal digits, between
  which single underscores may stand.
\<close>

definition isdigit :: "string \<Rightarrow> bool" where
  "isdigit s \<longleftrightarrow> s \<noteq> [] \<and> list_all is_digit s"

text \<open>Digits, between which single underscores may stand.\<close>

fun take_digits :: "string \<Rightarrow> string \<times> string" where
  "take_digits (c # CHR ''_'' # d # cs) =
     (if is_digit c then
        (if is_digit d then (let (ds, rest) = take_digits (d # cs) in (c # ds, rest)) else ([c], CHR ''_'' # d # cs))
      else ([], c # CHR ''_'' # d # cs))"
| "take_digits (c # cs) =
     (if is_digit c then (let (ds, rest) = take_digits cs in (c # ds, rest)) else ([], c # cs))"
| "take_digits [] = ([], [])"

definition take_sign :: "string \<Rightarrow> bool \<times> string" where
  \<comment> \<open>whether there is a minus sign, and what follows the sign\<close>
  "take_sign s = (case s of [] \<Rightarrow> (False, [])
     | c # cs \<Rightarrow> if c = CHR ''-'' then (True, cs) else if c = CHR ''+'' then (False, cs) else (False, s))"

definition py_int :: "string \<Rightarrow> int option" where
  "py_int s =
     (let (neg, t) = take_sign (strip s); (ds, rest) = take_digits t
      in if ds = [] \<or> rest \<noteq> [] then None
         else Some ((if neg then - 1 else 1) * int (nat_of_digits ds)))"

subsection \<open>Evaluation on integers\<close>

text \<open>
  Natural numbers are evaluated digit by digit of their unary form; printing and reading
  numbers is evaluated on integers instead.
\<close>

function show_digits :: "int \<Rightarrow> string" where
  "show_digits i = (if i < 10 then [digit_char (nat i)] else show_digits (i div 10) @ [digit_char (nat (i mod 10))])"
  by pat_completeness auto

termination show_digits
  by (relation "measure nat") auto

declare show_digits.simps [simp del]

lemma show_nat_digits_int: "show_nat n = show_digits (int n)"
proof (induction n rule: show_nat.induct)
  case (1 n)
  show ?case
  proof (cases "n < 10")
    case False
    then have "show_nat (n div 10) = show_digits (int (n div 10))" using 1 by simp
    then show ?thesis using False
      by (subst show_nat.simps, subst show_digits.simps) (simp add: zdiv_int zmod_int nat_mod_distrib)
  qed (simp add: show_nat.simps show_digits.simps)
qed

lemma show_nat_code [code]: "show_nat n = show_digits (int n)"
  by (rule show_nat_digits_int)

lemma show_int_code [code]: "show_int i = (if i < 0 then CHR ''-'' # show_digits (- i) else show_digits i)"
  by (simp add: show_int_def show_nat_digits_int)

definition int_of_digits :: "string \<Rightarrow> int" where
  "int_of_digits s = foldl (\<lambda>n c. 10 * n + int (digit_val c)) 0 s"

lemma int_nat_of_digits: "int (nat_of_digits s) = int_of_digits s"
proof -
  have "int (foldl (\<lambda>n c. 10 * n + digit_val c) n s) = foldl (\<lambda>n c. 10 * n + int (digit_val c)) (int n) s" for n
    by (induction s arbitrary: n) simp_all
  from this [of 0] show ?thesis by (simp add: nat_of_digits_def int_of_digits_def)
qed

lemma py_int_code [code]:
  "py_int s =
     (let (neg, t) = take_sign (strip s); (ds, rest) = take_digits t
      in if ds = [] \<or> rest \<noteq> [] then None else Some ((if neg then - 1 else 1) * int_of_digits ds))"
  unfolding py_int_def int_nat_of_digits by (rule refl)

lemma take_digits_all: "list_all is_digit s \<Longrightarrow> take_digits s = (s, [])"
  by (induction s rule: take_digits.induct) (auto simp: is_digit_def)

lemma of_char_digit_char: "d < 10 \<Longrightarrow> (of_char (digit_char d) :: nat) = 48 + d"
  by (simp add: digit_char_def)

lemma digit_val_digit_char [simp]: "d < 10 \<Longrightarrow> digit_val (digit_char d) = d"
  by (simp add: digit_val_def of_char_digit_char)

lemma is_digit_digit_char [simp]: "d < 10 \<Longrightarrow> is_digit (digit_char d)"
  by (simp add: is_digit_def of_char_digit_char)

lemma show_nat_nonempty [simp]: "show_nat n \<noteq> []"
  by (subst show_nat.simps) simp

lemma show_nat_digits: "list_all is_digit (show_nat n)"
proof (induction n rule: show_nat.induct)
  case (1 n)
  then show ?case by (cases "n < 10") (simp_all add: show_nat.simps [of n])
qed

lemma nat_of_digits_snoc: "nat_of_digits (s @ [c]) = 10 * nat_of_digits s + digit_val c"
  by (simp add: nat_of_digits_def)

lemma nat_of_digits_show [simp]: "nat_of_digits (show_nat n) = n"
proof (induction n rule: show_nat.induct)
  case (1 n)
  show ?case
  proof (cases "n < 10")
    case True
    then show ?thesis by (simp add: show_nat.simps [of n] nat_of_digits_def)
  next
    case False
    with 1 show ?thesis by (simp add: show_nat.simps [of n] nat_of_digits_snoc)
  qed
qed

lemma isdigit_show_nat [simp]: "isdigit (show_nat n)"
  by (simp add: isdigit_def show_nat_digits)

lemma show_nat_inject: "show_nat m = show_nat n \<longleftrightarrow> m = n"
  by (metis nat_of_digits_show)

lemma hd_show_nat: "is_digit (hd (show_nat n))"
  using show_nat_digits [of n] by (cases "show_nat n") auto

lemma not_digit_minus [simp]: "\<not> is_digit (CHR ''-'')"
  by (simp add: is_digit_def)

end
