(* ===== verification/Json.thy ===== *)
theory Json
  imports PyText
begin

section \<open>JSON values: json.dumps, json.loads, str, truth value\<close>

text \<open>
  The values the code passes through \<open>json.dumps\<close> and \<open>json.loads\<close> (arguments of plan
  steps, metadata, identity keys), as a datatype, with a printer that follows
  \<open>json.dumps\<close> (separators as parameters) and a parser that follows
  \<open>json.loads\<close>: white space, literals, integers without leading zeros, strings with
  the standard escapes, arrays, objects whose repeated keys keep the first position and
  the last value. Numbers are integers; text is ASCII. The main fact is the round trip
  \<open>loads (dumps j) = Some j\<close> for values whose objects have distinct keys, as Python
  dictionaries do.
\<close>

datatype json =
    JNull | JBool bool | JInt int | JStr string
  | JList "json list" | JDict "(string \<times> json) list"

subsection \<open>Python's view of a value\<close>

fun truthy :: "json \<Rightarrow> bool" where
  "truthy JNull = False"
| "truthy (JBool b) = b"
| "truthy (JInt i) = (i \<noteq> 0)"
| "truthy (JStr s) = (s \<noteq> [])"
| "truthy (JList xs) = (xs \<noteq> [])"
| "truthy (JDict d) = (d \<noteq> [])"

definition jget :: "string \<Rightarrow> json dict \<Rightarrow> json" where
  \<comment> \<open>\<open>d.get(k)\<close>: \<open>None\<close> when the key is absent\<close>
  "jget k d = (case map_of d k of None \<Rightarrow> JNull | Some v \<Rightarrow> v)"

definition jor :: "json \<Rightarrow> json \<Rightarrow> json" where
  \<comment> \<open>\<open>a or b\<close>\<close>
  "jor a b = (if truthy a then a else b)"

text \<open>\<open>repr(s)\<close> of a string without control characters: single quotes unless only double ones avoid escapes.\<close>

definition py_repr_str :: "string \<Rightarrow> string" where
  "py_repr_str s =
     (let q = (if CHR 0x27 \<in> set s \<and> CHR 0x22 \<notin> set s then CHR 0x22 else CHR 0x27)
      in [q] @ concat (map (\<lambda>c. if c = q \<or> c = CHR 0x5C then [CHR 0x5C, c] else [c]) s) @ [q])"

fun py_repr :: "json \<Rightarrow> string" and py_repr_list :: "json list \<Rightarrow> string list"
  and py_repr_items :: "(string \<times> json) list \<Rightarrow> string list" where
  "py_repr JNull = ''None''"
| "py_repr (JBool b) = (if b then ''True'' else ''False'')"
| "py_repr (JInt i) = show_int i"
| "py_repr (JStr s) = py_repr_str s"
| "py_repr (JList xs) = ''['' @ join '', '' (py_repr_list xs) @ '']''"
| "py_repr (JDict d) = ''{'' @ join '', '' (py_repr_items d) @ ''}''"
| "py_repr_list [] = []"
| "py_repr_list (x # xs) = py_repr x # py_repr_list xs"
| "py_repr_items [] = []"
| "py_repr_items ((k, v) # d) = (py_repr_str k @ '': '' @ py_repr v) # py_repr_items d"

fun py_str :: "json \<Rightarrow> string" where
  "py_str (JStr s) = s"
| "py_str j = py_repr j"

subsection \<open>The printer\<close>

definition hex_digit :: "nat \<Rightarrow> char" where
  "hex_digit d = (if d < 10 then char_of (48 + d) else char_of (87 + d))"

definition esc_char :: "char \<Rightarrow> string" where
  "esc_char c = (let n = (of_char c :: nat) in
     if c = CHR 0x22 then [CHR 0x5C, CHR 0x22]
     else if c = CHR 0x5C then [CHR 0x5C, CHR 0x5C]
     else if n = 10 then [CHR 0x5C, CHR ''n'']
     else if n = 13 then [CHR 0x5C, CHR ''r'']
     else if n = 9 then [CHR 0x5C, CHR ''t'']
     else if n = 12 then [CHR 0x5C, CHR ''f'']
     else if n = 8 then [CHR 0x5C, CHR ''b'']
     else if n < 32 then [CHR 0x5C, CHR ''u'', CHR ''0'', CHR ''0'', hex_digit (n div 16), hex_digit (n mod 16)]
     else [c])"

definition dumps_str :: "string \<Rightarrow> string" where
  "dumps_str s = [CHR 0x22] @ concat (map esc_char s) @ [CHR 0x22]"

fun dumps_with :: "string \<Rightarrow> string \<Rightarrow> json \<Rightarrow> string"
  and dumps_elems :: "string \<Rightarrow> string \<Rightarrow> json list \<Rightarrow> string"
  and dumps_items :: "string \<Rightarrow> string \<Rightarrow> (string \<times> json) list \<Rightarrow> string" where
  "dumps_with is ks JNull = ''null''"
| "dumps_with is ks (JBool b) = (if b then ''true'' else ''false'')"
| "dumps_with is ks (JInt i) = show_int i"
| "dumps_with is ks (JStr s) = dumps_str s"
| "dumps_with is ks (JList xs) = ''['' @ dumps_elems is ks xs @ '']''"
| "dumps_with is ks (JDict d) = ''{'' @ dumps_items is ks d @ ''}''"
| "dumps_elems is ks [] = []"
| "dumps_elems is ks [x] = dumps_with is ks x"
| "dumps_elems is ks (x # y # ys) = dumps_with is ks x @ is @ dumps_elems is ks (y # ys)"
| "dumps_items is ks [] = []"
| "dumps_items is ks [(k, v)] = dumps_str k @ ks @ dumps_with is ks v"
| "dumps_items is ks ((k, v) # kv # d) =
     dumps_str k @ ks @ dumps_with is ks v @ is @ dumps_items is ks (kv # d)"

definition dumps :: "json \<Rightarrow> string" where
  "dumps j = dumps_with '', '' '': '' j"

text \<open>\<open>sort_keys=True\<close>: every object's items in key order.\<close>

fun sort_keys :: "json \<Rightarrow> json" and sort_keys_list :: "json list \<Rightarrow> json list"
  and sort_keys_items :: "(string \<times> json) list \<Rightarrow> (string \<times> json) list" where
  "sort_keys (JList xs) = JList (sort_keys_list xs)"
| "sort_keys (JDict d) = JDict (sort_key fst (sort_keys_items d))"
| "sort_keys JNull = JNull"
| "sort_keys (JBool b) = JBool b"
| "sort_keys (JInt i) = JInt i"
| "sort_keys (JStr s) = JStr s"
| "sort_keys_list [] = []"
| "sort_keys_list (x # xs) = sort_keys x # sort_keys_list xs"
| "sort_keys_items [] = []"
| "sort_keys_items ((k, v) # d) = (k, sort_keys v) # sort_keys_items d"

subsection \<open>The parser\<close>

definition is_json_ws :: "char \<Rightarrow> bool" where
  "is_json_ws c \<longleftrightarrow> (let n = (of_char c :: nat) in n = 32 \<or> n = 9 \<or> n = 10 \<or> n = 13)"

definition skip_ws :: "string \<Rightarrow> string" where
  "skip_ws s = dropWhile is_json_ws s"

definition hex_val :: "char \<Rightarrow> nat option" where
  "hex_val c = (let n = (of_char c :: nat) in
     if 48 \<le> n \<and> n \<le> 57 then Some (n - 48)
     else if 97 \<le> n \<and> n \<le> 102 then Some (n - 87)
     else if 65 \<le> n \<and> n \<le> 70 then Some (n - 55) else None)"

definition hex4 :: "char \<Rightarrow> char \<Rightarrow> char \<Rightarrow> char \<Rightarrow> char option" where
  "hex4 a b c d =
     (case (hex_val a, hex_val b, hex_val c, hex_val d) of
        (Some p, Some q, Some r, Some s) \<Rightarrow>
          (if p = 0 \<and> q = 0 then Some (char_of (16 * r + s)) else None)
      | _ \<Rightarrow> None)"

definition unescape :: "char \<Rightarrow> char option" where
  "unescape c =
     (if c = CHR 0x22 \<or> c = CHR 0x5C \<or> c = CHR ''/'' then Some c
      else if c = CHR ''n'' then Some (char_of (10::nat))
      else if c = CHR ''r'' then Some (char_of (13::nat))
      else if c = CHR ''t'' then Some (char_of (9::nat))
      else if c = CHR ''f'' then Some (char_of (12::nat))
      else if c = CHR ''b'' then Some (char_of (8::nat)) else None)"

text \<open>The rest of a string after its opening quote.\<close>

fun p_str :: "string \<Rightarrow> (string \<times> string) option" where
  "p_str [] = None"
| "p_str (c # cs) =
     (if c = CHR 0x22 then Some ([], cs)
      else if c = CHR 0x5C then
        (case cs of
           e # r \<Rightarrow>
             if e = CHR ''u'' then
               (case r of
                  h1 # h2 # h3 # h4 # r' \<Rightarrow>
                    (case hex4 h1 h2 h3 h4 of
                       None \<Rightarrow> None
                     | Some x \<Rightarrow> map_option (\<lambda>(s, t). (x # s, t)) (p_str r'))
                | _ \<Rightarrow> None)
             else (case unescape e of
                     None \<Rightarrow> None
                   | Some x \<Rightarrow> map_option (\<lambda>(s, t). (x # s, t)) (p_str r))
         | [] \<Rightarrow> None)
      else if (of_char c :: nat) < 32 then None
      else map_option (\<lambda>(s, t). (c # s, t)) (p_str cs))"

definition p_nat :: "string \<Rightarrow> (nat \<times> string) option" where
  "p_nat s = (case s of [] \<Rightarrow> None
     | c # cs \<Rightarrow> if \<not> is_digit c then None
               else if c = CHR ''0'' then Some (0, cs)
               else Some (nat_of_digits (takeWhile is_digit s), dropWhile is_digit s))"

definition p_int :: "string \<Rightarrow> (int \<times> string) option" where
  "p_int s = (case s of [] \<Rightarrow> None
     | c # cs \<Rightarrow> if c = CHR ''-'' then map_option (\<lambda>(n, r). (- int n, r)) (p_nat cs)
               else map_option (\<lambda>(n, r). (int n, r)) (p_nat s))"

text \<open>Evaluated on integers.\<close>

definition p_digits :: "string \<Rightarrow> (int \<times> string) option" where
  "p_digits s = (case s of [] \<Rightarrow> None
     | c # cs \<Rightarrow> if \<not> is_digit c then None
               else if c = CHR ''0'' then Some (0, cs)
               else Some (int_of_digits (takeWhile is_digit s), dropWhile is_digit s))"

lemma p_nat_int: "map_option (\<lambda>(n, r). (f (int n), r)) (p_nat s) = map_option (\<lambda>(n, r). (f n, r)) (p_digits s)"
  by (simp add: p_nat_def p_digits_def int_nat_of_digits split: list.split)

lemma p_int_code [code]:
  "p_int s = (case s of [] \<Rightarrow> None
     | c # cs \<Rightarrow> if c = CHR ''-'' then map_option (\<lambda>(n, r). (- n, r)) (p_digits cs) else p_digits s)"
  using p_nat_int [of uminus] p_nat_int [of "\<lambda>n. n"]
  by (simp add: p_int_def case_prod_eta option.map_id0 split: list.split)

fun p_value :: "nat \<Rightarrow> string \<Rightarrow> (json \<times> string) option"
  and p_elems :: "nat \<Rightarrow> string \<Rightarrow> (json list \<times> string) option"
  and p_items :: "nat \<Rightarrow> string \<Rightarrow> ((string \<times> json) list \<times> string) option" where
  "p_value 0 s = None"
| "p_value (Suc n) s =
     (case skip_ws s of [] \<Rightarrow> None
      | c # cs \<Rightarrow>
        if c = CHR 0x22 then map_option (\<lambda>(t, r). (JStr t, r)) (p_str cs)
        else if c = CHR ''['' then
          (if startswith (skip_ws cs) '']'' then Some (JList [], tl (skip_ws cs))
           else map_option (\<lambda>(xs, r). (JList xs, r)) (p_elems n cs))
        else if c = CHR ''{'' then
          (if startswith (skip_ws cs) ''}'' then Some (JDict [], tl (skip_ws cs))
           else map_option (\<lambda>(d, r). (JDict (fold (\<lambda>(k, v). AList.update k v) d []), r)) (p_items n cs))
        else if startswith (c # cs) ''null'' then Some (JNull, drop 4 (c # cs))
        else if startswith (c # cs) ''true'' then Some (JBool True, drop 4 (c # cs))
        else if startswith (c # cs) ''false'' then Some (JBool False, drop 5 (c # cs))
        else map_option (\<lambda>(i, r). (JInt i, r)) (p_int (c # cs)))"
| "p_elems 0 s = None"
| "p_elems (Suc n) s =
     (case p_value n s of None \<Rightarrow> None
      | Some (x, r) \<Rightarrow>
        (case skip_ws r of [] \<Rightarrow> None
         | c # cs \<Rightarrow> if c = CHR '']'' then Some ([x], cs)
                   else if c = CHR '','' then map_option (\<lambda>(xs, t). (x # xs, t)) (p_elems n cs)
                   else None))"
| "p_items 0 s = None"
| "p_items (Suc n) s =
     (case skip_ws s of [] \<Rightarrow> None
      | q # r0 \<Rightarrow> if q \<noteq> CHR 0x22 then None else
        (case p_str r0 of None \<Rightarrow> None
         | Some (k, r1) \<Rightarrow>
           (case skip_ws r1 of [] \<Rightarrow> None
            | e # r2 \<Rightarrow> if e \<noteq> CHR '':'' then None else
              (case p_value n r2 of None \<Rightarrow> None
               | Some (v, r3) \<Rightarrow>
                 (case skip_ws r3 of [] \<Rightarrow> None
                  | c # cs \<Rightarrow> if c = CHR ''}'' then Some ([(k, v)], cs)
                            else if c = CHR '','' then map_option (\<lambda>(d, t). ((k, v) # d, t)) (p_items n cs)
                            else None)))))"

text \<open>\<open>json.loads(s)\<close>; \<open>None\<close> is \<open>JSONDecodeError\<close>. The input's length is fuel enough.\<close>

definition loads :: "string \<Rightarrow> json option" where
  "loads s = (case p_value (Suc (length s)) s of
                Some (j, r) \<Rightarrow> (if skip_ws r = [] then Some j else None)
              | None \<Rightarrow> None)"


subsection \<open>Round trip\<close>

text \<open>A Python dictionary has each key once.\<close>

fun wf_json :: "json \<Rightarrow> bool" and wf_list :: "json list \<Rightarrow> bool"
  and wf_items :: "(string \<times> json) list \<Rightarrow> bool" where
  "wf_json (JList xs) = wf_list xs"
| "wf_json (JDict d) = (distinct (map fst d) \<and> wf_items d)"
| "wf_json JNull = True"
| "wf_json (JBool b) = True"
| "wf_json (JInt i) = True"
| "wf_json (JStr s) = True"
| "wf_list [] = True"
| "wf_list (x # xs) = (wf_json x \<and> wf_list xs)"
| "wf_items [] = True"
| "wf_items ((k, v) # d) = (wf_json v \<and> wf_items d)"

definition tail_ok :: "string \<Rightarrow> bool" where
  "tail_ok r \<longleftrightarrow> r = [] \<or> \<not> is_digit (hd r)"

definition sep_ok :: "char \<Rightarrow> string \<Rightarrow> bool" where
  "sep_ok c s \<longleftrightarrow> (\<exists>w. s = c # w \<and> list_all is_json_ws w)"

lemma hex_val_hex_digit: "d < 16 \<Longrightarrow> hex_val (hex_digit d) = Some d"
  by (auto simp: hex_val_def hex_digit_def Let_def)

lemma of_char_eqD: "of_char c = (n :: nat) \<Longrightarrow> c = char_of n"
  by auto

lemma p_str_esc: "p_str (esc_char c @ s) = map_option (\<lambda>(t, r). (c # t, r)) (p_str s)"
proof -
  let ?n = "of_char c :: nat"
    consider (special) "c = CHR 0x22 \<or> c = CHR 0x5C \<or> ?n \<in> {8, 9, 10, 12, 13}"
    | (ctl) "?n < 32" and "?n \<notin> {8, 9, 10, 12, 13}" and "c \<noteq> CHR 0x22" and "c \<noteq> CHR 0x5C"
    | (plain) "32 \<le> ?n" and "c \<noteq> CHR 0x22" and "c \<noteq> CHR 0x5C"
    by fastforce
  then show ?thesis
  proof cases
    case special
    then show ?thesis
      by (auto simp: esc_char_def Let_def unescape_def dest: of_char_eqD)
  next
    case ctl
    have "hex_val (hex_digit (?n div 16)) = Some (?n div 16)"
      and "hex_val (hex_digit (?n mod 16)) = Some (?n mod 16)"
      using ctl(1) by (simp_all add: hex_val_hex_digit)
    moreover have "hex_val (CHR ''0'') = Some 0" by (simp add: hex_val_def)
    ultimately have "hex4 (CHR ''0'') (CHR ''0'') (hex_digit (?n div 16)) (hex_digit (?n mod 16)) = Some c"
      by (simp add: hex4_def)
    with ctl show ?thesis by (simp add: esc_char_def Let_def)
  next
    case plain
    then show ?thesis by (simp add: esc_char_def Let_def)
  qed
qed

lemma p_str_dumps: "p_str (concat (map esc_char s) @ CHR 0x22 # r) = Some (s, r)"
  by (induction s) (simp_all add: p_str_esc)

lemma takeWhile_digits:
  "list_all is_digit ds \<Longrightarrow> tail_ok r \<Longrightarrow> takeWhile is_digit (ds @ r) = ds \<and> dropWhile is_digit (ds @ r) = r"
  by (induction ds) (cases r; auto simp: tail_ok_def)+

lemma char_of_48 [simp]: "char_of (48 :: nat) = CHR ''0''"
proof -
  have "(48 :: nat) = of_char (CHR ''0'')" by simp
  then show ?thesis by (simp only: char_of_char)
qed

lemma digit_char_zero: "d < 10 \<Longrightarrow> digit_char d = CHR ''0'' \<longleftrightarrow> d = 0"
proof
  assume d: "d < 10" and "digit_char d = CHR ''0''"
  then have "(of_char (digit_char d) :: nat) = of_char (CHR ''0'')" by simp
  with d show "d = 0" by (simp add: of_char_digit_char)
qed (simp add: digit_char_def)

lemma hd_show_nat_nonzero: "0 < n \<Longrightarrow> hd (show_nat n) \<noteq> CHR ''0''"
proof (induction n rule: show_nat.induct)
  case (1 n)
  show ?case
  proof (cases "n < 10")
    case True
    with 1 show ?thesis by (simp add: show_nat.simps [of n] digit_char_zero)
  next
    case False
    with 1 show ?thesis by (simp add: show_nat.simps [of n])
  qed
qed

lemma show_nat_zero: "show_nat 0 = ''0''"
  by (simp add: show_nat.simps digit_char_def)

lemma p_nat_show: "tail_ok r \<Longrightarrow> p_nat (show_nat n @ r) = Some (n, r)"
proof (cases "n = 0")
  case True
  then show ?thesis by (simp add: show_nat_zero p_nat_def is_digit_def)
next
  case False
  assume r: "tail_ok r"
  obtain c cs where c: "show_nat n = c # cs" by (cases "show_nat n") simp_all
  have "is_digit c" and "c \<noteq> CHR ''0''"
    using hd_show_nat [of n] hd_show_nat_nonzero [of n] False c by simp_all
  moreover have "takeWhile is_digit (c # cs @ r) = c # cs \<and> dropWhile is_digit (c # cs @ r) = r"
    using takeWhile_digits [OF show_nat_digits [of n] r] c by simp
  moreover have "nat_of_digits (c # cs) = n" using nat_of_digits_show [of n] c by simp
  ultimately show ?thesis using c by (simp add: p_nat_def)
qed

lemma p_int_show: "tail_ok r \<Longrightarrow> p_int (show_int i @ r) = Some (i, r)"
proof (cases "i < 0")
  case True
  assume "tail_ok r"
  with True show ?thesis by (simp add: show_int_def p_int_def p_nat_show)
next
  case False
  assume r: "tail_ok r"
  obtain c cs where c: "show_nat (nat i) = c # cs" by (cases "show_nat (nat i)") simp_all
  then have "c \<noteq> CHR ''-''" using hd_show_nat [of "nat i"] by auto
  with False c p_nat_show [OF r, of "nat i"] show ?thesis by (simp add: show_int_def p_int_def)
qed

text \<open>The first character of a printed value: never white space, never a closing bracket.\<close>

definition first_ok :: "char \<Rightarrow> bool" where
  "first_ok c \<longleftrightarrow> \<not> is_json_ws c \<and> c \<noteq> CHR '']'' \<and> c \<noteq> CHR ''}''"

lemma digit_first_ok: "is_digit c \<Longrightarrow> first_ok c"
  by (auto simp: is_digit_def first_ok_def is_json_ws_def Let_def)

lemma dumps_first: "\<exists>c cs. dumps_with is ks j = c # cs \<and> first_ok c"
proof (cases j)
  case (JInt i)
  have "is_digit (hd (show_nat n)) \<and> show_nat n \<noteq> []" for n by (simp add: hd_show_nat)
  then have "\<exists>c cs. show_nat n = c # cs \<and> first_ok c" for n
    by (metis digit_first_ok list.collapse)
  then show ?thesis using JInt by (auto simp: show_int_def first_ok_def is_json_ws_def)
qed (auto simp: first_ok_def is_json_ws_def dumps_str_def)

lemma skip_ws_first: "first_ok c \<Longrightarrow> skip_ws (c # cs) = c # cs"
  by (simp add: skip_ws_def first_ok_def)

lemma skip_ws_append: "list_all is_json_ws w \<Longrightarrow> skip_ws (w @ s) = skip_ws s"
  by (induction w) (auto simp: skip_ws_def)

lemma p_value_ws: "list_all is_json_ws w \<Longrightarrow> p_value n (w @ s) = p_value n s"
  by (cases n) (simp_all add: skip_ws_append)

lemma p_elems_ws: "list_all is_json_ws w \<Longrightarrow> p_elems n (w @ s) = p_elems n s"
  by (cases n) (simp_all add: p_value_ws)

lemma p_items_ws: "list_all is_json_ws w \<Longrightarrow> p_items n (w @ s) = p_items n s"
  by (cases n) (simp_all add: skip_ws_append)

lemma update_new: "k \<notin> fst ` set acc \<Longrightarrow> AList.update k v acc = acc @ [(k, v)]"
  by (induction acc) auto

lemma fold_update_distinct:
  "distinct (map fst (acc @ d)) \<Longrightarrow> fold (\<lambda>(k, v). AList.update k v) d acc = acc @ d"
proof (induction d arbitrary: acc)
  case (Cons kv d)
  obtain k v where kv: "kv = (k, v)" by (cases kv)
  with Cons.prems have "AList.update k v acc = acc @ [(k, v)]" by (simp add: update_new)
  with Cons kv show ?case by (simp add: Cons.IH [of "acc @ [(k, v)]"])
qed simp


definition style_ok :: "string \<Rightarrow> string \<Rightarrow> bool" where
  "style_ok is ks \<longleftrightarrow> sep_ok (CHR '','') is \<and> sep_ok (CHR '':'') ks"

lemma tail_ok_sep: "sep_ok (CHR '','') s \<Longrightarrow> tail_ok (s @ r)"
  by (auto simp: sep_ok_def tail_ok_def is_digit_def)

lemma tail_ok_close [simp]: "tail_ok (CHR '']'' # r)" "tail_ok (CHR ''}'' # r)"
  by (simp_all add: tail_ok_def is_digit_def)

lemma skip_ws_sep: "sep_ok c s \<Longrightarrow> \<not> is_json_ws c \<Longrightarrow> skip_ws (s @ r) = s @ r"
  by (auto simp: sep_ok_def skip_ws_def)

lemma skip_ws_noop: "\<not> is_json_ws c \<Longrightarrow> skip_ws (c # r) = c # r"
  by (simp add: skip_ws_def)

lemma not_ws [simp]: "\<not> is_json_ws (CHR '']'')" "\<not> is_json_ws (CHR ''}'')" "\<not> is_json_ws (CHR '','')"
  "\<not> is_json_ws (CHR '':'')" "\<not> is_json_ws (CHR 0x22)" "\<not> is_json_ws (CHR ''['')" "\<not> is_json_ws (CHR ''{'')"
  by (simp_all add: is_json_ws_def)

lemma p_elems_last:
  "p_value n s = Some (x, CHR '']'' # r) \<Longrightarrow> p_elems (Suc n) s = Some ([x], r)"
  by (simp add: skip_ws_noop)

lemma p_elems_next:
  assumes "p_value n s = Some (x, is @ t)" and "sep_ok (CHR '','') is"
  shows "p_elems (Suc n) s = map_option (\<lambda>(xs, r). (x # xs, r)) (p_elems n t)"
proof -
  obtain w where w: "is = CHR '','' # w" "list_all is_json_ws w"
    using assms(2) by (auto simp: sep_ok_def)
  with assms(1) show ?thesis by (simp add: skip_ws_noop p_elems_ws)
qed

lemma p_items_key:
  assumes "sep_ok (CHR '':'') ks" and "p_value n t = Some (v, c # r)" and "\<not> is_json_ws c"
  shows "p_items (Suc n) (dumps_str k @ ks @ t) =
    (if c = CHR ''}'' then Some ([(k, v)], r)
     else if c = CHR '','' then map_option (\<lambda>(d, u). ((k, v) # d, u)) (p_items n r) else None)"
proof -
  obtain w where w: "ks = CHR '':'' # w" "list_all is_json_ws w"
    using assms(1) by (auto simp: sep_ok_def)
  have "p_str (concat (map esc_char k) @ CHR 0x22 # CHR '':'' # w @ t) = Some (k, CHR '':'' # w @ t)"
    by (rule p_str_dumps)
  with w assms(2,3) show ?thesis
    by (simp add: dumps_str_def skip_ws_noop p_value_ws)
qed

lemma not_close_first: "first_ok c \<Longrightarrow> \<not> startswith (skip_ws (c # s)) '']''"
  "first_ok c \<Longrightarrow> \<not> startswith (skip_ws (c # s)) ''}''"
  by (simp_all add: skip_ws_first startswith_def first_ok_def)

lemma dumps_elems_first: "xs \<noteq> [] \<Longrightarrow> \<exists>c cs. dumps_elems is ks xs = c # cs \<and> first_ok c"
  by (cases "(is, ks, xs)" rule: dumps_elems.cases) (auto, metis dumps_first, metis append_Cons dumps_first)

lemma dumps_items_first: "d \<noteq> [] \<Longrightarrow> \<exists>cs. dumps_items is ks d = CHR 0x22 # cs"
  by (cases "(is, ks, d)" rule: dumps_items.cases) (auto simp: dumps_str_def)

lemma first_ok_quote [simp]: "first_ok (CHR 0x22)"
  by (simp add: first_ok_def)

lemma p_value_int: "tail_ok r \<Longrightarrow> p_value (Suc n) (show_int i @ r) = Some (JInt i, r)"
proof -
  assume r: "tail_ok r"
  obtain c cs where c: "show_int i = c # cs" and ok: "first_ok c"
    using dumps_first [of undefined undefined "JInt i"] by auto
  have "c = CHR ''-'' \<or> is_digit c"
    using c hd_show_nat [of "nat i"] hd_show_nat [of "nat (- i)"]
    by (auto simp: show_int_def split: if_splits)
  then have "c \<noteq> CHR 0x22" "c \<noteq> CHR ''[''" "c \<noteq> CHR ''{''" "c \<noteq> CHR ''n''" "c \<noteq> CHR ''t''" "c \<noteq> CHR ''f''"
    by (auto simp: is_digit_def)
  then show ?thesis
    using p_int_show [OF r, of i] ok c by (simp add: skip_ws_first startswith_def)
qed

lemma loads_dumps_gen:
  assumes "style_ok is ks"
  shows "wf_json j \<Longrightarrow> length (dumps_with is ks j) \<le> n \<Longrightarrow> tail_ok r \<Longrightarrow>
           p_value n (dumps_with is ks j @ r) = Some (j, r)"
    and "xs \<noteq> [] \<Longrightarrow> wf_list xs \<Longrightarrow> length (dumps_elems is ks xs) < n \<Longrightarrow>
           p_elems n (dumps_elems is ks xs @ CHR '']'' # r) = Some (xs, r)"
    and "d \<noteq> [] \<Longrightarrow> wf_items d \<Longrightarrow> length (dumps_items is ks d) < n \<Longrightarrow>
           p_items n (dumps_items is ks d @ CHR ''}'' # r) = Some (d, r)"
  using assms
proof (induction "is" ks j and "is" ks xs and "is" ks d arbitrary: n r and n r and n r
    rule: dumps_with_dumps_elems_dumps_items.induct)
  case (1 "is" ks)
  then show ?case by (cases n) (simp_all add: skip_ws_def is_json_ws_def startswith_def)
next
  case (2 "is" ks b)
  then show ?case by (cases n; cases b) (auto simp: skip_ws_def is_json_ws_def startswith_def)
next
  case (3 "is" ks i)
  then have "n \<noteq> 0" using dumps_first [of undefined undefined "JInt i"] by auto
  then show ?case using 3 by (cases n) (simp_all add: p_value_int del: p_value.simps)
next
  case (4 "is" ks s)
  then show ?case by (cases n) (simp_all add: dumps_str_def skip_ws_noop p_str_dumps)
next
  case (5 "is" ks xs)
  then obtain m where m: "n = Suc m" by (cases n) simp_all
  show ?case
  proof (cases "xs = []")
    case True
    then show ?thesis using m by (simp add: skip_ws_noop startswith_def)
  next
    case False
    then obtain c cs where "dumps_elems is ks xs = c # cs" "first_ok c" using dumps_elems_first by blast
    moreover have "p_elems m (dumps_elems is ks xs @ CHR '']'' # r) = Some (xs, r)"
      using 5 False m by simp
    ultimately show ?thesis using m by (simp add: skip_ws_noop not_close_first)
  qed
next
  case (6 "is" ks d)
  then obtain m where m: "n = Suc m" by (cases n) simp_all
  show ?case
  proof (cases "d = []")
    case True
    then show ?thesis using m by (simp add: skip_ws_noop startswith_def)
  next
    case False
    then obtain cs where "dumps_items is ks d = CHR 0x22 # cs" using dumps_items_first by blast
    moreover have "p_items m (dumps_items is ks d @ CHR ''}'' # r) = Some (d, r)"
      using 6 False m by simp
    moreover have "fold (\<lambda>(k, v). AList.update k v) d [] = d"
      using fold_update_distinct [of "[]" d] 6 by simp
    ultimately show ?thesis using m by (simp add: skip_ws_noop not_close_first startswith_def)
  qed
next
  case (7 "is" ks)
  then show ?case by simp
next
  case (8 "is" ks x)
  then obtain m where m: "n = Suc m" by (cases n) simp_all
  then have "p_value m (dumps_with is ks x @ CHR '']'' # r) = Some (x, CHR '']'' # r)" using 8 by simp
  then show ?case using m by (simp add: p_elems_last del: p_elems.simps)
next
  case (9 "is" ks x y ys)
  then obtain m where m: "n = Suc m" by (cases n) simp_all
  have sep: "sep_ok (CHR '','') is" using 9 by (simp add: style_ok_def)
  then have isn: "is \<noteq> []" by (auto simp: sep_ok_def)
  obtain c cs where "dumps_with is ks x = c # cs" using dumps_first by blast
  have "p_value m (dumps_with is ks x @ is @ dumps_elems is ks (y # ys) @ CHR '']'' # r)
      = Some (x, is @ dumps_elems is ks (y # ys) @ CHR '']'' # r)"
    using 9 m by (simp add: tail_ok_sep [OF sep])
  moreover have "p_elems m (dumps_elems is ks (y # ys) @ CHR '']'' # r) = Some (y # ys, r)"
    using 9 m \<open>dumps_with is ks x = c # cs\<close> by simp
  ultimately show ?case using m by (simp add: p_elems_next [OF _ sep] del: p_elems.simps)
next
  case (10 "is" ks)
  then show ?case by simp
next
  case (11 "is" ks k v)
  then obtain m where m: "n = Suc m" by (cases n) simp_all
  have ks: "sep_ok (CHR '':'') ks" using 11 by (simp add: style_ok_def)
  have "p_value m (dumps_with is ks v @ CHR ''}'' # r) = Some (v, CHR ''}'' # r)"
    using 11 m by simp
  then show ?case using m by (simp add: p_items_key [OF ks] del: p_items.simps)
next
  case (12 "is" ks k v kv d)
  then obtain m where m: "n = Suc m" by (cases n) simp_all
  have ks: "sep_ok (CHR '':'') ks" and sep: "sep_ok (CHR '','') is" using 12 by (simp_all add: style_ok_def)
  obtain w where w: "is = CHR '','' # w" "list_all is_json_ws w" using sep by (auto simp: sep_ok_def)
  let ?t = "dumps_items is ks (kv # d) @ CHR ''}'' # r"
  have "p_value m (dumps_with is ks v @ CHR '','' # w @ ?t) = Some (v, CHR '','' # w @ ?t)"
    using 12 m w by (simp add: tail_ok_def is_digit_def)
  moreover have "p_items m ?t = Some (kv # d, r)"
    using 12 m w by (simp add: dumps_str_def)
  ultimately show ?case using m w(2)
    by (simp add: p_items_key [OF ks] p_items_ws w(1) del: p_items.simps)
qed

theorem loads_dumps_with:
  "style_ok is ks \<Longrightarrow> wf_json j \<Longrightarrow> loads (dumps_with is ks j) = Some j"
  using loads_dumps_gen(1) [of "is" ks j "Suc (length (dumps_with is ks j))" "[]"]
  by (simp add: loads_def tail_ok_def skip_ws_def del: p_value.simps)

lemma style_dumps: "style_ok '', '' '': ''" "style_ok '','' '':''"
  by (simp_all add: style_ok_def sep_ok_def is_json_ws_def)

theorem loads_dumps: "wf_json j \<Longrightarrow> loads (dumps j) = Some j"
  by (simp add: dumps_def loads_dumps_with style_dumps)

subsection \<open>What the parser reads is well formed\<close>

lemma wf_items_update: "wf_items d \<Longrightarrow> wf_json v \<Longrightarrow> wf_items (AList.update k v d)"
  by (induction d) auto

lemma wf_items_lookup: "wf_items d \<Longrightarrow> map_of d k = Some v \<Longrightarrow> wf_json v"
  by (induction d) (auto split: if_splits)

lemma wf_dict_update: "wf_json (JDict d) \<Longrightarrow> wf_json v \<Longrightarrow> wf_json (JDict (AList.update k v d))"
  by (simp add: wf_items_update distinct_update)

lemma wf_dict_fold:
  "wf_items kvs \<Longrightarrow> wf_json (JDict d) \<Longrightarrow> wf_json (JDict (fold (\<lambda>(k, v). AList.update k v) kvs d))"
proof (induction kvs arbitrary: d)
  case (Cons kv kvs)
  obtain k v where "kv = (k, v)" by (cases kv)
  with Cons.prems have "wf_items kvs" "wf_json (JDict (AList.update k v d))"
    using wf_dict_update by (simp_all del: wf_json.simps)
  then show ?case using Cons.IH \<open>kv = (k, v)\<close> by (simp del: wf_json.simps)
qed simp

lemma parsed_wf:
  "p_value n s = Some (j, r) \<Longrightarrow> wf_json j"
  "p_elems n s = Some (xs, r) \<Longrightarrow> wf_list xs"
  "p_items n s = Some (d, r) \<Longrightarrow> wf_items d"
proof (induction n s and n s and n s arbitrary: j r and xs r and d r rule: p_value_p_elems_p_items.induct)
  case (2 n s)
  then show ?case
    using wf_dict_fold [of _ "[]"]
    by (auto split: list.splits if_splits simp del: wf_json.simps(2)) auto
next
  case (4 n s)
  then show ?case by (auto split: option.splits list.splits if_splits prod.splits)
next
  case (6 n s)
  then show ?case by (auto split: option.splits list.splits if_splits prod.splits)
qed simp_all

lemma loads_wf: "loads s = Some j \<Longrightarrow> wf_json j"
  by (auto simp: loads_def simp del: p_value.simps split: option.splits prod.splits if_splits dest: parsed_wf)

end
