(* ===== verification/World.thy ===== *)
theory World
  imports Json "HOL-Library.Product_Lexorder"
begin

section \<open>Time stamps, records and the shared state\<close>

text \<open>
  The values the components exchange (the pydantic models of the \<open>schemas.py\<close> files, as
  records), ISO time stamps, JSONL files, and the state every component works on: the
  environment variables, the files of the state directory, the context variable that
  carries the correlation id, the clock, the supply of fresh identifiers and the
  notifications sent.
\<close>

subsection \<open>Time stamps\<close>

text \<open>
  A \<open>datetime\<close> is aware (an instant, in microseconds of UTC) or naive (a wall-clock
  reading without zone). The text of a time stamp is kept as what
  \<open>datetime.fromisoformat\<close> makes of it: a \<open>datetime\<close>, or text it rejects.
\<close>

datatype datetime = Aware int | Naive int

datatype iso = Iso datetime | NotIso string

definition isoformat :: "datetime \<Rightarrow> iso" where
  "isoformat d = Iso d"

fun fromisoformat :: "iso \<Rightarrow> datetime option" where
  "fromisoformat (Iso d) = Some d"
| "fromisoformat (NotIso s) = None"

fun iso_truthy :: "iso option \<Rightarrow> bool" where
  "iso_truthy None = False"
| "iso_truthy (Some (Iso d)) = True"
| "iso_truthy (Some (NotIso s)) = (s \<noteq> [])"

text \<open>Comparing a naive and an aware \<open>datetime\<close> with \<open><\<close> or \<open><=\<close> raises \<open>TypeError\<close>.\<close>

definition naive_aware :: exc where
  "naive_aware = TypeError ''can't compare offset-naive and offset-aware datetimes''"

fun dt_le :: "datetime \<Rightarrow> datetime \<Rightarrow> bool res" where
  "dt_le (Aware a) (Aware b) = Inr (a \<le> b)"
| "dt_le (Naive a) (Naive b) = Inr (a \<le> b)"
| "dt_le _ _ = Inl naive_aware"

fun dt_gt :: "datetime \<Rightarrow> datetime \<Rightarrow> bool res" where
  "dt_gt (Aware a) (Aware b) = Inr (b < a)"
| "dt_gt (Naive a) (Naive b) = Inr (b < a)"
| "dt_gt _ _ = Inl naive_aware"

text \<open>
  The order of time-stamp text. On the UTC stamps the program writes it is the order of
  the instants (\<open>isoformat\<close> is fixed width but for an optional fraction, and
  \<open>+\<close> sorts before \<open>.\<close>); other text is ordered by class first.
\<close>

fun iso_key :: "iso \<Rightarrow> nat \<times> int \<times> string" where
  "iso_key (Iso (Aware t)) = (0, t, [])"
| "iso_key (Iso (Naive t)) = (1, t, [])"
| "iso_key (NotIso s) = (2, 0, s)"

lemma iso_key_inject: "iso_key a = iso_key b \<longleftrightarrow> a = b"
  by (cases a rule: iso_key.cases; cases b rule: iso_key.cases) auto

instantiation iso :: linorder
begin

definition less_eq_iso :: "iso \<Rightarrow> iso \<Rightarrow> bool" where
  "less_eq_iso a b \<longleftrightarrow> iso_key a \<le> iso_key b"

definition less_iso :: "iso \<Rightarrow> iso \<Rightarrow> bool" where
  "less_iso a b \<longleftrightarrow> iso_key a < iso_key b"

instance
proof
  fix x y z :: iso
  show "x < y \<longleftrightarrow> x \<le> y \<and> \<not> y \<le> x"
    unfolding less_iso_def less_eq_iso_def by (rule less_le_not_le)
  show "x \<le> x" unfolding less_eq_iso_def by (rule order_refl)
  show "x \<le> y \<Longrightarrow> y \<le> z \<Longrightarrow> x \<le> z"
    unfolding less_eq_iso_def by (rule order_trans)
  show "x \<le> y \<Longrightarrow> y \<le> x \<Longrightarrow> x = y"
    unfolding less_eq_iso_def iso_key_inject [symmetric] by (rule order_antisym)
  show "x \<le> y \<or> y \<le> x" unfolding less_eq_iso_def by (rule linear)
qed

end

subsection \<open>JSONL files\<close>

text \<open>
  A line of a JSONL file, as the loaders classify it: white space only, text that is no
  JSON, JSON that the record's model rejects, or a record. \<open>_load_all\<close> keeps the records.
\<close>

datatype 'a line = BlankLine | BadJson string | BadRecord json | Row 'a

fun row_of :: "'a line \<Rightarrow> 'a list" where
  "row_of (Row r) = [r]"
| "row_of _ = []"

definition load_rows :: "'a line list \<Rightarrow> 'a list" where
  "load_rows ls = concat (map row_of ls)"

definition write_rows :: "'a list \<Rightarrow> 'a line list" where
  "write_rows rs = map Row rs"

lemma load_write [simp]: "load_rows (write_rows rs) = rs"
  by (induction rs) (simp_all add: load_rows_def write_rows_def)

lemma load_append [simp]: "load_rows (ls @ [Row r]) = load_rows ls @ [r]"
  by (simp add: load_rows_def)

lemma load_Nil [simp]: "load_rows [] = []"
  by (simp add: load_rows_def)

text \<open>A JSON file: absent, unreadable (no JSON, or an I/O error), or a value.\<close>

datatype 'a jfile = Missing | Unreadable | Content 'a

subsection \<open>Records of the schemas\<close>

record plan_step =
  ps_id :: string
  ps_description :: string
  ps_skill :: "string option"
  ps_args :: string
  ps_requires_approval :: bool

record step_result =
  sr_step_id :: string
  sr_ok :: bool
  sr_output :: "string option"
  sr_error :: "string option"

record plan =
  pl_goal :: string
  pl_steps :: "plan_step list"

record context_pack =
  cp_goal :: string
  cp_cwd :: "string option"

datatype approval_status = Pending | Approved | Rejected | Expired

record policy_snapshot =
  sn_mode :: string
  sn_scopes_enabled :: "string list"
  sn_rules_allowed :: "string list"
  sn_overrides_enabled :: bool

record approval =
  ap_id :: string
  ap_created :: iso
  ap_expires :: iso
  ap_status :: approval_status
  ap_requester :: "json dict"
  ap_step :: plan_step
  ap_context :: "json dict"
  ap_rationale :: string
  ap_result :: "step_result option"
  ap_error :: "string option"
  ap_scopes :: "string list"
  ap_snapshot :: "policy_snapshot option"
  ap_snapshot_at_approve :: "policy_snapshot option"

datatype ledger_kind = ApprovalExec | JobRun | RuleAction

datatype ledger_status = Started | Succeeded | Skipped | Failed

record ledger_record =
  lr_key :: string
  lr_kind :: ledger_kind
  lr_status :: ledger_status
  lr_ts :: iso
  lr_corr :: "string option"
  lr_meta :: "json dict"

record episode =
  ep_id :: string
  ep_kind :: string
  ep_summary :: string
  ep_ts :: iso
  ep_meta :: "json dict"

record semantic_fact =
  sf_id :: string
  sf_key :: string
  sf_value :: string
  sf_scope :: string
  sf_tags :: "string list"
  sf_created :: iso
  sf_updated :: iso

type_synonym trace_event = "string \<times> json dict"

record task_record =
  tk_id :: string
  tk_ts :: iso
  tk_source :: string
  tk_message :: string
  tk_plan :: plan
  tk_results :: "step_result list"
  tk_approvals :: "string list"
  tk_answer :: string
  tk_trace :: "trace_event list"
  tk_corr :: string

record notification =
  nt_title :: string
  nt_body :: string
  nt_meta :: "json dict"

subsection \<open>The shared state\<close>

text \<open>
  One state directory, seen by every component. \<open>w_now\<close> is the instant of the
  operation under way: all clock reads within one call return it. \<open>w_uuids\<close> is the
  stream of identifiers \<open>uuid4\<close> hands out, \<open>w_uuid\<close> how many have been used.
  The safe-mode file holds a JSON object when it holds JSON.
\<close>

record world =
  w_env :: "string \<Rightarrow> string option"
  w_now :: int
  w_uuids :: "nat \<Rightarrow> string"
  w_uuid :: nat
  w_corr :: "string option"
  w_safe :: "json dict jfile"
  w_overrides :: "json jfile"
  w_approvals :: "approval line list"
  w_ledger :: "ledger_record line list"
  w_episodic :: "episode line list"
  w_semantic :: "semantic_fact line list"
  w_tasks :: "task_record line list"
  w_outbox :: "notification list"

definition getenv :: "string \<Rightarrow> string \<Rightarrow> world \<Rightarrow> string" where
  "getenv name dflt w = (case w_env w name of None \<Rightarrow> dflt | Some v \<Rightarrow> v)"

definition now_iso :: "world \<Rightarrow> iso" where
  "now_iso w = isoformat (Aware (w_now w))"

definition uuid4 :: "world \<Rightarrow> string \<times> world" where
  "uuid4 w = (w_uuids w (w_uuid w), w\<lparr>w_uuid := Suc (w_uuid w)\<rparr>)"

text \<open>\<open>x or y\<close> on optional strings.\<close>

fun str_or :: "string option \<Rightarrow> string \<Rightarrow> string" where
  "str_or None d = d"
| "str_or (Some s) d = (if s = [] then d else s)"

text \<open>The state in which every variable is unset and no file exists, at a given instant.\<close>

definition empty_world :: "int \<Rightarrow> world" where
  "empty_world t = \<lparr>w_env = (\<lambda>_. None), w_now = t, w_uuids = (\<lambda>n. ''id-'' @ show_nat n),
     w_uuid = 0, w_corr = None, w_safe = Missing, w_overrides = Missing, w_approvals = [],
     w_ledger = [], w_episodic = [], w_semantic = [], w_tasks = [], w_outbox = []\<rparr>"

end
