(* ===== verification/Stores.thy ===== *)
theory Stores
  imports World
begin

section \<open>The interfaces of the stores\<close>

text \<open>
  Two contracts every persistent store of the program offers its clients, as locales: an
  append-only log with bounded retention (episodic memory, task records, execution
  ledger), and a keyed store with look-up, replace-or-append and delete (approvals,
  rules, semantic facts). The theories of the stores interpret them on the code's
  operations; the lemmas here are the ones the clients use.
\<close>

subsection \<open>Bounded logs\<close>

text \<open>What a log keeps: everything (\<open>n \<le> 0\<close>), or the last \<open>n\<close> records.\<close>

definition retain :: "int \<Rightarrow> 'a list \<Rightarrow> 'a list" where
  "retain n xs = (if n \<le> 0 then xs else last_n n xs)"

lemma retain_snoc: "retain n (xs @ [x]) = (if n \<le> 0 then xs @ [x] else last_n (n - 1) xs @ [x])"
  by (simp add: retain_def last_n_snoc)

lemma retain_bound: "0 < n \<Longrightarrow> int (length (retain n xs)) \<le> n"
  by (simp add: retain_def)

lemma retain_all: "n \<le> 0 \<or> int (length xs) \<le> n \<Longrightarrow> retain n xs = xs"
  by (auto simp: retain_def)

lemma retain_suffix: "\<exists>ys. xs = ys @ retain n xs"
  using last_n_suffix [of xs n] by (auto simp: retain_def)

lemma last_n_append: "last_n n (last_n n xs @ ys) = last_n n (xs @ ys)"
proof (cases "int (length xs) \<le> n")
  case False
  then show ?thesis by (simp add: last_n_def) (cases "nat n \<le> length ys"; simp add: add.commute)
qed simp

lemma retain_append: "retain n (retain n xs @ ys) = retain n (xs @ ys)"
  by (simp add: retain_def last_n_append)

locale bounded_log =
  fixes content :: "'s \<Rightarrow> 'r list"
    and append_rec :: "'r \<Rightarrow> 's \<Rightarrow> 's"
    and bound :: int
  assumes content_append: "content (append_rec r s) = retain bound (content s @ [r])"
begin

lemma last_appended: "content (append_rec r s) \<noteq> [] \<and> last (content (append_rec r s)) = r"
  by (simp add: content_append retain_snoc)

lemma appended_in: "r \<in> set (content (append_rec r s))"
  using last_appended last_in_set by metis

lemma length_append_le:
  "0 < bound \<Longrightarrow> int (length (content (append_rec r s))) \<le> bound"
  by (simp add: content_append retain_bound)

lemma content_appends:
  "content (fold append_rec rs s) = (if rs = [] then content s else retain bound (content s @ rs))"
proof (induction rs arbitrary: s)
  case Nil
  then show ?case by simp
next
  case (Cons r rs)
  then show ?case by (simp add: content_append retain_append)
qed

lemma unbounded_append: "bound \<le> 0 \<Longrightarrow> content (append_rec r s) = content s @ [r]"
  by (simp add: content_append retain_def)

end

subsection \<open>Keyed stores\<close>

locale readable_store =
  fixes lookup :: "'s \<Rightarrow> 'k \<Rightarrow> 'r option"
    and put :: "'r \<Rightarrow> 's \<Rightarrow> 's"
    and key :: "'r \<Rightarrow> 'k"
    and norm :: "'r \<Rightarrow> 'r"
  assumes lookup_put_same: "lookup (put r s) (key r) = Some (norm r)"
    and lookup_put_other: "k \<noteq> key r \<Longrightarrow> lookup (put r s) k = lookup s k"
begin

lemma lookup_put:
  "lookup (put r s) k = (if k = key r then Some (norm r) else lookup s k)"
  by (simp add: lookup_put_same lookup_put_other)

lemma put_overwrites: "key r = key r' \<Longrightarrow> lookup (put r' (put r s)) k = lookup (put r' s) k"
  by (simp add: lookup_put)

lemma put_commutes:
  "key r \<noteq> key r' \<Longrightarrow> lookup (put r (put r' s)) k = lookup (put r' (put r s)) k"
  by (simp add: lookup_put)

end

locale keyed_store = readable_store +
  fixes del :: "'k \<Rightarrow> 's \<Rightarrow> 's"
  assumes lookup_del_same: "lookup (del k s) k = None"
    and lookup_del_other: "k' \<noteq> k \<Longrightarrow> lookup (del k s) k' = lookup s k'"
begin

lemma lookup_del: "lookup (del k s) k' = (if k' = k then None else lookup s k')"
  by (simp add: lookup_del_same lookup_del_other)

lemma del_put: "lookup (del (key r) (put r s)) k = lookup (del (key r) s) k"
  by (simp add: lookup_del lookup_put)

lemma put_del: "lookup (put r (del (key r) s)) k = lookup (put r s) k"
  by (simp add: lookup_del lookup_put)

end

text \<open>The two list operations behind the keyed stores, on the rows of a JSONL file.\<close>

definition rows_find :: "('r \<Rightarrow> 'k) \<Rightarrow> 'r line list \<Rightarrow> 'k \<Rightarrow> 'r option" where
  "rows_find key ls k = find (\<lambda>r. key r = k) (load_rows ls)"

definition rows_upsert :: "('r \<Rightarrow> 'k) \<Rightarrow> 'r \<Rightarrow> 'r line list \<Rightarrow> 'r line list" where
  "rows_upsert key r ls = write_rows (upsert_first (\<lambda>x. key x = key r) r (load_rows ls))"

definition rows_delete :: "('r \<Rightarrow> 'k) \<Rightarrow> 'k \<Rightarrow> 'r line list \<Rightarrow> 'r line list" where
  "rows_delete key k ls = write_rows (filter (\<lambda>x. key x \<noteq> k) (load_rows ls))"

lemma load_rows_upsert [simp]:
  "load_rows (rows_upsert key r ls) = upsert_first (\<lambda>x. key x = key r) r (load_rows ls)"
  by (simp add: rows_upsert_def)

lemma load_rows_delete [simp]:
  "load_rows (rows_delete key k ls) = filter (\<lambda>x. key x \<noteq> k) (load_rows ls)"
  by (simp add: rows_delete_def)

lemma rows_find_upsert:
  "rows_find key (rows_upsert key r ls) k = (if k = key r then Some r else rows_find key ls k)"
  by (simp add: rows_find_def find_upsert_first_same find_upsert_first_other)

lemma rows_find_delete:
  "rows_find key (rows_delete key k ls) k' = (if k' = k then None else rows_find key ls k')"
  by (simp add: rows_find_def find_filter_same find_filter_other)

end
