(* ===== verification/Memory.thy ===== *)
theory Memory
  imports Stores
begin

section \<open>Memory: episodic log, semantic facts, write policy\<close>

text \<open>
  \<open>core/memory\<close>: the append-only episodic log (\<open>episodic.py\<close>), the semantic facts
  keyed by scope and key (\<open>semantic.py\<close>), the manager that retrieves context and
  commits proposals (\<open>manager.py\<close>) and the policy that proposes what to remember
  (\<open>write_policy.py\<close>).
\<close>

subsection \<open>Episodes\<close>

definition episodic_append :: "string \<Rightarrow> string \<Rightarrow> json dict \<Rightarrow> world \<Rightarrow> episode \<times> world" where
  "episodic_append kind summary meta w =
     (let (i, w1) = uuid4 w;
          e = \<lparr>ep_id = i, ep_kind = kind, ep_summary = summary, ep_ts = now_iso w, ep_meta = meta\<rparr>
      in (e, w1\<lparr>w_episodic := w_episodic w1 @ [Row e]\<rparr>))"

definition log_episode :: "string \<Rightarrow> string \<Rightarrow> json dict \<Rightarrow> world \<Rightarrow> world" where
  "log_episode kind summary meta w = snd (episodic_append kind summary meta w)"

definition episodes :: "world \<Rightarrow> episode list" where
  "episodes w = load_rows (w_episodic w)"

definition episodic_list_recent :: "int \<Rightarrow> world \<Rightarrow> episode list" where
  "episodic_list_recent limit w = (if limit \<le> 0 then [] else last_n limit (episodes w))"

definition episode_haystack :: "episode \<Rightarrow> string" where
  "episode_haystack e = casefold (join '' '' [ep_kind e, ep_summary e, dumps (JDict (ep_meta e))])"

definition episodic_search :: "string \<Rightarrow> int \<Rightarrow> world \<Rightarrow> episode list" where
  "episodic_search txt limit w =
     (let query = strip (casefold txt)
      in if limit \<le> 0 then []
         else if query = [] then last_n limit (episodes w)
         else rev (scan_matches (\<lambda>e. str_in query (episode_haystack e)) limit [] (rev (episodes w))))"

definition meta_str :: "string \<Rightarrow> json dict \<Rightarrow> string" where
  \<comment> \<open>\<open>str(meta.get(k, ""))\<close>\<close>
  "meta_str k d = (case map_of d k of None \<Rightarrow> [] | Some v \<Rightarrow> py_str v)"

definition episodic_find_by_correlation :: "string \<Rightarrow> int \<Rightarrow> world \<Rightarrow> episode list" where
  "episodic_find_by_correlation corr limit w =
     (if limit \<le> 0 then []
      else rev (scan_matches (\<lambda>e. meta_str ''correlation_id'' (ep_meta e) = corr) limit []
                  (rev (episodes w))))"

lemma log_episode_eq:
  "log_episode kind summary meta w =
     w\<lparr>w_uuid := Suc (w_uuid w),
       w_episodic := w_episodic w @ [Row \<lparr>ep_id = w_uuids w (w_uuid w), ep_kind = kind,
         ep_summary = summary, ep_ts = now_iso w, ep_meta = meta\<rparr>]\<rparr>"
  by (simp add: log_episode_def episodic_append_def uuid4_def Let_def)

lemma log_episode_frames [simp, frames]:
  "w_approvals (log_episode kind summary meta w) = w_approvals w"
  "w_ledger (log_episode kind summary meta w) = w_ledger w"
  "w_semantic (log_episode kind summary meta w) = w_semantic w"
  "w_tasks (log_episode kind summary meta w) = w_tasks w"
  "w_env (log_episode kind summary meta w) = w_env w"
  "w_safe (log_episode kind summary meta w) = w_safe w"
  "w_overrides (log_episode kind summary meta w) = w_overrides w"
  "w_now (log_episode kind summary meta w) = w_now w"
  "w_corr (log_episode kind summary meta w) = w_corr w"
  "w_outbox (log_episode kind summary meta w) = w_outbox w"
  "w_uuids (log_episode kind summary meta w) = w_uuids w"
  by (simp_all add: log_episode_eq)

lemma episodes_log:
  "episodes (log_episode kind summary meta w) = episodes w @
     [\<lparr>ep_id = w_uuids w (w_uuid w), ep_kind = kind, ep_summary = summary, ep_ts = now_iso w, ep_meta = meta\<rparr>]"
  by (simp add: log_episode_eq episodes_def)

interpretation episodic_log: bounded_log episodes "\<lambda>e w. w\<lparr>w_episodic := w_episodic w @ [Row e]\<rparr>" 0
  by unfold_locales (simp add: episodes_def retain_def)

lemma episodic_find_by_correlation_eq:
  "0 < limit \<Longrightarrow> episodic_find_by_correlation corr limit w =
     last_n limit (filter (\<lambda>e. meta_str ''correlation_id'' (ep_meta e) = corr) (episodes w))"
  by (simp add: episodic_find_by_correlation_def scan_matches_rev)

subsection \<open>Semantic facts\<close>

definition sf_ident :: "semantic_fact \<Rightarrow> string \<times> string" where
  "sf_ident f = (sf_scope f, sf_key f)"

definition semantic_upsert ::
  "string \<Rightarrow> string \<Rightarrow> string \<Rightarrow> string list \<Rightarrow> world \<Rightarrow> semantic_fact \<times> world" where
  "semantic_upsert key val scope tags w =
     (case rows_find sf_ident (w_semantic w) (scope, key) of
        Some f0 \<Rightarrow>
          (let updated = f0\<lparr>sf_value := val, sf_tags := tags, sf_updated := now_iso w\<rparr>
           in (updated, w\<lparr>w_semantic := rows_upsert sf_ident updated (w_semantic w)\<rparr>))
      | None \<Rightarrow>
          (let (i, w1) = uuid4 w;
               new_fact = \<lparr>sf_id = i, sf_key = key, sf_value = val, sf_scope = scope, sf_tags = tags,
                           sf_created = now_iso w, sf_updated = now_iso w\<rparr>
           in (new_fact, w1\<lparr>w_semantic := write_rows (load_rows (w_semantic w1) @ [new_fact])\<rparr>)))"

definition semantic_list_all :: "string option \<Rightarrow> world \<Rightarrow> semantic_fact list" where
  "semantic_list_all scope w =
     (case scope of None \<Rightarrow> load_rows (w_semantic w)
      | Some s \<Rightarrow> filter (\<lambda>f. sf_scope f = s) (load_rows (w_semantic w)))"

definition fact_haystack :: "semantic_fact \<Rightarrow> string" where
  "fact_haystack f = casefold (join '' '' [sf_key f, sf_value f, join '' '' (sf_tags f)])"

definition semantic_search :: "string \<Rightarrow> int \<Rightarrow> world \<Rightarrow> semantic_fact list" where
  "semantic_search txt limit w =
     (let query = strip (casefold txt)
      in if query = [] then py_take limit (semantic_list_all None w)
         else scan_matches (\<lambda>f. str_in query (fact_haystack f)) limit [] (load_rows (w_semantic w)))"

text \<open>The facts file as a keyed store, on the rows of the file.\<close>

interpretation facts: readable_store "rows_find sf_ident" "rows_upsert sf_ident" sf_ident "\<lambda>f. f"
  by unfold_locales (simp_all add: rows_find_upsert)

definition find_fact :: "string \<Rightarrow> string \<Rightarrow> world \<Rightarrow> semantic_fact option" where
  "find_fact scope key w = rows_find sf_ident (w_semantic w) (scope, key)"

lemma rows_find_append_new:
  "rows_find key ls (key r) = None \<Longrightarrow>
   rows_find key (write_rows (load_rows ls @ [r])) k = (if k = key r then Some r else rows_find key ls k)"
  by (auto simp: rows_find_def find_append split: option.splits)

lemma find_fact_upsert:
  "find_fact s k (snd (semantic_upsert key val scope tags w)) =
     (if s = scope \<and> k = key then Some (fst (semantic_upsert key val scope tags w)) else find_fact s k w)"
proof (cases "rows_find sf_ident (w_semantic w) (scope, key)")
  case None
  let ?f = "\<lparr>sf_id = w_uuids w (w_uuid w), sf_key = key, sf_value = val, sf_scope = scope, sf_tags = tags,
             sf_created = now_iso w, sf_updated = now_iso w\<rparr>"
  have "sf_ident ?f = (scope, key)" by (simp add: sf_ident_def)
  with None show ?thesis
    using rows_find_append_new [of sf_ident "w_semantic w" ?f]
    by (simp add: semantic_upsert_def uuid4_def Let_def find_fact_def)
next
  case (Some f0)
  then have "sf_ident f0 = (scope, key)"
    using find_SomeD by (fastforce simp: rows_find_def)
  then have "sf_ident (f0\<lparr>sf_value := val, sf_tags := tags, sf_updated := now_iso w\<rparr>) = (scope, key)"
    by (simp add: sf_ident_def)
  with Some show ?thesis
    by (simp add: semantic_upsert_def find_fact_def Let_def facts.lookup_put)
qed

definition facts_distinct :: "world \<Rightarrow> bool" where
  "facts_distinct w \<longleftrightarrow> distinct (map sf_ident (load_rows (w_semantic w)))"

lemma facts_distinct_upsert:
  assumes "facts_distinct w"
  shows "facts_distinct (snd (semantic_upsert key val scope tags w))"
proof (cases "rows_find sf_ident (w_semantic w) (scope, key)")
  case None
  then have "(scope, key) \<notin> sf_ident ` set (load_rows (w_semantic w))"
    by (auto simp: rows_find_def find_None_iff_all)
  with assms None show ?thesis
    by (auto simp: facts_distinct_def semantic_upsert_def uuid4_def Let_def sf_ident_def)
next
  case (Some f0)
  with assms show ?thesis
    by (simp add: facts_distinct_def semantic_upsert_def Let_def distinct_upsert_first)
qed

subsection \<open>The write policy\<close>

text \<open>The ellipsis is one character; byte \<open>0x85\<close> stands for it.\<close>

definition ellipsis :: string where
  "ellipsis = [CHR 0x85]"

definition slugify :: "string \<Rightarrow> string" where
  "slugify txt = join ''-'' (take 8
     (words_acc [] (map (\<lambda>c. if is_digit c \<or> (97 \<le> (of_char c :: nat) \<and> (of_char c :: nat) \<le> 122)
                             then c else CHR '' '') (casefold txt))))"

definition shorten :: "nat \<Rightarrow> string \<Rightarrow> string" where
  "shorten limit txt =
     (let compact = join '' '' (py_words txt)
      in if length compact \<le> limit then compact
         else rstrip (take (limit - 1) compact) @ ellipsis)"

definition preference_patterns :: "string list" where
  "preference_patterns = [''from now on'', ''always'', ''never'', ''remember that'', ''my preference is'']"

record semantic_proposal =
  pr_key :: string
  pr_value :: string
  pr_scope :: string
  pr_tags :: "string list"

record episode_proposal =
  pe_kind :: string
  pe_summary :: string
  pe_meta :: "json dict"

record proposal =
  semantic_upserts :: "semantic_proposal list"
  episode_writes :: "episode_proposal list"

definition or_default :: "string \<Rightarrow> string \<Rightarrow> string" where
  "or_default s d = (if s = [] then d else s)"

definition propose_writes :: "string \<Rightarrow> string \<Rightarrow> proposal" where
  "propose_writes user_message assistant_answer =
     \<lparr>semantic_upserts =
        (if list_ex (\<lambda>p. str_in p (casefold user_message)) preference_patterns
         then [\<lparr>pr_key = ''preference:'' @ or_default (take 48 (slugify user_message)) ''user'',
                pr_value = strip user_message, pr_scope = ''global'',
                pr_tags = [''preference'', ''autowrite'']\<rparr>]
         else []),
      episode_writes =
        [\<lparr>pe_kind = ''task'',
          pe_summary = ''User asked: '' @ shorten 120 user_message @ ''. Assistant: ''
                        @ shorten 120 assistant_answer @ ''.'',
          pe_meta = []\<rparr>]\<rparr>"

definition should_save :: "string \<Rightarrow> bool \<times> string" where
  "should_save txt = (if length (strip txt) < 10 then (False, ''Too short'') else (True, ''Useful context''))"

subsection \<open>The manager\<close>

definition autowrite_enabled :: "world \<Rightarrow> bool" where
  "autowrite_enabled w \<longleftrightarrow> casefold (getenv ''BENJAMIN_MEMORY_AUTOWRITE'' ''on'' w) \<noteq> ''off''"

definition retrieve_context :: "string \<Rightarrow> int \<Rightarrow> world \<Rightarrow> semantic_fact list \<times> episode list" where
  "retrieve_context txt limit w =
     (let semantic_limit = max 1 (limit div 2); episodic_limit = max 1 (limit - semantic_limit)
      in (semantic_search txt semantic_limit w, episodic_search txt episodic_limit w))"

definition commit_semantic :: "semantic_proposal \<Rightarrow> world \<Rightarrow> world" where
  "commit_semantic p w = snd (semantic_upsert (pr_key p) (pr_value p) (pr_scope p) (pr_tags p) w)"

definition commit_episode :: "episode_proposal \<Rightarrow> world \<Rightarrow> world" where
  "commit_episode p w = log_episode (pe_kind p) (pe_summary p) (pe_meta p) w"

definition commit :: "proposal \<Rightarrow> world \<Rightarrow> (nat \<times> nat) \<times> world" where
  "commit p w =
     ((length (semantic_upserts p), length (episode_writes p)),
      fold commit_episode (episode_writes p) (fold commit_semantic (semantic_upserts p) w))"

lemma length_shorten: "0 < limit \<Longrightarrow> length (shorten limit txt) \<le> limit"
  using length_rstrip [of "take (limit - 1) (join '' '' (py_words txt))"]
  by (auto simp: shorten_def Let_def ellipsis_def)

lemma length_scan_matches: "0 < limit \<Longrightarrow> int (length (scan_matches p limit [] xs)) \<le> limit"
  by (simp add: scan_matches_take)

lemma length_semantic_search: "0 < limit \<Longrightarrow> int (length (semantic_search txt limit w)) \<le> limit"
  using length_scan_matches [of limit] by (auto simp: semantic_search_def Let_def py_take_def)

lemma length_episodic_search: "0 < limit \<Longrightarrow> int (length (episodic_search txt limit w)) \<le> limit"
  using length_scan_matches [of limit] by (auto simp: episodic_search_def Let_def)

text \<open>For a limit of at least two, facts and episodes together are at most \<open>limit\<close>.\<close>

lemma retrieve_context_bound:
  assumes "2 \<le> limit" and "retrieve_context txt limit w = (fs, es)"
  shows "int (length fs + length es) \<le> limit"
proof -
  have "int (length fs) \<le> max 1 (limit div 2)"
    and "int (length es) \<le> max 1 (limit - max 1 (limit div 2))"
    using assms(2) length_semantic_search length_episodic_search
    by (auto simp: retrieve_context_def Let_def)
  with assms(1) show ?thesis by linarith
qed

end
