(* ===== verification/Policy.thy ===== *)
theory Policy
  imports Memory
begin

section \<open>Scopes, permissions, safe mode\<close>

text \<open>
  \<open>core/security\<close> and \<open>core/ops/safe_mode.py\<close>: the canonical scopes and the scopes
  of the skills (\<open>scopes.py\<close>), the permissions policy computed from environment and
  override file (\<open>policy.py\<close>, \<open>overrides.py\<close>), its audit events (\<open>audit.py\<close>), the
  safe-mode switch, and the API that edits overrides and switch
  (\<open>apps/api/routes_security.py\<close>, \<open>routes_ops_safe.py\<close>). Dictionaries written to the
  override file are compared as mappings; the order of their keys in the file is not kept.
\<close>

subsection \<open>Scopes\<close>

definition READ_SCOPES :: "string list" where
  "READ_SCOPES = [''filesystem.read'', ''web.read'', ''calendar.read'', ''gmail.read'',
     ''memory.read'', ''rules.read'', ''jobs.read'']"

definition WRITE_SCOPES :: "string list" where
  "WRITE_SCOPES = [''reminders.write'', ''calendar.write'', ''gmail.draft'', ''gmail.send'',
     ''memory.write'', ''rules.write'', ''jobs.write'']"

definition ALL_SCOPES :: "string list" where
  "ALL_SCOPES = READ_SCOPES @ WRITE_SCOPES"

definition SKILL_SCOPE_DEFAULTS :: "(string \<times> string list) list" where
  "SKILL_SCOPE_DEFAULTS = [
     (''filesystem'', [''filesystem.read'']),
     (''filesystem.search_read'', [''filesystem.read'']),
     (''web.search'', [''web.read'']),
     (''web_search'', [''web.read'']),
     (''calendar.search'', [''calendar.read'']),
     (''calendar.create_event'', [''calendar.write'']),
     (''gmail.search'', [''gmail.read'']),
     (''gmail.read_message'', [''gmail.read'']),
     (''gmail.thread_summary'', [''gmail.read'']),
     (''gmail.draft_email'', [''gmail.draft'']),
     (''reminders.create'', [''reminders.write''])]"

definition default_scopes_for_skill :: "string \<Rightarrow> string \<Rightarrow> string list" where
  "default_scopes_for_skill skill_name side_effect =
     (case map_of SKILL_SCOPE_DEFAULTS skill_name of
        Some scopes \<Rightarrow> scopes
      | None \<Rightarrow> (if casefold (or_default side_effect ''read'') = ''write'' then [''jobs.write''] else [''jobs.read'']))"

lemma default_scopes_nonempty: "default_scopes_for_skill n e \<noteq> []"
  by (auto simp: default_scopes_for_skill_def SKILL_SCOPE_DEFAULTS_def)

subsection \<open>Overrides\<close>

definition overrides_load :: "world \<Rightarrow> json dict" where
  "overrides_load w = (case w_overrides w of Content (JDict d) \<Rightarrow> d | _ \<Rightarrow> [])"

definition overrides_save :: "json dict \<Rightarrow> world \<Rightarrow> world" where
  "overrides_save d w = w\<lparr>w_overrides := Content (JDict d)\<rparr>"

subsection \<open>The policy\<close>

record policy =
  po_mode :: string
  po_explicit :: "string set"
  po_rules_allowed :: "string set"
  po_overrides_enabled :: bool

definition DEFAULT_RULES_ALLOWED_SCOPES :: "string set" where
  "DEFAULT_RULES_ALLOWED_SCOPES = {''reminders.write''}"

definition parse_csv :: "string \<Rightarrow> string set" where
  "parse_csv raw = set (filter (\<lambda>s. s \<noteq> []) (map strip (split_char (CHR '','') raw)))"

fun str_items :: "json list \<Rightarrow> string list" where
  "str_items [] = []"
| "str_items (JStr s # xs) = s # str_items xs"
| "str_items (x # xs) = str_items xs"

text \<open>A list of strings stored under a key restricts to the known scopes; anything else is ignored.\<close>

definition override_scopes :: "string \<Rightarrow> json dict \<Rightarrow> string set option" where
  "override_scopes k d = (case map_of d k of
      Some (JList xs) \<Rightarrow> Some (set (str_items xs) \<inter> set ALL_SCOPES)
    | _ \<Rightarrow> None)"

definition apply_overrides :: "json dict \<Rightarrow> policy \<Rightarrow> policy" where
  "apply_overrides d p =
     p\<lparr>po_explicit := (case override_scopes ''scopes_enabled'' d of None \<Rightarrow> po_explicit p | Some s \<Rightarrow> s),
       po_rules_allowed := (case override_scopes ''rules_allowed_scopes'' d of
                              None \<Rightarrow> po_rules_allowed p | Some s \<Rightarrow> s)\<rparr>"

definition env_policy :: "world \<Rightarrow> policy" where
  "env_policy w =
     (let mode = or_default (casefold (strip (getenv ''BENJAMIN_SCOPE_MODE'' ''default'' w))) ''default'';
          raw_scopes = getenv ''BENJAMIN_SCOPES_ENABLED'' [] w;
          raw_rules = getenv ''BENJAMIN_RULES_ALLOWED_SCOPES'' [] w
      in \<lparr>po_mode = (if mode \<in> {''default'', ''allowlist''} then mode else ''default''),
          po_explicit = parse_csv raw_scopes,
          po_rules_allowed = (if strip raw_rules = [] then DEFAULT_RULES_ALLOWED_SCOPES else parse_csv raw_rules),
          po_overrides_enabled =
            (casefold (strip (getenv ''BENJAMIN_POLICY_OVERRIDES'' ''on'' w)) \<noteq> ''off'')\<rparr>)"

definition permissions_policy :: "world \<Rightarrow> policy" where
  \<comment> \<open>\<open>PermissionsPolicy()\<close>\<close>
  "permissions_policy w =
     (let p = env_policy w
      in if po_overrides_enabled p then apply_overrides (overrides_load w) p else p)"

definition is_scope_enabled :: "policy \<Rightarrow> string \<Rightarrow> bool" where
  "is_scope_enabled p s =
     (if po_mode p = ''allowlist'' then s \<in> po_explicit p
      else s \<in> set READ_SCOPES \<or> s \<in> po_explicit p)"

text \<open>\<open>sorted({x for x in xs if not ok(x)})\<close>, and whether it is empty.\<close>

definition failing :: "(string \<Rightarrow> bool) \<Rightarrow> string list \<Rightarrow> bool \<times> string list" where
  "failing ok xs = (let bad = sort (remdups (filter (\<lambda>x. \<not> ok x) xs)) in (bad = [], bad))"

definition check_scopes :: "policy \<Rightarrow> string list \<Rightarrow> bool \<times> string list" where
  "check_scopes p scopes = failing (is_scope_enabled p) scopes"

definition check_rules_allowlist :: "policy \<Rightarrow> string list \<Rightarrow> bool \<times> string list" where
  "check_rules_allowlist p scopes = failing (\<lambda>s. s \<in> po_rules_allowed p) scopes"

definition can_rules_propose :: "policy \<Rightarrow> string list \<Rightarrow> bool" where
  "can_rules_propose p scopes = fst (check_rules_allowlist p scopes)"

definition snapshot_model :: "policy \<Rightarrow> policy_snapshot" where
  "snapshot_model p = \<lparr>sn_mode = po_mode p,
     sn_scopes_enabled = filter (is_scope_enabled p) ALL_SCOPES,
     sn_rules_allowed = sorted_list_of_set (po_rules_allowed p),
     sn_overrides_enabled = po_overrides_enabled p\<rparr>"

text \<open>The contract of a scope check, for the callers that only need it.\<close>

locale scope_check =
  fixes check :: "string list \<Rightarrow> bool \<times> string list"
    and permitted :: "string \<Rightarrow> bool"
  assumes check_set: "set (snd (check xs)) = {x \<in> set xs. \<not> permitted x}"
    and check_flag: "fst (check xs) \<longleftrightarrow> snd (check xs) = []"
    and check_sorted: "sorted (snd (check xs)) \<and> distinct (snd (check xs))"
begin

lemma check_ok_iff: "fst (check xs) \<longleftrightarrow> (\<forall>x\<in>set xs. permitted x)"
proof -
  have "snd (check xs) = [] \<longleftrightarrow> {x \<in> set xs. \<not> permitted x} = {}"
    by (simp add: check_set [symmetric])
  then show ?thesis using check_flag [of xs] by auto
qed

lemma check_okD: "check xs = (True, bad) \<Longrightarrow> x \<in> set xs \<Longrightarrow> permitted x"
  using check_ok_iff [of xs] by simp

lemma check_not_okD: "check xs = (False, bad) \<Longrightarrow> bad \<noteq> [] \<and> (\<forall>x\<in>set bad. x \<in> set xs \<and> \<not> permitted x)"
  using check_flag [of xs] check_set [of xs] by auto

lemma check_order:
  assumes "set xs = set ys"
  shows "check xs = check ys"
proof -
  have "snd (check xs) = snd (check ys)"
    by (rule sorted_distinct_set_unique) (use assms check_sorted check_set in auto)
  then show ?thesis using check_flag by (auto intro: prod_eqI)
qed

end

lemma failing_scope_check: "scope_check (failing ok) ok"
  by unfold_locales (auto simp: failing_def Let_def)

interpretation scopes: scope_check "check_scopes p" "is_scope_enabled p" for p
  unfolding check_scopes_def by (rule failing_scope_check)

interpretation allowlist: scope_check "check_rules_allowlist p" "\<lambda>s. s \<in> po_rules_allowed p" for p
  unfolding check_rules_allowlist_def by (rule failing_scope_check)

subsection \<open>Audit events\<close>

definition bounded_values :: "string list \<Rightarrow> string list" where
  "bounded_values values =
     (if length values \<le> 64 then values
      else take 64 values @ [''...(+'' @ show_nat (length values - 64) @ '' more)''])"

definition jstrs :: "string list \<Rightarrow> json" where
  "jstrs xs = JList (map JStr xs)"

definition log_policy_event ::
  "string \<Rightarrow> string \<Rightarrow> string \<Rightarrow> string \<Rightarrow> string list \<Rightarrow> policy_snapshot \<Rightarrow> string \<Rightarrow> json dict \<Rightarrow> world \<Rightarrow> world" where
  "log_policy_event corr source decision skill_name required_scopes snap reason extra_meta w =
     (let meta = [(''correlation_id'', JStr corr), (''source'', JStr source), (''decision'', JStr decision),
        (''required_scopes'', jstrs (sort required_scopes)),
        (''enabled_scopes'', jstrs (bounded_values (sn_scopes_enabled snap))),
        (''rules_allowed_scopes'', jstrs (bounded_values (sn_rules_allowed snap))),
        (''skill_name'', JStr skill_name), (''reason'', JStr reason)]
      in log_episode ''policy'' (''Policy '' @ decision @ '' for '' @ skill_name) (dict_update meta extra_meta) w)"

lemma log_policy_event_frames [simp, frames]:
  "w_approvals (log_policy_event c s d n r sn re x w) = w_approvals w"
  "w_ledger (log_policy_event c s d n r sn re x w) = w_ledger w"
  "w_semantic (log_policy_event c s d n r sn re x w) = w_semantic w"
  "w_tasks (log_policy_event c s d n r sn re x w) = w_tasks w"
  "w_env (log_policy_event c s d n r sn re x w) = w_env w"
  "w_safe (log_policy_event c s d n r sn re x w) = w_safe w"
  "w_overrides (log_policy_event c s d n r sn re x w) = w_overrides w"
  "w_now (log_policy_event c s d n r sn re x w) = w_now w"
  "w_corr (log_policy_event c s d n r sn re x w) = w_corr w"
  "w_outbox (log_policy_event c s d n r sn re x w) = w_outbox w"
  "w_uuids (log_policy_event c s d n r sn re x w) = w_uuids w"
  by (simp_all add: log_policy_event_def Let_def)

subsection \<open>Safe mode\<close>

definition env_forced_on :: "world \<Rightarrow> bool" where
  "env_forced_on w \<longleftrightarrow> casefold (strip (getenv ''BENJAMIN_SAFE_MODE'' ''off'' w)) = ''on''"

definition is_safe_mode_enabled :: "world \<Rightarrow> bool" where
  "is_safe_mode_enabled w =
     (if env_forced_on w then True
      else (case w_safe w of
              Content d \<Rightarrow> (case map_of d ''enabled'' of None \<Rightarrow> False | Some v \<Rightarrow> truthy v)
            | _ \<Rightarrow> False))"

definition set_safe_mode_enabled :: "bool \<Rightarrow> world \<Rightarrow> world" where
  "set_safe_mode_enabled enabled w = w\<lparr>w_safe := Content [(''enabled'', JBool enabled)]\<rparr>"

definition safe_mode_allow_summarizer :: "world \<Rightarrow> bool" where
  "safe_mode_allow_summarizer w \<longleftrightarrow>
     casefold (strip (getenv ''BENJAMIN_SAFE_MODE_ALLOW_SUMMARIZER'' ''on'' w)) = ''on''"

definition safe_mode_allow_rule_builder :: "world \<Rightarrow> bool" where
  "safe_mode_allow_rule_builder w \<longleftrightarrow>
     casefold (strip (getenv ''BENJAMIN_SAFE_MODE_ALLOW_RULE_BUILDER'' ''off'' w)) = ''on''"

definition enable_safe_mode :: "world \<Rightarrow> bool \<times> world" where
  "enable_safe_mode w = (True, set_safe_mode_enabled True w)"

definition disable_safe_mode :: "world \<Rightarrow> bool res \<times> world" where
  "disable_safe_mode w =
     (if env_forced_on w then (Inl (HTTPException 409 ''Safe mode forced by env''), w)
      else (Inr False, set_safe_mode_enabled False w))"

lemma is_safe_mode_cong:
  "w_env w' = w_env w \<Longrightarrow> w_safe w' = w_safe w \<Longrightarrow> is_safe_mode_enabled w' = is_safe_mode_enabled w"
  by (simp add: is_safe_mode_enabled_def env_forced_on_def getenv_def)

lemma permissions_policy_cong:
  "w_env w' = w_env w \<Longrightarrow> w_overrides w' = w_overrides w \<Longrightarrow> permissions_policy w' = permissions_policy w"
  by (simp add: permissions_policy_def env_policy_def overrides_load_def getenv_def Let_def)

subsection \<open>The policy API\<close>

definition known_scope :: "string \<Rightarrow> bool" where
  "known_scope s \<longleftrightarrow> s \<in> set ALL_SCOPES"

definition sorted_set :: "string list \<Rightarrow> string list" where
  "sorted_set xs = sort (remdups xs)"

definition validate_scopes :: "string list \<Rightarrow> string list res" where
  "validate_scopes scopes =
     (let unknown = sorted_set (filter (\<lambda>s. \<not> known_scope s) scopes)
      in if unknown \<noteq> [] then Inl (HTTPException 400 (''unknown scopes: '' @ join '','' unknown))
         else Inr (sorted_set scopes))"

text \<open>
  \<open>set(v)\<close> of a stored value, as far as the canonical scopes go: a list gives its items
  (an unhashable item raises), a text its characters and an object its keys; a
  value that cannot be iterated raises \<open>TypeError\<close>.
\<close>

fun hashable :: "json \<Rightarrow> bool" where
  "hashable (JList xs) = False"
| "hashable (JDict d) = False"
| "hashable j = True"

definition scope_items :: "json \<Rightarrow> string list res" where
  "scope_items v =
     (case v of
        JList xs \<Rightarrow> (if list_all hashable xs then Inr (str_items xs) else Inl (TypeError ''unhashable type''))
      | JStr s \<Rightarrow> Inr (map (\<lambda>c. [c]) s)
      | JDict d \<Rightarrow> Inr (map fst d)
      | _ \<Rightarrow> Inl (TypeError ''object is not iterable''))"

definition guard_overrides :: "policy \<Rightarrow> exc option" where
  "guard_overrides p = (if po_overrides_enabled p then None
     else Some (HTTPException 409 ''policy overrides are disabled (env controlled)''))"

definition enable_scopes :: "string list \<Rightarrow> world \<Rightarrow> policy res \<times> world" where
  "enable_scopes payload w =
     (case validate_scopes payload of
        Inl e \<Rightarrow> (Inl e, w)
      | Inr scopes \<Rightarrow>
          (let p = permissions_policy w
           in case guard_overrides p of
                Some e \<Rightarrow> (Inl e, w)
              | None \<Rightarrow>
                  (let overrides = overrides_load w
                   in case (case map_of overrides ''scopes_enabled'' of None \<Rightarrow> Inr [] | Some v \<Rightarrow> scope_items v) of
                        Inl e \<Rightarrow> (Inl e, w)
                      | Inr current \<Rightarrow>
                          (let enabled = sorted_set (filter known_scope (current @ scopes));
                               d1 = AList.update ''scopes_enabled'' (jstrs enabled) overrides;
                               d2 = setdefault ''rules_allowed_scopes'' (jstrs (sn_rules_allowed (snapshot_model p))) d1;
                               w' = overrides_save d2 w
                           in (Inr (permissions_policy w'), w')))))"

definition disable_scopes :: "string list \<Rightarrow> world \<Rightarrow> policy res \<times> world" where
  "disable_scopes payload w =
     (case validate_scopes payload of
        Inl e \<Rightarrow> (Inl e, w)
      | Inr scopes \<Rightarrow>
          (let p = permissions_policy w
           in case guard_overrides p of
                Some e \<Rightarrow> (Inl e, w)
              | None \<Rightarrow>
                  (let overrides = overrides_load w
                   in case (case map_of overrides ''scopes_enabled'' of
                              None \<Rightarrow> Inr (sorted_list_of_set (po_explicit p)) | Some v \<Rightarrow> scope_items v) of
                        Inl e \<Rightarrow> (Inl e, w)
                      | Inr current \<Rightarrow>
                          (let remaining = sorted_set (filter (\<lambda>s. known_scope s \<and> s \<notin> set scopes) current);
                               d1 = AList.update ''scopes_enabled'' (jstrs remaining) overrides;
                               d2 = setdefault ''rules_allowed_scopes'' (jstrs (sn_rules_allowed (snapshot_model p))) d1;
                               w' = overrides_save d2 w
                           in (Inr (permissions_policy w'), w')))))"

definition put_rules_allowed :: "policy \<Rightarrow> string list \<Rightarrow> world \<Rightarrow> policy res \<times> world" where
  "put_rules_allowed p scopes w =
     (let d1 = AList.update ''rules_allowed_scopes'' (jstrs scopes) (overrides_load w);
          d2 = setdefault ''scopes_enabled'' (jstrs (sorted_list_of_set (po_explicit p))) d1;
          w' = overrides_save d2 w
      in (Inr (permissions_policy w'), w'))"

definition set_rules_allowed_scopes :: "string list \<Rightarrow> world \<Rightarrow> policy res \<times> world" where
  "set_rules_allowed_scopes payload w =
     (case validate_scopes payload of
        Inl e \<Rightarrow> (Inl e, w)
      | Inr scopes \<Rightarrow>
          (let p = permissions_policy w
           in case guard_overrides p of Some e \<Rightarrow> (Inl e, w) | None \<Rightarrow> put_rules_allowed p scopes w))"

definition reset_rules_allowed_scopes :: "world \<Rightarrow> policy res \<times> world" where
  "reset_rules_allowed_scopes w =
     (let p = permissions_policy w
      in case guard_overrides p of
           Some e \<Rightarrow> (Inl e, w)
         | None \<Rightarrow> put_rules_allowed p (sorted_list_of_set DEFAULT_RULES_ALLOWED_SCOPES) w)"

subsection \<open>What the policy API changes\<close>

lemma finite_parse_csv [simp]: "finite (parse_csv raw)"
  by (simp add: parse_csv_def)

lemma finite_policy_sets [simp]:
  "finite (po_explicit (permissions_policy w))" "finite (po_rules_allowed (permissions_policy w))"
  by (auto simp: permissions_policy_def env_policy_def apply_overrides_def override_scopes_def
      DEFAULT_RULES_ALLOWED_SCOPES_def Let_def split: option.splits json.splits)

lemma set_sorted_set [simp]: "set (sorted_set xs) = set xs"
  by (simp add: sorted_set_def)

lemma str_items_jstrs [simp]: "str_items (map JStr xs) = xs"
  by (induction xs) auto

lemma scope_items_jstrs [simp]: "scope_items (jstrs xs) = Inr xs"
  by (simp add: scope_items_def jstrs_def list_all_iff)

lemma map_of_update_str: "map_of (AList.update k v d) k' = (if k' = k then Some v else map_of d k')"
  by (simp add: update_conv')

text \<open>The policy read after a saved override file.\<close>

lemma policy_after_save:
  "po_overrides_enabled (env_policy w) \<Longrightarrow>
   permissions_policy (overrides_save d w) = apply_overrides d (env_policy w)"
proof -
  have "env_policy (overrides_save d w) = env_policy w"
    by (simp add: env_policy_def overrides_save_def getenv_def Let_def)
  moreover have "overrides_load (overrides_save d w) = d"
    by (simp add: overrides_load_def overrides_save_def)
  ultimately show "po_overrides_enabled (env_policy w) \<Longrightarrow> ?thesis"
    by (simp add: permissions_policy_def Let_def)
qed

lemma overrides_load_save: "overrides_load (overrides_save d w) = d"
  by (simp add: overrides_load_def overrides_save_def)

lemma policy_overrides_flag: "po_overrides_enabled (permissions_policy w) = po_overrides_enabled (env_policy w)"
  by (simp add: permissions_policy_def apply_overrides_def Let_def)

lemma policy_mode: "po_mode (permissions_policy w) = po_mode (env_policy w)"
  by (simp add: permissions_policy_def apply_overrides_def Let_def)

lemma validate_scopes_ok: "validate_scopes payload = Inr scopes \<Longrightarrow>
    set scopes = set payload \<and> set payload \<subseteq> set ALL_SCOPES"
proof -
  assume v: "validate_scopes payload = Inr scopes"
  then have "sorted_set (filter (\<lambda>s. \<not> known_scope s) payload) = []"
    by (auto simp: validate_scopes_def Let_def split: if_splits)
  then have "set (sorted_set (filter (\<lambda>s. \<not> known_scope s) payload)) = {}" by simp
  then show ?thesis using v
    by (auto simp: validate_scopes_def Let_def known_scope_def split: if_splits)
qed

text \<open>A saved list of scopes is read back, restricted to the known ones.\<close>

lemma override_scopes_jstrs:
  "map_of d k = Some (jstrs xs) \<Longrightarrow> override_scopes k d = Some (set xs \<inter> set ALL_SCOPES)"
  by (simp add: override_scopes_def jstrs_def)

lemma apply_overrides_explicit:
  "map_of d ''scopes_enabled'' = Some (jstrs xs) \<Longrightarrow>
   po_explicit (apply_overrides d p) = set xs \<inter> set ALL_SCOPES"
  by (simp add: apply_overrides_def override_scopes_jstrs)

lemma apply_overrides_rules:
  "map_of d ''rules_allowed_scopes'' = Some (jstrs xs) \<Longrightarrow>
   po_rules_allowed (apply_overrides d p) = set xs \<inter> set ALL_SCOPES"
  by (simp add: apply_overrides_def override_scopes_jstrs)

lemma apply_overrides_mode [simp]: "po_mode (apply_overrides d p) = po_mode p"
  by (simp add: apply_overrides_def)

definition stored_list :: "string \<Rightarrow> world \<Rightarrow> bool" where
  \<comment> \<open>the override file has no such key, or a list under it\<close>
  "stored_list k w = (case map_of (overrides_load w) k of Some (JList xs) \<Rightarrow> True | None \<Rightarrow> True | _ \<Rightarrow> False)"

lemma scope_items_explicit:
  assumes "map_of (overrides_load w) ''scopes_enabled'' = Some v" and "scope_items v = Inr current"
    and "stored_list ''scopes_enabled'' w" and "po_overrides_enabled (env_policy w)"
  shows "set current \<inter> set ALL_SCOPES = po_explicit (permissions_policy w)"
proof -
  obtain xs where "v = JList xs"
    using assms(1,3) by (auto simp: stored_list_def split: json.splits)
  then have "set current = set (str_items xs)"
    using assms(2) by (auto simp: scope_items_def split: if_splits)
  then show ?thesis
    using assms \<open>v = JList xs\<close>
    by (simp add: permissions_policy_def Let_def apply_overrides_def override_scopes_def)
qed

lemma guard_overrides_None [simp]: "guard_overrides p = None \<longleftrightarrow> po_overrides_enabled p"
  by (simp add: guard_overrides_def)

lemma disable_scopes_ok:
  assumes "disable_scopes payload w = (Inr p', w')"
  obtains scopes current d2 where "validate_scopes payload = Inr scopes"
    and "po_overrides_enabled (env_policy w)"
    and "(case map_of (overrides_load w) ''scopes_enabled'' of
            None \<Rightarrow> Inr (sorted_list_of_set (po_explicit (permissions_policy w))) | Some v \<Rightarrow> scope_items v) = Inr current"
    and "map_of d2 ''scopes_enabled'' = Some (jstrs (sorted_set (filter (\<lambda>s. known_scope s \<and> s \<notin> set scopes) current)))"
    and "w' = overrides_save d2 w" and "p' = permissions_policy w'"
proof -
  obtain scopes where v: "validate_scopes payload = Inr scopes"
    using assms by (auto simp: disable_scopes_def split: sum.splits)
  have on: "po_overrides_enabled (env_policy w)"
    using assms v by (cases "guard_overrides (permissions_policy w)")
      (simp_all add: disable_scopes_def Let_def policy_overrides_flag)
  then have g: "guard_overrides (permissions_policy w) = None" by (simp add: policy_overrides_flag)
  let ?cur = "case map_of (overrides_load w) ''scopes_enabled'' of
            None \<Rightarrow> Inr (sorted_list_of_set (po_explicit (permissions_policy w))) | Some v \<Rightarrow> scope_items v"
  obtain current where c: "?cur = Inr current"
    using assms by (cases ?cur) (simp_all add: disable_scopes_def v g Let_def)
  let ?d1 = "AList.update ''scopes_enabled''
        (jstrs (sorted_set (filter (\<lambda>s. known_scope s \<and> s \<notin> set scopes) current))) (overrides_load w)"
  let ?d2 = "setdefault ''rules_allowed_scopes''
        (jstrs (sn_rules_allowed (snapshot_model (permissions_policy w)))) ?d1"
  have "w' = overrides_save ?d2 w \<and> p' = permissions_policy w'"
    using assms by (auto simp: disable_scopes_def v g c Let_def)
  moreover have "map_of ?d2 ''scopes_enabled'' =
      Some (jstrs (sorted_set (filter (\<lambda>s. known_scope s \<and> s \<notin> set scopes) current)))"
    by (simp add: map_of_setdefault map_of_update_str)
  ultimately show thesis using that v on c by blast
qed

text \<open>Disabling scopes removes exactly the named scopes from the explicit set.\<close>

theorem disable_scopes_effect:
  assumes "disable_scopes payload w = (Inr p', w')" and "stored_list ''scopes_enabled'' w"
  shows "p' = permissions_policy w' \<and> po_mode p' = po_mode (permissions_policy w)
    \<and> po_explicit p' = (po_explicit (permissions_policy w) \<inter> set ALL_SCOPES) - set payload"
proof -
  from disable_scopes_ok [OF assms(1)] obtain scopes current d2
    where v: "validate_scopes payload = Inr scopes" and on: "po_overrides_enabled (env_policy w)"
      and c: "(case map_of (overrides_load w) ''scopes_enabled'' of
            None \<Rightarrow> Inr (sorted_list_of_set (po_explicit (permissions_policy w))) | Some v \<Rightarrow> scope_items v) = Inr current"
      and d2: "map_of d2 ''scopes_enabled'' = Some (jstrs (sorted_set (filter (\<lambda>s. known_scope s \<and> s \<notin> set scopes) current)))"
      and w': "w' = overrides_save d2 w" "p' = permissions_policy w'"
    by blast
  have "set current \<inter> set ALL_SCOPES = po_explicit (permissions_policy w) \<inter> set ALL_SCOPES"
    using c scope_items_explicit [OF _ _ assms(2) on] by (auto split: option.splits)
  then have "po_explicit p' = (po_explicit (permissions_policy w) \<inter> set ALL_SCOPES) - set payload"
    using validate_scopes_ok [OF v] w' on
    by (auto simp: policy_after_save apply_overrides_explicit [OF d2] known_scope_def)
  then show ?thesis using w' on by (simp add: policy_after_save policy_mode)
qed

theorem disable_scopes_effect_witness:
  "\<exists>p' w'. disable_scopes [''gmail.send'']
      (overrides_save [(''scopes_enabled'', jstrs [''gmail.send'', ''calendar.write''])] (empty_world 0)) = (Inr p', w')
    \<and> po_explicit p' = {''calendar.write''}"
proof -
  let ?w = "overrides_save [(''scopes_enabled'', jstrs [''gmail.send'', ''calendar.write''])] (empty_world 0)"
  have "stored_list ''scopes_enabled'' ?w"
    by (simp add: stored_list_def overrides_load_def overrides_save_def jstrs_def)
  moreover have on: "po_overrides_enabled (env_policy ?w)"
    by (simp add: env_policy_def overrides_save_def getenv_def empty_world_def Let_def) code_simp
  moreover have "po_explicit (permissions_policy ?w) = {''gmail.send'', ''calendar.write''}"
    using on by (simp add: permissions_policy_def overrides_load_def overrides_save_def apply_overrides_def
        override_scopes_def jstrs_def Let_def) (auto simp: ALL_SCOPES_def WRITE_SCOPES_def)
  moreover have g: "guard_overrides (permissions_policy ?w) = None" using on by (simp add: policy_overrides_flag)
  moreover obtain p' w' where "disable_scopes [''gmail.send''] ?w = (Inr p', w')"
    by (simp add: g disable_scopes_def validate_scopes_def known_scope_def ALL_SCOPES_def WRITE_SCOPES_def
        sorted_set_def Let_def overrides_load_save)
  ultimately show ?thesis
    using disable_scopes_effect [of "[''gmail.send'']" ?w p' w']
    by (auto simp: ALL_SCOPES_def WRITE_SCOPES_def)
qed

lemma enable_scopes_ok:
  assumes "enable_scopes payload w = (Inr p', w')"
  obtains scopes current d2 where "validate_scopes payload = Inr scopes"
    and "po_overrides_enabled (env_policy w)"
    and "(case map_of (overrides_load w) ''scopes_enabled'' of None \<Rightarrow> Inr [] | Some v \<Rightarrow> scope_items v) = Inr current"
    and "map_of d2 ''scopes_enabled'' = Some (jstrs (sorted_set (filter known_scope (current @ scopes))))"
    and "w' = overrides_save d2 w" and "p' = permissions_policy w'"
proof -
  obtain scopes where v: "validate_scopes payload = Inr scopes"
    using assms by (auto simp: enable_scopes_def split: sum.splits)
  have on: "po_overrides_enabled (env_policy w)"
    using assms v by (cases "guard_overrides (permissions_policy w)")
      (simp_all add: enable_scopes_def Let_def policy_overrides_flag)
  then have g: "guard_overrides (permissions_policy w) = None" by (simp add: policy_overrides_flag)
  let ?cur = "case map_of (overrides_load w) ''scopes_enabled'' of None \<Rightarrow> Inr [] | Some v \<Rightarrow> scope_items v"
  obtain current where c: "?cur = Inr current"
    using assms by (cases ?cur) (simp_all add: enable_scopes_def v g Let_def)
  let ?d1 = "AList.update ''scopes_enabled'' (jstrs (sorted_set (filter known_scope (current @ scopes)))) (overrides_load w)"
  let ?d2 = "setdefault ''rules_allowed_scopes''
        (jstrs (sn_rules_allowed (snapshot_model (permissions_policy w)))) ?d1"
  have "w' = overrides_save ?d2 w \<and> p' = permissions_policy w'"
    using assms by (auto simp: enable_scopes_def v g c Let_def)
  moreover have "map_of ?d2 ''scopes_enabled'' = Some (jstrs (sorted_set (filter known_scope (current @ scopes))))"
    by (simp add: map_of_setdefault map_of_update_str)
  ultimately show thesis using that v on c by blast
qed

text \<open>
  Enabling scopes adds them to the scopes of the override file. When the file names
  none, the scopes enabled by the environment are dropped: only the named ones remain.
\<close>

theorem enable_scopes_effect:
  assumes "enable_scopes payload w = (Inr p', w')" and "stored_list ''scopes_enabled'' w"
  shows "p' = permissions_policy w' \<and> po_mode p' = po_mode (permissions_policy w)
    \<and> po_explicit p' = set payload \<union>
        (if map_of (overrides_load w) ''scopes_enabled'' = None then {} else po_explicit (permissions_policy w))"
proof -
  from enable_scopes_ok [OF assms(1)] obtain scopes current d2
    where v: "validate_scopes payload = Inr scopes" and on: "po_overrides_enabled (env_policy w)"
      and c: "(case map_of (overrides_load w) ''scopes_enabled'' of None \<Rightarrow> Inr [] | Some v \<Rightarrow> scope_items v) = Inr current"
      and d2: "map_of d2 ''scopes_enabled'' = Some (jstrs (sorted_set (filter known_scope (current @ scopes))))"
      and w': "w' = overrides_save d2 w" "p' = permissions_policy w'"
    by blast
  have "set current \<inter> set ALL_SCOPES =
      (if map_of (overrides_load w) ''scopes_enabled'' = None then {} else po_explicit (permissions_policy w))"
    using c scope_items_explicit [OF _ _ assms(2) on] by (auto split: option.splits)
  then have "po_explicit p' = set payload \<union>
      (if map_of (overrides_load w) ''scopes_enabled'' = None then {} else po_explicit (permissions_policy w))"
    using validate_scopes_ok [OF v] w' on
    by (auto simp: policy_after_save apply_overrides_explicit [OF d2] known_scope_def)
  then show ?thesis using w' on by (simp add: policy_after_save policy_mode)
qed

theorem enable_scopes_effect_witness:
  "\<exists>p' w'. enable_scopes [''gmail.send'']
      (empty_world 0\<lparr>w_env := [''BENJAMIN_SCOPES_ENABLED'' \<mapsto> ''calendar.write'']\<rparr>) = (Inr p', w')
    \<and> po_explicit p' = {''gmail.send''}"
proof -
  let ?w = "empty_world 0\<lparr>w_env := [''BENJAMIN_SCOPES_ENABLED'' \<mapsto> ''calendar.write'']\<rparr>"
  have l: "overrides_load ?w = []" by (simp add: overrides_load_def empty_world_def)
  have on: "po_overrides_enabled (env_policy ?w)"
    by (simp add: env_policy_def getenv_def empty_world_def Let_def) code_simp
  have g: "guard_overrides (permissions_policy ?w) = None" using on by (simp add: policy_overrides_flag)
  obtain p' w' where "enable_scopes [''gmail.send''] ?w = (Inr p', w')"
    by (simp add: g enable_scopes_def validate_scopes_def known_scope_def ALL_SCOPES_def WRITE_SCOPES_def
        sorted_set_def Let_def l)
  then show ?thesis
    using enable_scopes_effect [of "[''gmail.send'']" ?w p' w'] l
    by (auto simp: stored_list_def)
qed

end
