(* ===== verification/Skills.thy ===== *)
theory Skills
  imports Policy
begin

section \<open>Skills and their registry\<close>

text \<open>
  \<open>core/skills/base.py\<close> and \<open>registry.py\<close>: a skill is its name, its side effect, the
  scopes it needs, and a \<open>run\<close> that takes the argument text, may raise, and may change
  the state. \<open>run\<close> is a parameter of every theorem about the callers. The trace of one
  task (\<open>core/observability/trace.py\<close>) is here too.
\<close>

record skill =
  sk_name :: string
  sk_side_effect :: "string option"
  sk_scopes :: "string list"
  sk_run :: "string \<Rightarrow> world \<Rightarrow> string res \<times> world"

type_synonym registry = "skill dict"

text \<open>\<open>getattr(skill, "side_effect", "read")\<close>.\<close>

definition side_effect :: "skill \<Rightarrow> string" where
  "side_effect s = (case sk_side_effect s of None \<Rightarrow> ''read'' | Some e \<Rightarrow> e)"

definition is_write :: "skill \<Rightarrow> bool" where
  "is_write s \<longleftrightarrow> side_effect s = ''write''"

definition register :: "skill \<Rightarrow> registry \<Rightarrow> registry" where
  "register s reg =
     (let s1 = s\<lparr>sk_side_effect := Some (side_effect s)\<rparr>;
          s2 = (if sk_scopes s1 = []
                then s1\<lparr>sk_scopes := default_scopes_for_skill (sk_name s1) (side_effect s1)\<rparr> else s1)
      in AList.update (sk_name s2) s2 reg)"

definition registry_get :: "registry \<Rightarrow> string \<Rightarrow> skill res" where
  "registry_get reg name = (case map_of reg name of None \<Rightarrow> Inl (KeyError name) | Some s \<Rightarrow> Inr s)"

definition registry_names :: "registry \<Rightarrow> string list" where
  "registry_names reg = sort (map fst reg)"

text \<open>Registered skills: filed under their own name, with at least one scope.\<close>

definition registry_ok :: "registry \<Rightarrow> bool" where
  "registry_ok reg \<longleftrightarrow> distinct (map fst reg) \<and> (\<forall>(n, s)\<in>set reg. sk_name s = n \<and> sk_scopes s \<noteq> [])"

lemma set_alist_update: "x \<in> set (AList.update k t al) \<Longrightarrow> x = (k, t) \<or> x \<in> set al"
  by (induction al) (auto split: if_splits)

lemma registry_ok_update:
  assumes "registry_ok reg" and "sk_name t = k" and "sk_scopes t \<noteq> []"
  shows "registry_ok (AList.update k t reg)"
  unfolding registry_ok_def
proof
  show "distinct (map fst (AList.update k t reg))"
    using assms(1) by (simp add: registry_ok_def distinct_update)
  show "\<forall>(n, s)\<in>set (AList.update k t reg). sk_name s = n \<and> sk_scopes s \<noteq> []"
  proof
    fix x assume "x \<in> set (AList.update k t reg)"
    then have "x = (k, t) \<or> x \<in> set reg" by (rule set_alist_update)
    then show "case x of (n, s) \<Rightarrow> sk_name s = n \<and> sk_scopes s \<noteq> []"
      using assms unfolding registry_ok_def by (cases x) auto
  qed
qed

definition as_registered :: "skill \<Rightarrow> skill" where
  "as_registered s =
     s\<lparr>sk_side_effect := Some (side_effect s),
       sk_scopes := (if sk_scopes s = [] then default_scopes_for_skill (sk_name s) (side_effect s) else sk_scopes s)\<rparr>"

lemma side_effect_some: "side_effect (s\<lparr>sk_side_effect := Some e\<rparr>) = e"
  by (simp add: side_effect_def)

lemma register_eq: "register s reg = AList.update (sk_name s) (as_registered s) reg"
  by (simp add: register_def as_registered_def Let_def side_effect_some)

lemma as_registered_simps [simp]:
  "sk_name (as_registered s) = sk_name s" "sk_run (as_registered s) = sk_run s"
  "side_effect (as_registered s) = side_effect s" "sk_scopes (as_registered s) \<noteq> []"
  by (simp_all add: as_registered_def side_effect_def default_scopes_nonempty)

lemma registry_ok_register: "registry_ok reg \<Longrightarrow> registry_ok (register s reg)"
  by (simp add: register_eq registry_ok_update)

lemma registry_get_register:
  "registry_get (register s reg) n = (if n = sk_name s then Inr (as_registered s) else registry_get reg n)"
  by (simp add: registry_get_def register_eq update_conv')

interpretation skills: readable_store "\<lambda>reg n. map_of reg n" register sk_name as_registered
  by unfold_locales (simp_all add: register_eq update_conv')

subsection \<open>Traces\<close>

record trace =
  tr_task_id :: "string option"
  tr_corr :: "string option"
  tr_events :: "trace_event list"

definition emit :: "string \<Rightarrow> json dict \<Rightarrow> trace \<Rightarrow> trace" where
  "emit name payload tr =
     (let p1 = (if str_or (tr_task_id tr) [] \<noteq> [] then setdefault ''task_id'' (JStr (str_or (tr_task_id tr) [])) payload
                else payload);
          p2 = (if str_or (tr_corr tr) [] \<noteq> [] then setdefault ''correlation_id'' (JStr (str_or (tr_corr tr) [])) p1
                else p1)
      in tr\<lparr>tr_events := tr_events tr @ [(name, p2)]\<rparr>)"

end
