(* ===== verification/Approvals.thy ===== *)
theory Approvals
  imports Skills
begin

section \<open>Approvals: the store and the creation of requests\<close>

text \<open>
  \<open>core/approvals/store.py\<close> (the JSONL file of pending approvals) and the half of
  \<open>core/approvals/service.py\<close> that does not execute anything: \<open>create_pending\<close>,
  \<open>is_expired\<close>, \<open>cleanup_expired\<close> and \<open>_persist_or_clean\<close>.
\<close>

subsection \<open>The store\<close>

definition approvals :: "world \<Rightarrow> approval list" where
  "approvals w = load_rows (w_approvals w)"

text \<open>\<open>sorted(xs, key=k, reverse=True)\<close> keeps the order of equal elements.\<close>

definition sorted_desc :: "('a \<Rightarrow> 'k::linorder) \<Rightarrow> 'a list \<Rightarrow> 'a list" where
  "sorted_desc k xs = rev (sort_key k (rev xs))"

definition approvals_list_all :: "approval_status option \<Rightarrow> world \<Rightarrow> approval list" where
  "approvals_list_all status w =
     sorted_desc ap_created
       (case status of None \<Rightarrow> approvals w | Some s \<Rightarrow> filter (\<lambda>r. ap_status r = s) (approvals w))"

definition approval_get :: "string \<Rightarrow> world \<Rightarrow> approval option" where
  "approval_get i w = rows_find ap_id (w_approvals w) i"

definition approval_corr_match :: "string \<Rightarrow> approval \<Rightarrow> bool" where
  "approval_corr_match corr r \<longleftrightarrow>
     corr \<in> {meta_str ''correlation_id'' (ap_requester r), meta_str ''correlation_id'' (ap_context r)}"

definition approvals_find_by_correlation :: "string \<Rightarrow> int \<Rightarrow> world \<Rightarrow> approval list" where
  "approvals_find_by_correlation corr limit w =
     (if limit \<le> 0 then [] else scan_matches (approval_corr_match corr) limit [] (approvals_list_all None w))"

definition approval_upsert :: "approval \<Rightarrow> world \<Rightarrow> world" where
  "approval_upsert r w = w\<lparr>w_approvals := rows_upsert ap_id r (w_approvals w)\<rparr>"

definition approval_delete :: "string \<Rightarrow> world \<Rightarrow> world" where
  "approval_delete i w = w\<lparr>w_approvals := rows_delete ap_id i (w_approvals w)\<rparr>"

definition autoclean :: "world \<Rightarrow> bool" where
  "autoclean w \<longleftrightarrow> casefold (getenv ''BENJAMIN_APPROVALS_AUTOCLEAN'' ''on'' w) \<noteq> ''off''"

interpretation approval_store: keyed_store "\<lambda>w i. approval_get i w" approval_upsert ap_id "\<lambda>r. r" approval_delete
  by unfold_locales
    (simp_all add: approval_get_def approval_upsert_def approval_delete_def rows_find_upsert rows_find_delete)

definition approval_ids_distinct :: "world \<Rightarrow> bool" where
  "approval_ids_distinct w \<longleftrightarrow> distinct (map ap_id (approvals w))"

lemma approvals_upsert [simp]:
  "approvals (approval_upsert r w) = upsert_first (\<lambda>x. ap_id x = ap_id r) r (approvals w)"
  by (simp add: approvals_def approval_upsert_def)

lemma approvals_delete [simp]: "approvals (approval_delete i w) = filter (\<lambda>x. ap_id x \<noteq> i) (approvals w)"
  by (simp add: approvals_def approval_delete_def)

lemma approval_frames [simp, frames]:
  "w_env (approval_upsert r w) = w_env w" "w_env (approval_delete i w) = w_env w"
  "w_ledger (approval_upsert r w) = w_ledger w" "w_ledger (approval_delete i w) = w_ledger w"
  "w_episodic (approval_upsert r w) = w_episodic w" "w_episodic (approval_delete i w) = w_episodic w"
  "w_safe (approval_upsert r w) = w_safe w" "w_safe (approval_delete i w) = w_safe w"
  "w_overrides (approval_upsert r w) = w_overrides w" "w_overrides (approval_delete i w) = w_overrides w"
  "w_now (approval_upsert r w) = w_now w" "w_now (approval_delete i w) = w_now w"
  "w_uuids (approval_upsert r w) = w_uuids w" "w_uuids (approval_delete i w) = w_uuids w"
  "w_corr (approval_upsert r w) = w_corr w" "w_corr (approval_delete i w) = w_corr w"
  by (simp_all add: approval_upsert_def approval_delete_def)

subsection \<open>Expiry\<close>

definition invalid_iso :: "string \<Rightarrow> exc" where
  "invalid_iso s = ValueError (''Invalid isoformat string: '' @ py_repr_str s)"

fun iso_datetime :: "iso \<Rightarrow> datetime res" where
  "iso_datetime (Iso d) = Inr d"
| "iso_datetime (NotIso s) = Inl (invalid_iso s)"

definition is_expired :: "approval \<Rightarrow> datetime \<Rightarrow> bool res" where
  "is_expired r now = (case iso_datetime (ap_expires r) of Inl e \<Rightarrow> Inl e | Inr d \<Rightarrow> dt_le d now)"

text \<open>
  The loop of \<open>cleanup_expired\<close>: it counts the pending records that have expired and
  keeps the others, marking the expired ones when they are not cleaned away.
\<close>

fun cleanup_loop :: "bool \<Rightarrow> datetime \<Rightarrow> approval list \<Rightarrow> nat \<Rightarrow> approval list \<Rightarrow> (nat \<times> approval list) res" where
  "cleanup_loop ac now [] changed out = Inr (changed, out)"
| "cleanup_loop ac now (r # rs) changed out =
     (if ap_status r = Pending then
        (case is_expired r now of
           Inl e \<Rightarrow> Inl e
         | Inr True \<Rightarrow> cleanup_loop ac now rs (Suc changed) (if ac then out else out @ [r\<lparr>ap_status := Expired\<rparr>])
         | Inr False \<Rightarrow> cleanup_loop ac now rs changed (out @ [r]))
      else cleanup_loop ac now rs changed (out @ [r]))"

definition cleanup_expired :: "world \<Rightarrow> nat res \<times> world" where
  "cleanup_expired w =
     (case cleanup_loop (autoclean w) (Aware (w_now w)) (approvals w) 0 [] of
        Inl e \<Rightarrow> (Inl e, w)
      | Inr (changed, out) \<Rightarrow>
          (Inr changed, if changed \<noteq> 0 then w\<lparr>w_approvals := write_rows out\<rparr> else w))"

subsection \<open>Creation\<close>

definition hours :: "int \<Rightarrow> int" where
  "hours n = n * 3600 * 10 ^ 6"

text \<open>
  The instants of a \<open>datetime\<close>: from the year 1 to the end of the year 9999. A sum outside
  them, or a \<open>timedelta\<close> too long for the type, is an \<open>OverflowError\<close>; its messages are
  not told apart.
\<close>

definition in_calendar :: "int \<Rightarrow> bool" where
  "in_calendar t \<longleftrightarrow> - 62135596800 * 10 ^ 6 \<le> t \<and> t < 253402300800 * 10 ^ 6"

text \<open>\<open>str(requester.get("correlation_id") or correlation_id_var.get() or uuid4())\<close>.\<close>

definition correlation_of :: "json dict \<Rightarrow> world \<Rightarrow> string \<times> world" where
  "correlation_of requester w =
     (if truthy (jget ''correlation_id'' requester) then (py_str (jget ''correlation_id'' requester), w)
      else if str_or (w_corr w) [] \<noteq> [] then (str_or (w_corr w) [], w)
      else uuid4 w)"

definition effective_scopes :: "string list \<Rightarrow> skill \<Rightarrow> string list" where
  "effective_scopes required_scopes skill =
     (let scopes = (if required_scopes \<noteq> [] then required_scopes else sk_scopes skill)
      in if scopes \<noteq> [] then scopes else default_scopes_for_skill (sk_name skill) (side_effect skill))"

lemma effective_scopes_nonempty: "effective_scopes req s \<noteq> []"
  by (simp add: effective_scopes_def Let_def default_scopes_nonempty)

definition create_pending ::
  "plan_step \<Rightarrow> context_pack \<Rightarrow> json dict \<Rightarrow> string \<Rightarrow> registry \<Rightarrow> string list \<Rightarrow> world \<Rightarrow> approval res \<times> world" where
  "create_pending step ctx requester rationale registry required_scopes w =
     (if str_or (ps_skill step) [] = [] then (Inl (ValueError ''approval requires a skill step''), w)
      else if is_safe_mode_enabled w then (Inl (ValueError ''safe_mode_denied''), w)
      else case registry_get registry (str_or (ps_skill step) []) of
        Inl e \<Rightarrow> (Inl e, w)
      | Inr skill \<Rightarrow>
          if \<not> is_write skill then (Inl (ValueError ''approval can only be created for write skills''), w)
          else
            let active_policy = permissions_policy w;
                scopes = effective_scopes required_scopes skill;
                (scopes_ok, disabled) = check_scopes active_policy scopes
            in if \<not> scopes_ok then (Inl (ValueError (''policy_denied:'' @ join '','' disabled)), w)
               else case py_int (getenv ''BENJAMIN_APPROVALS_TTL_HOURS'' ''72'' w) of
                 None \<Rightarrow> (Inl (ValueError ''invalid literal for int() with base 10''), w)
               | Some ttl_hours \<Rightarrow>
                   let (corr, w1) = correlation_of requester w;
                       enriched = setdefault ''correlation_id'' (JStr corr) requester;
                       (i, w2) = uuid4 w1;
                       expires = w_now w + hours ttl_hours;
                       r = \<lparr>ap_id = i, ap_created = isoformat (Aware (w_now w)),
                            ap_expires = isoformat (Aware expires),
                            ap_status = Pending, ap_requester = enriched, ap_step = step,
                            ap_context = [(''cwd'', case cp_cwd ctx of None \<Rightarrow> JNull | Some c \<Rightarrow> JStr c),
                                          (''goal'', JStr (cp_goal ctx))],
                            ap_rationale = rationale, ap_result = None, ap_error = None,
                            ap_scopes = scopes, ap_snapshot = Some (snapshot_model active_policy),
                            ap_snapshot_at_approve = None\<rparr>
                   in if \<not> in_calendar expires then (Inl (OverflowError ''date value out of range''), w2)
                      else (Inr r, approval_upsert r w2))"

definition persist_or_clean :: "approval \<Rightarrow> world \<Rightarrow> world" where
  "persist_or_clean r w =
     (if autoclean w \<and> ap_status r \<in> {Approved, Rejected, Expired} then approval_delete (ap_id r) w
      else approval_upsert r w)"

lemma persist_or_clean_get:
  "approval_get k (persist_or_clean r w) =
     (if k \<noteq> ap_id r then approval_get k w
      else if autoclean w \<and> ap_status r \<noteq> Pending then None else Some r)"
proof -
  have "ap_status r \<in> {Approved, Rejected, Expired} \<longleftrightarrow> ap_status r \<noteq> Pending"
    by (cases "ap_status r") auto
  then show ?thesis
    by (simp add: persist_or_clean_def approval_store.lookup_put approval_store.lookup_del)
qed

lemma persist_or_clean_frames [simp, frames]:
  "w_env (persist_or_clean r w) = w_env w" "w_ledger (persist_or_clean r w) = w_ledger w"
  "w_episodic (persist_or_clean r w) = w_episodic w" "w_safe (persist_or_clean r w) = w_safe w"
  "w_overrides (persist_or_clean r w) = w_overrides w" "w_now (persist_or_clean r w) = w_now w"
  "w_uuids (persist_or_clean r w) = w_uuids w" "w_corr (persist_or_clean r w) = w_corr w"
  by (simp_all add: persist_or_clean_def)

subsection \<open>What the cleanup removes\<close>

definition lapsed :: "int \<Rightarrow> approval \<Rightarrow> bool" where
  "lapsed now r \<longleftrightarrow> ap_status r = Pending \<and> (\<exists>t\<le>now. ap_expires r = Iso (Aware t))"

definition readable_expiry :: "approval \<Rightarrow> bool" where
  "readable_expiry r \<longleftrightarrow> (\<exists>t. ap_expires r = Iso (Aware t))"

lemma is_expired_lapsed:
  "ap_status r = Pending \<Longrightarrow> readable_expiry r \<Longrightarrow> is_expired r (Aware now) = Inr (lapsed now r)"
  by (auto simp: readable_expiry_def is_expired_def lapsed_def)

lemma cleanup_loop_ok:
  assumes "\<forall>r\<in>set rs. ap_status r = Pending \<longrightarrow> readable_expiry r"
  shows "cleanup_loop ac (Aware now) rs n out =
    Inr (n + length (filter (lapsed now) rs),
         out @ (if ac then filter (\<lambda>r. \<not> lapsed now r) rs
                else map (\<lambda>r. if lapsed now r then r\<lparr>ap_status := Expired\<rparr> else r) rs))"
  using assms
proof (induction rs arbitrary: n out)
  case (Cons r rs)
  have "ap_status r \<noteq> Pending \<Longrightarrow> \<not> lapsed now r" by (simp add: lapsed_def)
  then show ?case using Cons by (cases ac) (simp_all add: is_expired_lapsed)
qed simp

lemma cleanup_loop_error:
  assumes "r \<in> set rs" and "ap_status r = Pending" and "\<not> readable_expiry r"
  shows "\<exists>e. cleanup_loop ac (Aware now) rs n out = Inl e"
  using assms(1)
proof (induction rs arbitrary: n out)
  case (Cons x rs)
  show ?case
  proof (cases "x = r")
    case True
    have "\<exists>e. is_expired r (Aware now) = Inl e"
      using assms(3) by (cases "ap_expires r" rule: iso_key.cases)
        (auto simp: is_expired_def readable_expiry_def)
    with True assms(2) show ?thesis by auto
  next
    case False
    with Cons.prems Cons.IH show ?thesis by (auto split: sum.splits bool.splits)
  qed
qed simp

text \<open>
  The cleanup counts the pending approvals whose expiry has come; with autoclean on
  it deletes them, otherwise it marks them expired, and it changes nothing else. One
  pending record with an unreadable or zone-less expiry makes it fail without any change.
\<close>

theorem cleanup_expired_exact:
  "(\<exists>e. cleanup_expired w = (Inl e, w)) \<and> (\<exists>r\<in>set (approvals w). ap_status r = Pending \<and> \<not> readable_expiry r)
   \<or> (\<exists>w'. cleanup_expired w = (Inr (length (filter (lapsed (w_now w)) (approvals w))), w')
        \<and> approvals w' = (if autoclean w then filter (\<lambda>r. \<not> lapsed (w_now w) r) (approvals w)
             else map (\<lambda>r. if lapsed (w_now w) r then r\<lparr>ap_status := Expired\<rparr> else r) (approvals w))
        \<and> w' = w\<lparr>w_approvals := w_approvals w'\<rparr>
        \<and> (w' = w \<or> list_ex (lapsed (w_now w)) (approvals w)))"
proof (cases "\<exists>r\<in>set (approvals w). ap_status r = Pending \<and> \<not> readable_expiry r")
  case True
  then obtain e where "cleanup_loop (autoclean w) (Aware (w_now w)) (approvals w) 0 [] = Inl e"
    using cleanup_loop_error by blast
  with True show ?thesis by (auto simp: cleanup_expired_def)
next
  case False
  let ?l = "lapsed (w_now w)"
  have loop: "cleanup_loop (autoclean w) (Aware (w_now w)) (approvals w) 0 [] =
    Inr (length (filter ?l (approvals w)),
         if autoclean w then filter (\<lambda>r. \<not> ?l r) (approvals w)
         else map (\<lambda>r. if ?l r then r\<lparr>ap_status := Expired\<rparr> else r) (approvals w))"
    using cleanup_loop_ok [of "approvals w" "autoclean w" "w_now w" 0 "[]"] False by auto
  show ?thesis
  proof (cases "list_ex ?l (approvals w)")
    case True
    then have "filter ?l (approvals w) \<noteq> []" by (auto simp: list_ex_iff filter_empty_conv)
    with True loop show ?thesis by (simp add: cleanup_expired_def approvals_def)
  next
    case no: False
    then have none: "\<forall>r\<in>set (approvals w). \<not> ?l r" by (auto simp: list_ex_iff)
    then have "filter ?l (approvals w) = []" "filter (\<lambda>r. \<not> ?l r) (approvals w) = approvals w"
      "map (\<lambda>r. if ?l r then r\<lparr>ap_status := Expired\<rparr> else r) (approvals w) = approvals w"
      by (auto simp: filter_empty_conv filter_id_conv map_idI)
    with no loop show ?thesis by (simp add: cleanup_expired_def)
  qed
qed

subsection \<open>What a creation guarantees\<close>

lemma correlation_of_frames [simp, frames]:
  "w_approvals (snd (correlation_of rq w)) = w_approvals w" "w_ledger (snd (correlation_of rq w)) = w_ledger w"
  "w_env (snd (correlation_of rq w)) = w_env w" "w_safe (snd (correlation_of rq w)) = w_safe w"
  "w_episodic (snd (correlation_of rq w)) = w_episodic w" "w_overrides (snd (correlation_of rq w)) = w_overrides w"
  "w_now (snd (correlation_of rq w)) = w_now w" "w_uuids (snd (correlation_of rq w)) = w_uuids w"
  "w_corr (snd (correlation_of rq w)) = w_corr w"
  by (simp_all add: correlation_of_def uuid4_def)

text \<open>A refused creation has at most used up identifiers.\<close>

lemma correlation_of_uuid:
  obtains corr n where "correlation_of rq w = (corr, w\<lparr>w_uuid := n\<rparr>)" and "w_uuid w \<le> n"
proof -
  have "\<exists>corr n. correlation_of rq w = (corr, w\<lparr>w_uuid := n\<rparr>) \<and> w_uuid w \<le> n"
    by (auto simp: correlation_of_def uuid4_def intro: exI [of _ "w_uuid w"] exI [of _ "Suc (w_uuid w)"])
  then show thesis using that by blast
qed

lemma create_pending_error: "create_pending step ctx rq ra reg req w = (Inl e, w') \<Longrightarrow> w' = w\<lparr>w_uuid := w_uuid w'\<rparr>"
  by (rule correlation_of_uuid [of rq w])
    (auto simp: create_pending_def uuid4_def Let_def split: if_splits sum.splits option.splits prod.splits)

lemma create_pending_error_frames:
  assumes "create_pending step ctx rq ra reg req w = (Inl e, w')"
  shows "w_approvals w' = w_approvals w" and "w_ledger w' = w_ledger w" and "w_env w' = w_env w"
  by (subst create_pending_error [OF assms], simp)+

lemma approval_get_uuids: "w_approvals w' = w_approvals w \<Longrightarrow> approval_get i w' = approval_get i w"
  by (simp add: approval_get_def)

lemma create_pending_okE:
  assumes "create_pending step ctx requester rationale reg required w = (Inr r, w')"
  obtains skill ttl n w2 where "\<not> is_safe_mode_enabled w"
    and "registry_get reg (str_or (ps_skill step) []) = Inr skill" and "is_write skill"
    and "ap_scopes r = effective_scopes required skill"
    and "list_all (is_scope_enabled (permissions_policy w)) (ap_scopes r)"
    and "py_int (getenv ''BENJAMIN_APPROVALS_TTL_HOURS'' ''72'' w) = Some ttl"
    and "ap_expires r = Iso (Aware (w_now w + hours ttl))"
    and "ap_status r = Pending" and "ap_step r = step" and "ap_created r = now_iso w" and "ap_result r = None"
    and "ap_rationale r = rationale" and "ap_snapshot r = Some (snapshot_model (permissions_policy w))"
    and "w' = approval_upsert r w2" and "w_approvals w2 = w_approvals w" and "w_ledger w2 = w_ledger w"
    and "w2 = w\<lparr>w_uuid := Suc n\<rparr>" and "w_uuid w \<le> n" and "ap_id r = w_uuids w n"
proof -
  obtain skill where guards: "str_or (ps_skill step) [] \<noteq> []" "\<not> is_safe_mode_enabled w"
      "registry_get reg (str_or (ps_skill step) []) = Inr skill" "is_write skill"
    using assms by (auto simp: create_pending_def split: if_splits sum.splits)
  let ?scopes = "effective_scopes required skill"
  obtain ok bad where chk: "check_scopes (permissions_policy w) ?scopes = (ok, bad)" by fastforce
  have ok using assms guards chk by (auto simp: create_pending_def Let_def split: if_splits)
  have en: "list_all (is_scope_enabled (permissions_policy w)) ?scopes"
    using scopes.check_okD chk \<open>ok\<close> by (auto simp: list_all_iff)
  obtain ttl where ttl: "py_int (getenv ''BENJAMIN_APPROVALS_TTL_HOURS'' ''72'' w) = Some ttl"
    using assms guards chk \<open>ok\<close> by (auto simp: create_pending_def Let_def split: option.splits)
  obtain corr n where c: "correlation_of requester w = (corr, w\<lparr>w_uuid := n\<rparr>)" and n: "w_uuid w \<le> n"
    by (rule correlation_of_uuid)
  let ?w2 = "w\<lparr>w_uuid := Suc n\<rparr>"
  have r: "ap_status r = Pending" "ap_step r = step" "ap_created r = now_iso w" "ap_scopes r = ?scopes"
      "ap_expires r = Iso (Aware (w_now w + hours ttl))" "ap_result r = None" "ap_rationale r = rationale"
      "ap_snapshot r = Some (snapshot_model (permissions_policy w))" "ap_id r = w_uuids w n"
    and w': "w' = approval_upsert r ?w2"
    using assms guards chk \<open>ok\<close> ttl c
    by (auto simp: create_pending_def Let_def uuid4_def now_iso_def isoformat_def split: if_splits)
  show thesis
    by (rule that [OF guards(2-4) r(4) _ ttl r(5,1-3,6-8) w' _ _ refl n r(9)]) (use en r(4) in simp_all)
qed

text \<open>
  C11. A request is created only outside safe mode, for a registered write skill. Its scopes
  are the ones asked for, else the skill's own, else the default ones, and the policy in
  force enables all of them; it is pending, for this step, with this rationale and a snapshot
  of that policy, under the next identifier, and expires the configured time after its
  creation. It is stored, and nothing else of the state changes but the identifiers used.
  A refused creation changes nothing else either.
\<close>

theorem create_pending_sound:
  "case create_pending step ctx requester rationale reg required w of
     (Inl e, w') \<Rightarrow> w' = w\<lparr>w_uuid := w_uuid w'\<rparr>
   | (Inr r, w') \<Rightarrow>
       (\<exists>skill ttl. \<not> is_safe_mode_enabled w
          \<and> registry_get reg (str_or (ps_skill step) []) = Inr skill \<and> is_write skill
          \<and> ap_scopes r = (if required \<noteq> [] then required else if sk_scopes skill \<noteq> [] then sk_scopes skill
                             else default_scopes_for_skill (sk_name skill) ''write'')
          \<and> list_all (is_scope_enabled (permissions_policy w)) (ap_scopes r)
          \<and> py_int (getenv ''BENJAMIN_APPROVALS_TTL_HOURS'' ''72'' w) = Some ttl
          \<and> ap_expires r = Iso (Aware (w_now w + hours ttl)))
       \<and> ap_scopes r \<noteq> [] \<and> ap_status r = Pending \<and> ap_step r = step \<and> ap_created r = now_iso w
       \<and> ap_rationale r = rationale \<and> ap_result r = None \<and> ap_snapshot r = Some (snapshot_model (permissions_policy w))
       \<and> w_uuid w < w_uuid w' \<and> ap_id r = w_uuids w (w_uuid w' - 1)
       \<and> (\<forall>i. approval_get i w' = (if i = ap_id r then Some r else approval_get i w))
       \<and> w' = w\<lparr>w_uuid := w_uuid w', w_approvals := w_approvals w'\<rparr>"
proof (cases "create_pending step ctx requester rationale reg required w")
  case (Pair res w')
  show ?thesis
  proof (cases res)
    case (Inl e)
    with Pair create_pending_error show ?thesis by auto
  next
    case (Inr r)
    with Pair have "create_pending step ctx requester rationale reg required w = (Inr r, w')" by simp
    then show ?thesis
    proof (rule create_pending_okE)
      fix skill ttl n w2
      assume f: "\<not> is_safe_mode_enabled w" "registry_get reg (str_or (ps_skill step) []) = Inr skill"
        "is_write skill" "ap_scopes r = effective_scopes required skill"
        "list_all (is_scope_enabled (permissions_policy w)) (ap_scopes r)"
        "py_int (getenv ''BENJAMIN_APPROVALS_TTL_HOURS'' ''72'' w) = Some ttl"
        "ap_expires r = Iso (Aware (w_now w + hours ttl))"
        "ap_status r = Pending" "ap_step r = step" "ap_created r = now_iso w" "ap_result r = None"
        "ap_rationale r = rationale" "ap_snapshot r = Some (snapshot_model (permissions_policy w))"
        and w': "w' = approval_upsert r w2" and w2: "w_approvals w2 = w_approvals w"
        and u: "w2 = w\<lparr>w_uuid := Suc n\<rparr>" "w_uuid w \<le> n" "ap_id r = w_uuids w n"
      have frame: "w' = w\<lparr>w_uuid := w_uuid w', w_approvals := w_approvals w'\<rparr>" "w_uuid w' = Suc n"
        unfolding w' approval_upsert_def u(1) by simp_all
      have "approval_get i w2 = approval_get i w" for i using w2 by (simp add: approval_get_def)
      then have get: "\<forall>i. approval_get i w' = (if i = ap_id r then Some r else approval_get i w)"
        unfolding w' by (simp add: approval_store.lookup_put)
      have sc: "effective_scopes required skill = (if required \<noteq> [] then required else if sk_scopes skill \<noteq> [] then sk_scopes skill
                             else default_scopes_for_skill (sk_name skill) ''write'')"
        using f(3) by (simp add: effective_scopes_def is_write_def Let_def)
      show ?thesis unfolding Pair Inr prod.case sum.case
        using f(1-3,5-13) f(4) [unfolded sc] effective_scopes_nonempty [of required skill, folded f(4)] frame(2) get u(2,3)
        by (intro conjI frame(1) exI [of _ skill] exI [of _ ttl]) simp_all
    qed
  qed
qed

end
