(* ===== verification/Executor.thy ===== *)
theory Executor
  imports Approvals
begin

section \<open>The executor\<close>

text \<open>
  \<open>core/orchestration/executor.py\<close> and the part of \<open>policies.py\<close> it uses: a step is
  denied, refused in safe mode, turned into an approval request, or run. The skills'
  \<open>run\<close> functions are part of the registry, a parameter.
\<close>

definition requires_approval :: "skill \<Rightarrow> bool \<Rightarrow> bool" where
  "requires_approval s step_requires \<longleftrightarrow> step_requires \<or> is_write s"

definition required_scopes :: "skill \<Rightarrow> string list" where
  "required_scopes s = sk_scopes s"

definition check_skill_scopes :: "policy \<Rightarrow> skill \<Rightarrow> bool \<times> string list" where
  "check_skill_scopes p s = check_scopes p (required_scopes s)"

definition evaluate_action :: "string \<Rightarrow> bool \<times> string" where
  "evaluate_action action =
     (if str_in ''delete'' (casefold action) then (False, ''Destructive action requires approval'')
      else (True, ''Allowed''))"

text \<open>\<open>str(requester.get(k) or d)\<close>.\<close>

definition get_str_or :: "string \<Rightarrow> string \<Rightarrow> json dict \<Rightarrow> string" where
  "get_str_or k dflt d = (if truthy (jget k d) then py_str (jget k d) else dflt)"

definition snapshot_json :: "policy_snapshot \<Rightarrow> json" where
  "snapshot_json s = JDict [(''mode'', JStr (sn_mode s)), (''scopes_enabled'', jstrs (sn_scopes_enabled s)),
     (''rules_allowed_scopes'', jstrs (sn_rules_allowed s)), (''overrides_enabled'', JBool (sn_overrides_enabled s))]"

text \<open>
  The rationale shown to the approver. Arguments that are no JSON give a fixed text;
  JSON that is no object has no \<open>get\<close>.
\<close>

definition approval_payload :: "plan_step \<Rightarrow> string res" where
  "approval_payload step =
     (if str_or (ps_skill step) [] \<noteq> ''reminders.create''
      then Inr (''This action will execute '' @ str_or (ps_skill step) [] @ ''.'')
      else case loads (ps_args step) of
        None \<Rightarrow> Inr ''This action will create a reminder.''
      | Some (JDict payload) \<Rightarrow>
          Inr (''This action will create a reminder scheduled at '' @ meta_str ''run_at_iso'' payload
               @ '' with message '' @ [CHR 0x27] @ meta_str ''message'' payload @ [CHR 0x27] @ ''.'')
      | Some _ \<Rightarrow> Inl (AttributeError ''object has no attribute get''))"

definition step_failed :: "plan_step \<Rightarrow> string \<Rightarrow> step_result" where
  "step_failed step err = \<lparr>sr_step_id = ps_id step, sr_ok = False, sr_output = None, sr_error = Some err\<rparr>"

definition step_done :: "plan_step \<Rightarrow> string \<Rightarrow> step_result" where
  "step_done step out = \<lparr>sr_step_id = ps_id step, sr_ok = True, sr_output = Some out, sr_error = None\<rparr>"

definition policy_meta :: "json dict \<Rightarrow> json dict" where
  "policy_meta requester = [(''task_id'', JStr (get_str_or ''task_id'' [] requester)),
                            (''approval_id'', JStr (get_str_or ''approval_id'' [] requester))]"

text \<open>The branches after the policy has allowed the step.\<close>

definition run_allowed ::
  "plan_step \<Rightarrow> skill \<Rightarrow> context_pack \<Rightarrow> registry \<Rightarrow> json dict \<Rightarrow> bool \<Rightarrow> trace option \<Rightarrow> world
     \<Rightarrow> (step_result \<times> trace option) res \<times> world" where
  "run_allowed step skill ctx reg requester force tr w =
     (if is_write skill \<and> is_safe_mode_enabled w then
        (Inr (step_failed step ''safe_mode_denied'',
              map_option (emit ''SafeModeDenied''
                [(''step_id'', JStr (ps_id step)), (''skill_name'', JStr (str_or (ps_skill step) [])),
                 (''required_scopes'', jstrs (required_scopes skill))]) tr), w)
      else if requires_approval skill (ps_requires_approval step) \<and> \<not> force then
        (case approval_payload step of
           Inl e \<Rightarrow> (Inl e, w)
         | Inr payload \<Rightarrow>
             (case create_pending step ctx requester payload reg (required_scopes skill) w of
                (Inl e, w') \<Rightarrow> (Inl e, w')
              | (Inr appr, w') \<Rightarrow>
                  (Inr (step_failed step (''approval_required:'' @ ap_id appr),
                        map_option (emit ''ApprovalRequired''
                          [(''approval_id'', JStr (ap_id appr)), (''step_id'', JStr (ps_id step)),
                           (''skill_name'', JStr (str_or (ps_skill step) [])),
                           (''rationale'', JStr (ap_rationale appr))]) tr), w')))
      else (case sk_run skill (ps_args step) w of
              (Inl e, w') \<Rightarrow> (Inr (step_failed step (exc_str e), tr), w')
            | (Inr content, w') \<Rightarrow> (Inr (step_done step content, tr), w')))"

definition execute_step ::
  "plan_step \<Rightarrow> context_pack \<Rightarrow> registry \<Rightarrow> json dict \<Rightarrow> bool \<Rightarrow> trace option \<Rightarrow> world
     \<Rightarrow> (step_result \<times> trace option) res \<times> world" where
  "execute_step step ctx reg requester force tr w =
     (let name = str_or (ps_skill step) []
      in if name = [] then (Inr (step_done step (''done:'' @ ps_description step), tr), w)
         else case registry_get reg name of
           Inl e \<Rightarrow> (Inl e, w)
         | Inr skill \<Rightarrow>
             let pol = permissions_policy w;
                 req = required_scopes skill;
                 (scopes_ok, disabled) = check_scopes pol req;
                 corr = get_str_or ''correlation_id'' [] requester;
                 source = get_str_or ''source'' ''chat'' requester
             in if \<not> scopes_ok then
                  (Inr (step_failed step (''policy_denied:'' @ join '','' disabled),
                        map_option (emit ''PolicyDenied''
                          [(''step_id'', JStr (ps_id step)), (''skill_name'', JStr name),
                           (''required_scopes'', jstrs req), (''decision_reason'', JStr ''scope_disabled''),
                           (''disabled_scopes'', jstrs disabled),
                           (''policy_snapshot_summary'', snapshot_json (snapshot_model pol))]) tr),
                   log_policy_event corr source ''denied'' name req (snapshot_model pol) ''scope_disabled''
                     (policy_meta requester) w)
                else
                  run_allowed step skill ctx reg requester force tr
                    (log_policy_event corr source ''allowed'' name req (snapshot_model pol) ''allowed''
                       (policy_meta requester) w))"

fun execute_steps ::
  "plan_step list \<Rightarrow> context_pack \<Rightarrow> registry \<Rightarrow> json dict \<Rightarrow> bool \<Rightarrow> trace option \<Rightarrow> world
     \<Rightarrow> (step_result list \<times> trace option) res \<times> world" where
  "execute_steps [] ctx reg requester force tr w = (Inr ([], tr), w)"
| "execute_steps (step # steps) ctx reg requester force tr w =
     (case execute_step step ctx reg requester force tr w of
        (Inl e, w1) \<Rightarrow> (Inl e, w1)
      | (Inr (r, tr1), w1) \<Rightarrow>
          (case execute_steps steps ctx reg requester force tr1 w1 of
             (Inl e, w2) \<Rightarrow> (Inl e, w2)
           | (Inr (rs, tr2), w2) \<Rightarrow> (Inr (r # rs, tr2), w2)))"

definition execute_plan ::
  "plan \<Rightarrow> context_pack \<Rightarrow> registry \<Rightarrow> json dict \<Rightarrow> bool \<Rightarrow> trace option \<Rightarrow> world
     \<Rightarrow> (step_result list \<times> trace option) res \<times> world" where
  "execute_plan p ctx reg requester force tr w = execute_steps (pl_steps p) ctx reg requester force tr w"

subsection \<open>Write skills do not run without approval\<close>

text \<open>
  Two registries that differ at most in what their write skills do when run. If the
  results agree on both, no write skill was run.
\<close>

definition same_but_writes :: "registry \<Rightarrow> registry \<Rightarrow> bool" where
  "same_but_writes reg reg' \<longleftrightarrow>
     (\<forall>n. case (map_of reg n, map_of reg' n) of
            (None, None) \<Rightarrow> True
          | (Some s, Some s') \<Rightarrow> s' = (if is_write s then s\<lparr>sk_run := sk_run s'\<rparr> else s)
          | _ \<Rightarrow> False)"

lemma same_but_writes_cases:
  assumes "same_but_writes reg reg'"
  obtains "registry_get reg n = Inl (KeyError n)" and "registry_get reg' n = Inl (KeyError n)"
  | s where "registry_get reg n = Inr s" and "registry_get reg' n = Inr s" and "\<not> is_write s"
  | s s' where "registry_get reg n = Inr s" and "registry_get reg' n = Inr s'" and "is_write s"
      and "s' = s\<lparr>sk_run := sk_run s'\<rparr>"
proof -
  have n: "case (map_of reg n, map_of reg' n) of
            (None, None) \<Rightarrow> True
          | (Some s, Some s') \<Rightarrow> s' = (if is_write s then s\<lparr>sk_run := sk_run s'\<rparr> else s)
          | _ \<Rightarrow> False"
    using assms unfolding same_but_writes_def by blast
  show thesis
  proof (cases "map_of reg n")
    case None
    with n have "map_of reg' n = None" by (cases "map_of reg' n") auto
    with None that(1) show thesis by (simp add: registry_get_def)
  next
    case (Some s)
    with n obtain s' where s': "map_of reg' n = Some s'" by (cases "map_of reg' n") auto
    with n Some have eq: "s' = (if is_write s then s\<lparr>sk_run := sk_run s'\<rparr> else s)" by simp
    show thesis
    proof (cases "is_write s")
      case True
      with eq have "s' = s\<lparr>sk_run := sk_run s'\<rparr>" by simp
      with True Some s' that(3) show thesis by (simp add: registry_get_def)
    qed (use eq Some s' that(2) in \<open>simp add: registry_get_def\<close>)
  qed
qed

lemma run_update_simps [simp]:
  "is_write (s\<lparr>sk_run := f\<rparr>) = is_write s" "side_effect (s\<lparr>sk_run := f\<rparr>) = side_effect s"
  "required_scopes (s\<lparr>sk_run := f\<rparr>) = required_scopes s"
  "requires_approval (s\<lparr>sk_run := f\<rparr>) b = requires_approval s b"
  "effective_scopes req (s\<lparr>sk_run := f\<rparr>) = effective_scopes req s"
  by (simp_all add: is_write_def side_effect_def required_scopes_def requires_approval_def effective_scopes_def Let_def)

lemma create_pending_same:
  assumes "same_but_writes reg reg'"
  shows "create_pending step ctx rq ra reg' req w = create_pending step ctx rq ra reg req w"
proof (rule same_but_writes_cases [OF assms, of "str_or (ps_skill step) []"])
  fix s s' assume "registry_get reg (str_or (ps_skill step) []) = Inr s"
    and "registry_get reg' (str_or (ps_skill step) []) = Inr s'" and s': "s' = s\<lparr>sk_run := sk_run s'\<rparr>"
  moreover have "is_write s' = is_write s" "effective_scopes req s' = effective_scopes req s"
    by (subst s', simp)+
  ultimately show ?thesis by (simp add: create_pending_def)
qed (simp_all add: create_pending_def)

lemma run_allowed_same:
  assumes "same_but_writes reg reg'" and "s' = s \<and> \<not> is_write s \<or> is_write s \<and> s' = s\<lparr>sk_run := sk_run s'\<rparr>"
  shows "run_allowed step s' ctx reg' rq False tr w = run_allowed step s ctx reg rq False tr w"
proof (cases "is_write s")
  case True
  then have "s' = s\<lparr>sk_run := sk_run s'\<rparr>" using assms(2) by simp
  then have "is_write s'" "required_scopes s' = required_scopes s"
    using True by (metis run_update_simps)+
  then show ?thesis using True
    by (cases "approval_payload step")
      (simp_all add: run_allowed_def requires_approval_def create_pending_same [OF assms(1)])
next
  case False
  then show ?thesis using assms(2)
    by (cases "approval_payload step") (simp_all add: run_allowed_def create_pending_same [OF assms(1)])
qed

lemma execute_step_same:
  assumes "same_but_writes reg reg'"
  shows "execute_step step ctx reg' rq False tr w = execute_step step ctx reg rq False tr w"
proof (rule same_but_writes_cases [OF assms, of "str_or (ps_skill step) []"])
  fix s assume g: "registry_get reg (str_or (ps_skill step) []) = Inr s"
    "registry_get reg' (str_or (ps_skill step) []) = Inr s" and nw: "\<not> is_write s"
  have "run_allowed step s ctx reg' rq False tr w1 = run_allowed step s ctx reg rq False tr w1" for w1
    using run_allowed_same [OF assms, of s s] nw by simp
  then show ?thesis unfolding execute_step_def Let_def by (simp add: g split: prod.split)
next
  fix s s' assume g: "registry_get reg (str_or (ps_skill step) []) = Inr s"
    "registry_get reg' (str_or (ps_skill step) []) = Inr s'" and w: "is_write s"
    and s': "s' = s\<lparr>sk_run := sk_run s'\<rparr>"
  have "run_allowed step s' ctx reg' rq False tr w1 = run_allowed step s ctx reg rq False tr w1" for w1
    using run_allowed_same [OF assms, of s' s] w s' by simp
  moreover have "required_scopes s' = required_scopes s"
    by (subst s') simp
  ultimately show ?thesis unfolding execute_step_def Let_def by (simp add: g split: prod.split)
qed (simp add: execute_step_def Let_def)

lemma execute_steps_same:
  "same_but_writes reg reg' \<Longrightarrow>
   execute_steps steps ctx reg' requester False tr w = execute_steps steps ctx reg requester False tr w"
  by (induction steps arbitrary: tr w)
    (simp_all add: execute_step_same split: prod.splits sum.splits)

text \<open>
  C1. Outside an approved execution no write skill is ever run: what a plan does to the
  state, its results and its trace do not depend on what the write skills would do.
\<close>

theorem no_write_without_approval:
  assumes "same_but_writes reg reg'"
  shows "execute_plan p ctx reg' requester False tr w = execute_plan p ctx reg requester False tr w"
  by (simp add: execute_plan_def execute_steps_same [OF assms])

text \<open>A demonstration registry: one reading and one writing skill.\<close>

definition demo_registry :: "(string \<Rightarrow> world \<Rightarrow> string res \<times> world) \<Rightarrow> registry" where
  "demo_registry write_run = [
     (''web.search'', \<lparr>sk_name = ''web.search'', sk_side_effect = None, sk_scopes = [''web.read''],
        sk_run = (\<lambda>q w. (Inr (''results for '' @ q), w))\<rparr>),
     (''reminders.create'', \<lparr>sk_name = ''reminders.create'', sk_side_effect = Some ''write'',
        sk_scopes = [''reminders.write''], sk_run = write_run\<rparr>)]"

definition demo_plan :: plan where
  "demo_plan = \<lparr>pl_goal = ''g'', pl_steps =
     [\<lparr>ps_id = ''s1'', ps_description = ''remind me'', ps_skill = Some ''reminders.create'', ps_args = ''{}'',
       ps_requires_approval = True\<rparr>,
      \<lparr>ps_id = ''s2'', ps_description = ''look it up'', ps_skill = Some ''web.search'', ps_args = ''q'',
       ps_requires_approval = False\<rparr>]\<rparr>"

lemma same_but_writes_demo: "same_but_writes (demo_registry f) (demo_registry g)"
  by (auto simp: same_but_writes_def demo_registry_def is_write_def side_effect_def)

theorem no_write_without_approval_witness:
  "execute_plan demo_plan \<lparr>cp_goal = [], cp_cwd = None\<rparr> (demo_registry (\<lambda>q w. (Inr ''done'', w\<lparr>w_uuid := 7\<rparr>))) [] False None (empty_world 0)
     = execute_plan demo_plan \<lparr>cp_goal = [], cp_cwd = None\<rparr> (demo_registry (\<lambda>q w. (Inl (RuntimeError ''boom''), w))) [] False None (empty_world 0)"
  by (rule no_write_without_approval [OF same_but_writes_demo])

subsection \<open>Safe mode\<close>

definition safe_view :: "world \<Rightarrow> (string \<Rightarrow> string option) \<times> json dict jfile \<times> approval line list" where
  "safe_view w = (w_env w, w_safe w, w_approvals w)"

text \<open>Reading skills leave environment, safe-mode file and approvals alone.\<close>

definition reads_keep_view :: "registry \<Rightarrow> bool" where
  "reads_keep_view reg \<longleftrightarrow>
     (\<forall>n s. map_of reg n = Some s \<longrightarrow> \<not> is_write s \<longrightarrow> (\<forall>q w. safe_view (snd (sk_run s q w)) = safe_view w))"

lemma safe_view_log [simp]: "safe_view (log_policy_event c s d n r sn re x w) = safe_view w"
  by (simp add: safe_view_def)

lemma safe_view_safe: "safe_view w' = safe_view w \<Longrightarrow> is_safe_mode_enabled w' = is_safe_mode_enabled w"
  by (rule is_safe_mode_cong) (simp_all add: safe_view_def)

lemma create_pending_safe:
  "is_safe_mode_enabled w \<Longrightarrow> create_pending step ctx rq ra reg req w =
     (Inl (ValueError (if str_or (ps_skill step) [] = [] then ''approval requires a skill step''
                       else ''safe_mode_denied'')), w)"
  by (simp add: create_pending_def)

lemma run_allowed_safe:
  assumes "is_safe_mode_enabled w" and "registry_get reg n = Inr s" and "reads_keep_view reg"
  shows "safe_view (snd (run_allowed step s ctx reg rq force tr w)) = safe_view w"
proof (cases "is_write s")
  case True
  then show ?thesis using assms(1) by (simp add: run_allowed_def)
next
  case False
  have run: "safe_view (snd (sk_run s (ps_args step) w)) = safe_view w"
    using assms(2,3) False by (auto simp: reads_keep_view_def registry_get_def split: option.splits)
  obtain r w' where "sk_run s (ps_args step) w = (r, w')" by fastforce
  with run False show ?thesis
    by (cases "approval_payload step"; cases r)
      (simp_all add: run_allowed_def create_pending_safe [OF assms(1)])
qed

lemma execute_step_safe:
  assumes "is_safe_mode_enabled w" and "reads_keep_view reg"
  shows "safe_view (snd (execute_step step ctx reg rq force tr w)) = safe_view w"
proof (cases "registry_get reg (str_or (ps_skill step) [])")
  case (Inr s)
  have "safe_view (snd (run_allowed step s ctx reg rq force tr (log_policy_event c so d n r sn re x w))) = safe_view w"
    for c so d n r sn re x
    using run_allowed_safe [OF _ Inr assms(2)] safe_view_safe [OF safe_view_log] assms(1) by simp
  then show ?thesis using Inr unfolding execute_step_def Let_def by (simp split: prod.split)
qed (simp add: execute_step_def Let_def)

lemma run_allowed_same_safe:
  assumes "same_but_writes reg reg'" and "is_safe_mode_enabled w"
    and "s' = s \<and> \<not> is_write s \<or> is_write s \<and> s' = s\<lparr>sk_run := sk_run s'\<rparr>"
  shows "run_allowed step s' ctx reg' rq force tr w = run_allowed step s ctx reg rq force tr w"
proof (cases "is_write s")
  case True
  then have "s' = s\<lparr>sk_run := sk_run s'\<rparr>" using assms(3) by simp
  then have "is_write s'" "required_scopes s' = required_scopes s"
    using True by (metis run_update_simps)+
  then show ?thesis using True assms(2) by (simp add: run_allowed_def)
next
  case False
  then show ?thesis using assms(3)
    by (cases "approval_payload step") (simp_all add: run_allowed_def create_pending_same [OF assms(1)])
qed

lemma execute_step_same_safe:
  assumes "same_but_writes reg reg'" and "is_safe_mode_enabled w"
  shows "execute_step step ctx reg' rq force tr w = execute_step step ctx reg rq force tr w"
proof -
  have on: "is_safe_mode_enabled (log_policy_event c so d n r sn re x w)" for c so d n r sn re x
    using assms(2) safe_view_safe [OF safe_view_log] by blast
  show ?thesis
  proof (rule same_but_writes_cases [OF assms(1), of "str_or (ps_skill step) []"])
    fix s assume g: "registry_get reg (str_or (ps_skill step) []) = Inr s"
      "registry_get reg' (str_or (ps_skill step) []) = Inr s" and nw: "\<not> is_write s"
    show ?thesis
      using run_allowed_same_safe [OF assms(1) on, of s s] nw
      unfolding execute_step_def Let_def by (simp add: g split: prod.split)
  next
    fix s s' assume g: "registry_get reg (str_or (ps_skill step) []) = Inr s"
      "registry_get reg' (str_or (ps_skill step) []) = Inr s'" and w: "is_write s"
      and s': "s' = s\<lparr>sk_run := sk_run s'\<rparr>"
    moreover have "required_scopes s' = required_scopes s" by (subst s') simp
    ultimately show ?thesis
      using run_allowed_same_safe [OF assms(1) on, of s' s]
      unfolding execute_step_def Let_def by (simp split: prod.split)
  qed (simp add: execute_step_def Let_def)
qed

text \<open>
  C3. In safe mode no write skill runs, not even for an approval being executed, and no
  approval request is created, changed or removed.
\<close>

theorem safe_mode_blocks_writes:
  assumes "same_but_writes reg reg'" and "is_safe_mode_enabled w" and "reads_keep_view reg"
  shows "execute_plan p ctx reg' requester force tr w = execute_plan p ctx reg requester force tr w
    \<and> w_approvals (snd (execute_plan p ctx reg requester force tr w)) = w_approvals w"
proof -
  have "execute_steps steps ctx reg' requester force tr w = execute_steps steps ctx reg requester force tr w
      \<and> safe_view (snd (execute_steps steps ctx reg requester force tr w)) = safe_view w"
    if "is_safe_mode_enabled w" for steps tr w
    using that
  proof (induction steps arbitrary: tr w)
    case (Cons step steps)
    obtain res w1 where e: "execute_step step ctx reg requester force tr w = (res, w1)" by fastforce
    have e': "execute_step step ctx reg' requester force tr w = (res, w1)"
      using e execute_step_same_safe [OF assms(1) Cons.prems] by simp
    have v: "safe_view w1 = safe_view w"
      using e execute_step_safe [OF Cons.prems assms(3), of step ctx requester force tr] by simp
    then have "is_safe_mode_enabled w1" using Cons.prems safe_view_safe by blast
    with Cons.IH have rest: "execute_steps steps ctx reg' requester force tr1 w1 = execute_steps steps ctx reg requester force tr1 w1"
        "safe_view (snd (execute_steps steps ctx reg requester force tr1 w1)) = safe_view w1" for tr1
      by blast+
    show ?case
    proof (cases res)
      case (Inr p)
      obtain r tr1 where p: "p = (r, tr1)" by fastforce
      obtain res2 w2 where "execute_steps steps ctx reg requester force tr1 w1 = (res2, w2)" by fastforce
      with rest [of tr1] e e' v Inr p show ?thesis by (cases res2) auto
    qed (use e e' v in simp)
  qed simp
  with assms(2) show ?thesis by (auto simp: execute_plan_def safe_view_def)
qed

theorem safe_mode_blocks_writes_witness:
  "execute_plan demo_plan \<lparr>cp_goal = [], cp_cwd = None\<rparr> (demo_registry (\<lambda>q w. (Inr ''done'', w\<lparr>w_uuid := 7\<rparr>))) [] True None
       (set_safe_mode_enabled True (empty_world 0))
     = execute_plan demo_plan \<lparr>cp_goal = [], cp_cwd = None\<rparr> (demo_registry (\<lambda>q w. (Inl (RuntimeError ''boom''), w))) [] True None
       (set_safe_mode_enabled True (empty_world 0))"
proof -
  have "is_safe_mode_enabled (set_safe_mode_enabled True (empty_world 0))"
    by (simp add: is_safe_mode_enabled_def set_safe_mode_enabled_def)
  moreover have "reads_keep_view (demo_registry f)" for f
    by (auto simp: reads_keep_view_def demo_registry_def is_write_def side_effect_def split: if_splits)
  ultimately show ?thesis
    using safe_mode_blocks_writes [OF same_but_writes_demo] by blast
qed

end
