(* ===== verification/Ledger.thy ===== *)
theory Ledger
  imports Stores
begin

section \<open>The execution ledger\<close>

text \<open>
  \<open>core/ledger\<close>: the identity keys of side effects (\<open>keys.py\<close>) and the JSONL log
  of their executions (\<open>ledger.py\<close>). \<open>try_start\<close> writes a \<open>started\<close> record
  unless the latest record of the key is \<open>started\<close> or \<open>succeeded\<close>; \<open>mark\<close> appends
  the outcome; both trim the file to \<open>max_records\<close>. SHA-256 is a parameter of the keys.
\<close>

subsection \<open>Keys\<close>

definition canonical_json :: "json \<Rightarrow> string" where
  "canonical_json j = dumps_with '','' '':'' (sort_keys j)"

text \<open>The hexadecimal digest is a function \<open>sha\<close> of the joined parts.\<close>

definition stable_hash :: "(string \<Rightarrow> string) \<Rightarrow> string list \<Rightarrow> string" where
  "stable_hash sha parts = sha (join ''|'' parts)"

definition normalize_args :: "string \<Rightarrow> json" where
  "normalize_args args = (case loads args of None \<Rightarrow> JStr args | Some j \<Rightarrow> j)"

definition approval_execution_key :: "(string \<Rightarrow> string) \<Rightarrow> string \<Rightarrow> plan_step \<Rightarrow> string" where
  "approval_execution_key sha approval_id step =
     stable_hash sha [''approval_exec'', approval_id, str_or (ps_skill step) '''',
                      canonical_json (normalize_args (ps_args step))]"

text \<open>
  \<open>minute_iso\<close> stands for the text of the current UTC minute, used when no scheduled run
  time is given.
\<close>

definition job_run_key ::
  "(string \<Rightarrow> string) \<Rightarrow> string \<Rightarrow> string \<Rightarrow> string option \<Rightarrow> json dict \<Rightarrow> string" where
  "job_run_key sha minute_iso job_id scheduled extra =
     stable_hash sha [''job_run'', job_id, (case scheduled of None \<Rightarrow> minute_iso | Some s \<Rightarrow> s),
                      canonical_json (JDict extra)]"

definition rule_action_key ::
  "(string \<Rightarrow> string) \<Rightarrow> string \<Rightarrow> nat \<Rightarrow> string option \<Rightarrow> json dict \<Rightarrow> string" where
  "rule_action_key sha rule_id action_index item_id signature =
     stable_hash sha [''rule_action'', rule_id, show_nat action_index, str_or item_id ''none'',
                      canonical_json (JDict signature)]"

subsection \<open>The log\<close>

text \<open>\<open>_latest_record_by_key()\<close>: later lines overwrite earlier ones.\<close>

definition latest_record_by_key :: "ledger_record line list \<Rightarrow> string \<Rightarrow> ledger_record option" where
  "latest_record_by_key ls = fold (\<lambda>r m. m(lr_key r \<mapsto> r)) (load_rows ls) Map.empty"

definition has_succeeded :: "string \<Rightarrow> world \<Rightarrow> bool" where
  "has_succeeded k w = (case latest_record_by_key (w_ledger w) k of
                          None \<Rightarrow> False | Some r \<Rightarrow> lr_status r = Succeeded)"

definition ledger_trim :: "int \<Rightarrow> ledger_record line list \<Rightarrow> ledger_record line list" where
  "ledger_trim mx ls =
     (if mx \<le> 0 then ls
      else if int (length (load_rows ls)) \<le> mx then ls
      else write_rows (last_n mx (load_rows ls)))"

definition ledger_append :: "int \<Rightarrow> ledger_record \<Rightarrow> world \<Rightarrow> world" where
  \<comment> \<open>\<open>_append\<close> followed by \<open>trim(self.max_records)\<close>\<close>
  "ledger_append mx r w = w\<lparr>w_ledger := ledger_trim mx (w_ledger w @ [Row r])\<rparr>"

definition try_start ::
  "int \<Rightarrow> string \<Rightarrow> ledger_kind \<Rightarrow> string option \<Rightarrow> json dict \<Rightarrow> world \<Rightarrow> bool \<times> world" where
  "try_start mx k kind corr meta w =
     (let start = (True, ledger_append mx
            \<lparr>lr_key = k, lr_kind = kind, lr_status = Started, lr_ts = now_iso w,
             lr_corr = corr, lr_meta = meta\<rparr> w)
      in case latest_record_by_key (w_ledger w) k of
           None \<Rightarrow> start
         | Some r \<Rightarrow> (if lr_status r \<in> {Succeeded, Started} then (False, w) else start))"

definition mark :: "int \<Rightarrow> string \<Rightarrow> ledger_status \<Rightarrow> json dict \<Rightarrow> world \<Rightarrow> world" where
  "mark mx k status meta_update w =
     (let latest = latest_record_by_key (w_ledger w) k
      in ledger_append mx
           \<lparr>lr_key = k,
            lr_kind = (case latest of None \<Rightarrow> JobRun | Some r \<Rightarrow> lr_kind r),
            lr_status = status, lr_ts = now_iso w,
            lr_corr = (case latest of None \<Rightarrow> None | Some r \<Rightarrow> lr_corr r),
            lr_meta = dict_update (case latest of None \<Rightarrow> [] | Some r \<Rightarrow> lr_meta r) meta_update\<rparr> w)"

definition ledger_list_recent :: "int \<Rightarrow> world \<Rightarrow> ledger_record list" where
  "ledger_list_recent limit w = (if 0 < limit then last_n limit (load_rows (w_ledger w)) else [])"

definition ledger_find_by_correlation :: "string \<Rightarrow> int \<Rightarrow> world \<Rightarrow> ledger_record list" where
  "ledger_find_by_correlation corr limit w =
     (if limit \<le> 0 then []
      else rev (scan_matches (\<lambda>r. lr_corr r = Some corr) limit [] (rev (load_rows (w_ledger w)))))"

fun kind_str :: "ledger_kind \<Rightarrow> string" where
  "kind_str ApprovalExec = ''approval_exec''"
| "kind_str JobRun = ''job_run''"
| "kind_str RuleAction = ''rule_action''"

fun status_str :: "ledger_status \<Rightarrow> string" where
  "status_str Started = ''started''"
| "status_str Succeeded = ''succeeded''"
| "status_str Skipped = ''skipped''"
| "status_str Failed = ''failed''"

definition ledger_haystack :: "ledger_record \<Rightarrow> string" where
  "ledger_haystack r = casefold (join '' ''
     [lr_key r, kind_str (lr_kind r), status_str (lr_status r), str_or (lr_corr r) '''',
      dumps (JDict (lr_meta r))])"

definition ledger_search :: "string \<Rightarrow> int \<Rightarrow> world \<Rightarrow> ledger_record list" where
  "ledger_search q limit w =
     (if limit \<le> 0 then []
      else let query = strip (casefold q); records = load_rows (w_ledger w)
           in if query = [] then last_n limit records
              else rev (scan_matches (\<lambda>r. str_in query (ledger_haystack r)) limit [] (rev records)))"

subsection \<open>The log as a bounded log\<close>

lemma load_ledger_trim: "load_rows (ledger_trim mx ls) = retain mx (load_rows ls)"
  by (auto simp: ledger_trim_def retain_def)

lemma load_ledger_append:
  "load_rows (w_ledger (ledger_append mx r w)) = retain mx (load_rows (w_ledger w) @ [r])"
  by (simp add: ledger_append_def load_ledger_trim)

interpretation ledger_log: bounded_log "\<lambda>w. load_rows (w_ledger w)" "ledger_append mx" mx for mx
  by unfold_locales (rule load_ledger_append)

lemma ledger_append_frames [frames]:
  "w_approvals (ledger_append mx r w) = w_approvals w"
  "w_episodic (ledger_append mx r w) = w_episodic w"
  "w_semantic (ledger_append mx r w) = w_semantic w"
  "w_tasks (ledger_append mx r w) = w_tasks w"
  "w_env (ledger_append mx r w) = w_env w"
  "w_safe (ledger_append mx r w) = w_safe w"
  "w_overrides (ledger_append mx r w) = w_overrides w"
  "w_now (ledger_append mx r w) = w_now w"
  "w_corr (ledger_append mx r w) = w_corr w"
  "w_outbox (ledger_append mx r w) = w_outbox w"
  "w_uuid (ledger_append mx r w) = w_uuid w"
  "w_uuids (ledger_append mx r w) = w_uuids w"
  by (simp_all add: ledger_append_def)

lemma latest_rows:
  "fold (\<lambda>r m. m(lr_key r \<mapsto> r)) rs m k =
     (case find (\<lambda>r. lr_key r = k) (rev rs) of None \<Rightarrow> m k | Some r \<Rightarrow> Some r)"
proof (induction rs arbitrary: m rule: rev_induct)
  case (snoc r rs)
  then show ?case by simp
qed simp

text \<open>The latest record of a key is the last one in file order.\<close>

lemma latest_record_eq:
  "latest_record_by_key ls k = find (\<lambda>r. lr_key r = k) (rev (load_rows ls))"
  by (simp add: latest_record_by_key_def latest_rows split: option.splits)

lemma latest_after_append:
  "latest_record_by_key (w_ledger (ledger_append mx r w)) (lr_key r) = Some r"
  by (simp add: latest_record_eq load_ledger_append retain_snoc)

lemma latest_after_mark:
  "\<exists>r. latest_record_by_key (w_ledger (mark mx k st meta w)) k = Some r \<and> lr_status r = st"
proof -
  obtain r where "mark mx k st meta w = ledger_append mx r w" and "lr_key r = k" and "lr_status r = st"
    by (simp add: mark_def Let_def)
  then show ?thesis using latest_after_append [of mx r w] by auto
qed

lemma latest_after_start:
  assumes "try_start mx k kind corr meta w = (True, w')"
  shows "latest_record_by_key (w_ledger w') k =
    Some \<lparr>lr_key = k, lr_kind = kind, lr_status = Started, lr_ts = now_iso w, lr_corr = corr, lr_meta = meta\<rparr>"
  using assms latest_after_append [of mx "\<lparr>lr_key = k, lr_kind = kind, lr_status = Started,
      lr_ts = now_iso w, lr_corr = corr, lr_meta = meta\<rparr>" w]
  by (auto simp: try_start_def Let_def split: option.splits if_splits)

lemma try_start_cases:
  "fst (try_start mx k kind corr meta w) \<longleftrightarrow>
     (case latest_record_by_key (w_ledger w) k of None \<Rightarrow> True | Some r \<Rightarrow> lr_status r \<notin> {Succeeded, Started})"
  by (auto simp: try_start_def Let_def split: option.splits)

lemma try_start_refused: "try_start mx k kind corr meta w = (False, w') \<Longrightarrow> w' = w"
  by (auto simp: try_start_def Let_def split: option.splits if_splits)

lemma latest_after_mark_other:
  assumes "k' \<noteq> k" and "mx \<le> 0"
  shows "latest_record_by_key (w_ledger (mark mx k st meta w)) k' = latest_record_by_key (w_ledger w) k'"
  using assms by (simp add: mark_def Let_def latest_record_eq load_ledger_append retain_def)


subsection \<open>At most one start per key\<close>

text \<open>Runs of ledger operations, from any mixture of clients.\<close>

datatype ledger_op =
    OpStart string ledger_kind "string option" "json dict"
  | OpMark string ledger_status "json dict"

fun ledger_step :: "int \<Rightarrow> ledger_op \<Rightarrow> world \<Rightarrow> world" where
  "ledger_step mx (OpStart k kind corr meta) w = snd (try_start mx k kind corr meta w)"
| "ledger_step mx (OpMark k st meta) w = mark mx k st meta w"

definition ledger_run :: "int \<Rightarrow> ledger_op list \<Rightarrow> world \<Rightarrow> world" where
  "ledger_run mx ops w = fold (ledger_step mx) ops w"

text \<open>An operation that frees the key: an outcome other than success.\<close>

fun releases :: "string \<Rightarrow> ledger_op \<Rightarrow> bool" where
  "releases k (OpMark k' st meta) \<longleftrightarrow> k' = k \<and> st \<in> {Failed, Skipped}"
| "releases k (OpStart k' kind corr meta) \<longleftrightarrow> False"

text \<open>
  The key is held, and its last record has at most \<open>d\<close> records after it: what a run of
  at most \<open>mx - d - 1\<close> appends cannot push out of the file.
\<close>

definition held :: "string \<Rightarrow> nat \<Rightarrow> ledger_record list \<Rightarrow> bool" where
  "held k d rs \<longleftrightarrow> (\<exists>ys r zs. rs = ys @ r # zs \<and> lr_key r = k \<and> lr_status r \<in> {Started, Succeeded}
      \<and> (\<forall>z\<in>set zs. lr_key z \<noteq> k) \<and> length zs \<le> d)"

lemma held_latest:
  "held k d (load_rows ls) \<Longrightarrow>
   \<exists>r. latest_record_by_key ls k = Some r \<and> lr_status r \<in> {Started, Succeeded}"
proof -
  assume "held k d (load_rows ls)"
  then obtain ys r zs where "load_rows ls = ys @ r # zs" and "lr_key r = k"
    and st: "lr_status r \<in> {Started, Succeeded}" and others: "\<forall>z\<in>set zs. lr_key z \<noteq> k"
    unfolding held_def by blast
  moreover have "find (\<lambda>r. lr_key r = k) (rev zs) = None"
    using others by (simp add: find_None_iff)
  ultimately have "latest_record_by_key ls k = Some r"
    by (simp add: latest_record_eq find_append)
  with st show ?thesis by blast
qed

lemma held_mono: "held k d rs \<Longrightarrow> d \<le> d' \<Longrightarrow> held k d' rs"
  unfolding held_def using le_trans by blast

lemma held_retain: "held k d rs \<Longrightarrow> mx \<le> 0 \<or> int d < mx \<Longrightarrow> held k d (retain mx rs)"
proof -
  assume h: "held k d rs" and mx: "mx \<le> 0 \<or> int d < mx"
  then obtain ys r zs where rs: "rs = ys @ r # zs" and rest: "lr_key r = k"
    "lr_status r \<in> {Started, Succeeded}" "\<forall>z\<in>set zs. lr_key z \<noteq> k" "length zs \<le> d"
    unfolding held_def by blast
  have "\<exists>ys'. retain mx rs = ys' @ r # zs"
  proof (cases "mx \<le> 0")
    case False
    then have "int (length (r # zs)) \<le> mx" using mx rest(4) by simp
    then show ?thesis using False rs last_n_append_long [of "r # zs" mx ys] by (auto simp: retain_def)
  qed (use rs in \<open>auto simp: retain_def\<close>)
  then show ?thesis using rest unfolding held_def by blast
qed

lemma held_snoc_other: "held k d rs \<Longrightarrow> lr_key x \<noteq> k \<Longrightarrow> held k (Suc d) (rs @ [x])"
  unfolding held_def by fastforce

lemma held_snoc_same: "lr_key x = k \<Longrightarrow> lr_status x \<in> {Started, Succeeded} \<Longrightarrow> held k d (rs @ [x])"
  unfolding held_def by fastforce

lemma held_append:
  assumes "held k d rs" and "lr_key x = k \<Longrightarrow> lr_status x \<in> {Started, Succeeded}"
    and "mx \<le> 0 \<or> int (Suc d) < mx"
  shows "held k (Suc d) (retain mx (rs @ [x]))"
  using assms held_snoc_other held_snoc_same held_retain by metis

lemma held_step:
  assumes "held k d (load_rows (w_ledger w))" and "\<not> releases k op" and "mx \<le> 0 \<or> int (Suc d) < mx"
  shows "held k (Suc d) (load_rows (w_ledger (ledger_step mx op w)))"
proof (cases op)
  case (OpStart k' kind corr meta)
  show ?thesis
  proof (cases "fst (try_start mx k' kind corr meta w)")
    case True
    then obtain r where r: "snd (try_start mx k' kind corr meta w) = ledger_append mx r w"
      and "lr_status r = Started"
      by (auto simp: try_start_def Let_def split: option.splits if_splits)
    then show ?thesis using assms held_append [OF assms(1) _ assms(3), of r] OpStart
      by (simp add: load_ledger_append)
  next
    case False
    then have "snd (try_start mx k' kind corr meta w) = w"
      using try_start_refused by (metis prod.collapse)
    moreover have "held k (Suc d) (load_rows (w_ledger w))"
      using assms(1) by (rule held_mono) simp
    ultimately show ?thesis using OpStart by simp
  qed
next
  case (OpMark k' st meta)
  obtain r where r: "mark mx k' st meta w = ledger_append mx r w" and key: "lr_key r = k'" "lr_status r = st"
    by (simp add: mark_def Let_def)
  have "lr_key r = k \<Longrightarrow> lr_status r \<in> {Started, Succeeded}"
    using assms(2) OpMark key by (cases st) auto
  then show ?thesis using held_append [OF assms(1) _ assms(3), of r] r OpMark
    by (simp add: load_ledger_append)
qed

lemma held_run:
  "held k d (load_rows (w_ledger w)) \<Longrightarrow> \<forall>op\<in>set ops. \<not> releases k op \<Longrightarrow>
   mx \<le> 0 \<or> int (d + length ops) < mx \<Longrightarrow>
   held k (d + length ops) (load_rows (w_ledger (ledger_run mx ops w)))"
proof (induction ops arbitrary: d w)
  case Nil
  then show ?case by (simp add: ledger_run_def)
next
  case (Cons op ops)
  have "held k (Suc d) (load_rows (w_ledger (ledger_step mx op w)))"
    using Cons.prems by (intro held_step) auto
  then show ?case using Cons.IH [of "Suc d" "ledger_step mx op w"] Cons.prems
    by (auto simp: ledger_run_def)
qed

lemma held_after_start:
  assumes "try_start mx k kind corr meta w = (True, w')"
  shows "held k 0 (load_rows (w_ledger w'))"
proof -
  obtain r where "w' = ledger_append mx r w" and "lr_key r = k" and "lr_status r = Started"
    using assms by (auto simp: try_start_def Let_def split: option.splits if_splits)
  moreover have "mx \<le> 0 \<or> int 0 < mx" by linarith
  ultimately show ?thesis
    using held_retain [OF held_snoc_same, of r k mx 0 "load_rows (w_ledger w)"]
    by (auto simp: load_ledger_append)
qed

lemma not_start_when_held:
  "held k d (load_rows (w_ledger w)) \<Longrightarrow> \<not> fst (try_start mx k kind corr meta w)"
  using held_latest [of k d "w_ledger w"] by (auto simp: try_start_cases)

text \<open>
  At most one start per key: once \<open>try_start\<close> has started a key, it refuses the key
  after every run of starts and marks of any keys that does not mark this key failed or
  skipped, as long as the run is shorter than the retention bound \<open>max_records\<close> (or the
  ledger is unbounded).
\<close>

theorem at_most_one_start:
  assumes "try_start mx k kind corr meta w = (True, w')"
    and "\<forall>op\<in>set ops. \<not> releases k op"
    and "mx \<le> 0 \<or> int (length ops) < mx"
  shows "\<not> fst (try_start mx k kind' corr' meta' (ledger_run mx ops w'))"
proof -
  have "held k (length ops) (load_rows (w_ledger (ledger_run mx ops w')))"
    using held_run [OF held_after_start [OF assms(1)] assms(2), of mx] assms(3) by simp
  then show ?thesis by (rule not_start_when_held)
qed

theorem at_most_one_start_witness:
  "\<not> fst (try_start 3 ''k'' JobRun None []
      (ledger_run 3 [OpMark ''k'' Succeeded [], OpStart ''j'' JobRun None []]
         (snd (try_start 3 ''k'' JobRun None [] (empty_world 0)))))"
proof -
  have "try_start 3 ''k'' JobRun None [] (empty_world 0)
      = (True, snd (try_start 3 ''k'' JobRun None [] (empty_world 0)))"
    by (simp add: try_start_def latest_record_by_key_def empty_world_def)
  then show ?thesis by (rule at_most_one_start) auto
qed

text \<open>Records of other keys, as many as the bound, push a key out of the file.\<close>

lemma marks_evict:
  "\<forall>op\<in>set ops. \<exists>k' st meta. op = OpMark k' st meta \<and> k' \<noteq> k \<Longrightarrow>
   \<exists>xs. load_rows (w_ledger (ledger_run mx ops w)) = (if ops = [] then load_rows (w_ledger w)
          else retain mx (load_rows (w_ledger w) @ xs)) \<and> length xs = length ops \<and> (\<forall>x\<in>set xs. lr_key x \<noteq> k)"
proof (induction ops arbitrary: w)
  case Nil
  then show ?case by (simp add: ledger_run_def)
next
  case (Cons op ops)
  then obtain k' st meta where op: "op = OpMark k' st meta" "k' \<noteq> k" by auto
  obtain r where r: "mark mx k' st meta w = ledger_append mx r w" and key: "lr_key r = k'"
    by (simp add: mark_def Let_def)
  obtain xs where "load_rows (w_ledger (ledger_run mx ops (ledger_append mx r w))) =
      (if ops = [] then load_rows (w_ledger (ledger_append mx r w))
       else retain mx (load_rows (w_ledger (ledger_append mx r w)) @ xs))"
    "length xs = length ops" "\<forall>x\<in>set xs. lr_key x \<noteq> k"
    using Cons.IH [of "ledger_append mx r w"] Cons.prems by auto
  then have "load_rows (w_ledger (ledger_run mx (op # ops) w)) = retain mx (load_rows (w_ledger w) @ r # xs)
      \<and> length (r # xs) = length (op # ops) \<and> (\<forall>x\<in>set (r # xs). lr_key x \<noteq> k)"
    using op r key by (auto simp: ledger_run_def load_ledger_append retain_append)
  then show ?case by (metis list.discI)
qed

text \<open>
  The bound of \<open>at_most_one_start\<close> is sharp: whatever the state of the key, once
  \<open>max_records\<close> outcomes of other keys have been recorded the ledger has forgotten it and
  \<open>try_start\<close> starts it again.
\<close>

theorem forgotten_after_bound:
  assumes "0 < mx" and "\<forall>op\<in>set ops. \<exists>k' st meta. op = OpMark k' st meta \<and> k' \<noteq> k"
    and "mx \<le> int (length ops)"
  shows "fst (try_start mx k kind corr meta (ledger_run mx ops w))"
proof -
  obtain xs where "load_rows (w_ledger (ledger_run mx ops w)) = retain mx (load_rows (w_ledger w) @ xs)"
    and len: "length xs = length ops" and others: "\<forall>x\<in>set xs. lr_key x \<noteq> k"
    using marks_evict [OF assms(2), of mx w] assms by (auto split: if_splits)
  moreover have "retain mx (load_rows (w_ledger w) @ xs) = last_n mx xs"
    using assms len by (simp add: retain_def last_n_def)
  ultimately have "\<forall>x\<in>set (load_rows (w_ledger (ledger_run mx ops w))). lr_key x \<noteq> k"
    using set_last_n [of mx xs] by auto
  then have "latest_record_by_key (w_ledger (ledger_run mx ops w)) k = None"
    by (simp add: latest_record_eq find_None_iff)
  then show ?thesis by (simp add: try_start_cases)
qed

theorem forgotten_after_bound_witness:
  "fst (try_start 2 ''k'' ApprovalExec None []
      (ledger_run 2 [OpMark ''a'' Succeeded [], OpMark ''b'' Failed []]
         (snd (try_start 2 ''k'' ApprovalExec None [] (empty_world 0)))))"
  by (rule forgotten_after_bound) auto

end
