(* ===== verification/ApprovalFlow.thy ===== *)
theory ApprovalFlow
  imports Executor Ledger
begin

section \<open>Approving and rejecting\<close>

text \<open>
  \<open>ApprovalService.approve\<close> and \<open>reject\<close> (\<open>core/approvals/service.py\<close>), with the
  executor and the ledger they call. \<open>sha\<close> is the hash of the ledger keys, \<open>mx\<close> the
  ledger's \<open>max_records\<close>, both fixed when the service is built. Log lines are not modelled.
\<close>

fun approval_status_str :: "approval_status \<Rightarrow> string" where
  "approval_status_str Pending = ''pending''"
| "approval_status_str Approved = ''approved''"
| "approval_status_str Rejected = ''rejected''"
| "approval_status_str Expired = ''expired''"

definition skip_output :: string where
  "skip_output = [CHR ''{'', CHR 0x22] @ ''skipped'' @ [CHR 0x22] @ '':true,'' @ [CHR 0x22] @ ''reason'' @ [CHR 0x22, CHR '':'', CHR 0x22]
     @ ''idempotent_duplicate'' @ [CHR 0x22, CHR ''}'']"

definition skipped_result :: "approval \<Rightarrow> step_result" where
  "skipped_result r = step_done (ap_step r) skip_output"

text \<open>An optional text in an f-string, and as JSON.\<close>

definition opt_text :: "string option \<Rightarrow> string" where
  "opt_text x = (case x of None \<Rightarrow> ''None'' | Some s \<Rightarrow> s)"

definition opt_json :: "string option \<Rightarrow> json" where
  "opt_json x = (case x of None \<Rightarrow> JNull | Some s \<Rightarrow> JStr s)"

text \<open>\<open>with log_context(correlation_id=...)\<close>: the variable is reset on every exit.\<close>

definition with_corr :: "string \<Rightarrow> (world \<Rightarrow> 'a \<times> world) \<Rightarrow> world \<Rightarrow> 'a \<times> world" where
  "with_corr corr body w =
     (let (res, w') = body (w\<lparr>w_corr := Some corr\<rparr>) in (res, w'\<lparr>w_corr := w_corr w\<rparr>))"

definition remediation :: string where
  "remediation = ''Policy denied at approval time. Required scopes are disabled. Go to /ui/scopes or use POST /v1/security/scopes/enable.''"

definition stamp_corr :: "string \<Rightarrow> approval \<Rightarrow> approval" where
  "stamp_corr corr r = r\<lparr>ap_requester := dict_update (ap_requester r) [(''correlation_id'', JStr corr)]\<rparr>"

definition approval_context :: "approval \<Rightarrow> context_pack" where
  "approval_context r = \<lparr>
     cp_goal = (case map_of (ap_context r) ''goal'' of None \<Rightarrow> ''approved execution'' | Some v \<Rightarrow> py_str v),
     cp_cwd = (case map_of (ap_context r) ''cwd'' of Some (JStr s) \<Rightarrow> Some s | _ \<Rightarrow> None)\<rparr>"

text \<open>The execution key is taken already: the request is closed as a duplicate.\<close>

definition approve_duplicate :: "string \<Rightarrow> string option \<Rightarrow> approval \<Rightarrow> world \<Rightarrow> approval \<times> world" where
  "approve_duplicate corr note r w =
     (let r1 = r\<lparr>ap_status := Approved, ap_result := Some (skipped_result r), ap_error := None\<rparr>;
          w1 = log_episode ''approval'' (''Skipped duplicate approval for '' @ opt_text (ps_skill (ap_step r)))
                 [(''approval_id'', JStr (ap_id r)), (''step_id'', JStr (ps_id (ap_step r))), (''ok'', JBool True),
                  (''approver_note'', opt_json note), (''correlation_id'', JStr corr),
                  (''skipped'', JBool True), (''reason'', JStr ''idempotent_duplicate'')] w;
          r2 = stamp_corr corr r1
      in (r2, persist_or_clean r2 w1))"

text \<open>The key has been started: run the step, mark the key, close the request.\<close>

definition approve_finish ::
  "int \<Rightarrow> string \<Rightarrow> string \<Rightarrow> string option \<Rightarrow> approval \<Rightarrow> step_result \<Rightarrow> world \<Rightarrow> approval \<times> world" where
  "approve_finish mx key corr note r res w =
     (let w1 = (if sr_ok res then mark mx key Succeeded [] w
                else mark mx key Failed [(''error'', JStr (str_or (sr_error res) ''execution_failed''))] w);
          r1 = r\<lparr>ap_status := Approved, ap_result := Some res, ap_error := sr_error res\<rparr>;
          w2 = log_episode ''approval'' (''Approved and executed '' @ opt_text (ps_skill (ap_step r)))
                 [(''approval_id'', JStr (ap_id r)), (''step_id'', JStr (ps_id (ap_step r))), (''ok'', JBool (sr_ok res)),
                  (''approver_note'', opt_json note), (''correlation_id'', JStr corr)] w1;
          r2 = stamp_corr corr r1
      in (r2, persist_or_clean r2 w2))"

definition approve_started ::
  "int \<Rightarrow> string \<Rightarrow> string \<Rightarrow> string option \<Rightarrow> registry \<Rightarrow> approval \<Rightarrow> world \<Rightarrow> approval res \<times> world" where
  "approve_started mx key corr note reg r w =
     (let ctx = approval_context r
      in case execute_plan \<lparr>pl_goal = cp_goal ctx, pl_steps = [ap_step r]\<rparr> ctx reg
                [(''source'', JStr ''approval''), (''approval_id'', JStr (ap_id r)),
                 (''approver_note'', opt_json note), (''correlation_id'', JStr corr)] True None w of
           (Inl e, w') \<Rightarrow> (Inl e, w')
         | (Inr (results, _), w') \<Rightarrow>
             (case results of
                [] \<Rightarrow> (Inl (IndexError ''list index out of range''), w')
              | res # _ \<Rightarrow> (let (r', w'') = approve_finish mx key corr note r res w' in (Inr r', w''))))"

definition approve_allowed ::
  "(string \<Rightarrow> string) \<Rightarrow> int \<Rightarrow> string \<Rightarrow> string option \<Rightarrow> registry \<Rightarrow> approval \<Rightarrow> world \<Rightarrow> approval res \<times> world" where
  "approve_allowed sha mx corr note reg r w =
     (let key = approval_execution_key sha (ap_id r) (ap_step r)
      in case try_start mx key ApprovalExec (Some corr)
                [(''approval_id'', JStr (ap_id r)), (''skill_name'', opt_json (ps_skill (ap_step r)))] w of
           (False, w') \<Rightarrow> (let (r', w'') = approve_duplicate corr note r w' in (Inr r', w''))
         | (True, w') \<Rightarrow> approve_started mx key corr note reg r w')"

definition approve_denied :: "policy \<Rightarrow> string list \<Rightarrow> string \<Rightarrow> approval \<Rightarrow> world \<Rightarrow> approval res \<times> world" where
  "approve_denied pol disabled corr r w =
     (let err = ''policy_denied:'' @ join '','' disabled @ '' | '' @ remediation;
          r1 = r\<lparr>ap_status := Rejected, ap_error := Some err\<rparr>;
          w1 = log_episode ''approval'' (''Rejected '' @ opt_text (ps_skill (ap_step r)) @ '' due to policy'')
                 [(''approval_id'', JStr (ap_id r)), (''step_id'', JStr (ps_id (ap_step r))),
                  (''disabled_scopes'', jstrs disabled), (''correlation_id'', JStr corr)] w;
          w2 = log_policy_event corr ''approval'' ''denied'' (str_or (ps_skill (ap_step r)) ''unknown'')
                 (ap_scopes r) (snapshot_model pol) ''scope_disabled''
                 [(''approval_id'', JStr (ap_id r)), (''task_id'', JStr (get_str_or ''task_id'' [] (ap_requester r)))] w1
      in (Inl (HTTPException 400 err), persist_or_clean r1 w2))"

text \<open>A pending, unexpired request outside safe mode: the policy check, then the execution.\<close>

definition approve_pending ::
  "(string \<Rightarrow> string) \<Rightarrow> int \<Rightarrow> string option \<Rightarrow> registry \<Rightarrow> approval \<Rightarrow> world \<Rightarrow> approval res \<times> world" where
  "approve_pending sha mx note reg r0 w =
     (let pol = permissions_policy w;
          r = r0\<lparr>ap_snapshot_at_approve := Some (snapshot_model pol)\<rparr>;
          (scopes_ok, disabled) = check_scopes pol (ap_scopes r);
          (corr, w1) = correlation_of (ap_requester r) w
      in if \<not> scopes_ok then approve_denied pol disabled corr r w1
         else with_corr corr (approve_allowed sha mx corr note reg r)
                (log_policy_event corr ''approval'' ''allowed'' (str_or (ps_skill (ap_step r)) ''unknown'')
                   (ap_scopes r) (snapshot_model pol) ''allowed''
                   [(''approval_id'', JStr (ap_id r)), (''task_id'', JStr (get_str_or ''task_id'' [] (ap_requester r)))] w1))"

definition expire :: "approval \<Rightarrow> world \<Rightarrow> approval res \<times> world" where
  "expire r w =
     (Inl (HTTPException 400 ''approval expired''),
      persist_or_clean (r\<lparr>ap_status := Expired, ap_error := Some ''approval expired''\<rparr>) w)"

definition approve ::
  "(string \<Rightarrow> string) \<Rightarrow> int \<Rightarrow> string \<Rightarrow> string option \<Rightarrow> registry \<Rightarrow> world \<Rightarrow> approval res \<times> world" where
  "approve sha mx i note reg w =
     (case approval_get i w of
        None \<Rightarrow> (Inl (HTTPException 404 ''approval not found''), w)
      | Some r \<Rightarrow>
          if ap_status r = Approved then (Inr (r\<lparr>ap_result := Some (skipped_result r)\<rparr>), w)
          else if ap_status r \<noteq> Pending then
            (Inl (HTTPException 400 (''approval is '' @ approval_status_str (ap_status r))), w)
          else if is_safe_mode_enabled w then
            (Inl (HTTPException 409 ''Safe mode enabled; approval execution is disabled''),
             log_episode ''policy'' (''Safe mode blocked approval execution for '' @ opt_text (ps_skill (ap_step r)))
               [(''approval_id'', JStr (ap_id r)), (''step_id'', JStr (ps_id (ap_step r))),
                (''correlation_id'', JStr (str_or (w_corr w) []))] w)
          else case is_expired r (Aware (w_now w)) of
            Inl e \<Rightarrow> (Inl e, w)
          | Inr True \<Rightarrow> expire r w
          | Inr False \<Rightarrow> approve_pending sha mx note reg r w)"

definition reject :: "string \<Rightarrow> string option \<Rightarrow> world \<Rightarrow> approval res \<times> world" where
  "reject i reason w =
     (case approval_get i w of
        None \<Rightarrow> (Inl (HTTPException 404 ''approval not found''), w)
      | Some r \<Rightarrow>
          if ap_status r \<noteq> Pending then
            (Inl (HTTPException 400 (''approval is '' @ approval_status_str (ap_status r))), w)
          else case is_expired r (Aware (w_now w)) of
            Inl e \<Rightarrow> (Inl e, w)
          | Inr True \<Rightarrow> expire r w
          | Inr False \<Rightarrow>
              let (corr, w1) = correlation_of (ap_requester r) w;
                  r1 = stamp_corr corr (r\<lparr>ap_status := Rejected, ap_error := reason\<rparr>)
              in (Inr r1,
                  persist_or_clean r1
                    (log_episode ''approval'' (''Rejected '' @ opt_text (ps_skill (ap_step r)))
                       [(''approval_id'', JStr (ap_id r)), (''reason'', opt_json reason),
                        (''correlation_id'', JStr corr)] w1)))"

subsection \<open>Who gets executed\<close>

text \<open>A state with one pending request, for the examples.\<close>

definition demo_approval :: approval where
  "demo_approval = \<lparr>ap_id = ''a1'', ap_created = Iso (Aware 0), ap_expires = Iso (Aware 100), ap_status = Pending,
     ap_requester = [], ap_step = \<lparr>ps_id = ''s1'', ps_description = ''remind me'', ps_skill = Some ''reminders.create'',
       ps_args = ''{}'', ps_requires_approval = True\<rparr>, ap_context = [], ap_rationale = [], ap_result = None,
     ap_error = None, ap_scopes = [''reminders.write''], ap_snapshot = None, ap_snapshot_at_approve = None\<rparr>"

definition demo_world :: world where
  "demo_world = (empty_world 0)\<lparr>w_env := (\<lambda>n. if n = ''BENJAMIN_SCOPES_ENABLED'' then Some ''reminders.write'' else None),
     w_approvals := [Row demo_approval]\<rparr>"

text \<open>What must hold for an approval to run its step.\<close>

definition authorised :: "(string \<Rightarrow> string) \<Rightarrow> string \<Rightarrow> world \<Rightarrow> bool" where
  "authorised sha i w \<longleftrightarrow>
     (case approval_get i w of
        None \<Rightarrow> False
      | Some r \<Rightarrow> ap_status r = Pending \<and> \<not> is_safe_mode_enabled w
          \<and> is_expired r (Aware (w_now w)) = Inr False
          \<and> list_all (is_scope_enabled (permissions_policy w)) (ap_scopes r)
          \<and> (case latest_record_by_key (w_ledger w) (approval_execution_key sha (ap_id r) (ap_step r)) of
                None \<Rightarrow> True | Some l \<Rightarrow> lr_status l \<in> {Failed, Skipped}))"

lemma approval_get_id: "approval_get i w = Some r \<Longrightarrow> ap_id r = i"
  unfolding approval_get_def rows_find_def by (drule find_SomeD) simp

lemma status_free_iff: "lr_status l \<in> {Failed, Skipped} \<longleftrightarrow> lr_status l \<notin> {Succeeded, Started}"
  by (cases "lr_status l") auto

lemma try_start_ledger_cong: "w_ledger w' = w_ledger w \<Longrightarrow>
    fst (try_start mx k kind corr meta w') = fst (try_start mx k kind corr meta w)"
  unfolding try_start_cases by simp

lemma approve_allowed_held:
  assumes "\<not> fst (try_start mx (approval_execution_key sha (ap_id r) (ap_step r)) ApprovalExec None [] w)"
  shows "approve_allowed sha mx corr note reg r w = approve_allowed sha mx corr note reg' r w"
proof -
  let ?t = "try_start mx (approval_execution_key sha (ap_id r) (ap_step r)) ApprovalExec (Some corr)
     [(''approval_id'', JStr (ap_id r)), (''skill_name'', opt_json (ps_skill (ap_step r)))] w"
  have "\<not> fst ?t" using assms unfolding try_start_cases .
  then obtain w' where "?t = (False, w')" by (cases ?t) simp
  then show ?thesis unfolding approve_allowed_def Let_def by simp
qed

text \<open>
  C4. An approval runs its step only when it is authorised: pending, not expired, outside
  safe mode, with its scopes enabled now and its execution key neither started nor
  succeeded. Otherwise the outcome does not depend on the registered skills at all.
\<close>

theorem approve_needs_authorisation:
  assumes "\<not> authorised sha i w"
  shows "approve sha mx i note reg w = approve sha mx i note reg' w"
proof (cases "approval_get i w")
  case (Some r)
  show ?thesis
  proof (cases "ap_status r = Pending \<and> \<not> is_safe_mode_enabled w \<and> is_expired r (Aware (w_now w)) = Inr False")
    case True
    obtain corr w1 where c: "correlation_of (ap_requester r) w = (corr, w1)" by fastforce
    have l1: "w_ledger w1 = w_ledger w" using correlation_of_frames(2) [of "ap_requester r" w] c by simp
    obtain ok bad where chk: "check_scopes (permissions_policy w) (ap_scopes r) = (ok, bad)" by fastforce
    show ?thesis
    proof (cases ok)
      case False
      with True Some c chk show ?thesis by (simp add: approve_def approve_pending_def Let_def)
    next
      case okay: True
      then have "list_all (is_scope_enabled (permissions_policy w)) (ap_scopes r)"
        using scopes.check_okD chk by (auto simp: list_all_iff)
      with assms True Some have "\<not> fst (try_start mx (approval_execution_key sha (ap_id r) (ap_step r)) ApprovalExec None [] w)"
        unfolding authorised_def try_start_cases status_free_iff by (auto split: option.splits)
      then have held: "\<not> fst (try_start mx (approval_execution_key sha (ap_id r) (ap_step r)) ApprovalExec None [] w')"
        if "w_ledger w' = w_ledger w" for w'
        using try_start_ledger_cong that by metis
      let ?r = "r\<lparr>ap_snapshot_at_approve := Some (snapshot_model (permissions_policy w))\<rparr>"
      have "approve_allowed sha mx corr note reg ?r w' = approve_allowed sha mx corr note reg' ?r w'"
        if "w_ledger w' = w_ledger w" for w'
        by (rule approve_allowed_held) (use held that in simp)
      then show ?thesis using True Some c chk okay l1
        by (simp add: approve_def approve_pending_def with_corr_def Let_def)
    qed
  next
    case False
    with Some show ?thesis by (auto simp: approve_def split: sum.splits bool.splits)
  qed
qed (simp add: approve_def)

theorem approve_needs_authorisation_witness:
  "approve (\<lambda>s. s) 10 ''a1'' None (demo_registry (\<lambda>q w. (Inr ''done'', w\<lparr>w_uuid := 7\<rparr>)))
       (set_safe_mode_enabled True demo_world)
   = approve (\<lambda>s. s) 10 ''a1'' None (demo_registry (\<lambda>q w. (Inl (RuntimeError ''boom''), w)))
       (set_safe_mode_enabled True demo_world)"
proof (rule approve_needs_authorisation)
  have "is_safe_mode_enabled (set_safe_mode_enabled True demo_world)"
    by (simp add: is_safe_mode_enabled_def set_safe_mode_enabled_def)
  then show "\<not> authorised (\<lambda>s. s) ''a1'' (set_safe_mode_enabled True demo_world)"
    by (simp add: authorised_def split: option.splits)
qed

subsection \<open>A second approval\<close>

lemma persist_closed_get:
  "ap_status r = Approved \<Longrightarrow>
   approval_get (ap_id r) (persist_or_clean r w) = (if autoclean w then None else Some r)"
  by (simp add: persist_or_clean_get)

lemma autoclean_cong: "w_env w' = w_env w \<Longrightarrow> autoclean w' = autoclean w"
  by (simp add: autoclean_def getenv_def)

lemma autoclean_persist [simp]: "autoclean (persist_or_clean r w) = autoclean w"
  by (rule autoclean_cong) simp

lemma stamp_corr_simps [simp]:
  "ap_id (stamp_corr c r) = ap_id r" "ap_status (stamp_corr c r) = ap_status r"
  "ap_result (stamp_corr c r) = ap_result r" "ap_error (stamp_corr c r) = ap_error r"
  "ap_step (stamp_corr c r) = ap_step r"
  by (simp_all add: stamp_corr_def)

text \<open>A request the store has closed: gone, or kept as approved.\<close>

definition closed :: "string \<Rightarrow> approval \<Rightarrow> world \<Rightarrow> bool" where
  "closed i r w \<longleftrightarrow> ap_status r = Approved \<and> approval_get i w = (if autoclean w then None else Some r)"

lemma closed_persist:
  "ap_status r = Approved \<Longrightarrow> ap_id r = i \<Longrightarrow> closed i r (persist_or_clean r w)"
  by (auto simp: closed_def persist_closed_get)

lemma closed_corr [simp]: "closed i r (w\<lparr>w_corr := c\<rparr>) = closed i r w"
  by (simp add: closed_def approval_get_def autoclean_def getenv_def)

lemma approve_duplicate_closed:
  "approve_duplicate corr note r w = (r', w') \<Longrightarrow> closed (ap_id r) r' w'"
  unfolding approve_duplicate_def Let_def by (auto intro!: closed_persist)

lemma approve_finish_closed:
  "approve_finish mx key corr note r res w = (r', w') \<Longrightarrow> closed (ap_id r) r' w'"
  unfolding approve_finish_def Let_def by (auto intro!: closed_persist)

lemma approve_started_closed:
  assumes "approve_started mx key corr note reg r w = (Inr r', w')"
  shows "closed (ap_id r) r' w'"
  using assms unfolding approve_started_def Let_def
  by (auto dest: approve_finish_closed split: sum.splits prod.splits list.splits)

lemma approve_allowed_closed:
  assumes "approve_allowed sha mx corr note reg r w = (Inr r', w')"
  shows "closed (ap_id r) r' w'"
  using assms unfolding approve_allowed_def Let_def
  by (auto dest: approve_duplicate_closed approve_started_closed split: prod.splits bool.splits)

lemma approve_pending_closed:
  assumes "approve_pending sha mx note reg r w = (Inr r', w')"
  shows "closed (ap_id r) r' w'"
proof -
  obtain ok bad where c: "check_scopes (permissions_policy w) (ap_scopes r) = (ok, bad)" by fastforce
  obtain corr w1 where cc: "correlation_of (ap_requester r) w = (corr, w1)" by fastforce
  have ok using assms c cc by (cases ok) (simp_all add: approve_pending_def approve_denied_def Let_def)
  let ?r = "r\<lparr>ap_snapshot_at_approve := Some (snapshot_model (permissions_policy w))\<rparr>"
  from assms c cc \<open>ok\<close> obtain w2 w3 k where a: "approve_allowed sha mx corr note reg ?r w2 = (Inr r', w3)"
    and w': "w' = w3\<lparr>w_corr := k\<rparr>"
    by (auto simp: approve_pending_def with_corr_def Let_def split: prod.splits)
  have "closed (ap_id ?r) r' w3" by (rule approve_allowed_closed [OF a])
  then show ?thesis using w' by simp
qed

text \<open>
  Approving is idempotent: after a request has been approved, approving it again, with
  whatever skills, changes nothing; the answer is that there is no such request, or that
  it was skipped as a duplicate.
\<close>

theorem approve_twice:
  assumes "approve sha mx i note reg w = (Inr r, w1)"
  shows "snd (approve sha mx' i note' reg' w1) = w1
    \<and> (fst (approve sha mx' i note' reg' w1) = Inl (HTTPException 404 ''approval not found'')
       \<or> (\<exists>r'. fst (approve sha mx' i note' reg' w1) = Inr r' \<and> ap_status r' = Approved
              \<and> ap_result r' = Some (skipped_result r')))"
proof -
  obtain r0 where g: "approval_get i w = Some r0"
    using assms by (cases "approval_get i w") (simp_all add: approve_def)
  have id: "ap_id r0 = i" using approval_get_id [OF g] .
  have "approval_get i w1 = None \<or> (\<exists>r'. approval_get i w1 = Some r' \<and> ap_status r' = Approved)"
  proof (cases "ap_status r0 = Approved")
    case True
    with assms g show ?thesis by (simp add: approve_def)
  next
    case False
    with assms g have "approve_pending sha mx note reg r0 w = (Inr r, w1)"
      by (auto simp: approve_def expire_def split: if_splits sum.splits bool.splits)
    then have "closed i r w1" using approve_pending_closed id by blast
    then show ?thesis by (auto simp: closed_def)
  qed
  then show ?thesis by (auto simp: approve_def skipped_result_def)
qed

theorem approve_twice_witness:
  "\<exists>r w1. approve (\<lambda>s. s) 10 ''a1'' None (demo_registry (\<lambda>q w. (Inr ''done'', w))) demo_world = (Inr r, w1)
     \<and> snd (approve (\<lambda>s. s) 10 ''a1'' None (demo_registry (\<lambda>q w. (Inr ''done'', w\<lparr>w_uuid := 7\<rparr>))) w1) = w1"
proof -
  let ?a = "approve (\<lambda>s. s) 10 ''a1'' None (demo_registry (\<lambda>q w. (Inr ''done'', w))) demo_world"
  have "\<not> isl (fst ?a)" by code_simp
  then obtain r w1 where "?a = (Inr r, w1)" by (cases ?a; cases "fst ?a") auto
  then show ?thesis using approve_twice by blast
qed

subsection \<open>An execution that raises\<close>

lemma execute_step_forced_error: "execute_step step ctx reg rq True tr w = (Inl e, w') \<Longrightarrow> w' = w"
  by (auto simp: execute_step_def run_allowed_def Let_def split: if_splits sum.splits prod.splits)

lemma approve_started_error:
  "approve_started mx key corr note reg r w = (Inl (KeyError n), w') \<Longrightarrow> w' = w"
  unfolding approve_started_def execute_plan_def Let_def
  by (auto dest: execute_step_forced_error split: sum.splits prod.splits list.splits)

lemma try_start_frames:
  "w_approvals (snd (try_start mx k kind corr meta w)) = w_approvals w"
  "w_env (snd (try_start mx k kind corr meta w)) = w_env w"
  "w_safe (snd (try_start mx k kind corr meta w)) = w_safe w"
  "w_overrides (snd (try_start mx k kind corr meta w)) = w_overrides w"
  "w_now (snd (try_start mx k kind corr meta w)) = w_now w"
  by (simp_all add: try_start_def Let_def frames split: option.splits)

text \<open>What the guards of \<open>approve\<close> read.\<close>

definition guard_view :: "world \<Rightarrow> approval line list \<times> (string \<Rightarrow> string option) \<times> json dict jfile \<times> json jfile \<times> int" where
  "guard_view w = (w_approvals w, w_env w, w_safe w, w_overrides w, w_now w)"

lemma guard_view_simps [simp]:
  "guard_view (log_policy_event c s d n r sn re x w) = guard_view w"
  "guard_view (log_episode k su m w) = guard_view w"
  "guard_view (snd (try_start mx key kind corr meta w)) = guard_view w"
  "guard_view (snd (correlation_of rq w)) = guard_view w"
  "guard_view (w\<lparr>w_corr := cc\<rparr>) = guard_view w"
  by (simp_all add: guard_view_def try_start_frames)

text \<open>The states in which the skill may be called: the one before the approval, but for log entries and identifiers.\<close>

definition work_view :: "world \<Rightarrow> world" where
  "work_view w = w\<lparr>w_episodic := [], w_ledger := [], w_uuid := 0, w_corr := None\<rparr>"

lemma work_view_simps [simp]:
  "work_view (log_policy_event c s d n r sn re x w) = work_view w"
  "work_view (log_episode k su m w) = work_view w"
  "work_view (w\<lparr>w_corr := cc\<rparr>) = work_view w"
  by (simp_all add: work_view_def log_policy_event_def log_episode_eq)



lemma work_view_correlation [simp]: "work_view (snd (correlation_of rq w)) = work_view w"
  by (simp add: work_view_def correlation_of_def uuid4_def)

text \<open>The guards of \<open>approve\<close> before the ledger.\<close>

definition approvable :: "string \<Rightarrow> approval \<Rightarrow> world \<Rightarrow> bool" where
  "approvable i r w \<longleftrightarrow> approval_get i w = Some r \<and> ap_status r = Pending \<and> \<not> is_safe_mode_enabled w
     \<and> is_expired r (Aware (w_now w)) = Inr False \<and> fst (check_scopes (permissions_policy w) (ap_scopes r))"

lemma approvable_cong:
  assumes "guard_view w' = guard_view w"
  shows "approvable i r w' = approvable i r w"
proof -
  have "is_safe_mode_enabled w' = is_safe_mode_enabled w"
    by (rule is_safe_mode_cong) (use assms in \<open>simp_all add: guard_view_def\<close>)
  moreover have "permissions_policy w' = permissions_policy w"
    by (rule permissions_policy_cong) (use assms in \<open>simp_all add: guard_view_def\<close>)
  moreover have "w_approvals w' = w_approvals w" "w_now w' = w_now w"
    using assms by (simp_all add: guard_view_def)
  ultimately show ?thesis by (simp add: approvable_def approval_get_def)
qed

lemma approve_approvable:
  assumes "approvable i r w"
  obtains corr w1 where "guard_view w1 = guard_view w" and "work_view w1 = work_view w" and "w_ledger w1 = w_ledger w"
    and "\<forall>nt reg. approve sha mx i nt reg w = with_corr corr (approve_allowed sha mx corr nt reg
           (r\<lparr>ap_snapshot_at_approve := Some (snapshot_model (permissions_policy w))\<rparr>)) w1"
proof -
  obtain corr w1 where c: "correlation_of (ap_requester r) w = (corr, w1)" by fastforce
  obtain bad where k: "check_scopes (permissions_policy w) (ap_scopes r) = (True, bad)"
    using assms by (cases "check_scopes (permissions_policy w) (ap_scopes r)") (simp add: approvable_def)
  let ?w = "log_policy_event corr ''approval'' ''allowed'' (str_or (ps_skill (ap_step r)) ''unknown'')
     (ap_scopes r) (snapshot_model (permissions_policy w)) ''allowed''
     [(''approval_id'', JStr (ap_id r)), (''task_id'', JStr (get_str_or ''task_id'' [] (ap_requester r)))] w1"
  have "guard_view w1 = guard_view w" "work_view w1 = work_view w" "w_ledger w1 = w_ledger w"
    using guard_view_simps(4) [of "ap_requester r" w] work_view_correlation [of "ap_requester r" w]
      correlation_of_frames(2) [of "ap_requester r" w] c by simp_all
  then have v: "guard_view ?w = guard_view w" "work_view ?w = work_view w" "w_ledger ?w = w_ledger w" by simp_all
  have "\<forall>nt reg. approve sha mx i nt reg w = with_corr corr (approve_allowed sha mx corr nt reg
           (r\<lparr>ap_snapshot_at_approve := Some (snapshot_model (permissions_policy w))\<rparr>)) ?w"
    using assms k c by (simp add: approvable_def approve_def approve_pending_def Let_def)
  with v show thesis by (rule that)
qed

lemma approve_held:
  assumes "approvable i r w"
    and "latest_record_by_key (w_ledger w) (approval_execution_key sha i (ap_step r)) = Some l"
    and "lr_status l \<in> {Succeeded, Started}"
  shows "\<exists>r' w'. approve sha mx i note reg w = (Inr r', w') \<and> ap_status r' = Approved
    \<and> ap_result r' = Some (skipped_result r)"
proof -
  have id: "ap_id r = i" using assms(1) approval_get_id [of i w r] by (simp add: approvable_def)
  obtain corr w1 where v1: "guard_view w1 = guard_view w" and l1: "w_ledger w1 = w_ledger w"
    and a: "\<forall>nt reg. approve sha mx i nt reg w = with_corr corr (approve_allowed sha mx corr nt reg
           (r\<lparr>ap_snapshot_at_approve := Some (snapshot_model (permissions_policy w))\<rparr>)) w1"
    by (rule approve_approvable [OF assms(1), where sha = sha and mx = mx])
  have "try_start mx (approval_execution_key sha i (ap_step r)) ApprovalExec (Some corr) meta w2 = (False, w2)"
    if "w_ledger w2 = w_ledger w" for w2 meta
    using assms(2,3) that by (simp add: try_start_def)
  then show ?thesis
    by (simp add: a [rule_format] with_corr_def approve_allowed_def approve_duplicate_def Let_def id l1 skipped_result_def)
qed

lemma approve_KeyError_approvable:
  assumes "approve sha mx i note reg w = (Inl (KeyError n), w')"
  obtains r where "approvable i r w"
proof -
  obtain r where g: "approval_get i w = Some r"
    using assms by (cases "approval_get i w") (simp_all add: approve_def)
  have "is_expired r d \<noteq> Inl (KeyError n)" for d
    by (cases "ap_expires r" rule: iso_key.cases; cases d)
      (simp_all add: is_expired_def invalid_iso_def naive_aware_def)
  then have p: "ap_status r = Pending" "\<not> is_safe_mode_enabled w" "is_expired r (Aware (w_now w)) = Inr False"
    and a: "approve_pending sha mx note reg r w = (Inl (KeyError n), w')"
    using assms g by (auto simp: approve_def expire_def split: if_splits sum.splits bool.splits)
  have "fst (check_scopes (permissions_policy w) (ap_scopes r))"
    using a by (cases "check_scopes (permissions_policy w) (ap_scopes r)")
      (auto simp: approve_pending_def approve_denied_def Let_def split: prod.splits if_splits)
  with p g that show thesis by (simp add: approvable_def)
qed

text \<open>
  An approval whose execution raises (its skill is not registered) leaves the request
  pending and its key started. Approving it again, with the skill now registered or not,
  reports it approved and ok without running anything.
\<close>

theorem approve_crash_then_skipped:
  assumes "approve sha mx i note reg w = (Inl (KeyError n), w1)"
  shows "\<exists>r r' w2. approval_get i w1 = Some r \<and> ap_status r = Pending
    \<and> approve sha mx i note' reg' w1 = (Inr r', w2) \<and> ap_status r' = Approved
    \<and> ap_result r' = Some (skipped_result r)"
proof -
  obtain r where ok: "approvable i r w" using approve_KeyError_approvable [OF assms] by blast
  have id: "ap_id r = i" using ok approval_get_id [of i w r] by (simp add: approvable_def)
  obtain corr w2 where v: "guard_view w2 = guard_view w" and l2: "w_ledger w2 = w_ledger w"
    and a: "\<forall>nt reg. approve sha mx i nt reg w = with_corr corr (approve_allowed sha mx corr nt reg
           (r\<lparr>ap_snapshot_at_approve := Some (snapshot_model (permissions_policy w))\<rparr>)) w2"
    by (rule approve_approvable [OF ok, where sha = sha and mx = mx])
  let ?r = "r\<lparr>ap_snapshot_at_approve := Some (snapshot_model (permissions_policy w))\<rparr>"
  let ?k = "approval_execution_key sha i (ap_step r)"
  obtain w3 where a3: "approve_allowed sha mx corr note reg ?r (w2\<lparr>w_corr := Some corr\<rparr>) = (Inl (KeyError n), w3)"
    and w1: "w1 = w3\<lparr>w_corr := w_corr w2\<rparr>"
    using assms by (auto simp: a [rule_format] with_corr_def split: prod.splits)
  obtain meta where s: "try_start mx ?k ApprovalExec (Some corr) meta (w2\<lparr>w_corr := Some corr\<rparr>) = (True, w3)"
    using a3 unfolding approve_allowed_def Let_def
    by (auto simp: id dest: approve_started_error split: prod.splits bool.splits)
  have "guard_view w3 = guard_view w"
    using guard_view_simps(3) [of mx ?k ApprovalExec "Some corr" meta "w2\<lparr>w_corr := Some corr\<rparr>"] s v by simp
  then have "approvable i r w1" using ok w1 approvable_cong [of w1 w] by simp
  moreover have "\<exists>l. latest_record_by_key (w_ledger w1) ?k = Some l \<and> lr_status l \<in> {Succeeded, Started}"
    using latest_after_start [OF s] w1 by simp
  ultimately show ?thesis
    using approve_held [of i r w1 sha _ mx note' reg'] by (auto simp: approvable_def)
qed

theorem approve_crash_then_skipped_witness:
  "\<exists>w1 r' w2. approve (\<lambda>s. s) 10 ''a1'' None [] demo_world = (Inl (KeyError ''reminders.create''), w1)
     \<and> approve (\<lambda>s. s) 10 ''a1'' None (demo_registry (\<lambda>q w. (Inr ''done'', w))) w1 = (Inr r', w2)
     \<and> ap_status r' = Approved"
proof -
  let ?a = "approve (\<lambda>s. s) 10 ''a1'' None [] demo_world"
  have "fst ?a = Inl (KeyError ''reminders.create'')" by code_simp
  then obtain w1 where "?a = (Inl (KeyError ''reminders.create''), w1)" by (cases ?a) auto
  then show ?thesis using approve_crash_then_skipped by blast
qed

subsection \<open>The outcome is recorded\<close>





lemma permissions_policy_log [simp]: "permissions_policy (log_policy_event c s d n r sn re x w) = permissions_policy w"
  by (rule permissions_policy_cong) simp_all



lemma work_view_mark [simp]: "work_view (mark mx k st m w) = work_view w"
  by (simp add: work_view_def mark_def ledger_append_def Let_def)

lemma work_view_persist [simp]: "(work_view (persist_or_clean r w))\<lparr>w_approvals := []\<rparr> = (work_view w)\<lparr>w_approvals := []\<rparr>"
  by (simp add: persist_or_clean_def approval_upsert_def approval_delete_def work_view_def)





end
