(* ===== verification/Lifecycle.thy ===== *)
theory Lifecycle
  imports ApprovalFlow
begin

section \<open>The life of an approval request\<close>

text \<open>
  The operations on approvals as one step relation, in any order and with anything
  happening in between that does not touch the approvals file (time passing, settings
  changing, other components at work), the invariant of the file, and what a closed
  request can still go through.
\<close>

definition keeps_approvals :: "registry \<Rightarrow> bool" where
  "keeps_approvals reg \<longleftrightarrow>
     (\<forall>n s. map_of reg n = Some s \<longrightarrow> (\<forall>q w. w_approvals (snd (sk_run s q w)) = w_approvals w))"

inductive life_step :: "(string \<Rightarrow> string) \<Rightarrow> int \<Rightarrow> registry \<Rightarrow> world \<Rightarrow> world \<Rightarrow> bool"
  for sha mx reg where
  create: "create_pending step ctx rq ra reg req w = (res, w') \<Longrightarrow> life_step sha mx reg w w'"
| approve: "approve sha mx i note reg w = (res, w') \<Longrightarrow> life_step sha mx reg w w'"
| reject: "reject i reason w = (res, w') \<Longrightarrow> life_step sha mx reg w w'"
| cleanup: "cleanup_expired w = (res, w') \<Longrightarrow> life_step sha mx reg w w'"
| other: "w_approvals w' = w_approvals w \<Longrightarrow> life_step sha mx reg w w'"

inductive life :: "(string \<Rightarrow> string) \<Rightarrow> int \<Rightarrow> registry \<Rightarrow> world \<Rightarrow> world \<Rightarrow> bool"
  for sha mx reg where
  start: "life sha mx reg w w"
| step: "life sha mx reg w w' \<Longrightarrow> life_step sha mx reg w' w'' \<Longrightarrow> life sha mx reg w w''"

inductive_cases life_stepE: "life_step sha mx reg w w'"

definition result_iff_approved :: "approval \<Rightarrow> bool" where
  "result_iff_approved r \<longleftrightarrow> (ap_result r \<noteq> None \<longleftrightarrow> ap_status r = Approved)"

definition store_ok :: "world \<Rightarrow> bool" where
  "store_ok w \<longleftrightarrow> distinct (map ap_id (approvals w)) \<and> list_all result_iff_approved (approvals w)"

lemma store_ok_cong: "w_approvals w' = w_approvals w \<Longrightarrow> store_ok w' = store_ok w"
  by (simp add: store_ok_def approvals_def)

lemma store_ok_upsert:
  assumes "store_ok w" and "result_iff_approved r"
  shows "store_ok (approval_upsert r w)"
  using assms set_upsert_first [of "\<lambda>x. ap_id x = ap_id r" r "approvals w"]
  by (auto simp: store_ok_def distinct_upsert_first list_all_iff)

lemma store_ok_delete:
  assumes "store_ok w"
  shows "store_ok (approval_delete i w)"
proof -
  have "distinct (map ap_id (filter (\<lambda>x. ap_id x \<noteq> i) (approvals w)))"
    using assms by (simp add: store_ok_def distinct_map_filter)
  then show ?thesis using assms by (auto simp: store_ok_def list_all_iff)
qed

lemma store_ok_persist:
  "store_ok w \<Longrightarrow> result_iff_approved r \<Longrightarrow> store_ok (persist_or_clean r w)"
  by (simp add: persist_or_clean_def store_ok_upsert store_ok_delete)

lemma store_ok_get: "store_ok w \<Longrightarrow> approval_get i w = Some r \<Longrightarrow> result_iff_approved r"
  unfolding store_ok_def approval_get_def rows_find_def approvals_def list_all_iff
  by (drule find_SomeD) blast

lemma store_ok_create:
  assumes "store_ok w" and "create_pending step ctx rq ra reg req w = (res, w')"
  shows "store_ok w'"
proof (cases res)
  case (Inl e)
  with assms create_pending_error_frames(1) store_ok_cong show ?thesis by blast
next
  case (Inr r)
  with assms(2) have "create_pending step ctx rq ra reg req w = (Inr r, w')" by simp
  then show ?thesis
  proof (rule create_pending_okE)
    fix w2 assume "ap_status r = Pending" and "ap_result r = None" and "w' = approval_upsert r w2"
      and "w_approvals w2 = w_approvals w"
    then show ?thesis using assms(1) store_ok_cong [of w2 w]
      by (simp add: store_ok_upsert result_iff_approved_def)
  qed
qed

lemma cleanup_loop_keeps:
  assumes "cleanup_loop ac now rs n out = Inr (m, out')"
    and "distinct (map ap_id (out @ rs))" and "list_all result_iff_approved (out @ rs)"
  shows "distinct (map ap_id out') \<and> list_all result_iff_approved out'"
  using assms
proof (induction rs arbitrary: n out)
  case (Cons r rs)
  then show ?case
    by (cases ac)
      (auto simp: result_iff_approved_def split: if_splits sum.splits bool.splits)
qed simp

lemma store_ok_cleanup:
  assumes "store_ok w"
  shows "store_ok (snd (cleanup_expired w))"
  using assms cleanup_loop_keeps [of "autoclean w" "Aware (w_now w)" "approvals w" 0 "[]"]
  by (auto simp: cleanup_expired_def store_ok_def approvals_def split: sum.splits prod.splits)

lemma run_allowed_forced_approvals:
  assumes "keeps_approvals reg" and "registry_get reg n = Inr s"
  shows "w_approvals (snd (run_allowed step s ctx reg rq True tr w)) = w_approvals w"
proof -
  have "w_approvals (snd (sk_run s (ps_args step) w)) = w_approvals w"
    using assms by (auto simp: keeps_approvals_def registry_get_def split: option.splits)
  then show ?thesis by (auto simp: run_allowed_def split: sum.splits prod.splits)
qed

lemma execute_step_forced_approvals:
  assumes "keeps_approvals reg"
  shows "w_approvals (snd (execute_step step ctx reg rq True tr w)) = w_approvals w"
proof (cases "registry_get reg (str_or (ps_skill step) [])")
  case (Inr s)
  have "w_approvals (snd (run_allowed step s ctx reg rq True tr (log_policy_event c so d n r sn re x w))) = w_approvals w"
    for c so d n r sn re x
    using run_allowed_forced_approvals [OF assms Inr] by simp
  then show ?thesis using Inr unfolding execute_step_def Let_def by (simp split: prod.split)
qed (simp add: execute_step_def Let_def)

lemma mark_approvals: "w_approvals (mark mx k st meta w) = w_approvals w"
  by (simp add: mark_def Let_def frames)

subsection \<open>What rejecting and approving keep\<close>

text \<open>
  A property of the approvals file that survives the writing of requests which \<open>who\<close> allows is
  kept by every rejection and approval of such a request.
\<close>

locale approvals_keep =
  fixes P :: "world \<Rightarrow> bool" and who :: "string \<Rightarrow> bool"
  assumes ok: "P w \<Longrightarrow> store_ok w"
    and cong: "w_approvals w' = w_approvals w \<Longrightarrow> P w' = P w"
    and persist: "P w \<Longrightarrow> who (ap_id r) \<Longrightarrow> result_iff_approved r \<Longrightarrow> P (persist_or_clean r w)"
begin

lemma stored: "P w \<Longrightarrow> approval_get i w = Some r \<Longrightarrow> result_iff_approved r"
  by (rule store_ok_get [OF ok])

lemma keeps_expire:
  "P w \<Longrightarrow> who (ap_id r) \<Longrightarrow> ap_status r = Pending \<Longrightarrow> result_iff_approved r \<Longrightarrow> P (snd (expire r w))"
  by (simp add: expire_def persist result_iff_approved_def)

lemma keeps_reject:
  assumes "P w" and "who i"
  shows "P (snd (reject i reason w))"
proof (cases "approval_get i w")
  case (Some r)
  have w: "who (ap_id r)" using approval_get_id [OF Some] assms(2) by simp
  have r: "result_iff_approved r" by (rule stored [OF assms(1) Some])
  obtain corr w1 where c: "correlation_of (ap_requester r) w = (corr, w1)" by fastforce
  have w1: "w_approvals w1 = w_approvals w" using correlation_of_frames(1) [of "ap_requester r" w] c by simp
  have "P (log_episode k su m w1)" for k su m
    by (rule cong [THEN iffD2, OF _ assms(1)]) (simp add: w1)
  then have "P (persist_or_clean (stamp_corr corr (r\<lparr>ap_status := Rejected, ap_error := reason\<rparr>)) (log_episode k su m w1))"
    if "ap_status r = Pending" for k su m
    using r w that by (intro persist) (simp_all add: result_iff_approved_def)
  then show ?thesis using Some c keeps_expire [OF assms(1) w _ r] assms(1)
    by (simp add: reject_def Let_def split: sum.split bool.split)
qed (simp add: reject_def assms(1))

lemma keeps_finish:
  assumes "P w" and "who (ap_id r)"
  shows "P (snd (approve_finish mx key corr note r res w))"
proof -
  let ?w = "if sr_ok res then mark mx key Succeeded [] w
            else mark mx key Failed [(''error'', JStr (str_or (sr_error res) ''execution_failed''))] w"
  have "P (log_episode k su m ?w)" for k su m
    by (rule cong [THEN iffD2, OF _ assms(1)]) (simp add: mark_approvals)
  then show ?thesis unfolding approve_finish_def Let_def
    using assms(2) by (simp add: persist result_iff_approved_def)
qed

lemma keeps_started:
  assumes "P w" and "keeps_approvals reg" and "who (ap_id r)"
  shows "P (snd (approve_started mx key corr note reg r w))"
proof -
  let ?c = "approval_context r"
  let ?rq = "[(''source'', JStr ''approval''), (''approval_id'', JStr (ap_id r)),
     (''approver_note'', opt_json note), (''correlation_id'', JStr corr)]"
  obtain x w1 where e: "execute_step (ap_step r) ?c reg ?rq True None w = (x, w1)" by fastforce
  have "P w1"
    by (rule cong [THEN iffD2, OF _ assms(1)])
      (use execute_step_forced_approvals [OF assms(2), of "ap_step r" ?c ?rq None w] e in simp)
  then have f: "P (snd (approve_finish mx key corr note r res w1))" for res
    using assms(3) by (rule keeps_finish)
  show ?thesis
  proof (cases x)
    case (Inl err)
    with e \<open>P w1\<close> show ?thesis by (simp add: approve_started_def execute_plan_def Let_def)
  next
    case (Inr p)
    obtain res tr' where p: "p = (res, tr')" by fastforce
    obtain r' w2 where "approve_finish mx key corr note r res w1 = (r', w2)" by fastforce
    with e Inr p f [of res] show ?thesis by (simp add: approve_started_def execute_plan_def Let_def)
  qed
qed

lemma keeps_allowed:
  assumes "P w" and "keeps_approvals reg" and "who (ap_id r)"
  shows "P (snd (approve_allowed sha mx corr note reg r w))"
proof -
  let ?t = "try_start mx (approval_execution_key sha (ap_id r) (ap_step r)) ApprovalExec (Some corr)
     [(''approval_id'', JStr (ap_id r)), (''skill_name'', opt_json (ps_skill (ap_step r)))] w"
  obtain b w1 where t: "?t = (b, w1)" by fastforce
  have ok: "P w1"
    by (rule cong [THEN iffD2, OF _ assms(1)])
      (use try_start_frames(1) [of mx "approval_execution_key sha (ap_id r) (ap_step r)" ApprovalExec "Some corr"
        "[(''approval_id'', JStr (ap_id r)), (''skill_name'', opt_json (ps_skill (ap_step r)))]" w] t in simp)
  then have ep: "P (log_episode k su m w1)" for k su m
    by (rule cong [THEN iffD2, rotated]) simp
  have "P (snd (approve_duplicate corr note r w1))"
    unfolding approve_duplicate_def Let_def by (simp add: ep persist result_iff_approved_def assms(3))
  with t keeps_started [OF ok assms(2,3)] show ?thesis
    by (cases b; cases "approve_duplicate corr note r w1") (simp_all add: approve_allowed_def Let_def)
qed

lemma keeps_pending:
  assumes "P w" and "keeps_approvals reg" and "ap_status r = Pending" and "result_iff_approved r"
    and "who (ap_id r)"
  shows "P (snd (approve_pending sha mx note reg r w))"
proof -
  obtain corr w1 where c: "correlation_of (ap_requester r) w = (corr, w1)" by fastforce
  have ok: "P w1"
    by (rule cong [THEN iffD2, OF _ assms(1)])
      (use correlation_of_frames(1) [of "ap_requester r" w] c in simp)
  have keep: "P w2" if "w_approvals w2 = w_approvals w1" for w2
    using that ok cong by blast
  have "P (snd (approve_denied pol bad corr q w1))" if "result_iff_approved q" "ap_status q = Pending" "who (ap_id q)" for pol bad q
    unfolding approve_denied_def Let_def snd_conv
    by (rule persist [OF keep]) (use that in \<open>simp_all add: result_iff_approved_def\<close>)
  moreover have "P (snd (with_corr corr (approve_allowed sha mx corr note reg q) w2))"
    if "w_approvals w2 = w_approvals w1" and "who (ap_id q)" for q w2
  proof -
    obtain x w3 where a: "approve_allowed sha mx corr note reg q (w2\<lparr>w_corr := Some corr\<rparr>) = (x, w3)" by fastforce
    have "P (w2\<lparr>w_corr := Some corr\<rparr>)" using that(1) by (intro keep) simp
    then have "P w3" using keeps_allowed [OF _ assms(2) that(2)] a by (metis snd_conv)
    then have "P (w3\<lparr>w_corr := w_corr w2\<rparr>)" by (rule cong [THEN iffD2, rotated]) simp
    then show ?thesis using a by (simp add: with_corr_def)
  qed
  ultimately show ?thesis using assms(3-5) c
    by (auto simp: approve_pending_def Let_def result_iff_approved_def split: prod.split)
qed

lemma keeps_approve:
  assumes "P w" and "keeps_approvals reg" and "who i"
  shows "P (snd (approve sha mx i note reg w))"
proof (cases "approval_get i w")
  case (Some r)
  have w: "who (ap_id r)" using approval_get_id [OF Some] assms(3) by simp
  have r: "result_iff_approved r" by (rule stored [OF assms(1) Some])
  have ep: "P (log_episode k su m w)" for k su m
    by (rule cong [THEN iffD2, OF _ assms(1)]) simp
  show ?thesis using Some assms r ep keeps_expire [OF assms(1) w _ r] keeps_pending [OF assms(1,2) _ r w]
    by (simp add: approve_def split: sum.split bool.split)
qed (simp add: approve_def assms)

end

interpretation store_ok: approvals_keep store_ok "\<lambda>_. True"
proof unfold_locales
  fix w w' :: world
  assume "w_approvals w' = w_approvals w"
  then show "store_ok w' = store_ok w" by (rule store_ok_cong)
qed (simp_all add: store_ok_persist)

interpretation other_request: approvals_keep "\<lambda>w. store_ok w \<and> approval_get i w = x" "\<lambda>j. j \<noteq> i" for i x
proof unfold_locales
  fix w w' :: world
  assume "w_approvals w' = w_approvals w"
  then show "(store_ok w' \<and> approval_get i w' = x) = (store_ok w \<and> approval_get i w = x)"
    using store_ok_cong [of w' w] by (simp add: approval_get_def)
qed (simp_all add: store_ok_persist persist_or_clean_get)

text \<open>
  C10. Whatever sequence of creations, approvals, rejections, cleanups and unrelated
  changes happens, the approvals file holds each id once, and a request carries a result
  exactly when it has been approved.
\<close>

theorem approvals_invariant:
  assumes "life sha mx reg w w'" and "store_ok w" and "keeps_approvals reg"
  shows "store_ok w'"
  using assms
proof (induction rule: life.induct)
  case (step w w' w'')
  then have "store_ok w'" by blast
  from step.hyps(2) show ?case
  proof (cases rule: life_step.cases)
    case (create step ctx rq ra req res)
    with \<open>store_ok w'\<close> show ?thesis by (blast intro: store_ok_create)
  next
    case (approve i nt res)
    have "store_ok (snd (approve sha mx i nt reg w'))"
      by (rule store_ok.keeps_approve [OF \<open>store_ok w'\<close> step.prems(2)]) simp
    with approve show ?thesis by simp
  next
    case (reject i reason res)
    with store_ok.keeps_reject [OF \<open>store_ok w'\<close>, where i = i and reason = reason] show ?thesis by simp
  next
    case (cleanup res)
    with store_ok_cleanup [OF \<open>store_ok w'\<close>] show ?thesis by simp
  next
    case other
    with \<open>store_ok w'\<close> store_ok_cong show ?thesis by blast
  qed
qed

theorem approvals_invariant_witness:
  "store_ok (snd (approve (\<lambda>s. s) 10 ''a1'' None (demo_registry (\<lambda>q w. (Inr ''done'', w))) demo_world))"
proof (rule approvals_invariant)
  let ?reg = "demo_registry (\<lambda>q w. (Inr ''done'', w))"
  show "life (\<lambda>s. s) 10 ?reg demo_world (snd (approve (\<lambda>s. s) 10 ''a1'' None ?reg demo_world))"
    by (rule life.step [OF life.start life_step.approve]) (rule prod.collapse [symmetric])
  show "store_ok demo_world"
    by (simp add: store_ok_def demo_world_def approvals_def load_rows_def result_iff_approved_def demo_approval_def)
  show "keeps_approvals ?reg"
    by (auto simp: keeps_approvals_def demo_registry_def split: if_splits)
qed

end
