(* ===== verification/Decisions.thy ===== *)
theory Decisions
  imports Lifecycle
begin

section \<open>Decisions on approval requests are final\<close>

text \<open>
  What can happen to a request after it has been approved, rejected or found expired, along any
  sequence of the operations of \<open>ApprovalService\<close> (\<open>core/approvals/service.py\<close>) on this and
  other requests. New identifiers are those of \<open>uuid4\<close>: a creation never gives an old one.
\<close>

definition decided :: "string \<Rightarrow> world \<Rightarrow> bool" where
  "decided i w \<longleftrightarrow> (case approval_get i w of None \<Rightarrow> True | Some r \<Rightarrow> ap_status r \<noteq> Pending)"

inductive later :: "string \<Rightarrow> (string \<Rightarrow> string) \<Rightarrow> int \<Rightarrow> registry \<Rightarrow> world \<Rightarrow> world \<Rightarrow> bool"
  for i sha mx reg w where
  start: "later i sha mx reg w w"
| create: "later i sha mx reg w w1 \<Longrightarrow> create_pending step ctx rq ra reg' req w1 = (res, w2) \<Longrightarrow>
    (\<And>r. res = Inr r \<Longrightarrow> ap_id r \<noteq> i) \<Longrightarrow> later i sha mx reg w w2"
| approve: "later i sha mx reg w w1 \<Longrightarrow> later i sha mx reg w (snd (approve sha mx j note reg w1))"
| reject: "later i sha mx reg w w1 \<Longrightarrow> later i sha mx reg w (snd (reject j reason w1))"
| cleanup: "later i sha mx reg w w1 \<Longrightarrow> later i sha mx reg w (snd (cleanup_expired w1))"
| other: "later i sha mx reg w w1 \<Longrightarrow> w_approvals w2 = w_approvals w1 \<Longrightarrow> later i sha mx reg w w2"

lemma decided_approve: "decided i w \<Longrightarrow> snd (approve sha mx i note reg w) = w"
  by (auto simp: decided_def approve_def split: option.splits)

lemma decided_reject: "decided i w \<Longrightarrow> snd (reject i reason w) = w"
  by (auto simp: decided_def reject_def split: option.splits)

lemma create_other:
  assumes "create_pending step ctx rq ra reg req w = (res, w')" and "\<And>r. res = Inr r \<Longrightarrow> ap_id r \<noteq> i"
  shows "approval_get i w' = approval_get i w"
proof (cases res)
  case (Inl e)
  with assms(1) create_pending_error_frames(1) have "w_approvals w' = w_approvals w" by blast
  then show ?thesis by (simp add: approval_get_def)
next
  case (Inr r)
  with assms(1) have "create_pending step ctx rq ra reg req w = (Inr r, w')" by simp
  then show ?thesis
  proof (rule create_pending_okE)
    fix w2 assume "w' = approval_upsert r w2" and "w_approvals w2 = w_approvals w"
    then show ?thesis using assms(2) [OF Inr] approval_store.lookup_put [of i r w2]
      by (simp add: approval_get_def)
  qed
qed

text \<open>Cleaning up drops or changes only pending requests, and keeps the order.\<close>

lemma cleanup_loop_find:
  assumes "cleanup_loop ac now rs n out = Inr (m, out')"
    and "case find (\<lambda>r. ap_id r = i) (out @ rs) of None \<Rightarrow> True | Some r \<Rightarrow> ap_status r \<noteq> Pending"
  shows "find (\<lambda>r. ap_id r = i) out' = find (\<lambda>r. ap_id r = i) (out @ rs)"
  using assms
proof (induction rs arbitrary: n out)
  case (Cons r rs)
  show ?case
  proof (cases "ap_id r = i \<and> ap_status r = Pending")
    case True
    with Cons.prems(2) have "find (\<lambda>r. ap_id r = i) out \<noteq> None" by (auto simp: find_append split: option.splits)
    with Cons show ?thesis
      by (auto simp: find_append split: if_splits sum.splits bool.splits option.splits)
  next
    case False
    with Cons show ?thesis
      by (auto simp: find_append split: if_splits sum.splits bool.splits option.splits)
  qed
qed simp

lemma cleanup_decided:
  assumes "decided i w"
  shows "approval_get i (snd (cleanup_expired w)) = approval_get i w"
proof -
  have "find (\<lambda>r. ap_id r = i) out = find (\<lambda>r. ap_id r = i) (approvals w)"
    if "cleanup_loop ac now (approvals w) 0 [] = Inr (m, out)" for ac now m out
    using cleanup_loop_find [OF that, of i] assms
    by (simp add: decided_def approval_get_def rows_find_def approvals_def)
  then show ?thesis
    by (auto simp: cleanup_expired_def approval_get_def rows_find_def approvals_def split: sum.splits prod.splits)
qed

text \<open>
  C5. A decision is final: whatever sequence of creations, approvals, rejections, clean-ups and
  unrelated changes follows, the request is still as it was decided (or gone, if it was),
  and approving or rejecting it again changes nothing and runs nothing.
\<close>

theorem decisions_are_final:
  assumes "later i sha mx reg w w'" and "decided i w" and "store_ok w" and "keeps_approvals reg"
  shows "approval_get i w' = approval_get i w
    \<and> snd (approve sha' mx' i note reg' w') = w' \<and> snd (reject i reason w') = w'"
proof -
  have "store_ok w' \<and> approval_get i w' = approval_get i w"
    using assms(1)
  proof (induction rule: later.induct)
    case (create w1 step ctx rq ra reg' req res w2)
    then show ?case using create_other store_ok_create by metis
  next
    case (approve w1 j nt)
    have "decided i w1" using approve assms(2) by (simp add: decided_def)
    then show ?case using approve decided_approve other_request.keeps_approve [OF approve.IH assms(4)]
      by (cases "j = i") simp_all
  next
    case (reject w1 j reason)
    have "decided i w1" using reject assms(2) by (simp add: decided_def)
    then show ?case using reject decided_reject other_request.keeps_reject [OF reject.IH]
      by (cases "j = i") simp_all
  next
    case (cleanup w1)
    have "decided i w1" using cleanup assms(2) by (simp add: decided_def)
    then show ?case using cleanup cleanup_decided store_ok_cleanup by simp
  next
    case (other w1 w2)
    then show ?case using store_ok_cong [OF other.hyps(2)] by (simp add: approval_get_def)
  qed (use assms(3) in simp)
  then show ?thesis using assms(2) decided_approve decided_reject by (simp add: decided_def)
qed

theorem decisions_are_final_witness:
  "let w1 = snd (reject ''a1'' (Some ''no'') (demo_world\<lparr>w_env := (w_env demo_world)(''BENJAMIN_APPROVALS_AUTOCLEAN'' \<mapsto> ''off'')\<rparr>));
       w2 = snd (approve (\<lambda>s. s) 10 ''a1'' None (demo_registry (\<lambda>q w. (Inr ''done'', w))) (w1\<lparr>w_now := 5\<rparr>))
   in map_option ap_status (approval_get ''a1'' w1) = Some Rejected \<and> approval_get ''a1'' w2 = approval_get ''a1'' w1"
proof -
  let ?reg = "demo_registry (\<lambda>q w. (Inr ''done'', w))"
  let ?w1 = "snd (reject ''a1'' (Some ''no'') (demo_world\<lparr>w_env := (w_env demo_world)(''BENJAMIN_APPROVALS_AUTOCLEAN'' \<mapsto> ''off'')\<rparr>))"
  have st: "map_option ap_status (approval_get ''a1'' ?w1) = Some Rejected" by code_simp
  have "later ''a1'' (\<lambda>s. s) 10 ?reg ?w1 (?w1\<lparr>w_now := 5\<rparr>)"
    by (rule later.other [OF later.start]) simp
  then have "later ''a1'' (\<lambda>s. s) 10 ?reg ?w1 (snd (approve (\<lambda>s. s) 10 ''a1'' None ?reg (?w1\<lparr>w_now := 5\<rparr>)))"
    by (rule later.approve)
  moreover have "decided ''a1'' ?w1" using st by (auto simp: decided_def split: option.splits)
  moreover have "store_ok ?w1"
    by (rule store_ok.keeps_reject)
      (simp_all add: store_ok_def demo_world_def approvals_def load_rows_def result_iff_approved_def demo_approval_def)
  moreover have "keeps_approvals ?reg"
    by (auto simp: keeps_approvals_def demo_registry_def split: if_splits)
  ultimately show ?thesis using st decisions_are_final unfolding Let_def by blast
qed

end
