(* ===== verification/Lock.thy ===== *)
theory Lock
  imports Ledger
begin

section \<open>The lock file of the ledger\<close>

text \<open>
  \<open>ExecutionLedger._file_lock\<close> as a transition system of processes: a process waits for
  the lock file to be absent and creates it, or enters without it once its deadline of two
  seconds has passed; on leaving it removes the file if there is one. Times are in
  milliseconds of the monotonic clock.
\<close>

datatype pc = Outside | Waiting int | Inside

record lock_state =
  lk_now :: int
  lk_file :: bool
  lk_pc :: "nat \<Rightarrow> pc"

inductive lock_step :: "lock_state \<Rightarrow> lock_state \<Rightarrow> bool" where
  tick: "0 \<le> d \<Longrightarrow> lock_step s (s\<lparr>lk_now := lk_now s + d\<rparr>)"
| ask: "lk_pc s p = Outside \<Longrightarrow> lock_step s (s\<lparr>lk_pc := (lk_pc s)(p := Waiting (lk_now s + 2000))\<rparr>)"
| acquire: "lk_pc s p = Waiting t \<Longrightarrow> \<not> lk_file s \<Longrightarrow>
    lock_step s (s\<lparr>lk_file := True, lk_pc := (lk_pc s)(p := Inside)\<rparr>)"
| give_up: "lk_pc s p = Waiting t \<Longrightarrow> lk_file s \<Longrightarrow> t \<le> lk_now s \<Longrightarrow>
    lock_step s (s\<lparr>lk_pc := (lk_pc s)(p := Inside)\<rparr>)"
| leave: "lk_pc s p = Inside \<Longrightarrow> lock_step s (s\<lparr>lk_file := False, lk_pc := (lk_pc s)(p := Outside)\<rparr>)"

inductive_cases lock_stepE: "lock_step s s'"

definition lock_init :: lock_state where
  "lock_init = \<lparr>lk_now = 0, lk_file = False, lk_pc = (\<lambda>_. Outside)\<rparr>"

text \<open>Runs in which \<open>ok\<close> holds of every state before the last.\<close>

inductive lock_run :: "(lock_state \<Rightarrow> bool) \<Rightarrow> lock_state \<Rightarrow> bool" for ok where
  init: "lock_run ok lock_init"
| step: "lock_run ok s \<Longrightarrow> ok s \<Longrightarrow> lock_step s s' \<Longrightarrow> lock_run ok s'"

text \<open>No process has waited for its whole deadline.\<close>

definition in_time :: "lock_state \<Rightarrow> bool" where
  "in_time s \<longleftrightarrow> (\<forall>p t. lk_pc s p = Waiting t \<longrightarrow> lk_now s < t)"

definition lock_inv :: "'a lock_state_scheme \<Rightarrow> bool" where
  "lock_inv s \<longleftrightarrow> (\<forall>p q. lk_pc s p = Inside \<longrightarrow> lk_pc s q = Inside \<longrightarrow> p = q)
     \<and> (lk_file s \<longleftrightarrow> (\<exists>p. lk_pc s p = Inside))"

lemma lock_inv_other:
  assumes "lock_inv s" and "lk_pc s p \<noteq> Inside" and "c \<noteq> Inside"
  shows "lock_inv (s\<lparr>lk_pc := (lk_pc s)(p := c)\<rparr>)"
proof -
  have "((lk_pc s)(p := c)) q = Inside \<longleftrightarrow> lk_pc s q = Inside" for q
    using assms by simp
  with assms(1) show ?thesis by (simp add: lock_inv_def del: fun_upd_apply)
qed

lemma lock_inv_acquire:
  "lock_inv s \<Longrightarrow> \<not> lk_file s \<Longrightarrow> lock_inv (s\<lparr>lk_file := True, lk_pc := (lk_pc s)(p := Inside)\<rparr>)"
  by (auto simp: lock_inv_def)

lemma lock_inv_leave:
  "lock_inv s \<Longrightarrow> lk_pc s p = Inside \<Longrightarrow> lock_inv (s\<lparr>lk_file := False, lk_pc := (lk_pc s)(p := Outside)\<rparr>)"
  by (auto simp: lock_inv_def)

lemma lock_inv_cong:
  "lk_pc s' = lk_pc s \<Longrightarrow> lk_file s' = lk_file s \<Longrightarrow> lock_inv s' = lock_inv s"
  by (simp add: lock_inv_def)

lemma lock_inv_step: "lock_step s s' \<Longrightarrow> in_time s \<Longrightarrow> lock_inv s \<Longrightarrow> lock_inv s'"
proof (induction rule: lock_step.induct)
  case (tick d s)
  then show ?case using lock_inv_cong [of "s\<lparr>lk_now := lk_now s + d\<rparr>" s] by simp
next
  case (give_up s p t)
  then have "lk_now s < t" by (auto simp: in_time_def)
  with give_up show ?case by simp
qed (simp_all add: lock_inv_other lock_inv_acquire lock_inv_leave)

text \<open>
  As long as no process has waited out its deadline, at most one process is inside the
  locked section, and the lock file is there exactly when one is.
\<close>

theorem lock_exclusive:
  assumes "lock_run in_time s"
  shows "lock_inv s"
  using assms
proof (induction rule: lock_run.induct)
  case init
  then show ?case by (simp add: lock_inv_def lock_init_def)
next
  case (step s s')
  then show ?case using lock_inv_step by blast
qed

theorem lock_exclusive_witness:
  "lock_inv (lock_init\<lparr>lk_file := True, lk_pc := (\<lambda>p. if p = 0 then Inside else if p = 1 then Waiting 2000 else Outside)\<rparr>)"
proof (rule lock_exclusive)
  let ?s1 = "lock_init\<lparr>lk_pc := (lk_pc lock_init)(0 := Waiting 2000)\<rparr>"
  let ?s2 = "?s1\<lparr>lk_file := True, lk_pc := (lk_pc ?s1)(0 := Inside)\<rparr>"
  let ?s3 = "?s2\<lparr>lk_pc := (lk_pc ?s2)(1 := Waiting 2000)\<rparr>"
  have "lock_step lock_init ?s1" using lock_step.ask [of lock_init 0] by (simp add: lock_init_def)
  then have r1: "lock_run in_time ?s1"
    by (rule lock_run.step [OF lock_run.init, rotated]) (simp add: in_time_def lock_init_def)
  have "lock_step ?s1 ?s2" using lock_step.acquire [of ?s1 0 2000] by (simp add: lock_init_def)
  then have r2: "lock_run in_time ?s2"
    by (rule lock_run.step [OF r1, rotated]) (simp add: in_time_def lock_init_def)
  have "lock_step ?s2 ?s3" using lock_step.ask [of ?s2 1] by (simp add: lock_init_def)
  then have "lock_run in_time ?s3"
    by (rule lock_run.step [OF r2, rotated]) (simp add: in_time_def lock_init_def)
  moreover have "?s3 = lock_init\<lparr>lk_file := True, lk_pc := (\<lambda>p. if p = 0 then Inside else if p = 1 then Waiting 2000 else Outside)\<rparr>"
    by (simp add: lock_init_def fun_eq_iff)
  ultimately show "lock_run in_time (lock_init\<lparr>lk_file := True, lk_pc := (\<lambda>p. if p = 0 then Inside else if p = 1 then Waiting 2000 else Outside)\<rparr>)"
    by simp
qed

text \<open>
  A process that has waited out its deadline enters beside the holder, and on leaving
  it removes the holder's lock file: there is a run that ends with a process inside, no
  lock file, and so the section open to everyone.
\<close>

theorem lock_broken_by_timeout:
  "\<exists>s s'. lock_run (\<lambda>_. True) s \<and> lk_pc s 0 = Inside \<and> lk_pc s 1 = Inside
     \<and> lock_step s s' \<and> lk_pc s' 0 = Inside \<and> \<not> lk_file s'"
proof -
  let ?s1 = "lock_init\<lparr>lk_pc := (lk_pc lock_init)(0 := Waiting 2000)\<rparr>"
  let ?s2 = "?s1\<lparr>lk_file := True, lk_pc := (lk_pc ?s1)(0 := Inside)\<rparr>"
  let ?s3 = "?s2\<lparr>lk_pc := (lk_pc ?s2)(1 := Waiting 2000)\<rparr>"
  let ?s4 = "?s3\<lparr>lk_now := 2000\<rparr>"
  let ?s5 = "?s4\<lparr>lk_pc := (lk_pc ?s4)(1 := Inside)\<rparr>"
  let ?s6 = "?s5\<lparr>lk_file := False, lk_pc := (lk_pc ?s5)(1 := Outside)\<rparr>"
  have steps: "lock_step lock_init ?s1" "lock_step ?s1 ?s2" "lock_step ?s2 ?s3" "lock_step ?s3 ?s4"
    "lock_step ?s4 ?s5" "lock_step ?s5 ?s6"
    using lock_step.ask [of lock_init 0] lock_step.acquire [of ?s1 0 2000] lock_step.ask [of ?s2 1]
      lock_step.tick [of 2000 ?s3] lock_step.give_up [of ?s4 1 2000] lock_step.leave [of ?s5 1]
    by (simp_all add: lock_init_def)
  have "lock_run (\<lambda>_. True) ?s5"
    by (rule lock_run.step [OF lock_run.step [OF lock_run.step [OF lock_run.step [OF lock_run.step
        [OF lock_run.init _ steps(1)] _ steps(2)] _ steps(3)] _ steps(4)] _ steps(5)]) simp_all
  moreover have "lk_pc ?s5 0 = Inside" "lk_pc ?s5 1 = Inside" "lk_pc ?s6 0 = Inside" "\<not> lk_file ?s6"
    by simp_all
  ultimately show ?thesis using steps(6) by blast
qed

end
