(* ===== verification/LedgerSpec.thy ===== *)
theory LedgerSpec
  imports Ledger
begin

section \<open>The ledger as a table of statuses\<close>

text \<open>
  What the clients of the execution ledger rely on: a table from keys to statuses, with a
  conditional start and an unconditional mark. As long as nothing is trimmed, the ledger,
  a log that is scanned for the latest record of a key, refines this table.
\<close>

type_synonym table = "string \<rightharpoonup> ledger_status"

fun table_step :: "ledger_op \<Rightarrow> table \<Rightarrow> bool \<times> table" where
  "table_step (OpStart k kind corr meta) t =
     (if t k \<in> {Some Succeeded, Some Started} then (False, t) else (True, t(k \<mapsto> Started)))"
| "table_step (OpMark k st meta) t = (True, t(k \<mapsto> st))"

fun table_run :: "ledger_op list \<Rightarrow> table \<Rightarrow> bool list \<times> table" where
  "table_run [] t = ([], t)"
| "table_run (op # ops) t =
     (let (b, t1) = table_step op t; (bs, t2) = table_run ops t1 in (b # bs, t2))"

text \<open>The operations of the ledger with what they return (\<open>mark\<close> returns nothing).\<close>

fun ledger_op_run :: "int \<Rightarrow> ledger_op \<Rightarrow> world \<Rightarrow> bool \<times> world" where
  "ledger_op_run mx (OpStart k kind corr meta) w = try_start mx k kind corr meta w"
| "ledger_op_run mx (OpMark k st meta) w = (True, mark mx k st meta w)"

fun ledger_ops_run :: "int \<Rightarrow> ledger_op list \<Rightarrow> world \<Rightarrow> bool list \<times> world" where
  "ledger_ops_run mx [] w = ([], w)"
| "ledger_ops_run mx (op # ops) w =
     (let (b, w1) = ledger_op_run mx op w; (bs, w2) = ledger_ops_run mx ops w1 in (b # bs, w2))"

definition table_of :: "world \<Rightarrow> table" where
  "table_of w k = map_option lr_status (latest_record_by_key (w_ledger w) k)"

definition ledger_size :: "world \<Rightarrow> nat" where
  "ledger_size w = length (load_rows (w_ledger w))"

definition room :: "int \<Rightarrow> nat \<Rightarrow> world \<Rightarrow> bool" where
  "room mx n w \<longleftrightarrow> mx \<le> 0 \<or> int (ledger_size w + n) \<le> mx"

lemma append_with_room:
  assumes "room mx (Suc n) w"
  shows "table_of (ledger_append mx r w) = (table_of w)(lr_key r \<mapsto> lr_status r)"
    and "room mx n (ledger_append mx r w)"
proof -
  have rows: "load_rows (w_ledger (ledger_append mx r w)) = load_rows (w_ledger w) @ [r]"
    using assms by (auto simp: load_ledger_append retain_def room_def ledger_size_def)
  then show "table_of (ledger_append mx r w) = (table_of w)(lr_key r \<mapsto> lr_status r)"
    by (intro ext) (simp add: table_of_def latest_record_eq)
  show "room mx n (ledger_append mx r w)"
    using assms rows by (auto simp: room_def ledger_size_def)
qed

lemma room_mono: "room mx (Suc n) w \<Longrightarrow> room mx n w"
  by (auto simp: room_def)

lemma step_refines:
  assumes "room mx (Suc n) w" and "ledger_op_run mx op w = (b, w')"
  shows "table_step op (table_of w) = (b, table_of w') \<and> room mx n w'"
proof (cases op)
  case (OpMark k st meta)
  obtain r where r: "mark mx k st meta w = ledger_append mx r w" "lr_key r = k" "lr_status r = st"
    by (simp add: mark_def Let_def)
  then show ?thesis using append_with_room [OF assms(1), of r] assms(2) OpMark by auto
next
  case (OpStart k kind corr meta)
  have t: "table_of w k \<in> {Some Succeeded, Some Started} \<longleftrightarrow> \<not> b"
    using assms(2) OpStart
    by (auto simp: table_of_def try_start_def Let_def split: option.splits if_splits)
  show ?thesis
  proof (cases b)
    case True
    then obtain r where "w' = ledger_append mx r w" "lr_key r = k" "lr_status r = Started"
      using assms(2) OpStart by (auto simp: try_start_def Let_def split: option.splits if_splits)
    then show ?thesis using append_with_room [OF assms(1), of r] t True OpStart by auto
  next
    case False
    then have "w' = w" using assms(2) OpStart try_start_refused by auto
    then show ?thesis using t False OpStart room_mono [OF assms(1)] by auto
  qed
qed

text \<open>
  C14. As long as the ledger has room for the records of a run (or is unbounded), every run of
  starts and marks answers exactly as the table of statuses does, and ends in a ledger that
  stands for the table's last state.
\<close>

theorem ledger_refines_table:
  assumes "room mx (length ops) w"
  shows "table_run ops (table_of w) = map_prod id table_of (ledger_ops_run mx ops w)"
  using assms
proof (induction ops arbitrary: w)
  case (Cons op ops)
  obtain b w1 where s: "ledger_op_run mx op w = (b, w1)" by fastforce
  have "table_step op (table_of w) = (b, table_of w1)" and "room mx (length ops) w1"
    using step_refines [OF _ s] Cons.prems by simp_all
  with Cons.IH [of w1] s show ?case
    by (cases "ledger_ops_run mx ops w1") simp
qed simp

theorem ledger_refines_table_witness:
  "fst (ledger_ops_run 3 [OpStart ''k'' JobRun None [], OpMark ''k'' Failed [], OpStart ''k'' JobRun None []] (empty_world 0))
     = [True, True, True]"
proof -
  let ?ops = "[OpStart ''k'' JobRun None [], OpMark ''k'' Failed [], OpStart ''k'' JobRun None []]"
  have "room 3 (length ?ops) (empty_world 0)" by (simp add: room_def ledger_size_def empty_world_def)
  from ledger_refines_table [OF this]
  have "fst (table_run ?ops (table_of (empty_world 0))) = fst (ledger_ops_run 3 ?ops (empty_world 0))"
    by (simp add: map_prod_def split_beta)
  moreover have "table_of (empty_world 0) = (\<lambda>k. None)"
    by (intro ext) (simp add: table_of_def latest_record_eq empty_world_def)
  ultimately show ?thesis by simp
qed

end
