(* ===== verification/LedgerProcesses.thy ===== *)
theory LedgerProcesses
  imports Lock LedgerSpec
begin

section \<open>Processes that share the ledger\<close>

text \<open>
  \<open>try_start\<close> and \<open>mark\<close> (\<open>core/ledger/ledger.py\<close>) as the processes run them: each access to
  the ledger file and to the lock file is a step of its own, and the steps of the processes
  interleave in any order. What the two methods do inside the lock is the same: read the file
  and decide, append a line, read the file again and replace it by its newest records when it
  is too long, leave.
\<close>

subsection \<open>One call, access by access\<close>

text \<open>The record a call appends, or \<open>None\<close> when \<open>try_start\<close> refuses; \<open>t\<close> is the time of the clock.\<close>

fun decide :: "ledger_op \<Rightarrow> int \<Rightarrow> ledger_record line list \<Rightarrow> ledger_record option" where
  "decide (OpStart k kind corr meta) t ls =
     (let r = \<lparr>lr_key = k, lr_kind = kind, lr_status = Started, lr_ts = isoformat (Aware t), lr_corr = corr, lr_meta = meta\<rparr>
      in case latest_record_by_key ls k of
           None \<Rightarrow> Some r
         | Some l \<Rightarrow> (if lr_status l \<in> {Succeeded, Started} then None else Some r))"
| "decide (OpMark k st meta_update) t ls =
     (let latest = latest_record_by_key ls k
      in Some \<lparr>lr_key = k,
               lr_kind = (case latest of None \<Rightarrow> JobRun | Some l \<Rightarrow> lr_kind l),
               lr_status = st, lr_ts = isoformat (Aware t),
               lr_corr = (case latest of None \<Rightarrow> None | Some l \<Rightarrow> lr_corr l),
               lr_meta = dict_update (case latest of None \<Rightarrow> [] | Some l \<Rightarrow> lr_meta l) meta_update\<rparr>)"

text \<open>A call and the time at which it read the clock.\<close>

type_synonym call = "ledger_op \<times> int"

datatype phase =
    Resting
  | Called ledger_op
  | Appending call ledger_record
  | Trimming call
  | Replacing call "ledger_record list"
  | Leaving call bool

text \<open>
  The system: the lock, the clock, the ledger file, where each process is, and the calls that
  have returned, in the order of their leaving the lock, with their answers.
\<close>

record ledger_system = lock_state +
  ls_clock :: int
  ls_lines :: "ledger_record line list"
  ls_phase :: "nat \<Rightarrow> phase"
  ls_done :: "(call \<times> bool) list"

text \<open>The next access of a process inside the locked section; \<open>locked\<close> is whether the mode is \<open>file\<close>.\<close>

definition inside_step :: "bool \<Rightarrow> int \<Rightarrow> nat \<Rightarrow> ledger_system \<Rightarrow> ledger_system" where
  "inside_step locked mx p s =
     (case ls_phase s p of
        Resting \<Rightarrow> s
      | Called op \<Rightarrow>
          (let c = (op, ls_clock s)
           in s\<lparr>ls_phase := (ls_phase s)(p := (case decide op (ls_clock s) (ls_lines s) of
                  None \<Rightarrow> Leaving c False | Some r \<Rightarrow> Appending c r))\<rparr>)
      | Appending c r \<Rightarrow> s\<lparr>ls_lines := ls_lines s @ [Row r], ls_phase := (ls_phase s)(p := Trimming c)\<rparr>
      | Trimming c \<Rightarrow>
          (let records = load_rows (ls_lines s)
           in s\<lparr>ls_phase := (ls_phase s)(p :=
                  (if mx \<le> 0 \<or> int (length records) \<le> mx then Leaving c True
                   else Replacing c (last_n mx records)))\<rparr>)
      | Replacing c keep \<Rightarrow> s\<lparr>ls_lines := write_rows keep, ls_phase := (ls_phase s)(p := Leaving c True)\<rparr>
      | Leaving c b \<Rightarrow>
          s\<lparr>lk_file := (if locked then False else lk_file s), lk_pc := (lk_pc s)(p := Outside),
            ls_phase := (ls_phase s)(p := Resting), ls_done := ls_done s @ [(c, b)]\<rparr>)"

text \<open>
  \<open>_file_lock\<close>: one turn of the waiting loop creates the lock file, or enters without it once
  the deadline has passed, or sleeps.
\<close>

definition go :: "bool \<Rightarrow> int \<Rightarrow> nat \<Rightarrow> ledger_system \<Rightarrow> ledger_system" where
  "go locked mx p s =
     (case lk_pc s p of
        Outside \<Rightarrow> s
      | Waiting deadline \<Rightarrow>
          if \<not> locked then s\<lparr>lk_pc := (lk_pc s)(p := Inside)\<rparr>
          else if \<not> lk_file s then s\<lparr>lk_file := True, lk_pc := (lk_pc s)(p := Inside)\<rparr>
          else if deadline \<le> lk_now s then s\<lparr>lk_pc := (lk_pc s)(p := Inside)\<rparr>
          else s
      | Inside \<Rightarrow> inside_step locked mx p s)"

text \<open>Time passes, the clock is set, a process that rests makes a call, a process takes its next step.\<close>

datatype event = Tick nat | Clock int | Ask nat ledger_op | Go nat

fun system_step :: "bool \<Rightarrow> int \<Rightarrow> event \<Rightarrow> ledger_system \<Rightarrow> ledger_system" where
  "system_step locked mx (Tick d) s = s\<lparr>lk_now := lk_now s + int d\<rparr>"
| "system_step locked mx (Clock t) s = s\<lparr>ls_clock := t\<rparr>"
| "system_step locked mx (Ask p op) s =
     (if lk_pc s p = Outside
      then s\<lparr>lk_pc := (lk_pc s)(p := Waiting (lk_now s + 2000)), ls_phase := (ls_phase s)(p := Called op)\<rparr>
      else s)"
| "system_step locked mx (Go p) s = go locked mx p s"

definition system_run :: "bool \<Rightarrow> int \<Rightarrow> event list \<Rightarrow> ledger_system \<Rightarrow> ledger_system" where
  "system_run locked mx es s = fold (system_step locked mx) es s"

definition system_init :: "ledger_record line list \<Rightarrow> ledger_system" where
  "system_init ls = lock_state.extend lock_init
     (ledger_system.fields 0 ls (\<lambda>_. Resting) [])"

text \<open>No process enters the section because its deadline has passed.\<close>

definition gives_up :: "nat \<Rightarrow> ledger_system \<Rightarrow> bool" where
  "gives_up p s \<longleftrightarrow> (case lk_pc s p of Waiting deadline \<Rightarrow> lk_file s \<and> deadline \<le> lk_now s | _ \<Rightarrow> False)"

fun patient :: "int \<Rightarrow> event list \<Rightarrow> ledger_system \<Rightarrow> bool" where
  "patient mx [] s \<longleftrightarrow> True"
| "patient mx (e # es) s \<longleftrightarrow>
     (case e of Go p \<Rightarrow> \<not> gives_up p s | _ \<Rightarrow> True) \<and> patient mx es (system_step True mx e s)"

subsection \<open>The same calls one after the other\<close>

definition call_run :: "int \<Rightarrow> call \<Rightarrow> ledger_record line list \<Rightarrow> bool \<times> ledger_record line list" where
  "call_run mx c ls =
     (let (b, w) = ledger_op_run mx (fst c) ((empty_world (snd c))\<lparr>w_ledger := ls\<rparr>) in (b, w_ledger w))"

fun serial :: "int \<Rightarrow> call list \<Rightarrow> ledger_record line list \<Rightarrow> bool list \<times> ledger_record line list" where
  "serial mx [] ls = ([], ls)"
| "serial mx (c # cs) ls =
     (let (b, ls1) = call_run mx c ls; (bs, ls2) = serial mx cs ls1 in (b # bs, ls2))"

lemma call_run_decide:
  "call_run mx (op, t) ls =
     (case decide op t ls of None \<Rightarrow> (False, ls) | Some r \<Rightarrow> (True, ledger_trim mx (ls @ [Row r])))"
  by (cases op)
    (simp_all add: call_run_def try_start_def mark_def ledger_append_def empty_world_def now_iso_def Let_def
      split: option.split)

lemma serial_snoc:
  "serial mx (cs @ [c]) ls =
     (let (bs, ls1) = serial mx cs ls; (b, ls2) = call_run mx c ls1 in (bs @ [b], ls2))"
  by (induction cs arbitrary: ls) (simp_all add: split_beta Let_def)

subsection \<open>The invariant\<close>

text \<open>What a process inside the section has done so far to the file, which was \<open>ls\<close> when it entered.\<close>

fun progress :: "int \<Rightarrow> ledger_record line list \<Rightarrow> phase \<Rightarrow> ledger_record line list \<Rightarrow> bool" where
  "progress mx ls Resting now \<longleftrightarrow> False"
| "progress mx ls (Called op) now \<longleftrightarrow> now = ls"
| "progress mx ls (Appending (op, t) r) now \<longleftrightarrow> decide op t ls = Some r \<and> now = ls"
| "progress mx ls (Trimming (op, t)) now \<longleftrightarrow> (\<exists>r. decide op t ls = Some r \<and> now = ls @ [Row r])"
| "progress mx ls (Replacing (op, t) keep) now \<longleftrightarrow>
     (\<exists>r. decide op t ls = Some r \<and> ledger_trim mx (ls @ [Row r]) = write_rows keep)"
| "progress mx ls (Leaving c b) now \<longleftrightarrow> call_run mx c ls = (b, now)"

definition agree :: "pc \<Rightarrow> phase \<Rightarrow> bool" where
  "agree c ph \<longleftrightarrow> (case c of Outside \<Rightarrow> ph = Resting | Waiting t \<Rightarrow> (\<exists>op. ph = Called op) | Inside \<Rightarrow> ph \<noteq> Resting)"

definition system_inv :: "int \<Rightarrow> ledger_record line list \<Rightarrow> ledger_system \<Rightarrow> bool" where
  "system_inv mx ls0 s \<longleftrightarrow>
     lock_inv s \<and> (\<forall>p. agree (lk_pc s p) (ls_phase s p))
     \<and> (let (bs, ls) = serial mx (map fst (ls_done s)) ls0
        in bs = map snd (ls_done s)
           \<and> (\<forall>p. lk_pc s p = Inside \<longrightarrow> progress mx ls (ls_phase s p) (ls_lines s))
           \<and> ((\<forall>p. lk_pc s p \<noteq> Inside) \<longrightarrow> ls_lines s = ls))"

lemma system_invI:
  assumes "lock_inv s" and "\<And>p. agree (lk_pc s p) (ls_phase s p)"
    and "serial mx (map fst (ls_done s)) ls0 = (map snd (ls_done s), ls)"
    and "\<And>p. lk_pc s p = Inside \<Longrightarrow> progress mx ls (ls_phase s p) (ls_lines s)"
    and "\<forall>p. lk_pc s p \<noteq> Inside \<Longrightarrow> ls_lines s = ls"
  shows "system_inv mx ls0 s"
  using assms by (simp add: system_inv_def)

lemma system_invE:
  assumes "system_inv mx ls0 s"
  obtains ls where "lock_inv s" and "\<And>p. agree (lk_pc s p) (ls_phase s p)"
    and "serial mx (map fst (ls_done s)) ls0 = (map snd (ls_done s), ls)"
    and "\<And>p. lk_pc s p = Inside \<Longrightarrow> progress mx ls (ls_phase s p) (ls_lines s)"
    and "\<forall>p. lk_pc s p \<noteq> Inside \<Longrightarrow> ls_lines s = ls"
  using assms by (auto simp: system_inv_def split: prod.splits)

lemma inside_alone: "lock_inv s \<Longrightarrow> lk_pc s p = Inside \<Longrightarrow> lk_pc s q = Inside \<longleftrightarrow> q = p"
  by (auto simp: lock_inv_def)

lemma lock_inv_phase [simp]:
  "lock_inv (s\<lparr>ls_phase := f\<rparr>) = lock_inv s" "lock_inv (s\<lparr>ls_lines := l\<rparr>) = lock_inv s"
  "lock_inv (s\<lparr>ls_done := d\<rparr>) = lock_inv s" "lock_inv (s\<lparr>ls_clock := t\<rparr>) = lock_inv s"
  "lock_inv (s\<lparr>lk_now := n\<rparr>) = lock_inv s"
  by (simp_all add: lock_inv_def)

text \<open>A step inside the section that does not leave it.\<close>

lemma system_inv_work:
  assumes inv: "system_inv mx ls0 s" and p: "lk_pc s p = Inside"
    and s': "s' = s\<lparr>ls_lines := l, ls_phase := (ls_phase s)(p := ph)\<rparr>" and ph: "ph \<noteq> Resting"
    and ok: "\<And>ls. progress mx ls (ls_phase s p) (ls_lines s) \<Longrightarrow> progress mx ls ph l"
  shows "system_inv mx ls0 s'"
  using inv
proof (rule system_invE)
  fix ls
  assume h: "lock_inv s" "\<And>p. agree (lk_pc s p) (ls_phase s p)"
    "serial mx (map fst (ls_done s)) ls0 = (map snd (ls_done s), ls)"
    "\<And>p. lk_pc s p = Inside \<Longrightarrow> progress mx ls (ls_phase s p) (ls_lines s)"
  show ?thesis
  proof (rule system_invI [of s' mx ls0 ls])
    show "agree (lk_pc s' q) (ls_phase s' q)" for q
      using h(2) [of q] p ph by (auto simp: s' agree_def)
    show "progress mx ls (ls_phase s' q) (ls_lines s')" if "lk_pc s' q = Inside" for q
      using that inside_alone [OF h(1) p] ok [OF h(4) [OF p]] by (simp add: s')
  qed (use h(1,3) p in \<open>auto simp: s'\<close>)
qed

lemma system_inv_leave:
  assumes inv: "system_inv mx ls0 s" and p: "lk_pc s p = Inside" and ph: "ls_phase s p = Leaving c b"
  shows "system_inv mx ls0 (inside_step True mx p s)" (is "system_inv mx ls0 ?s")
  using inv
proof (rule system_invE)
  fix ls
  assume h: "lock_inv s" "\<And>p. agree (lk_pc s p) (ls_phase s p)"
    "serial mx (map fst (ls_done s)) ls0 = (map snd (ls_done s), ls)"
    "\<And>p. lk_pc s p = Inside \<Longrightarrow> progress mx ls (ls_phase s p) (ls_lines s)"
  have s: "?s = (s\<lparr>lk_file := False, lk_pc := (lk_pc s)(p := Outside)\<rparr>)
      \<lparr>ls_phase := (ls_phase s)(p := Resting), ls_done := ls_done s @ [(c, b)]\<rparr>"
    using ph by (simp add: inside_step_def)
  have run: "call_run mx c ls = (b, ls_lines s)" using h(4) [OF p] ph by simp
  show ?thesis
  proof (rule system_invI [of ?s mx ls0 "ls_lines s"])
    show "lock_inv ?s" unfolding s by (simp add: lock_inv_leave [OF h(1) p])
    show "agree (lk_pc ?s q) (ls_phase ?s q)" for q
      using h(2) [of q] by (simp add: s agree_def)
    show "serial mx (map fst (ls_done ?s)) ls0 = (map snd (ls_done ?s), ls_lines s)"
      using h(3) run by (simp add: s serial_snoc)
    show "progress mx (ls_lines s) (ls_phase ?s q) (ls_lines ?s)" if "lk_pc ?s q = Inside" for q
      using that inside_alone [OF h(1) p, of q] by (simp add: s split: if_splits)
  qed (simp add: s)
qed

lemma system_inv_inside:
  assumes inv: "system_inv mx ls0 s" and p: "lk_pc s p = Inside"
  shows "system_inv mx ls0 (inside_step True mx p s)"
proof (cases "ls_phase s p")
  case Resting
  then show ?thesis using inv by (simp add: inside_step_def)
next
  case (Called op)
  show ?thesis
    by (rule system_inv_work [OF inv p, where l = "ls_lines s" and ph = "case decide op (ls_clock s) (ls_lines s) of
          None \<Rightarrow> Leaving (op, ls_clock s) False | Some r \<Rightarrow> Appending (op, ls_clock s) r"])
      (use Called in \<open>auto simp: inside_step_def call_run_decide Let_def split: option.splits\<close>)
next
  case (Appending c r)
  moreover obtain op t where "c = (op, t)" by fastforce
  ultimately show ?thesis
    by (intro system_inv_work [OF inv p, where l = "ls_lines s @ [Row r]" and ph = "Trimming c"])
      (auto simp: inside_step_def)
next
  case (Trimming c)
  let ?records = "load_rows (ls_lines s)"
  obtain op t where "c = (op, t)" by fastforce
  with Trimming show ?thesis
    by (intro system_inv_work [OF inv p, where l = "ls_lines s"
          and ph = "if mx \<le> 0 \<or> int (length ?records) \<le> mx then Leaving c True else Replacing c (last_n mx ?records)"])
      (auto simp: inside_step_def Let_def call_run_decide ledger_trim_def)
next
  case (Replacing c keep)
  moreover obtain op t where "c = (op, t)" by fastforce
  ultimately show ?thesis
    by (intro system_inv_work [OF inv p, where l = "write_rows keep" and ph = "Leaving c True"])
      (auto simp: inside_step_def call_run_decide)
next
  case (Leaving c b)
  then show ?thesis by (rule system_inv_leave [OF inv p])
qed

lemma system_inv_go:
  assumes inv: "system_inv mx ls0 s" and "\<not> gives_up p s"
  shows "system_inv mx ls0 (go True mx p s)"
proof (cases "lk_pc s p")
  case Outside
  then show ?thesis using inv by (simp add: go_def)
next
  case Inside
  then show ?thesis using system_inv_inside [OF inv] by (simp add: go_def)
next
  case (Waiting t)
  show ?thesis
  proof (cases "lk_file s")
    case True
    then show ?thesis using Waiting assms by (simp add: go_def gives_up_def)
  next
    case False
    then have s: "go True mx p s = s\<lparr>lk_file := True, lk_pc := (lk_pc s)(p := Inside)\<rparr>" (is "_ = ?s")
      using Waiting by (simp add: go_def)
    show ?thesis unfolding s using inv
    proof (rule system_invE)
      fix ls
      assume h: "lock_inv s" "\<And>p. agree (lk_pc s p) (ls_phase s p)"
        "serial mx (map fst (ls_done s)) ls0 = (map snd (ls_done s), ls)"
        "\<forall>p. lk_pc s p \<noteq> Inside \<Longrightarrow> ls_lines s = ls"
      have none: "lk_pc s q \<noteq> Inside" for q using h(1) False by (auto simp: lock_inv_def)
      show "system_inv mx ls0 ?s"
      proof (rule system_invI [of ?s mx ls0 ls])
        show "lock_inv ?s" by (rule lock_inv_acquire [OF h(1) False])
        show "agree (lk_pc ?s q) (ls_phase ?s q)" for q
          using h(2) [of q] Waiting by (auto simp: agree_def)
        show "progress mx ls (ls_phase ?s q) (ls_lines ?s)" if "lk_pc ?s q = Inside" for q
          using that none h(2) [of p] h(4) Waiting by (auto simp: agree_def split: if_splits)
        show "ls_lines ?s = ls" if "\<forall>q. lk_pc ?s q \<noteq> Inside"
          using spec [OF that, of p] by simp
      qed (use h(3) in simp)
    qed
  qed
qed

lemma system_inv_ask:
  assumes inv: "system_inv mx ls0 s"
  shows "system_inv mx ls0 (system_step True mx (Ask p op) s)"
proof (cases "lk_pc s p = Outside")
  case True
  let ?s = "s\<lparr>lk_pc := (lk_pc s)(p := Waiting (lk_now s + 2000)), ls_phase := (ls_phase s)(p := Called op)\<rparr>"
  have "system_inv mx ls0 ?s"
    using inv
  proof (rule system_invE)
    fix ls
    assume h: "lock_inv s" "\<And>p. agree (lk_pc s p) (ls_phase s p)"
      "serial mx (map fst (ls_done s)) ls0 = (map snd (ls_done s), ls)"
      "\<And>p. lk_pc s p = Inside \<Longrightarrow> progress mx ls (ls_phase s p) (ls_lines s)"
      "\<forall>p. lk_pc s p \<noteq> Inside \<Longrightarrow> ls_lines s = ls"
    show ?thesis
    proof (rule system_invI [of ?s mx ls0 ls])
      show "lock_inv ?s" using lock_inv_other [OF h(1), of p "Waiting (lk_now s + 2000)"] True by simp
      show "agree (lk_pc ?s q) (ls_phase ?s q)" for q
        using h(2) [of q] by (simp add: agree_def)
      show "progress mx ls (ls_phase ?s q) (ls_lines ?s)" if "lk_pc ?s q = Inside" for q
        using that h(4) [of q] by (simp split: if_splits)
      show "ls_lines ?s = ls" if "\<forall>q. lk_pc ?s q \<noteq> Inside"
      proof -
        have "lk_pc s q \<noteq> Inside" for q using spec [OF that, of q] True by (cases "q = p") simp_all
        then show ?thesis using h(5) by simp
      qed
    qed (use h(3) in simp)
  qed
  with True show ?thesis by simp
qed (use inv in simp)

lemma system_inv_step:
  assumes "system_inv mx ls0 s" and "case e of Go p \<Rightarrow> \<not> gives_up p s | _ \<Rightarrow> True"
  shows "system_inv mx ls0 (system_step True mx e s)"
proof (cases e)
  case (Go p)
  with assms system_inv_go show ?thesis by simp
next
  case (Ask p op)
  with system_inv_ask [OF assms(1)] show ?thesis by simp
qed (use assms in \<open>simp_all add: system_inv_def\<close>)

lemma system_inv_init: "system_inv mx ls (system_init ls)"
  by (simp add: system_inv_def system_init_def lock_init_def lock_state.extend_def ledger_system.fields_def
      lock_inv_def agree_def)

lemma system_inv_run:
  "system_inv mx ls0 s \<Longrightarrow> patient mx es s \<Longrightarrow> system_inv mx ls0 (system_run True mx es s)"
  by (induction es arbitrary: s) (simp_all add: system_run_def system_inv_step)

subsection \<open>The interleaving is a sequence of calls\<close>

text \<open>
  C13. Processes that share the ledger are as one: as long as no process enters the section
  because its deadline has passed, every interleaving of their file accesses answers each call
  as the calls do that are made one after the other, in the order in which they left the lock,
  and whenever no process is inside, the file is the one these calls leave.
\<close>

theorem interleaved_ledger_serial:
  assumes "patient mx es (system_init ls0)"
  shows "let s = system_run True mx es (system_init ls0); (answers, ls) = serial mx (map fst (ls_done s)) ls0
     in map snd (ls_done s) = answers \<and> ((\<forall>p. lk_pc s p \<noteq> Inside) \<longrightarrow> ls_lines s = ls)"
  using system_inv_run [OF system_inv_init assms] by (auto simp: system_inv_def Let_def split: prod.splits)

text \<open>Two processes ask for the same key; the second waits while the first is inside.\<close>

definition both_ask :: "event list" where
  "both_ask = [Ask 0 (OpStart ''k'' JobRun None []), Go 0, Ask 1 (OpStart ''k'' JobRun None []), Go 1, Tick 500,
     Go 0, Go 0, Go 1, Go 0, Go 0, Go 1, Go 1, Go 1]"

theorem interleaved_ledger_serial_witness:
  "map snd (ls_done (system_run True 10 both_ask (system_init []))) = [True, False]
   \<and> fst (serial 10 (map fst (ls_done (system_run True 10 both_ask (system_init [])))) []) = [True, False]"
proof -
  have "patient 10 both_ask (system_init [])" by code_simp
  from interleaved_ledger_serial [OF this]
  have "map snd (ls_done (system_run True 10 both_ask (system_init [])))
      = fst (serial 10 (map fst (ls_done (system_run True 10 both_ask (system_init [])))) [])"
    by (auto simp: Let_def split: prod.splits)
  moreover have "map snd (ls_done (system_run True 10 both_ask (system_init []))) = [True, False]" by code_simp
  ultimately show ?thesis by simp
qed

subsection \<open>One start among all processes\<close>

fun starts :: "string \<Rightarrow> call \<times> bool \<Rightarrow> bool" where
  "starts k ((OpStart k' kind corr meta, t), b) \<longleftrightarrow> k' = k \<and> b"
| "starts k ((OpMark k' st meta, t), b) \<longleftrightarrow> False"

lemma call_run_step:
  "snd (call_run mx (op, t) ls) = w_ledger (ledger_step mx op ((empty_world t)\<lparr>w_ledger := ls\<rparr>))"
  by (cases op) (simp_all add: call_run_def split_beta Let_def)

lemma call_run_held:
  assumes "held k d (load_rows ls)" and "\<not> releases k op" and "mx \<le> 0 \<or> int (Suc d) < mx"
  shows "\<not> starts k ((op, t), fst (call_run mx (op, t) ls))"
    and "held k (Suc d) (load_rows (snd (call_run mx (op, t) ls)))"
proof -
  let ?w = "(empty_world t)\<lparr>w_ledger := ls\<rparr>"
  have "held k d (load_rows (w_ledger ?w))" using assms(1) by simp
  then show "held k (Suc d) (load_rows (snd (call_run mx (op, t) ls)))"
    and "\<not> starts k ((op, t), fst (call_run mx (op, t) ls))"
    using held_step [of k d ?w op mx] not_start_when_held [of k d ?w mx] assms(2,3)
    by (simp_all add: call_run_step) (cases op; auto simp: call_run_def split_beta Let_def)
qed

lemma serial_held:
  assumes "held k d (load_rows ls)" and "\<forall>c\<in>set cs. \<not> releases k (fst c)" and "mx \<le> 0 \<or> int (d + length cs) < mx"
  shows "filter (starts k) (zip cs (fst (serial mx cs ls))) = []"
  using assms
proof (induction cs arbitrary: d ls)
  case (Cons c cs)
  obtain op t where c: "c = (op, t)" by fastforce
  have "\<not> releases k op" "mx \<le> 0 \<or> int (Suc d) < mx" using Cons.prems c by auto
  note step = call_run_held [OF Cons.prems(1) this, of t]
  have "filter (starts k) (zip cs (fst (serial mx cs (snd (call_run mx c ls))))) = []"
    by (rule Cons.IH [of "Suc d"]) (use step(2) Cons.prems c in auto)
  with step(1) c show ?case by (simp add: split_beta Let_def)
qed simp

lemma call_run_starts:
  assumes "starts k ((op, t), fst (call_run mx (op, t) ls))"
  shows "held k 0 (load_rows (snd (call_run mx (op, t) ls)))"
proof (cases op)
  case (OpStart k' kind corr meta)
  let ?w = "(empty_world t)\<lparr>w_ledger := ls\<rparr>"
  have k: "k' = k" and "fst (try_start mx k' kind corr meta ?w)"
    using assms OpStart by (auto simp: call_run_def split_beta Let_def)
  then have "try_start mx k kind corr meta ?w = (True, snd (try_start mx k kind corr meta ?w))"
    by (simp add: prod_eq_iff)
  then have "held k 0 (load_rows (w_ledger (snd (try_start mx k kind corr meta ?w))))" by (rule held_after_start)
  then show ?thesis using OpStart k by (simp add: call_run_step)
qed (use assms in simp)

lemma serial_one_start:
  assumes "\<forall>c\<in>set cs. \<not> releases k (fst c)" and "mx \<le> 0 \<or> int (length cs) \<le> mx"
  shows "length (filter (starts k) (zip cs (fst (serial mx cs ls)))) \<le> 1"
  using assms
proof (induction cs arbitrary: ls)
  case (Cons c cs)
  obtain op t where c: "c = (op, t)" by fastforce
  show ?case
  proof (cases "starts k (c, fst (call_run mx c ls))")
    case True
    then have "held k 0 (load_rows (snd (call_run mx c ls)))" using call_run_starts c by simp
    then have "filter (starts k) (zip cs (fst (serial mx cs (snd (call_run mx c ls))))) = []"
      by (rule serial_held) (use Cons.prems in auto)
    then show ?thesis using True by (simp add: split_beta Let_def)
  next
    case False
    have "mx \<le> 0 \<or> int (length cs) \<le> mx" using Cons.prems(2) by auto
    then show ?thesis using Cons.IH [of "snd (call_run mx c ls)"] Cons.prems(1) False
      by (simp add: split_beta Let_def)
  qed
qed simp

text \<open>
  C12. However the accesses of any number of processes interleave, at most one call of
  \<open>try_start\<close> gets a key, as long as no process enters because its deadline has passed, nobody
  marks the key failed or skipped, and the calls fit into the ledger (or it is unbounded).
\<close>

theorem one_start_among_processes:
  assumes "patient mx es (system_init ls0)"
    and "\<forall>x\<in>set (ls_done (system_run True mx es (system_init ls0))). \<not> releases k (fst (fst x))"
    and "mx \<le> 0 \<or> int (length (ls_done (system_run True mx es (system_init ls0)))) \<le> mx"
  shows "length (filter (starts k) (ls_done (system_run True mx es (system_init ls0)))) \<le> 1"
proof -
  let ?d = "ls_done (system_run True mx es (system_init ls0))"
  have "map snd ?d = fst (serial mx (map fst ?d) ls0)"
    using system_inv_run [OF system_inv_init assms(1)] by (auto simp: system_inv_def split: prod.splits)
  then have d: "?d = zip (map fst ?d) (fst (serial mx (map fst ?d) ls0))"
    using zip_map_fst_snd [of ?d] by simp
  have "length (filter (starts k) (zip (map fst ?d) (fst (serial mx (map fst ?d) ls0)))) \<le> 1"
    by (rule serial_one_start) (use assms(2,3) in auto)
  with d show ?thesis by simp
qed

theorem one_start_among_processes_witness:
  "length (filter (starts ''k'') (ls_done (system_run True 10 both_ask (system_init [])))) \<le> 1"
proof (rule one_start_among_processes)
  show "patient 10 both_ask (system_init [])" by code_simp
  show "\<forall>x\<in>set (ls_done (system_run True 10 both_ask (system_init []))). \<not> releases ''k'' (fst (fst x))"
    by code_simp
  show "(10 :: int) \<le> 0 \<or> int (length (ls_done (system_run True 10 both_ask (system_init [])))) \<le> 10"
    by code_simp
qed

text \<open>
  The condition is needed: when the second process has waited for two seconds it enters beside
  the first, and both get the key; so they do at once when the lock mode is not \<open>file\<close>.
\<close>

definition starts_given :: "bool \<Rightarrow> event list \<Rightarrow> bool list" where
  "starts_given locked es = map snd (ls_done (system_run locked 10 es (system_init [])))"

theorem waiting_out_starts_twice:
  "starts_given True
     [Ask 0 (OpStart ''k'' JobRun None []), Go 0, Ask 1 (OpStart ''k'' JobRun None []), Tick 2000, Go 1,
      Go 0, Go 1, Go 0, Go 1, Go 0, Go 1, Go 0, Go 1] = [True, True]
   \<and> starts_given False
     [Ask 0 (OpStart ''k'' JobRun None []), Go 0, Ask 1 (OpStart ''k'' JobRun None []), Go 1,
      Go 0, Go 1, Go 0, Go 1, Go 0, Go 1, Go 0, Go 1] = [True, True]"
  by code_simp

text \<open>
  A recorded outcome can be lost in the same way: a process that has waited out its deadline
  replaces the file by what it read before the other appended.
\<close>

definition lost_outcome :: "(string \<times> ledger_status) list" where
  "lost_outcome =
     (let old = \<lparr>lr_key = ''a'', lr_kind = JobRun, lr_status = Succeeded, lr_ts = isoformat (Aware 0), lr_corr = None, lr_meta = []\<rparr>;
          s = system_run True 1
                [Ask 0 (OpMark ''b'' Failed []), Go 0, Go 0, Go 0, Go 0, Ask 1 (OpMark ''c'' Succeeded []), Tick 2000, Go 1,
                 Go 1, Go 1, Go 0, Go 0, Go 1, Go 1] (system_init [Row old])
      in map (\<lambda>r. (lr_key r, lr_status r)) (load_rows (ls_lines s)))"

theorem waiting_out_loses_outcome: "lost_outcome = [(''b'', Failed)]"
  by code_simp

end
