(* ===== verification/TimeText.thy ===== *)
theory TimeText
  imports World
begin

section \<open>The text of an instant\<close>

text \<open>
  \<open>datetime.isoformat\<close> of an aware UTC \<open>datetime\<close>, from its microseconds since 1970:
  the Gregorian date by the usual count of days from 1 March of year 0, the time of day,
  and the fraction only when it is not zero.
\<close>

definition pad :: "nat \<Rightarrow> int \<Rightarrow> string" where
  "pad k n = replicate (k - length (show_nat (nat n))) (CHR ''0'') @ show_nat (nat n)"

lemma pad_code [code]: "pad k n = (let s = show_digits (max 0 n) in replicate (k - length s) (CHR ''0'') @ s)"
  by (simp add: pad_def show_nat_digits_int Let_def max_def)

definition civil_of_days :: "int \<Rightarrow> int \<times> int \<times> int" where
  "civil_of_days z0 =
     (let z = z0 + 719468;
          era = z div 146097;
          doe = z mod 146097;
          yoe = (doe - doe div 1460 + doe div 36524 - doe div 146096) div 365;
          doy = doe - (365 * yoe + yoe div 4 - yoe div 100);
          mp = (5 * doy + 2) div 153;
          d = doy - (153 * mp + 2) div 5 + 1;
          m = (if mp < 10 then mp + 3 else mp - 9)
      in ((if m \<le> 2 then yoe + era * 400 + 1 else yoe + era * 400), m, d))"

definition iso_text :: "int \<Rightarrow> string" where
  "iso_text t =
     (let s = t div 1000000; us = t mod 1000000; (y, m, d) = civil_of_days (s div 86400); r = s mod 86400
      in pad 4 y @ ''-'' @ pad 2 m @ ''-'' @ pad 2 d @ ''T'' @ pad 2 (r div 3600) @ '':'' @ pad 2 (r div 60 mod 60)
         @ '':'' @ pad 2 (r mod 60) @ (if us = 0 then [] else ''.'' @ pad 6 us) @ ''+00:00'')"

lemma iso_text_epoch: "iso_text 0 = ''1970-01-01T00:00:00+00:00''"
  by code_simp

lemma iso_text_leap: "iso_text 1709210096000005 = ''2024-02-29T12:34:56.000005+00:00''"
  by code_simp

end
