(* ===== verification/Rules.thy ===== *)
theory Rules
  imports Stores TimeText
begin

section \<open>Rules: schemas, store, items and cursors\<close>

text \<open>
  \<open>core/rules/schemas.py\<close> and \<open>store.py\<close>, and the parts of \<open>engine.py\<close> that select
  items: which items are new (\<open>_filter_new_items\<close>), which match the condition
  (\<open>_matching_items\<close>), and what is remembered of them (\<open>_update_cursors\<close>). Time stamps of
  items and rules are kept as read (\<open>iso\<close>).
\<close>

subsection \<open>Schemas\<close>

datatype trigger_type = Schedule | Gmail | Calendar

record rule_trigger =
  tg_type :: trigger_type
  tg_every_minutes :: int
  tg_query :: "string option"
  tg_max_results :: int
  tg_hours_ahead :: int

record rule_condition =
  rc_contains :: "string option"
  rc_not_contains :: "string option"

datatype rule_action =
    NotifyAction string string
  | ProposeAction string "json dict" string

record rule_state =
  rs_last_run :: "iso option"
  rs_last_match :: "iso option"
  rs_cooldown_until :: "iso option"
  rs_seen :: "string list"
  rs_seen_max :: int
  rs_cursor :: "iso option"

record rule =
  ru_id :: string
  ru_name :: string
  ru_enabled :: bool
  ru_created :: iso
  ru_updated :: iso
  ru_trigger :: rule_trigger
  ru_condition :: rule_condition
  ru_actions :: "rule_action list"
  ru_max_actions :: int
  ru_cooldown_minutes :: int
  ru_state :: rule_state
  ru_last_run :: "iso option"
  ru_last_match :: "iso option"

record rule_run_result =
  rr_rule_id :: string
  rr_ok :: bool
  rr_matched :: bool
  rr_match_count :: nat
  rr_notes :: "string list"
  rr_error :: "string option"

definition migrate_legacy_state :: "rule \<Rightarrow> rule" where
  \<comment> \<open>the validator every \<open>Rule\<close> passes when it is read\<close>
  "migrate_legacy_state r =
     (let s = ru_state r;
          s1 = (if iso_truthy (ru_last_run r) \<and> \<not> iso_truthy (rs_last_run s) then s\<lparr>rs_last_run := ru_last_run r\<rparr> else s);
          s2 = (if iso_truthy (ru_last_match r) \<and> \<not> iso_truthy (rs_last_match s) then s1\<lparr>rs_last_match := ru_last_match r\<rparr> else s1)
      in r\<lparr>ru_state := s2\<rparr>)"

subsection \<open>The store\<close>

definition migrate_rule :: "rule \<Rightarrow> rule" where
  "migrate_rule r =
     (let s0 = ru_state r;
          s1 = (if iso_truthy (ru_last_run r) \<and> \<not> iso_truthy (rs_last_run s0) then s0\<lparr>rs_last_run := ru_last_run r\<rparr> else s0);
          s2 = (if iso_truthy (ru_last_match r) \<and> \<not> iso_truthy (rs_last_match s1) then s1\<lparr>rs_last_match := ru_last_match r\<rparr> else s1);
          s3 = (if rs_seen_max s2 \<le> 0 then s2\<lparr>rs_seen_max := 200\<rparr> else s2);
          s4 = (if rs_seen_max s3 < int (length (rs_seen s3)) then s3\<lparr>rs_seen := last_n (rs_seen_max s3) (rs_seen s3)\<rparr> else s3)
      in r\<lparr>ru_state := s4, ru_last_run := rs_last_run s4, ru_last_match := rs_last_match s4\<rparr>)"

type_synonym rules_file = "rule line list"

definition rules_load :: "rules_file \<Rightarrow> rule list" where
  "rules_load f = map (\<lambda>r. migrate_rule (migrate_legacy_state r)) (load_rows f)"

definition rules_write :: "rule list \<Rightarrow> rules_file" where
  "rules_write rs = write_rows (map migrate_rule rs)"

definition rules_list_all :: "rules_file \<Rightarrow> rule list" where
  "rules_list_all f = rev (rules_load f)"

definition rule_get :: "rules_file \<Rightarrow> string \<Rightarrow> rule option" where
  "rule_get f i = find (\<lambda>r. ru_id r = i) (rules_load f)"

definition rule_upsert :: "iso \<Rightarrow> rule \<Rightarrow> rules_file \<Rightarrow> rule \<times> rules_file" where
  "rule_upsert now r f =
     (let updated = (migrate_rule r)\<lparr>ru_updated := now\<rparr>
      in (updated, rules_write (upsert_first (\<lambda>x. ru_id x = ru_id updated) updated (rules_load f))))"

definition rule_delete :: "string \<Rightarrow> rules_file \<Rightarrow> bool \<times> rules_file" where
  "rule_delete i f =
     (let rules = rules_load f; filtered = filter (\<lambda>r. ru_id r \<noteq> i) rules
      in if length filtered = length rules then (False, f) else (True, rules_write filtered))"

definition rule_set_enabled :: "iso \<Rightarrow> string \<Rightarrow> bool \<Rightarrow> rules_file \<Rightarrow> rule option \<times> rules_file" where
  "rule_set_enabled now i enabled f =
     (case rule_get f i of
        None \<Rightarrow> (None, f)
      | Some r \<Rightarrow> (let (r', f') = rule_upsert now (r\<lparr>ru_enabled := enabled\<rparr>) f in (Some r', f')))"

lemma migrate_rule_id [simp]: "ru_id (migrate_rule r) = ru_id r" "ru_id (migrate_legacy_state r) = ru_id r"
  "ru_updated (migrate_rule r) = ru_updated r"
  by (simp_all add: migrate_rule_def migrate_legacy_state_def Let_def)

text \<open>What migration leaves alone: the rules it is a fixed point of.\<close>

definition migrated :: "rule \<Rightarrow> bool" where
  "migrated r \<longleftrightarrow> 0 < rs_seen_max (ru_state r) \<and> int (length (rs_seen (ru_state r))) \<le> rs_seen_max (ru_state r)
     \<and> ru_last_run r = rs_last_run (ru_state r) \<and> ru_last_match r = rs_last_match (ru_state r)"

lemma migrate_rule_migrated: "migrated (migrate_rule r)"
  by (auto simp: migrated_def migrate_rule_def Let_def)

lemma migrate_rule_fixed: "migrated r \<Longrightarrow> migrate_rule r = r" "migrated r \<Longrightarrow> migrate_legacy_state r = r"
  by (cases r; cases "ru_state r"; auto simp: migrated_def migrate_rule_def migrate_legacy_state_def Let_def)+

lemma migrate_rule_idem [simp]:
  "migrate_rule (migrate_rule r) = migrate_rule r" "migrate_legacy_state (migrate_rule r) = migrate_rule r"
  by (simp_all add: migrate_rule_fixed migrate_rule_migrated)

lemma migrated_updated [simp]: "migrated (r\<lparr>ru_updated := t\<rparr>) = migrated r"
  by (simp add: migrated_def)

lemma rules_load_migrated: "r \<in> set (rules_load f) \<Longrightarrow> migrated r"
  by (auto simp: rules_load_def migrate_rule_migrated)

lemma rules_load_write: "\<forall>r\<in>set rs. migrated r \<Longrightarrow> rules_load (rules_write rs) = rs"
  by (induction rs) (simp_all add: rules_load_def rules_write_def write_rows_def load_rows_def migrate_rule_fixed)

lemma rules_load_upsert:
  "rules_load (snd (rule_upsert now r f)) =
     upsert_first (\<lambda>x. ru_id x = ru_id r) ((migrate_rule r)\<lparr>ru_updated := now\<rparr>) (rules_load f)"
proof -
  let ?u = "(migrate_rule r)\<lparr>ru_updated := now\<rparr>"
  have "\<forall>x\<in>set (upsert_first (\<lambda>x. ru_id x = ru_id r) ?u (rules_load f)). migrated x"
    using set_upsert_first [of "\<lambda>x. ru_id x = ru_id r" ?u "rules_load f"] rules_load_migrated
      migrate_rule_migrated by fastforce
  then show ?thesis by (simp add: rule_upsert_def Let_def rules_load_write)
qed

lemma rules_load_delete: "rules_load (snd (rule_delete i f)) = filter (\<lambda>r. ru_id r \<noteq> i) (rules_load f)"
proof (cases "length (filter (\<lambda>r. ru_id r \<noteq> i) (rules_load f)) = length (rules_load f)")
  case True
  then have "filter (\<lambda>r. ru_id r \<noteq> i) (rules_load f) = rules_load f"
    by (metis filter_id_conv filter_True length_filter_less less_irrefl)
  then show ?thesis by (simp add: rule_delete_def Let_def)
next
  case False
  have "rules_load (rules_write (filter (\<lambda>r. ru_id r \<noteq> i) (rules_load f))) = filter (\<lambda>r. ru_id r \<noteq> i) (rules_load f)"
    by (rule rules_load_write) (auto dest: rules_load_migrated)
  with False show ?thesis by (simp add: rule_delete_def Let_def)
qed

interpretation rule_store: keyed_store rule_get "\<lambda>r f. snd (rule_upsert now r f)" ru_id
    "\<lambda>r. (migrate_rule r)\<lparr>ru_updated := now\<rparr>" "\<lambda>i f. snd (rule_delete i f)" for now
  by unfold_locales
    (simp_all add: rule_get_def rules_load_upsert rules_load_delete find_upsert_first_same find_upsert_first_other
      find_filter_same find_filter_other)

text \<open>
  The rule store: after an upsert the rule is found, migrated and stamped, every other
  rule is as before; after a delete the rule is gone; disabling keeps the rest of the rule.
\<close>

theorem rule_store_laws:
  "rule_get (snd (rule_upsert now r f)) i = (if i = ru_id r then Some ((migrate_rule r)\<lparr>ru_updated := now\<rparr>) else rule_get f i)
   \<and> rule_get (snd (rule_delete j f)) i = (if i = j then None else rule_get f i)
   \<and> migrate_rule (migrate_rule r) = migrate_rule r"
  using rule_store.lookup_put [of now r f i] rule_store.lookup_del [of j f i] by simp

subsection \<open>Items\<close>

record item =
  it_id :: string
  it_ts :: "iso option"
  it_text :: string
  it_raw :: "json dict"

text \<open>\<open>_parse_iso\<close> of the engine: absent, empty and unreadable time stamps give \<open>None\<close>.\<close>

fun engine_parse_iso :: "iso option \<Rightarrow> datetime option" where
  "engine_parse_iso None = None"
| "engine_parse_iso (Some t) = fromisoformat t"

fun filter_loop :: "string set \<Rightarrow> datetime option \<Rightarrow> item list \<Rightarrow> item list res" where
  "filter_loop seen cursor [] = Inr []"
| "filter_loop seen cursor (it # its) =
     (if it_id it \<in> seen then filter_loop seen cursor its
      else case (case (cursor, engine_parse_iso (it_ts it)) of
                   (Some c, Some t) \<Rightarrow> dt_le t c | _ \<Rightarrow> Inr False) of
        Inl e \<Rightarrow> Inl e
      | Inr True \<Rightarrow> filter_loop seen cursor its
      | Inr False \<Rightarrow> (case filter_loop seen cursor its of Inl e \<Rightarrow> Inl e | Inr rest \<Rightarrow> Inr (it # rest)))"

definition filter_new_items :: "rule_state \<Rightarrow> item list \<Rightarrow> item list res" where
  "filter_new_items s items = filter_loop (set (rs_seen s)) (engine_parse_iso (rs_cursor s)) items"

definition nonempty_opt :: "string option \<Rightarrow> string option" where
  "nonempty_opt x = (case x of None \<Rightarrow> None | Some s \<Rightarrow> if s = [] then None else Some (casefold s))"

definition item_matches :: "rule_condition \<Rightarrow> item \<Rightarrow> bool" where
  "item_matches c it \<longleftrightarrow>
     (let text = casefold (it_text it)
      in (case nonempty_opt (rc_contains c) of None \<Rightarrow> True | Some p \<Rightarrow> str_in p text)
       \<and> (case nonempty_opt (rc_not_contains c) of None \<Rightarrow> True | Some p \<Rightarrow> \<not> str_in p text))"

definition matching_items :: "rule_condition \<Rightarrow> item list \<Rightarrow> item list" where
  "matching_items c items =
     (if nonempty_opt (rc_contains c) = None \<and> nonempty_opt (rc_not_contains c) = None then items
      else filter (item_matches c) items)"

lemma matching_items_filter: "matching_items c items = filter (item_matches c) items"
  by (simp add: matching_items_def item_matches_def)

text \<open>The loop of \<open>_update_cursors\<close>; the set of seen ids it keeps is the set of its list.\<close>

fun cursor_loop :: "item list \<Rightarrow> string list \<Rightarrow> datetime option \<Rightarrow> iso option \<Rightarrow> (string list \<times> iso option) res" where
  "cursor_loop [] seen max_dt max_iso = Inr (seen, max_iso)"
| "cursor_loop (it # its) seen max_dt max_iso =
     (let seen' = filter (\<lambda>x. x \<noteq> it_id it) seen @ [it_id it]
      in case (case (engine_parse_iso (it_ts it), max_dt) of
                 (None, _) \<Rightarrow> Inr False | (Some t, None) \<Rightarrow> Inr True | (Some t, Some m) \<Rightarrow> dt_gt t m) of
           Inl e \<Rightarrow> Inl e
         | Inr True \<Rightarrow> cursor_loop its seen' (engine_parse_iso (it_ts it)) (it_ts it)
         | Inr False \<Rightarrow> cursor_loop its seen' max_dt max_iso)"

definition update_cursors :: "rule_state \<Rightarrow> item list \<Rightarrow> rule_state res" where
  "update_cursors s items =
     (if items = [] then Inr s
      else case cursor_loop items (rs_seen s) (engine_parse_iso (rs_cursor s)) (rs_cursor s) of
        Inl e \<Rightarrow> Inl e
      | Inr (seen, cur) \<Rightarrow> Inr (s\<lparr>rs_seen := last_n (max 1 (rs_seen_max s)) seen, rs_cursor := cur\<rparr>))"

text \<open>Ids are moved to the end, so the list is the old ones followed by the processed ones.\<close>

fun touch :: "string list \<Rightarrow> string list \<Rightarrow> string list" where
  "touch [] seen = seen"
| "touch (i # is) seen = touch is (filter (\<lambda>x. x \<noteq> i) seen @ [i])"

lemma cursor_loop_seen:
  "cursor_loop items seen d m = Inr (seen', m') \<Longrightarrow> seen' = touch (map it_id items) seen"
proof (induction items arbitrary: seen d m)
  case (Cons it items)
  then show ?case
    by (auto simp: Let_def split: sum.splits bool.splits)
qed simp

lemma touch_snoc: "touch (is @ [i]) seen = filter (\<lambda>x. x \<noteq> i) (touch is seen) @ [i]"
  by (induction "is" arbitrary: seen) simp_all

lemma remdups_snoc: "remdups (is @ [i]) = filter (\<lambda>x. x \<noteq> i) (remdups is) @ [i]"
  by (induction "is") auto

text \<open>The processed ids end the list, each once, the latest last.\<close>

lemma touch_suffix:
  "\<exists>ys. touch is seen = ys @ remdups is \<and> set ys \<subseteq> set seen - set is"
proof (induction "is" rule: rev_induct)
  case (snoc i "is")
  then obtain ys where ys: "touch is seen = ys @ remdups is" and sub: "set ys \<subseteq> set seen - set is"
    by blast
  have "touch (is @ [i]) seen = filter (\<lambda>x. x \<noteq> i) ys @ remdups (is @ [i])"
    by (simp add: touch_snoc ys remdups_snoc)
  with sub show ?case by auto
qed simp

lemma filter_loop_sound:
  "filter_loop seen cursor items = Inr new \<Longrightarrow> it \<in> set new \<Longrightarrow>
     it \<in> set items \<and> it_id it \<notin> seen
     \<and> (case (cursor, engine_parse_iso (it_ts it)) of (Some c, Some t) \<Rightarrow> dt_le t c = Inr False | _ \<Rightarrow> True)"
proof (induction items arbitrary: new)
  case (Cons x items)
  then show ?case
    by (auto split: if_splits sum.splits bool.splits option.splits)
qed simp

lemma update_cursors_ok:
  assumes "update_cursors s items = Inr s'" and "items \<noteq> []"
  shows "rs_seen s' = last_n (max 1 (rs_seen_max s)) (touch (map it_id items) (rs_seen s))"
  using assms cursor_loop_seen by (auto simp: update_cursors_def split: sum.splits)

text \<open>
  Items that have been processed are not processed again: once the cursors have been
  updated with a batch of at most \<open>seen_ids_max\<close> distinct ids, no later selection
  contains an item with one of these ids. The list of seen ids stays within its bound.
\<close>

theorem processed_not_selected:
  assumes "update_cursors s items = Inr s'" and "items \<noteq> []"
    and "int (length (remdups (map it_id items))) \<le> max 1 (rs_seen_max s)"
    and "filter_new_items s' later = Inr new"
  shows "int (length (rs_seen s')) \<le> max 1 (rs_seen_max s)
    \<and> (\<forall>it\<in>set new. it \<in> set later \<and> it_id it \<notin> it_id ` set items)"
proof -
  let ?ids = "map it_id items"
  obtain ys where "touch ?ids (rs_seen s) = ys @ remdups ?ids" using touch_suffix by blast
  then have seen: "rs_seen s' = last_n (max 1 (rs_seen_max s) - int (length (remdups ?ids))) ys @ remdups ?ids"
    using update_cursors_ok [OF assms(1,2)] last_n_append_long [OF assms(3)] by simp
  then have "it_id ` set items \<subseteq> set (rs_seen s')" by auto
  moreover have "int (length (rs_seen s')) \<le> max 1 (rs_seen_max s)"
    using update_cursors_ok [OF assms(1,2)] by simp
  ultimately show ?thesis
    using filter_loop_sound [OF assms(4) [unfolded filter_new_items_def]] by blast
qed

theorem processed_not_selected_witness:
  "let s = \<lparr>rs_last_run = None, rs_last_match = None, rs_cooldown_until = None, rs_seen = [''a''],
            rs_seen_max = 2, rs_cursor = None\<rparr>;
       it = \<lparr>it_id = ''b'', it_ts = Some (Iso (Aware 5)), it_text = ''hello'', it_raw = []\<rparr>
   in \<exists>s'. update_cursors s [it] = Inr s' \<and> filter_new_items s' [it] = Inr []"
proof -
  let ?s = "\<lparr>rs_last_run = None, rs_last_match = None, rs_cooldown_until = None, rs_seen = [''a''],
            rs_seen_max = 2, rs_cursor = None\<rparr>"
  let ?it = "\<lparr>it_id = ''b'', it_ts = Some (Iso (Aware 5)), it_text = ''hello'', it_raw = []\<rparr>"
  obtain s' where s': "update_cursors ?s [?it] = Inr s'" by (simp add: update_cursors_def)
  obtain new where new: "filter_new_items s' [?it] = Inr new"
    using s' by (auto simp: update_cursors_def filter_new_items_def last_n_def)
  have none: "\<forall>it\<in>set new. it \<in> set [?it] \<and> it_id it \<notin> it_id ` set [?it]"
    by (rule processed_not_selected [OF s' _ _ new, THEN conjunct2]) simp_all
  have "x \<notin> set new" for x using none by fastforce
  then have "new = []" by (cases new) auto
  with s' new show ?thesis by (simp add: Let_def)
qed

subsection \<open>The cursor\<close>

lemma dt_le_trans: "dt_le a b = Inr True \<Longrightarrow> dt_le b c = Inr True \<Longrightarrow> dt_le a c = Inr True"
  by (cases a; cases b; cases c) auto

lemma dt_le_refl: "dt_le a a = Inr True"
  by (cases a) auto

lemma dt_gt_le: "dt_gt a b = Inr False \<Longrightarrow> dt_le a b = Inr True" "dt_gt a b = Inr True \<Longrightarrow> dt_le b a = Inr True"
  by (cases a; cases b; auto)+

definition reached :: "datetime \<Rightarrow> iso option \<Rightarrow> bool" where
  "reached t m \<longleftrightarrow> (\<exists>c. engine_parse_iso m = Some c \<and> dt_le t c = Inr True)"

lemma cursor_loop_reaches:
  "cursor_loop items seen (engine_parse_iso m) m = Inr (seen', m') \<Longrightarrow>
   (\<forall>t. reached t m \<longrightarrow> reached t m')
   \<and> (\<forall>it\<in>set items. \<forall>t. engine_parse_iso (it_ts it) = Some t \<longrightarrow> reached t m')"
proof (induction items arbitrary: seen m)
  case (Cons it items)
  let ?seen = "filter (\<lambda>x. x \<noteq> it_id it) seen @ [it_id it]"
  show ?case
  proof (cases "engine_parse_iso (it_ts it)")
    case None
    with Cons.prems have "cursor_loop items ?seen (engine_parse_iso m) m = Inr (seen', m')"
      by (simp add: Let_def)
    from Cons.IH [OF this] None show ?thesis by simp
  next
    case (Some t)
    consider (first) "engine_parse_iso m = None" | (later) c where "engine_parse_iso m = Some c"
      by (cases "engine_parse_iso m") auto
    then show ?thesis
    proof cases
      case first
      with Cons.prems Some have "cursor_loop items ?seen (engine_parse_iso (it_ts it)) (it_ts it) = Inr (seen', m')"
        by (simp add: Let_def)
      from Cons.IH [OF this] Some first dt_le_refl show ?thesis by (auto simp: reached_def)
    next
      case later
      with Cons.prems Some obtain b where b: "dt_gt t c = Inr b"
        by (auto simp: Let_def split: sum.splits)
      show ?thesis
      proof (cases b)
        case True
        with Cons.prems Some later b have "cursor_loop items ?seen (engine_parse_iso (it_ts it)) (it_ts it) = Inr (seen', m')"
          by (simp add: Let_def)
        note ih = Cons.IH [OF this]
        have "reached u m \<Longrightarrow> reached u (it_ts it)" for u
          using later Some b True dt_gt_le(2) dt_le_trans by (auto simp: reached_def)
        moreover have "reached t (it_ts it)" using Some dt_le_refl by (auto simp: reached_def)
        ultimately show ?thesis using ih Some by auto
      next
        case False
        with Cons.prems Some later b have "cursor_loop items ?seen (engine_parse_iso m) m = Inr (seen', m')"
          by (simp add: Let_def)
        note ih = Cons.IH [OF this]
        have "reached t m" using later b False dt_gt_le(1) by (auto simp: reached_def)
        then show ?thesis using ih Some by auto
      qed
    qed
  qed
qed simp

lemma filter_loop_cut:
  "filter_loop seen (Some c) items = Inr new \<Longrightarrow> it \<in> set new \<Longrightarrow> engine_parse_iso (it_ts it) = Some t \<Longrightarrow>
   dt_le t c = Inr False"
  using filter_loop_sound by fastforce

text \<open>
  The cursor is the latest time stamp processed, whatever the trigger: after a batch
  with an item of time \<open>t\<close>, no item with a time stamp up to \<open>t\<close> is selected, seen or not.
  For a calendar rule, whose stamps are the events' start times, a new event that starts
  before the latest start already seen is never considered.
\<close>

theorem cursor_cuts:
  assumes "update_cursors s items = Inr s'" and "it \<in> set items" and "engine_parse_iso (it_ts it) = Some t"
    and "filter_new_items s' later = Inr new" and "engine_parse_iso (it_ts x) = Some u" and "dt_le u t = Inr True"
  shows "x \<notin> set new"
proof
  assume x: "x \<in> set new"
  have "items \<noteq> []" using assms(2) by auto
  then obtain seen' where "cursor_loop items (rs_seen s) (engine_parse_iso (rs_cursor s)) (rs_cursor s) = Inr (seen', rs_cursor s')"
    using assms(1) by (auto simp: update_cursors_def split: sum.splits)
  from cursor_loop_reaches [OF this] assms(2,3) have "reached t (rs_cursor s')" by blast
  then obtain c where c: "engine_parse_iso (rs_cursor s') = Some c" "dt_le t c = Inr True"
    by (auto simp: reached_def)
  have "dt_le u c = Inr False"
    using filter_loop_cut [OF _ x assms(5)] assms(4) c(1) by (simp add: filter_new_items_def)
  with dt_le_trans [OF assms(6) c(2)] show False by simp
qed

theorem cursor_cuts_witness:
  "let s = \<lparr>rs_last_run = None, rs_last_match = None, rs_cooldown_until = None, rs_seen = [], rs_seen_max = 200, rs_cursor = None\<rparr>;
       tomorrow = \<lparr>it_id = ''e1'', it_ts = Some (Iso (Aware 86400)), it_text = ''standup'', it_raw = []\<rparr>;
       today = \<lparr>it_id = ''e2'', it_ts = Some (Iso (Aware 3600)), it_text = ''urgent review'', it_raw = []\<rparr>
   in \<exists>s'. update_cursors s [tomorrow] = Inr s' \<and> filter_new_items s' [today] = Inr []"
proof -
  let ?s = "\<lparr>rs_last_run = None, rs_last_match = None, rs_cooldown_until = None, rs_seen = [], rs_seen_max = 200, rs_cursor = None\<rparr>"
  let ?a = "\<lparr>it_id = ''e1'', it_ts = Some (Iso (Aware 86400)), it_text = ''standup'', it_raw = []\<rparr>"
  let ?b = "\<lparr>it_id = ''e2'', it_ts = Some (Iso (Aware 3600)), it_text = ''urgent review'', it_raw = []\<rparr>"
  obtain s' where s': "update_cursors ?s [?a] = Inr s'" by (simp add: update_cursors_def)
  obtain new where new: "filter_new_items s' [?b] = Inr new"
    using s' by (auto simp: update_cursors_def filter_new_items_def)
  have "?b \<notin> set new" using cursor_cuts [OF s' _ _ new, of ?a "Aware 86400" ?b "Aware 3600"] by simp
  moreover have "set new \<subseteq> {?b}" using filter_loop_sound [OF new [unfolded filter_new_items_def]] by fastforce
  ultimately have "new = []" by (cases new) auto
  with s' new show ?thesis by (simp add: Let_def)
qed

subsection \<open>Mixed time stamps\<close>

lemma cursor_loop_mixed:
  "a \<in> set items \<Longrightarrow> engine_parse_iso (it_ts a) = Some (Naive s) \<Longrightarrow> engine_parse_iso m = Some (Aware t) \<Longrightarrow>
   \<exists>e. cursor_loop items seen (engine_parse_iso m) m = Inl e"
proof (induction items arbitrary: seen m t)
  case (Cons x items)
  let ?seen = "filter (\<lambda>y. y \<noteq> it_id x) seen @ [it_id x]"
  show ?case
  proof (cases "engine_parse_iso (it_ts x)")
    case None
    then have "a \<in> set items" using Cons.prems by auto
    from Cons.IH [OF this Cons.prems(2,3), of ?seen] None show ?thesis by (simp add: Let_def)
  next
    case (Some d)
    show ?thesis
    proof (cases d)
      case (Naive u)
      with Some Cons.prems(3) show ?thesis by (simp add: Let_def)
    next
      case (Aware u)
      then have a: "a \<in> set items" using Cons.prems Some by auto
      show ?thesis
      proof (cases "t < u")
        case True
        from Cons.IH [OF a Cons.prems(2), of "it_ts x" u ?seen] Some Aware True Cons.prems(3)
        show ?thesis by (simp add: Let_def)
      next
        case False
        from Cons.IH [OF a Cons.prems(2,3), of ?seen] Some Aware False Cons.prems(3)
        show ?thesis by (simp add: Let_def)
      qed
    qed
  qed
qed simp

text \<open>A batch whose cursor is aware and that holds a zone-less time stamp cannot be recorded.\<close>

lemma update_cursors_mixed:
  assumes "a \<in> set items" and "engine_parse_iso (it_ts a) = Some (Naive u)"
    and "engine_parse_iso (rs_cursor s) = Some (Aware t)"
  shows "\<exists>e. update_cursors s items = Inl e"
proof -
  have "items \<noteq> []" using assms(1) by auto
  with cursor_loop_mixed [OF assms, of "rs_seen s"] show ?thesis by (auto simp: update_cursors_def)
qed

end
