(* ===== verification/RuleEngine.thy ===== *)
theory RuleEngine
  imports ApprovalFlow Rules
begin

section \<open>The rule engine\<close>

text \<open>
  \<open>core/rules/engine.py\<close>, with the notification router (\<open>core/notifications/notifier.py\<close>).
  The connectors to mail and calendar and the notification channels are parameters; what
  they return carries its time stamps apart from the other fields, as read. The policy is
  the one in force when the engine was built.
\<close>

subsection \<open>The engine and its surroundings\<close>

type_synonym notifier = "string \<Rightarrow> string \<Rightarrow> json dict \<Rightarrow> world \<Rightarrow> unit res \<times> world"

fun router_send :: "notifier list \<Rightarrow> notifier" where
  "router_send [] title body meta w = (Inr (), w)"
| "router_send (c # cs) title body meta w =
     (case c title body meta w of (Inl e, w') \<Rightarrow> (Inl e, w') | (Inr _, w') \<Rightarrow> router_send cs title body meta w')"

record mail =
  ml_fields :: "json dict"
  ml_date :: "iso option"

record event =
  ev_fields :: "json dict"
  ev_start :: "iso option"
  ev_updated :: "iso option"

record engine =
  en_registry :: registry
  en_policy :: policy
  en_sha :: "string \<Rightarrow> string"
  en_mx :: int
  en_notify :: notifier
  en_email :: "(string \<Rightarrow> int \<Rightarrow> world \<Rightarrow> mail list res \<times> world) option"
  en_calendar :: "(iso \<Rightarrow> iso \<Rightarrow> string option \<Rightarrow> int \<Rightarrow> world \<Rightarrow> event list res \<times> world) option"

definition str_of_or :: "json dict \<Rightarrow> string list \<Rightarrow> string" where
  \<comment> \<open>\<open>str(d.get(k1) or d.get(k2) or "")\<close>\<close>
  "str_of_or d ks = (case filter (\<lambda>k. truthy (jget k d)) ks of [] \<Rightarrow> [] | k # _ \<Rightarrow> py_str (jget k d))"

definition mail_item :: "mail \<Rightarrow> item list" where
  "mail_item m =
     (let i = str_of_or (ml_fields m) [''thread_id'', ''id'']
      in if i = [] then []
         else [\<lparr>it_id = i, it_ts = ml_date m,
                it_text = strip (join '' '' [meta_str ''from'' (ml_fields m), meta_str ''subject'' (ml_fields m),
                                             meta_str ''snippet'' (ml_fields m)]),
                it_raw = ml_fields m\<rparr>])"

definition event_item :: "event \<Rightarrow> item list" where
  "event_item e =
     (let i = str_of_or (ev_fields e) [''id'']
      in if i = [] then []
         else [\<lparr>it_id = i, it_ts = (if iso_truthy (ev_start e) then ev_start e else ev_updated e),
                it_text = strip (join '' '' [meta_str ''title'' (ev_fields e), meta_str ''location'' (ev_fields e)]),
                it_raw = ev_fields e\<rparr>])"

definition load_trigger_items :: "engine \<Rightarrow> rule \<Rightarrow> world \<Rightarrow> item list res \<times> world" where
  "load_trigger_items en r w =
     (let tg = ru_trigger r
      in case tg_type tg of
        Schedule \<Rightarrow>
          (Inr [\<lparr>it_id = ''schedule:'' @ iso_text (w_now w), it_ts = None, it_text = ''scheduler tick heartbeat'',
                 it_raw = [(''title'', JStr ''heartbeat''), (''snippet'', JStr ''scheduler tick'')]\<rparr>], w)
      | Gmail \<Rightarrow>
          (case en_email en of
             None \<Rightarrow> (Inr [], w)
           | Some search \<Rightarrow>
               (case search (str_or (tg_query tg) []) (tg_max_results tg) w of
                  (Inl e, w') \<Rightarrow> (Inl e, w')
                | (Inr ms, w') \<Rightarrow> (Inr (concat (map mail_item ms)), w')))
      | Calendar \<Rightarrow>
          (case en_calendar en of
             None \<Rightarrow> (Inr [], w)
           | Some search \<Rightarrow>
               (case search (now_iso w) (isoformat (Aware (w_now w + hours (tg_hours_ahead tg))))
                       (tg_query tg) (tg_max_results tg) w of
                  (Inl e, w') \<Rightarrow> (Inl e, w')
                | (Inr es, w') \<Rightarrow> (Inr (concat (map event_item es)), w'))))"

record matches =
  mt_trigger :: "item list"
  mt_candidates :: "item list"
  mt_matching :: "item list"
  mt_notes :: "string list"

definition compute_matches :: "engine \<Rightarrow> rule \<Rightarrow> bool \<Rightarrow> world \<Rightarrow> matches res \<times> world" where
  "compute_matches en r include_seen w =
     (case load_trigger_items en r w of
        (Inl (ServiceDegraded service err), w') \<Rightarrow>
          (Inr \<lparr>mt_trigger = [], mt_candidates = [], mt_matching = [], mt_notes = [''service_degraded:'' @ service]\<rparr>, w')
      | (Inl e, w') \<Rightarrow> (Inl e, w')
      | (Inr items, w') \<Rightarrow>
          (case (if include_seen then Inr items else filter_new_items (ru_state r) items) of
             Inl e \<Rightarrow> (Inl e, w')
           | Inr candidates \<Rightarrow>
               (Inr \<lparr>mt_trigger = items, mt_candidates = candidates,
                     mt_matching = matching_items (ru_condition r) candidates,
                     mt_notes = [''trigger_count='' @ show_nat (length items),
                                 ''candidate_count='' @ show_nat (length candidates)]
                                @ (if include_seen then [''include_seen=true''] else [])\<rparr>, w')))"

definition required_scopes_for_skill :: "engine \<Rightarrow> string \<Rightarrow> string list" where
  "required_scopes_for_skill en name =
     (case registry_get (en_registry en) name of
        Inl _ \<Rightarrow> default_scopes_for_skill name ''write''
      | Inr s \<Rightarrow> (if sk_scopes s \<noteq> [] then sk_scopes s else default_scopes_for_skill name (side_effect s)))"

definition is_cooldown_active :: "rule \<Rightarrow> world \<Rightarrow> bool res" where
  "is_cooldown_active r w =
     (if ru_cooldown_minutes r \<le> 0 \<or> \<not> iso_truthy (rs_cooldown_until (ru_state r)) then Inr False
      else case engine_parse_iso (rs_cooldown_until (ru_state r)) of
        None \<Rightarrow> Inr False
      | Some t \<Rightarrow> dt_gt t (Aware (w_now w)))"

definition render_notify :: "string \<Rightarrow> nat \<Rightarrow> item list \<Rightarrow> string \<Rightarrow> string" where
  "render_notify template count items now_text =
     (let tops = map (\<lambda>it. take 280 (it_text it)) items
      in fold (\<lambda>(key, val) rendered. str_replace key val rendered)
           [(''{{count}}'', show_nat count),
            (''{{top1}}'', case tops of [] \<Rightarrow> [] | t # _ \<Rightarrow> t),
            (''{{top2}}'', case tops of _ # t # _ \<Rightarrow> t | _ \<Rightarrow> []),
            (''{{now_iso}}'', now_text)] template)"

definition sync_legacy_state :: "rule \<Rightarrow> rule" where
  "sync_legacy_state r = r\<lparr>ru_last_run := rs_last_run (ru_state r), ru_last_match := rs_last_match (ru_state r)\<rparr>"

subsection \<open>The actions of a matched rule\<close>

text \<open>
  The state of the loop over the actions: how many have been executed, the notes so far,
  and the world; the error, if one was raised, ends the loop.
\<close>

record run_state =
  rn_executed :: int
  rn_notes :: "string list"
  rn_world :: world
  rn_error :: "exc option"

definition add_note :: "string \<Rightarrow> run_state \<Rightarrow> run_state" where
  "add_note n s = s\<lparr>rn_notes := rn_notes s @ [n]\<rparr>"

definition deny_action ::
  "engine \<Rightarrow> string \<Rightarrow> string \<Rightarrow> string \<Rightarrow> string \<Rightarrow> json dict \<Rightarrow> string list \<Rightarrow> string \<Rightarrow> world \<Rightarrow> world" where
  "deny_action en rid corr skill_name key meta scopes decision_reason w =
     log_policy_event corr ''rule'' ''denied'' skill_name scopes (snapshot_model (en_policy en)) decision_reason
       [(''rule_id'', JStr rid)] (mark (en_mx en) key Failed meta w)"

definition propose_step ::
  "engine \<Rightarrow> rule \<Rightarrow> string \<Rightarrow> string \<Rightarrow> string \<Rightarrow> json dict \<Rightarrow> string \<Rightarrow> run_state \<Rightarrow> run_state" where
  "propose_step en r corr key skill_name args rationale s =
     (let (sid, w1) = uuid4 (rn_world s);
          step = \<lparr>ps_id = sid, ps_description = ''Rule action for '' @ skill_name, ps_skill = Some skill_name,
                  ps_args = dumps (JDict args), ps_requires_approval = True\<rparr>;
          scopes = required_scopes_for_skill en skill_name;
          (allow_ok, blocked) = check_rules_allowlist (en_policy en) scopes;
          (scopes_ok, disabled) = check_scopes (en_policy en) scopes
      in if \<not> allow_ok then
           add_note ''rules_scope_blocked''
             (s\<lparr>rn_world := deny_action en (ru_id r) corr skill_name key
                  [(''error'', JStr ''rules_scope_blocked''), (''blocked_scopes'', jstrs blocked)] scopes ''allowlist_blocked'' w1\<rparr>)
         else if \<not> scopes_ok then
           add_note ''policy_denied''
             (s\<lparr>rn_world := deny_action en (ru_id r) corr skill_name key
                  [(''error'', JStr ''policy_denied''), (''disabled_scopes'', jstrs disabled)] scopes ''scope_disabled'' w1\<rparr>)
         else
           let w2 = log_policy_event corr ''rule'' ''allowed'' skill_name scopes (snapshot_model (en_policy en))
                      ''allowed'' [(''rule_id'', JStr (ru_id r))] w1
           in case create_pending step \<lparr>cp_goal = ''Rule matched: '' @ ru_name r, cp_cwd = None\<rparr>
                     [(''source'', JStr ''rule''), (''rule_id'', JStr (ru_id r)), (''correlation_id'', JStr corr)]
                     rationale (en_registry en) scopes w2 of
                (Inl e, w3) \<Rightarrow>
                  s\<lparr>rn_world := mark (en_mx en) key Failed [(''error'', JStr (exc_str e))] w3, rn_error := Some e\<rparr>
              | (Inr appr, w3) \<Rightarrow>
                  add_note ''approval_created''
                    (s\<lparr>rn_world := mark (en_mx en) key Succeeded [(''approval_id'', JStr (ap_id appr))] w3,
                      rn_executed := rn_executed s + 1\<rparr>))"

definition run_action ::
  "engine \<Rightarrow> rule \<Rightarrow> string \<Rightarrow> string \<Rightarrow> item list \<Rightarrow> nat \<Rightarrow> rule_action \<Rightarrow> run_state \<Rightarrow> run_state" where
  "run_action en r corr now_text items idx action s =
     (case action of
        NotifyAction title template \<Rightarrow>
          (case en_notify en title (render_notify template (length items) items now_text)
                  [(''rule_id'', JStr (ru_id r)), (''correlation_id'', JStr corr)] (rn_world s) of
             (Inl e, w') \<Rightarrow> s\<lparr>rn_world := w', rn_error := Some e\<rparr>
           | (Inr _, w') \<Rightarrow> add_note ''notify_sent'' (s\<lparr>rn_world := w', rn_executed := rn_executed s + 1\<rparr>))
      | ProposeAction skill_name args rationale \<Rightarrow>
          if is_safe_mode_enabled (rn_world s) then add_note ''propose_step_blocked:safe_mode'' (add_note ''safe_mode_blocked'' s)
          else
            let item_id = (case items of [] \<Rightarrow> None | it # _ \<Rightarrow> Some (it_id it));
                key = rule_action_key (en_sha en) (ru_id r) idx item_id
                        [(''skill_name'', JStr skill_name), (''args'', JDict args), (''rationale'', JStr rationale)];
                (started, w1) = try_start (en_mx en) key RuleAction (Some corr)
                        [(''rule_id'', JStr (ru_id r)), (''item_id'', opt_json item_id)] (rn_world s)
            in if \<not> started then add_note ''deduped_by_ledger'' (s\<lparr>rn_world := w1\<rparr>)
               else propose_step en r corr key skill_name args rationale (s\<lparr>rn_world := w1\<rparr>))"

fun run_actions ::
  "engine \<Rightarrow> rule \<Rightarrow> string \<Rightarrow> string \<Rightarrow> item list \<Rightarrow> nat \<Rightarrow> rule_action list \<Rightarrow> run_state \<Rightarrow> run_state" where
  "run_actions en r corr now_text items idx [] s = s"
| "run_actions en r corr now_text items idx (a # as) s =
     (if ru_max_actions r \<le> rn_executed s then add_note ''action_cap_reached'' s
      else let s' = run_action en r corr now_text items idx a s
           in if rn_error s' \<noteq> None then s' else run_actions en r corr now_text items (Suc idx) as s')"

subsection \<open>Evaluation\<close>

definition rule_failed :: "rule \<Rightarrow> string \<Rightarrow> string list \<Rightarrow> exc \<Rightarrow> world \<Rightarrow> (rule_run_result \<times> rule) \<times> world" where
  "rule_failed r corr notes e w =
     ((\<lparr>rr_rule_id = ru_id r, rr_ok = False, rr_matched = False, rr_match_count = 0, rr_notes = notes,
        rr_error = Some (exc_str e)\<rparr>, sync_legacy_state r),
      log_episode ''rule'' (''Rule '' @ ru_name r @ '' failed'')
        [(''rule_id'', JStr (ru_id r)), (''error'', JStr (exc_str e)), (''correlation_id'', JStr corr)] w)"

definition set_state :: "(rule_state \<Rightarrow> rule_state) \<Rightarrow> rule \<Rightarrow> rule" where
  "set_state f r = r\<lparr>ru_state := f (ru_state r)\<rparr>"

fun trigger_str :: "trigger_type \<Rightarrow> string" where
  "trigger_str Schedule = ''schedule''"
| "trigger_str Gmail = ''gmail''"
| "trigger_str Calendar = ''calendar''"

definition bool_str :: "bool \<Rightarrow> string" where
  "bool_str b = (if b then ''True'' else ''False'')"

text \<open>After the actions: the match is recorded, then the cursors, then the episode.\<close>

definition finish_rule ::
  "rule \<Rightarrow> string \<Rightarrow> int \<Rightarrow> item list \<Rightarrow> nat \<Rightarrow> run_state \<Rightarrow> (rule_run_result \<times> rule) \<times> world" where
  "finish_rule r corr now candidates match_count s =
     (let matched = (0 < match_count);
          r1 = (if matched then set_state (\<lambda>st. st\<lparr>rs_last_match := Some (Iso (Aware now))\<rparr>) r else r);
          r2 = (if matched \<and> 0 < ru_cooldown_minutes r \<and> 0 < rn_executed s
                then set_state (\<lambda>st. st\<lparr>rs_cooldown_until :=
                       Some (Iso (Aware (now + ru_cooldown_minutes r * 60 * 10 ^ 6)))\<rparr>) r1
                else r1)
      in case update_cursors (ru_state r2) candidates of
           Inl e \<Rightarrow> rule_failed r2 corr (rn_notes s) e (rn_world s)
         | Inr st \<Rightarrow>
             let r3 = sync_legacy_state (r2\<lparr>ru_state := st\<rparr>)
             in ((\<lparr>rr_rule_id = ru_id r, rr_ok = True, rr_matched = matched, rr_match_count = match_count,
                   rr_notes = rn_notes s, rr_error = None\<rparr>, r3),
                 log_episode ''rule''
                   (''Ran rule '' @ ru_name r @ '': matched='' @ bool_str matched @ '' count='' @ show_nat match_count)
                   [(''rule_id'', JStr (ru_id r)), (''trigger_type'', JStr (trigger_str (tg_type (ru_trigger r)))),
                    (''correlation_id'', JStr corr)] (rn_world s)))"

definition run_matched :: "engine \<Rightarrow> rule \<Rightarrow> string \<Rightarrow> string \<Rightarrow> matches \<Rightarrow> world \<Rightarrow> run_state" where
  "run_matched en r corr now_text mt w =
     (let s0 = \<lparr>rn_executed = 0, rn_notes = mt_notes mt, rn_world = w, rn_error = None\<rparr>
      in if mt_matching mt \<noteq> [] then run_actions en r corr now_text (mt_matching mt) 0 (ru_actions r) s0 else s0)"

definition evaluate_inner :: "engine \<Rightarrow> string \<Rightarrow> rule \<Rightarrow> world \<Rightarrow> (rule_run_result \<times> rule) \<times> world" where
  "evaluate_inner en corr r0 w =
     (let r = set_state (\<lambda>st. st\<lparr>rs_last_run := Some (now_iso w)\<rparr>) r0
      in case is_cooldown_active r w of
        Inl e \<Rightarrow> rule_failed r corr [] e w
      | Inr True \<Rightarrow>
          ((\<lparr>rr_rule_id = ru_id r, rr_ok = True, rr_matched = False, rr_match_count = 0,
             rr_notes = [''cooldown_active''], rr_error = None\<rparr>, sync_legacy_state r), w)
      | Inr False \<Rightarrow>
          (case compute_matches en r False w of
             (Inl e, w1) \<Rightarrow> rule_failed r corr [] e w1
           | (Inr mt, w1) \<Rightarrow>
               (let s = run_matched en r corr (iso_text (w_now w)) mt w1
                in case rn_error s of
                     Some e \<Rightarrow> rule_failed r corr (rn_notes s) e (rn_world s)
                   | None \<Rightarrow> finish_rule r corr (w_now w) (mt_candidates mt) (length (mt_matching mt)) s)))"

definition evaluate_rule :: "engine \<Rightarrow> json dict \<Rightarrow> rule \<Rightarrow> world \<Rightarrow> (rule_run_result \<times> rule) \<times> world" where
  "evaluate_rule en ctx r w =
     (let (corr, w1) = (if truthy (jget ''correlation_id'' ctx) then (py_str (jget ''correlation_id'' ctx), w) else uuid4 w)
      in with_corr corr (evaluate_inner en corr r) w1)"

subsection \<open>Rules never execute skills\<close>

definition with_runs :: "(string \<Rightarrow> string \<Rightarrow> world \<Rightarrow> string res \<times> world) \<Rightarrow> registry \<Rightarrow> registry" where
  "with_runs f reg = map (\<lambda>(n, s). (n, s\<lparr>sk_run := f n\<rparr>)) reg"

lemma registry_get_with_runs:
  "registry_get (with_runs f reg) n = (case registry_get reg n of Inl e \<Rightarrow> Inl e | Inr s \<Rightarrow> Inr (s\<lparr>sk_run := f n\<rparr>))"
  by (induction reg) (auto simp: registry_get_def with_runs_def split: option.splits)

lemma create_pending_with_runs:
  "create_pending step ctx rq ra (with_runs f reg) req w = create_pending step ctx rq ra reg req w"
  by (cases "registry_get reg (str_or (ps_skill step) [])")
    (simp_all add: create_pending_def registry_get_with_runs)

lemma required_scopes_with_runs:
  "required_scopes_for_skill (en\<lparr>en_registry := with_runs f (en_registry en)\<rparr>) n = required_scopes_for_skill en n"
  by (cases "registry_get (en_registry en) n")
    (simp_all add: required_scopes_for_skill_def registry_get_with_runs)

lemma load_trigger_items_registry:
  "load_trigger_items (en\<lparr>en_registry := reg\<rparr>) r w = load_trigger_items en r w"
  by (cases "tg_type (ru_trigger r)") (simp_all add: load_trigger_items_def)

lemma compute_matches_registry:
  "compute_matches (en\<lparr>en_registry := reg\<rparr>) r b w = compute_matches en r b w"
  by (simp add: compute_matches_def load_trigger_items_registry)

lemma propose_step_with_runs:
  "propose_step (en\<lparr>en_registry := with_runs f (en_registry en)\<rparr>) r corr key n args ra s = propose_step en r corr key n args ra s"
  unfolding propose_step_def Let_def
  by (simp add: deny_action_def required_scopes_with_runs create_pending_with_runs split: prod.split sum.split)

lemma run_action_with_runs:
  "run_action (en\<lparr>en_registry := with_runs f (en_registry en)\<rparr>) r corr t items idx a s = run_action en r corr t items idx a s"
  unfolding run_action_def Let_def propose_step_with_runs
  by (cases a) (simp_all split: prod.split sum.split)

lemma run_actions_with_runs:
  "run_actions (en\<lparr>en_registry := with_runs f (en_registry en)\<rparr>) r corr t items idx as s = run_actions en r corr t items idx as s"
  by (induction "as" arbitrary: idx s) (simp_all add: run_action_with_runs Let_def)

text \<open>
  C17. Evaluating a rule never runs a skill: what it does is the same whatever the
  registered skills would do. Actions on the world are left to the approvals.
\<close>

theorem rules_never_execute:
  "evaluate_rule (en\<lparr>en_registry := with_runs f (en_registry en)\<rparr>) ctx r w = evaluate_rule en ctx r w"
proof -
  have "evaluate_inner (en\<lparr>en_registry := with_runs f (en_registry en)\<rparr>) corr r w1 = evaluate_inner en corr r w1" for corr w1
    unfolding evaluate_inner_def run_matched_def Let_def compute_matches_registry run_actions_with_runs by (rule refl)
  then have "evaluate_inner (en\<lparr>en_registry := with_runs f (en_registry en)\<rparr>) corr r = evaluate_inner en corr r" for corr
    by (rule ext)
  then show ?thesis by (simp add: evaluate_rule_def)
qed

subsection \<open>The cap on actions\<close>

definition is_action_note :: "string \<Rightarrow> bool" where
  "is_action_note n \<longleftrightarrow> n = ''notify_sent'' \<or> n = ''approval_created''"

definition action_count :: "string list \<Rightarrow> int" where
  "action_count notes = int (length (filter is_action_note notes))"

lemma action_count_simps [simp]:
  "action_count [] = 0" "action_count (ns @ ms) = action_count ns + action_count ms"
  "action_count (n # ns) = (if is_action_note n then 1 else 0) + action_count ns"
  by (simp_all add: action_count_def)

lemma action_note_simps [simp]:
  "is_action_note ''notify_sent''" "is_action_note ''approval_created''"
  "\<not> is_action_note ''rules_scope_blocked''" "\<not> is_action_note ''policy_denied''"
  "\<not> is_action_note ''safe_mode_blocked''" "\<not> is_action_note ''propose_step_blocked:safe_mode''"
  "\<not> is_action_note ''deduped_by_ledger''" "\<not> is_action_note ''action_cap_reached''"
  by (simp_all add: is_action_note_def)

lemma run_action_count:
  "\<exists>d. 0 \<le> d \<and> d \<le> 1 \<and> rn_executed (run_action en r corr t items idx a s) = rn_executed s + d
     \<and> action_count (rn_notes (run_action en r corr t items idx a s)) = action_count (rn_notes s) + d"
proof (cases a)
  case (NotifyAction title template)
  then show ?thesis
    by (auto simp: run_action_def add_note_def split: prod.split sum.split
        intro: exI [of _ "0 :: int"] exI [of _ "1 :: int"])
next
  case (ProposeAction skill_name args rationale)
  have "\<exists>d. 0 \<le> d \<and> d \<le> 1 \<and> rn_executed (propose_step en r corr key skill_name args rationale s') = rn_executed s' + d
     \<and> action_count (rn_notes (propose_step en r corr key skill_name args rationale s')) = action_count (rn_notes s') + d"
    for key s'
    by (auto simp: propose_step_def add_note_def Let_def split: prod.split sum.split
        intro: exI [of _ "0 :: int"] exI [of _ "1 :: int"])
  from this [of _ "s\<lparr>rn_world := w1\<rparr>" for w1] show ?thesis using ProposeAction
    by (auto simp: run_action_def add_note_def Let_def split: prod.split intro: exI [of _ "0 :: int"])
qed

lemma run_actions_count:
  "rn_executed s \<le> max 0 (ru_max_actions r) \<Longrightarrow> action_count (rn_notes s) = rn_executed s \<Longrightarrow>
   action_count (rn_notes (run_actions en r corr t items idx as s)) = rn_executed (run_actions en r corr t items idx as s)
   \<and> rn_executed (run_actions en r corr t items idx as s) \<le> max 0 (ru_max_actions r)"
proof (induction "as" arbitrary: idx s)
  case (Cons a "as")
  show ?case
  proof (cases "ru_max_actions r \<le> rn_executed s")
    case True
    with Cons.prems show ?thesis by (simp add: add_note_def)
  next
    case False
    let ?s = "run_action en r corr t items idx a s"
    obtain d where "0 \<le> d" "d \<le> 1" "rn_executed ?s = rn_executed s + d"
        "action_count (rn_notes ?s) = action_count (rn_notes s) + d"
      using run_action_count by blast
    with False Cons.prems have "rn_executed ?s \<le> max 0 (ru_max_actions r)" "action_count (rn_notes ?s) = rn_executed ?s"
      by simp_all
    with False Cons.IH [of ?s] show ?thesis by (simp add: Let_def)
  qed
qed simp

lemma compute_matches_notes:
  "compute_matches en r b w = (Inr mt, w') \<Longrightarrow> action_count (mt_notes mt) = 0"
  by (auto simp: compute_matches_def action_count_def is_action_note_def
      split: prod.splits sum.splits exc.splits if_splits)

lemma set_state_simps [simp]:
  "ru_id (set_state f r) = ru_id r" "ru_actions (set_state f r) = ru_actions r"
  "ru_max_actions (set_state f r) = ru_max_actions r" "ru_state (set_state f r) = f (ru_state r)"
  "ru_cooldown_minutes (set_state f r) = ru_cooldown_minutes r" "ru_condition (set_state f r) = ru_condition r"
  "ru_trigger (set_state f r) = ru_trigger r" "ru_name (set_state f r) = ru_name r"
  by (simp_all add: set_state_def)

text \<open>How an evaluation ends: in the cool-down, with an error, or through its actions.\<close>

lemma evaluate_inner_cases:
  assumes "evaluate_inner en corr r0 w = ((res, r'), w')"
    and "r = set_state (\<lambda>st. st\<lparr>rs_last_run := Some (now_iso w)\<rparr>) r0"
  obtains (cooling) "rr_notes res = [''cooldown_active'']" and "r' = sync_legacy_state r" and "w' = w" and "rr_ok res"
  | (early) e w1 where "((res, r'), w') = rule_failed r corr [] e w1"
      and "w1 = w \<or> compute_matches en r False w = (Inl e, w1)"
  | (failed) mt w1 e where "compute_matches en r False w = (Inr mt, w1)"
      and "((res, r'), w') = rule_failed r corr (rn_notes (run_matched en r corr (iso_text (w_now w)) mt w1)) e
             (rn_world (run_matched en r corr (iso_text (w_now w)) mt w1))"
  | (done_) mt w1 where "compute_matches en r False w = (Inr mt, w1)"
      and "((res, r'), w') = finish_rule r corr (w_now w) (mt_candidates mt) (length (mt_matching mt))
             (run_matched en r corr (iso_text (w_now w)) mt w1)"
proof (cases "is_cooldown_active r w")
  case (Inl e)
  with assms show thesis by (intro early [of e w]) (simp_all add: evaluate_inner_def Let_def)
next
  case cool: (Inr b)
  show thesis
  proof (cases b)
    case True
    with assms cool show thesis by (intro cooling) (auto simp: evaluate_inner_def Let_def)
  next
    case False
    obtain x w1 where m: "compute_matches en r False w = (x, w1)" by fastforce
    show thesis
    proof (cases x)
      case (Inl e)
      with assms cool False m show thesis by (intro early [of e w1]) (simp_all add: evaluate_inner_def Let_def)
    next
      case (Inr mt)
      let ?s = "run_matched en r corr (iso_text (w_now w)) mt w1"
      have ev: "((res, r'), w') = (case rn_error ?s of
            Some e \<Rightarrow> rule_failed r corr (rn_notes ?s) e (rn_world ?s)
          | None \<Rightarrow> finish_rule r corr (w_now w) (mt_candidates mt) (length (mt_matching mt)) ?s)"
        using assms(1) cool False m Inr unfolding evaluate_inner_def Let_def assms(2) [symmetric] by simp
      show thesis
      proof (cases "rn_error ?s")
        case None
        with ev done_ [OF m [unfolded Inr]] show thesis by simp
      next
        case (Some e)
        with ev failed [OF m [unfolded Inr]] show thesis by simp
      qed
    qed
  qed
qed

lemma rule_failed_simps:
  assumes "((res, r'), w') = rule_failed r corr notes e w"
  shows "rr_notes res = notes" "\<not> rr_ok res" "r' = sync_legacy_state r" "w_approvals w' = w_approvals w"
    "w_ledger w' = w_ledger w" "w_safe w' = w_safe w" "w_env w' = w_env w"
  using assms by (simp_all add: rule_failed_def)

lemma finish_rule_simps:
  assumes "((res, r'), w') = finish_rule r corr now cands n s"
  shows "rr_notes res = rn_notes s" "w_approvals w' = w_approvals (rn_world s)" "w_ledger w' = w_ledger (rn_world s)"
    "w_env w' = w_env (rn_world s)" "w_safe w' = w_safe (rn_world s)"
  using assms by (auto simp: finish_rule_def rule_failed_def Let_def split: sum.splits)

text \<open>
  One evaluation of a rule sends at most \<open>max_actions_per_run\<close> notifications and
  approval requests together.
\<close>

theorem rule_action_cap:
  "action_count (rr_notes (fst (fst (evaluate_rule en ctx r w)))) \<le> max 0 (ru_max_actions r)"
proof -
  have inner: "action_count (rr_notes (fst (fst (evaluate_inner en corr r w1)))) \<le> max 0 (ru_max_actions r)" for corr w1
  proof -
    obtain res r' w' where ev: "evaluate_inner en corr r w1 = ((res, r'), w')" by (metis prod.collapse)
    let ?r = "set_state (\<lambda>st. st\<lparr>rs_last_run := Some (now_iso w1)\<rparr>) r"
    have cap: "action_count (rn_notes (run_matched en ?r corr t mt w2)) \<le> max 0 (ru_max_actions r)"
      if "compute_matches en ?r False w1 = (Inr mt, w2)" for t mt w2
      using run_actions_count [of "\<lparr>rn_executed = 0, rn_notes = mt_notes mt, rn_world = w2, rn_error = None\<rparr>" ?r]
        compute_matches_notes [OF that] by (simp add: run_matched_def Let_def)
    have "action_count (rr_notes res) \<le> max 0 (ru_max_actions r)"
      using ev refl
    proof (cases rule: evaluate_inner_cases)
      case cooling
      then show ?thesis by (simp add: is_action_note_def)
    next
      case (early e w2)
      then show ?thesis using rule_failed_simps(1) [OF early(1)] by simp
    next
      case (failed mt w2 e)
      then show ?thesis using rule_failed_simps(1) [OF failed(2)] cap [OF failed(1)] by simp
    next
      case (done_ mt w2)
      then show ?thesis using finish_rule_simps(1) [OF done_(2)] cap [OF done_(1)] by simp
    qed
    then show ?thesis by (simp add: ev)
  qed
  show ?thesis using inner
    by (simp add: evaluate_rule_def with_corr_def split: prod.split) (metis fst_conv)
qed

subsection \<open>Which requests rules can make\<close>

text \<open>The connectors and the notification channels leave a part of the state alone.\<close>

definition engine_keeps :: "(world \<Rightarrow> 'a) \<Rightarrow> engine \<Rightarrow> bool" where
  "engine_keeps f en \<longleftrightarrow>
     (\<forall>title body meta w. f (snd (en_notify en title body meta w)) = f w)
     \<and> (case en_email en of None \<Rightarrow> True | Some g \<Rightarrow> \<forall>q n w. f (snd (g q n w)) = f w)
     \<and> (case en_calendar en of None \<Rightarrow> True | Some g \<Rightarrow> \<forall>a b q n w. f (snd (g a b q n w)) = f w)"

lemma search_keeps:
  "f (snd p) = f w \<Longrightarrow> f (snd (case p of (Inl e, w') \<Rightarrow> (Inl e, w') | (Inr x, w') \<Rightarrow> (Inr (g x), w'))) = f w"
  by (cases p; cases "fst p") auto

lemma load_trigger_items_keeps:
  assumes "engine_keeps f en"
  shows "f (snd (load_trigger_items en r w)) = f w"
proof (cases "tg_type (ru_trigger r)")
  case Schedule
  then show ?thesis by (simp add: load_trigger_items_def Let_def)
next
  case Gmail
  then show ?thesis using assms
    by (cases "en_email en") (auto simp: load_trigger_items_def engine_keeps_def Let_def intro!: search_keeps)
next
  case Calendar
  then show ?thesis using assms
    by (cases "en_calendar en") (auto simp: load_trigger_items_def engine_keeps_def Let_def intro!: search_keeps)
qed

lemma compute_matches_keeps:
  assumes "engine_keeps f en" and "compute_matches en r b w = (x, w')"
  shows "f w' = f w"
proof -
  obtain y w1 where l: "load_trigger_items en r w = (y, w1)" by fastforce
  then have "f w1 = f w" using load_trigger_items_keeps [OF assms(1), of r w] by simp
  moreover have "w' = w1"
    using assms(2) l by (auto simp: compute_matches_def split: sum.splits exc.splits if_splits)
  ultimately show ?thesis by simp
qed

definition rule_approval_ok :: "engine \<Rightarrow> approval \<Rightarrow> bool" where
  "rule_approval_ok en a \<longleftrightarrow> ap_status a = Pending
     \<and> list_all (\<lambda>s. s \<in> po_rules_allowed (en_policy en)) (ap_scopes a)
     \<and> list_all (is_scope_enabled (en_policy en)) (ap_scopes a)"

definition only_allowed_added :: "engine \<Rightarrow> world \<Rightarrow> world \<Rightarrow> bool" where
  "only_allowed_added en w w' \<longleftrightarrow>
     (\<forall>i. approval_get i w' = approval_get i w \<or> (\<exists>a. approval_get i w' = Some a \<and> rule_approval_ok en a))"

lemma only_allowed_trans: "only_allowed_added en w w' \<Longrightarrow> only_allowed_added en w' w'' \<Longrightarrow> only_allowed_added en w w''"
  unfolding only_allowed_added_def by metis

lemma only_allowed_same: "w_approvals w' = w_approvals w \<Longrightarrow> only_allowed_added en w w'"
  by (simp add: only_allowed_added_def approval_get_def)

lemma required_scopes_nonempty: "required_scopes_for_skill en n \<noteq> []"
  by (auto simp: required_scopes_for_skill_def default_scopes_nonempty split: sum.split)

lemma mark_frames [simp]:
  "w_approvals (mark mx k st meta w) = w_approvals w" "w_env (mark mx k st meta w) = w_env w"
  "w_safe (mark mx k st meta w) = w_safe w"
  by (simp_all add: mark_def Let_def frames)

lemma propose_step_added:
  "only_allowed_added en (rn_world s) (rn_world (propose_step en r corr key n args ra s))"
proof -
  let ?scopes = "required_scopes_for_skill en n"
  obtain sid w1 where u: "uuid4 (rn_world s) = (sid, w1)" by fastforce
  then have w1: "w_approvals w1 = w_approvals (rn_world s)" by (auto simp: uuid4_def)
  obtain aok blocked where a: "check_rules_allowlist (en_policy en) ?scopes = (aok, blocked)" by fastforce
  obtain sok disabled where d: "check_scopes (en_policy en) ?scopes = (sok, disabled)" by fastforce
  show ?thesis
  proof (cases "aok \<and> sok")
    case False
    then show ?thesis using u a d w1
      by (intro only_allowed_same) (auto simp: propose_step_def Let_def add_note_def deny_action_def)
  next
    case True
    let ?step = "\<lparr>ps_id = sid, ps_description = ''Rule action for '' @ n, ps_skill = Some n,
                  ps_args = dumps (JDict args), ps_requires_approval = True\<rparr>"
    let ?w2 = "log_policy_event corr ''rule'' ''allowed'' n ?scopes (snapshot_model (en_policy en))
                      ''allowed'' [(''rule_id'', JStr (ru_id r))] w1"
    obtain x w3 where c: "create_pending ?step \<lparr>cp_goal = ''Rule matched: '' @ ru_name r, cp_cwd = None\<rparr>
                     [(''source'', JStr ''rule''), (''rule_id'', JStr (ru_id r)), (''correlation_id'', JStr corr)]
                     ra (en_registry en) ?scopes ?w2 = (x, w3)" by fastforce
    have fin: "w_approvals (rn_world (propose_step en r corr key n args ra s)) = w_approvals w3"
      using u a d c True by (cases x) (simp_all add: propose_step_def Let_def add_note_def)
    show ?thesis
    proof (cases x)
      case (Inl e)
      with c create_pending_error_frames(1) fin w1 show ?thesis by (intro only_allowed_same) fastforce
    next
      case (Inr q)
      with c have "create_pending ?step \<lparr>cp_goal = ''Rule matched: '' @ ru_name r, cp_cwd = None\<rparr>
                     [(''source'', JStr ''rule''), (''rule_id'', JStr (ru_id r)), (''correlation_id'', JStr corr)]
                     ra (en_registry en) ?scopes ?w2 = (Inr q, w3)" by simp
      then show ?thesis
      proof (rule create_pending_okE)
        fix skill w4
        assume sc: "ap_scopes q = effective_scopes ?scopes skill" and p: "ap_status q = Pending"
          and w3: "w3 = approval_upsert q w4" and w4: "w_approvals w4 = w_approvals ?w2"
        have "ap_scopes q = ?scopes"
          using sc required_scopes_nonempty by (simp add: effective_scopes_def Let_def)
        then have "rule_approval_ok en q"
          using p True a d allowlist.check_okD scopes.check_okD
          by (fastforce simp: rule_approval_ok_def list_all_iff)
        moreover have "approval_get i w4 = approval_get i (rn_world s)" for i
          using w4 w1 by (simp add: approval_get_def)
        ultimately have "only_allowed_added en (rn_world s) w3"
          unfolding only_allowed_added_def w3 approval_store.lookup_put by auto
        then show ?thesis using fin only_allowed_same only_allowed_trans by blast
      qed
    qed
  qed
qed

lemma run_action_added:
  assumes "engine_keeps w_approvals en"
  shows "only_allowed_added en (rn_world s) (rn_world (run_action en r corr t items idx a s))"
proof (cases a)
  case (NotifyAction title template)
  have "w_approvals (snd (en_notify en title b m w)) = w_approvals w" for b m w
    using assms by (simp add: engine_keeps_def)
  then have "w_approvals (rn_world (run_action en r corr t items idx a s)) = w_approvals (rn_world s)"
    using NotifyAction by (auto simp: run_action_def add_note_def split: prod.split sum.split) (metis snd_conv)+
  then show ?thesis by (rule only_allowed_same)
next
  case (ProposeAction n args ra)
  have t: "w_approvals w1 = w_approvals (rn_world s)"
    if "try_start mx key kind corr' meta (rn_world s) = (b, w1)" for mx key kind corr' meta b w1
    using try_start_frames(1) [of mx key kind corr' meta "rn_world s"] that by simp
  have "only_allowed_added en (rn_world s) (rn_world (propose_step en r corr key n args ra (s\<lparr>rn_world := w1\<rparr>)))"
    if "w_approvals w1 = w_approvals (rn_world s)" for key w1
    using propose_step_added [of en "s\<lparr>rn_world := w1\<rparr>" r corr key n args ra] only_allowed_same [OF that]
      only_allowed_trans by simp blast
  with t show ?thesis using ProposeAction
    by (auto simp: run_action_def add_note_def Let_def only_allowed_same split: prod.split)
qed

lemma run_actions_added:
  assumes "engine_keeps w_approvals en"
  shows "only_allowed_added en (rn_world s) (rn_world (run_actions en r corr t items idx as s))"
proof (induction "as" arbitrary: idx s)
  case Nil
  then show ?case by (simp add: only_allowed_same)
next
  case (Cons a "as")
  have "only_allowed_added en (rn_world s) (rn_world (run_action en r corr t items idx a s))"
    by (rule run_action_added [OF assms])
  with Cons.IH [of "run_action en r corr t items idx a s" "Suc idx"] show ?case
    by (auto simp: Let_def add_note_def only_allowed_same intro: only_allowed_trans)
qed

lemma run_matched_added:
  assumes "engine_keeps w_approvals en" and "compute_matches en r b w = (Inr mt, w1)"
  shows "only_allowed_added en w (rn_world (run_matched en r corr t mt w1))"
proof -
  have "only_allowed_added en w w1"
    by (rule only_allowed_same) (rule compute_matches_keeps [OF assms])
  moreover have "only_allowed_added en w1 (rn_world (run_matched en r corr t mt w1))"
    using run_actions_added [OF assms(1), of "\<lparr>rn_executed = 0, rn_notes = mt_notes mt, rn_world = w1, rn_error = None\<rparr>"]
    by (simp add: run_matched_def Let_def only_allowed_same)
  ultimately show ?thesis by (rule only_allowed_trans)
qed

lemma evaluate_inner_added:
  assumes "engine_keeps w_approvals en"
  shows "only_allowed_added en w (snd (evaluate_inner en corr r w))"
proof -
  obtain res r' w' where ev: "evaluate_inner en corr r w = ((res, r'), w')" by (metis prod.collapse)
  have "only_allowed_added en w w'"
    using ev refl
  proof (cases rule: evaluate_inner_cases)
    case cooling
    then show ?thesis by (simp add: only_allowed_same)
  next
    case (early e w1)
    have "w_approvals w1 = w_approvals w"
      using early(2) compute_matches_keeps [OF assms] by blast
    then show ?thesis using rule_failed_simps(4) [OF early(1)] by (simp add: only_allowed_same)
  next
    case (failed mt w1 e)
    have "only_allowed_added en w (rn_world (run_matched en (set_state (rs_last_run_update (\<lambda>_. Some (now_iso w))) r) corr (iso_text (w_now w)) mt w1))"
      by (rule run_matched_added [OF assms failed(1)])
    then show ?thesis using only_allowed_same [OF rule_failed_simps(4) [OF failed(2)]] only_allowed_trans by blast
  next
    case (done_ mt w1)
    have "only_allowed_added en w (rn_world (run_matched en (set_state (rs_last_run_update (\<lambda>_. Some (now_iso w))) r) corr (iso_text (w_now w)) mt w1))"
      by (rule run_matched_added [OF assms done_(1)])
    then show ?thesis using only_allowed_same [OF finish_rule_simps(2) [OF done_(2)]] only_allowed_trans by blast
  qed
  then show ?thesis by (simp add: ev)
qed

text \<open>
  C16. A rule evaluation changes the approvals only by pending requests all of whose scopes
  are both on the rules allow-list and enabled, provided connectors and notification
  channels leave the approvals alone.
\<close>

theorem rules_request_only_allowed:
  assumes "engine_keeps w_approvals en"
  shows "only_allowed_added en w (snd (evaluate_rule en ctx r w))"
proof -
  obtain corr w1 where c: "(if truthy (jget ''correlation_id'' ctx) then (py_str (jget ''correlation_id'' ctx), w) else uuid4 w) = (corr, w1)"
    by fastforce
  have w1: "w_approvals w1 = w_approvals w" using c by (auto simp: uuid4_def split: if_splits)
  obtain x w2 where e: "evaluate_inner en corr r (w1\<lparr>w_corr := Some corr\<rparr>) = (x, w2)" by fastforce
  have "only_allowed_added en (w1\<lparr>w_corr := Some corr\<rparr>) w2"
    using evaluate_inner_added [OF assms, of "w1\<lparr>w_corr := Some corr\<rparr>" corr r] e by simp
  moreover have "only_allowed_added en w (w1\<lparr>w_corr := Some corr\<rparr>)" by (rule only_allowed_same) (simp add: w1)
  moreover have "only_allowed_added en w2 (w2\<lparr>w_corr := w_corr w1\<rparr>)" by (rule only_allowed_same) simp
  ultimately have "only_allowed_added en w (w2\<lparr>w_corr := w_corr w1\<rparr>)" using only_allowed_trans by blast
  then show ?thesis by (simp add: evaluate_rule_def c with_corr_def e)
qed

subsection \<open>Safe mode\<close>

definition safe_ledger_view :: "world \<Rightarrow> ((string \<Rightarrow> string option) \<times> json dict jfile \<times> approval line list) \<times> ledger_record line list" where
  "safe_ledger_view w = (safe_view w, w_ledger w)"

lemma safe_ledger_view_safe:
  "safe_ledger_view w' = safe_ledger_view w \<Longrightarrow> is_safe_mode_enabled w' = is_safe_mode_enabled w"
  using safe_view_safe [of w' w] by (simp add: safe_ledger_view_def)

lemma safe_ledger_view_log [simp]:
  "safe_ledger_view (log_episode k su m w) = safe_ledger_view w"
  "safe_ledger_view (w\<lparr>w_corr := c\<rparr>) = safe_ledger_view w" "safe_ledger_view (w\<lparr>w_uuid := n\<rparr>) = safe_ledger_view w"
  by (simp_all add: safe_ledger_view_def safe_view_def)

lemma run_action_safe:
  assumes "engine_keeps safe_ledger_view en" and "is_safe_mode_enabled (rn_world s)"
  shows "safe_ledger_view (rn_world (run_action en r corr t items idx a s)) = safe_ledger_view (rn_world s)"
proof (cases a)
  case (NotifyAction title template)
  let ?n = "en_notify en title (render_notify template (length items) items t)
     [(''rule_id'', JStr (ru_id r)), (''correlation_id'', JStr corr)] (rn_world s)"
  obtain x w' where n: "?n = (x, w')" by fastforce
  have "safe_ledger_view (snd ?n) = safe_ledger_view (rn_world s)"
    using assms(1) unfolding engine_keeps_def by blast
  then show ?thesis using NotifyAction n by (cases x) (simp_all add: run_action_def add_note_def)
qed (simp add: run_action_def add_note_def assms(2))

lemma run_actions_safe:
  assumes "engine_keeps safe_ledger_view en"
  shows "is_safe_mode_enabled (rn_world s) \<Longrightarrow>
    safe_ledger_view (rn_world (run_actions en r corr t items idx as s)) = safe_ledger_view (rn_world s)"
proof (induction "as" arbitrary: idx s)
  case (Cons a "as")
  let ?s = "run_action en r corr t items idx a s"
  have v: "safe_ledger_view (rn_world ?s) = safe_ledger_view (rn_world s)"
    by (rule run_action_safe [OF assms Cons.prems])
  then have "is_safe_mode_enabled (rn_world ?s)" using safe_ledger_view_safe Cons.prems by blast
  with v Cons.IH [of ?s "Suc idx"] show ?case by (auto simp: Let_def add_note_def)
qed simp

lemma rule_failed_view:
  "((res, r'), w') = rule_failed r corr notes e w \<Longrightarrow> safe_ledger_view w' = safe_ledger_view w"
  by (simp add: rule_failed_def)

lemma finish_rule_view:
  "((res, r'), w') = finish_rule r corr now cands n s \<Longrightarrow> safe_ledger_view w' = safe_ledger_view (rn_world s)"
  by (auto simp: finish_rule_def rule_failed_def Let_def split: sum.splits)

lemma evaluate_inner_safe:
  assumes "engine_keeps safe_ledger_view en" and "is_safe_mode_enabled w"
  shows "safe_ledger_view (snd (evaluate_inner en corr r w)) = safe_ledger_view w"
proof -
  obtain res r' w' where ev: "evaluate_inner en corr r w = ((res, r'), w')" by (metis prod.collapse)
  have keeps: "safe_ledger_view w1 = safe_ledger_view w" if "compute_matches en q False w = (x, w1)" for q x w1
    by (rule compute_matches_keeps [OF assms(1) that])
  have run: "safe_ledger_view (rn_world (run_matched en q corr t mt w1)) = safe_ledger_view w"
    if "compute_matches en q False w = (Inr mt, w1)" for q t mt w1
  proof -
    have "is_safe_mode_enabled w1" using keeps [OF that] safe_ledger_view_safe assms(2) by blast
    then show ?thesis
      using run_actions_safe [OF assms(1), of "\<lparr>rn_executed = 0, rn_notes = mt_notes mt, rn_world = w1, rn_error = None\<rparr>"]
        keeps [OF that] by (simp add: run_matched_def Let_def)
  qed
  have "safe_ledger_view w' = safe_ledger_view w"
    using ev refl
  proof (cases rule: evaluate_inner_cases)
    case (early e w1)
    then show ?thesis using rule_failed_view keeps by metis
  next
    case (failed mt w1 e)
    show ?thesis using rule_failed_view [OF failed(2)] run [OF failed(1)] by simp
  next
    case (done_ mt w1)
    show ?thesis using finish_rule_view [OF done_(2)] run [OF done_(1)] by simp
  qed simp
  then show ?thesis by (simp add: ev)
qed

text \<open>
  In safe mode a rule evaluation creates no approval request and records no execution
  in the ledger; it can still send notifications.
\<close>

theorem rules_safe_mode:
  assumes "engine_keeps safe_ledger_view en" and "is_safe_mode_enabled w"
  shows "w_approvals (snd (evaluate_rule en ctx r w)) = w_approvals w \<and> w_ledger (snd (evaluate_rule en ctx r w)) = w_ledger w"
proof -
  obtain corr w1 where c: "(if truthy (jget ''correlation_id'' ctx) then (py_str (jget ''correlation_id'' ctx), w) else uuid4 w) = (corr, w1)"
    by fastforce
  have v: "safe_ledger_view (w1\<lparr>w_corr := Some corr\<rparr>) = safe_ledger_view w"
    using c by (auto simp: uuid4_def split: if_splits)
  then have on: "is_safe_mode_enabled (w1\<lparr>w_corr := Some corr\<rparr>)" using assms(2) safe_ledger_view_safe by blast
  obtain x w2 where e: "evaluate_inner en corr r (w1\<lparr>w_corr := Some corr\<rparr>) = (x, w2)" by fastforce
  then have "safe_ledger_view w2 = safe_ledger_view w"
    using evaluate_inner_safe [OF assms(1) on, of corr r] v by simp
  then show ?thesis
    by (simp add: evaluate_rule_def c with_corr_def e safe_ledger_view_def safe_view_def)
qed

text \<open>
  An engine for the examples: it notifies into the outbox, and its calendar returns an
  all-day event (a date, so without zone) after one with a time.
\<close>

definition demo_engine :: engine where
  "demo_engine = \<lparr>en_registry = demo_registry (\<lambda>q w. (Inr ''done'', w)),
     en_policy = \<lparr>po_mode = ''default'', po_explicit = {''reminders.write''}, po_rules_allowed = {''reminders.write''},
                  po_overrides_enabled = True\<rparr>,
     en_sha = (\<lambda>s. s), en_mx = 100,
     en_notify = (\<lambda>title body meta w. (Inr (), w\<lparr>w_outbox := w_outbox w @ [\<lparr>nt_title = title, nt_body = body, nt_meta = meta\<rparr>]\<rparr>)),
     en_email = None,
     en_calendar = Some (\<lambda>a b q n w. (Inr
       [\<lparr>ev_fields = [(''id'', JStr ''e1''), (''title'', JStr ''standup'')], ev_start = Some (Iso (Aware 3600)), ev_updated = None\<rparr>,
        \<lparr>ev_fields = [(''id'', JStr ''e2''), (''title'', JStr ''holiday'')], ev_start = Some (Iso (Naive 0)), ev_updated = None\<rparr>], w))\<rparr>"

definition demo_rule :: "rule_action list \<Rightarrow> rule" where
  "demo_rule as = \<lparr>ru_id = ''r1'', ru_name = ''today'', ru_enabled = True, ru_created = Iso (Aware 0), ru_updated = Iso (Aware 0),
     ru_trigger = \<lparr>tg_type = Calendar, tg_every_minutes = 5, tg_query = None, tg_max_results = 5, tg_hours_ahead = 24\<rparr>,
     ru_condition = \<lparr>rc_contains = None, rc_not_contains = None\<rparr>, ru_actions = as,
     ru_max_actions = 1, ru_cooldown_minutes = 0,
     ru_state = \<lparr>rs_last_run = None, rs_last_match = None, rs_cooldown_until = None, rs_seen = [], rs_seen_max = 200, rs_cursor = None\<rparr>,
     ru_last_run = None, ru_last_match = None\<rparr>"

lemma demo_engine_keeps [simp]: "engine_keeps w_approvals demo_engine" "engine_keeps safe_ledger_view demo_engine"
  by (simp_all add: engine_keeps_def demo_engine_def safe_ledger_view_def safe_view_def)

theorem rules_request_only_allowed_witness:
  "only_allowed_added demo_engine (empty_world 0)
     (snd (evaluate_rule demo_engine [] (demo_rule [ProposeAction ''reminders.create'' [] ''because'']) (empty_world 0)))"
  by (rule rules_request_only_allowed) simp

theorem rules_safe_mode_witness:
  "w_approvals (snd (evaluate_rule demo_engine [] (demo_rule [ProposeAction ''reminders.create'' [] ''because''])
       (set_safe_mode_enabled True (empty_world 0)))) = []"
proof -
  have "is_safe_mode_enabled (set_safe_mode_enabled True (empty_world 0))"
    by (simp add: is_safe_mode_enabled_def set_safe_mode_enabled_def)
  then show ?thesis
    using rules_safe_mode [OF demo_engine_keeps(2)]
    by (metis (no_types, lifting) empty_world_def set_safe_mode_enabled_def world.select_convs(8) world.surjective world.update_convs(6))
qed

subsection \<open>A failed evaluation\<close>

lemma sync_legacy_state_state [simp]: "ru_state (sync_legacy_state r) = ru_state r"
  by (simp add: sync_legacy_state_def)

definition selection :: "rule_state \<Rightarrow> string list \<times> int \<times> iso option" where
  "selection st = (rs_seen st, rs_seen_max st, rs_cursor st)"

lemma finish_rule_failed:
  assumes "((res, r'), w') = finish_rule r corr now cands n s" and "\<not> rr_ok res"
  shows "selection (ru_state r') = selection (ru_state r)"
  using assms
  by (auto simp: finish_rule_def rule_failed_def selection_def Let_def split: sum.splits if_splits)

lemma evaluate_inner_failed:
  assumes ev: "evaluate_inner en corr r w = ((res, r'), w')" and "\<not> rr_ok res"
  shows "selection (ru_state r') = selection (ru_state r)"
  using ev refl
proof (cases rule: evaluate_inner_cases)
  case cooling
  with assms(2) show ?thesis by simp
next
  case (early e w1)
  show ?thesis unfolding rule_failed_simps(3) [OF early(1)] by (simp add: selection_def)
next
  case (failed mt w1 e)
  show ?thesis unfolding rule_failed_simps(3) [OF failed(2)] by (simp add: selection_def)
next
  case (done_ mt w1)
  show ?thesis using finish_rule_failed [OF done_(2) assms(2)] by (simp add: selection_def)
qed

text \<open>
  An evaluation that fails leaves the rule's memory of items as it was: the next run
  selects from the same items again, those it has already notified about included.
\<close>

theorem failed_evaluation_selects_again:
  assumes "evaluate_rule en ctx r w = ((res, r'), w')" and "\<not> rr_ok res"
  shows "rs_seen (ru_state r') = rs_seen (ru_state r) \<and> rs_cursor (ru_state r') = rs_cursor (ru_state r)
    \<and> filter_new_items (ru_state r') items = filter_new_items (ru_state r) items"
proof -
  obtain corr w1 where c: "(if truthy (jget ''correlation_id'' ctx) then (py_str (jget ''correlation_id'' ctx), w) else uuid4 w) = (corr, w1)"
    by fastforce
  obtain x w2 where e: "evaluate_inner en corr r (w1\<lparr>w_corr := Some corr\<rparr>) = (x, w2)" by fastforce
  with assms(1) have "x = (res, r')" by (simp add: evaluate_rule_def c with_corr_def)
  with e have "selection (ru_state r') = selection (ru_state r)"
    using evaluate_inner_failed [OF _ assms(2)] by blast
  then show ?thesis by (simp add: selection_def filter_new_items_def)
qed

theorem failed_evaluation_selects_again_witness:
  "\<exists>res r' w'. evaluate_rule demo_engine [] (demo_rule [NotifyAction ''Today'' ''{{top1}}'']) (empty_world 0) = ((res, r'), w')
     \<and> \<not> rr_ok res \<and> rs_seen (ru_state r') = [] \<and> rs_cursor (ru_state r') = None"
proof -
  let ?e = "evaluate_rule demo_engine [] (demo_rule [NotifyAction ''Today'' ''{{top1}}'']) (empty_world 0)"
  obtain res r' w' where e: "?e = ((res, r'), w')" by (metis prod.collapse)
  have "\<not> rr_ok (fst (fst ?e))" by code_simp
  then have "\<not> rr_ok res" by (simp add: e)
  with failed_evaluation_selects_again [OF e this] e show ?thesis by (simp add: demo_rule_def)
qed

text \<open>
  A calendar with a timed event and an all-day event: the engine sends the rule's
  notification, then fails on comparing their time stamps, and so sends it again on every
  run.
\<close>

theorem mixed_times_notify_again:
  "let run = (\<lambda>(r, w). let ((res, r'), w') = evaluate_rule demo_engine [] r w in (r', w'));
       (r2, w2) = run (run (demo_rule [NotifyAction ''Today'' ''{{top1}}''], empty_world 0))
   in map nt_body (w_outbox w2) = [''standup'', ''standup''] \<and> rs_seen (ru_state r2) = []"
  by code_simp

end
