(* ===== verification/RuleRuns.thy ===== *)
theory RuleRuns
  imports RuleEngine
begin

section \<open>Previews and scheduled evaluations of rules\<close>

text \<open>
  The dry run of a rule (\<open>evaluate_rule_preview\<close> and \<open>plan_actions\<close> of
  \<open>core/rules/engine.py\<close>), the scheduled evaluation of all rules
  (\<open>core/rules/evaluator.py\<close>), which keeps its place in the execution ledger, and the
  validation of rules built from text (\<open>core/rules/nl_builder.py\<close>).
\<close>

subsection \<open>Preview\<close>

datatype planned_action =
    PlannedNotify string string
  | PlannedPropose string "json dict" string "string list" "string option"

text \<open>
  The last argument of \<open>PlannedPropose\<close> is the reason it is blocked; \<open>blocked\<close> and
  \<open>would_create_approval\<close> are whether there is one.
\<close>

record preview =
  pv_rule_id :: "string option"
  pv_rule_name :: string
  pv_match_count :: nat
  pv_candidate_count :: nat
  pv_matching :: "item list"
  pv_planned :: "planned_action list"
  pv_notes :: "string list"

definition plan_propose :: "engine \<Rightarrow> string \<Rightarrow> world \<Rightarrow> string option" where
  "plan_propose en skill_name w =
     (let scopes = required_scopes_for_skill en skill_name
      in if is_safe_mode_enabled w then Some ''safe_mode''
         else let (allow_ok, blocked) = check_rules_allowlist (en_policy en) scopes
              in if \<not> allow_ok then Some (''rule allowlist blocks: '' @ join '', '' blocked)
                 else let (ok, disabled) = check_scopes (en_policy en) scopes
                      in if \<not> ok then Some (''scope disabled: '' @ join '', '' disabled) else None)"

fun plan_loop ::
  "engine \<Rightarrow> rule \<Rightarrow> item list \<Rightarrow> string \<Rightarrow> world \<Rightarrow> rule_action list \<Rightarrow> planned_action list \<Rightarrow> string list
     \<Rightarrow> planned_action list \<times> string list" where
  "plan_loop en r items now_text w [] planned notes = (planned, notes)"
| "plan_loop en r items now_text w (a # as) planned notes =
     (if ru_max_actions r \<le> int (length planned) then (planned, notes @ [''action_cap_reached''])
      else case a of
        NotifyAction title template \<Rightarrow>
          plan_loop en r items now_text w as
            (planned @ [PlannedNotify title (render_notify template (length items) items now_text)]) notes
      | ProposeAction skill_name args rationale \<Rightarrow>
          plan_loop en r items now_text w as
            (planned @ [PlannedPropose skill_name args rationale (required_scopes_for_skill en skill_name)
                          (plan_propose en skill_name w)])
            (if is_safe_mode_enabled w then notes @ [''safe_mode_blocked''] else notes))"

definition plan_actions ::
  "engine \<Rightarrow> rule \<Rightarrow> item list \<Rightarrow> string \<Rightarrow> string list \<Rightarrow> world \<Rightarrow> planned_action list \<times> string list" where
  "plan_actions en r items now_text notes w =
     (if items = [] then ([], notes) else plan_loop en r items now_text w (ru_actions r) [] notes)"

definition evaluate_rule_preview :: "engine \<Rightarrow> rule \<Rightarrow> bool \<Rightarrow> world \<Rightarrow> preview res \<times> world" where
  "evaluate_rule_preview en r include_seen w =
     (case compute_matches en r include_seen w of
        (Inl e, w') \<Rightarrow> (Inl e, w')
      | (Inr mt, w') \<Rightarrow>
          (case is_cooldown_active r w of
             Inl e \<Rightarrow> (Inl e, w')
           | Inr cooling \<Rightarrow>
               let (planned, notes) =
                     (if cooling then ([], mt_notes mt @ [''blocked_by_cooldown''])
                      else plan_actions en r (mt_matching mt) (iso_text (w_now w)) (mt_notes mt) w')
               in (Inr \<lparr>pv_rule_id = (if ru_id r = ''draft'' then None else Some (ru_id r)),
                        pv_rule_name = ru_name r, pv_match_count = length (mt_matching mt),
                        pv_candidate_count = length (mt_candidates mt), pv_matching = mt_matching mt,
                        pv_planned = planned, pv_notes = notes\<rparr>, w')))"

text \<open>
  A preview does nothing but query the connectors: the state after it is the one the
  query leaves, and without connectors it is unchanged.
\<close>

theorem preview_is_dry:
  "snd (evaluate_rule_preview en r b w) = snd (load_trigger_items en r w)
   \<and> snd (evaluate_rule_preview (en\<lparr>en_email := None, en_calendar := None\<rparr>) r b w) = w"
proof -
  have "snd (compute_matches en r b w) = snd (load_trigger_items en r w)" for en
    by (cases "load_trigger_items en r w"; cases "fst (load_trigger_items en r w)")
      (auto simp: compute_matches_def split: sum.splits exc.splits)
  moreover have "snd (evaluate_rule_preview en r b w) = snd (compute_matches en r b w)" for en
    by (cases "compute_matches en r b w"; cases "fst (compute_matches en r b w)")
      (auto simp: evaluate_rule_preview_def Let_def split: sum.splits prod.splits)
  moreover have "snd (load_trigger_items (en\<lparr>en_email := None, en_calendar := None\<rparr>) r w) = w"
    by (simp add: load_trigger_items_def Let_def split: trigger_type.split)
  ultimately show ?thesis by simp
qed

definition tick_rule :: rule where
  "tick_rule = (demo_rule [ProposeAction ''calendar.create_event'' [] ''because'', NotifyAction ''Tick'' ''beat''])
     \<lparr>ru_trigger := \<lparr>tg_type = Schedule, tg_every_minutes = 5, tg_query = None, tg_max_results = 5, tg_hours_ahead = 24\<rparr>\<rparr>"

text \<open>
  The preview does not predict the run: a blocked proposal uses up the preview's action
  cap, but not the run's. With a cap of one, a blocked proposal before a notification, the
  preview announces no notification and the run sends it.
\<close>

theorem preview_differs_from_run:
  "(case fst (evaluate_rule_preview demo_engine tick_rule False (empty_world 0)) of
      Inr p \<Rightarrow> length (pv_planned p) = 1 \<and> ''action_cap_reached'' \<in> set (pv_notes p) | Inl _ \<Rightarrow> False)
   \<and> map nt_title (w_outbox (snd (evaluate_rule demo_engine [] tick_rule (empty_world 0)))) = [''Tick'']"
proof
  show "case fst (evaluate_rule_preview demo_engine tick_rule False (empty_world 0)) of
      Inr p \<Rightarrow> length (pv_planned p) = 1 \<and> ''action_cap_reached'' \<in> set (pv_notes p) | Inl _ \<Rightarrow> False"
    by code_simp
  show "map nt_title (w_outbox (snd (evaluate_rule demo_engine [] tick_rule (empty_world 0)))) = [''Tick'']"
    by code_simp
qed

subsection \<open>The scheduled evaluation\<close>

fun evaluate_all ::
  "engine \<Rightarrow> string \<Rightarrow> rule list \<Rightarrow> rules_file \<Rightarrow> world \<Rightarrow> rule_run_result list \<times> rules_file \<times> world" where
  "evaluate_all en corr [] f w = ([], f, w)"
| "evaluate_all en corr (r # rs) f w =
     (if \<not> ru_enabled r then evaluate_all en corr rs f w
      else
        let ((res, r'), w1) = evaluate_rule en [(''correlation_id'', JStr corr)] r w;
            (_, f1) = rule_upsert (now_iso w1) r' f;
            (results, f2, w2) = evaluate_all en corr rs f1 w1
        in (res # results, f2, w2))"

text \<open>
  \<open>run_rules_evaluation\<close>. An evaluation of a rule returns its errors as results, so the
  loop itself does not raise. \<open>minute_iso\<close> is the text of the current minute.
\<close>

definition effective_job :: "string option \<Rightarrow> string" where
  "effective_job job_id = (case job_id of None \<Rightarrow> ''rules-evaluator'' | Some j \<Rightarrow> or_default j ''rules-evaluator'')"

text \<open>The evaluation proper, and its place in the ledger when it is a job.\<close>

definition evaluate_job ::
  "engine \<Rightarrow> string \<Rightarrow> string option \<Rightarrow> rules_file \<Rightarrow> world \<Rightarrow> (rule_run_result list \<times> rules_file) \<times> world" where
  "evaluate_job en corr key f w =
     (let (results, f', w') = evaluate_all en corr (rules_list_all f) f w
      in ((results, f'),
          case key of None \<Rightarrow> w'
          | Some k \<Rightarrow> mark (en_mx en) k Succeeded [(''rule_count'', JInt (int (length results)))] w'))"

definition evaluate_once ::
  "engine \<Rightarrow> string \<Rightarrow> string \<Rightarrow> string \<Rightarrow> string option \<Rightarrow> rules_file \<Rightarrow> world \<Rightarrow> (rule_run_result list \<times> rules_file) \<times> world" where
  "evaluate_once en corr key job scheduled f w =
     (let (started, w1) = try_start (en_mx en) key JobRun (Some corr)
                            [(''job_id'', JStr job), (''scheduled_run_iso'', opt_json scheduled)] w
      in if \<not> started then
           (([], f), log_episode ''rule'' ''Skipped duplicate rules evaluator run''
              [(''correlation_id'', JStr corr), (''job_id'', JStr job), (''skipped_idempotent'', JBool True)] w1)
         else evaluate_job en corr (Some key) f w1)"

definition run_rules_evaluation ::
  "engine \<Rightarrow> string \<Rightarrow> string option \<Rightarrow> string option \<Rightarrow> rules_file \<Rightarrow> world \<Rightarrow> (rule_run_result list \<times> rules_file) \<times> world" where
  "run_rules_evaluation en minute_iso job_id scheduled f w0 =
     (let (corr, w) = uuid4 w0;
          job = effective_job job_id
      in with_corr corr
           (case job_id of
              None \<Rightarrow> evaluate_job en corr None f
            | Some _ \<Rightarrow> evaluate_once en corr (job_run_key (en_sha en) minute_iso job scheduled []) job scheduled f) w)"

text \<open>The key is held after an evaluation of the job.\<close>

definition key_held :: "string \<Rightarrow> world \<Rightarrow> bool" where
  "key_held k w \<longleftrightarrow> (\<exists>l. latest_record_by_key (w_ledger w) k = Some l \<and> lr_status l \<in> {Succeeded, Started})"

lemma key_held_ledger: "w_ledger w' = w_ledger w \<Longrightarrow> key_held k w' = key_held k w"
  by (simp add: key_held_def)

lemma evaluate_once_held: "key_held key (snd (evaluate_once en corr key job sch f w))"
proof -
  obtain b w1 where t: "try_start (en_mx en) key JobRun (Some corr)
        [(''job_id'', JStr job), (''scheduled_run_iso'', opt_json sch)] w = (b, w1)" by fastforce
  show ?thesis
  proof (cases b)
    case False
    then have w1: "w1 = w" using t try_start_refused by simp
    have "\<not> fst (try_start (en_mx en) key JobRun (Some corr)
        [(''job_id'', JStr job), (''scheduled_run_iso'', opt_json sch)] w)" using t False by simp
    then have "key_held key w"
      unfolding try_start_cases key_held_def by (auto split: option.splits)
    then show ?thesis using t False w1 by (simp add: evaluate_once_def key_held_def)
  next
    case True
    obtain rs f' w2 where e: "evaluate_all en corr (rules_list_all f) f w1 = (rs, f', w2)" by (metis prod_cases3)
    then have "snd (evaluate_once en corr key job sch f w) = mark (en_mx en) key Succeeded [(''rule_count'', JInt (int (length rs)))] w2"
      using t True by (simp add: evaluate_once_def evaluate_job_def)
    then show ?thesis using latest_after_mark [of "en_mx en" key Succeeded _ w2] by (auto simp: key_held_def)
  qed
qed

lemma evaluate_once_skips:
  assumes "key_held key w"
  shows "fst (evaluate_once en corr key job sch f w) = ([], f)
    \<and> w_approvals (snd (evaluate_once en corr key job sch f w)) = w_approvals w
    \<and> w_ledger (snd (evaluate_once en corr key job sch f w)) = w_ledger w
    \<and> w_outbox (snd (evaluate_once en corr key job sch f w)) = w_outbox w"
proof -
  have "try_start (en_mx en) key JobRun c m w = (False, w)" for c m
    using assms by (auto simp: try_start_def key_held_def)
  then show ?thesis by (simp add: evaluate_once_def)
qed

text \<open>
  C26. A scheduled evaluation runs once per job and scheduled time: after it has run, a
  second run with the same job and time returns no results, and changes neither rules,
  approvals, ledger nor outbox.
\<close>

theorem evaluator_runs_once:
  assumes "run_rules_evaluation en mi (Some job) (Some t) f w = ((results, f1), w1)"
    and "run_rules_evaluation en mi' (Some job) (Some t) f1 w1 = ((results', f2), w2)"
  shows "results' = [] \<and> f2 = f1 \<and> w_approvals w2 = w_approvals w1 \<and> w_ledger w2 = w_ledger w1 \<and> w_outbox w2 = w_outbox w1"
proof -
  let ?job = "effective_job (Some job)"
  let ?key = "job_run_key (en_sha en) [] ?job (Some t) []"
  have ev: "run_rules_evaluation en m (Some job) (Some t) f w =
      with_corr (fst (uuid4 w)) (evaluate_once en (fst (uuid4 w)) ?key ?job (Some t) f) (snd (uuid4 w))" for m f w
    by (simp add: run_rules_evaluation_def job_run_key_def Let_def split: prod.split)
  let ?w = "(snd (uuid4 w))\<lparr>w_corr := Some (fst (uuid4 w))\<rparr>"
  obtain x0 w0 where e0: "evaluate_once en (fst (uuid4 w)) ?key ?job (Some t) f ?w = (x0, w0)" by fastforce
  then have "w_ledger w1 = w_ledger w0"
    using assms(1) unfolding ev with_corr_def Let_def by auto
  moreover have "key_held ?key w0"
    using evaluate_once_held [of ?key en "fst (uuid4 w)" ?job "Some t" f ?w] e0 by simp
  ultimately have "key_held ?key w1" by (simp add: key_held_def)
  let ?v = "(snd (uuid4 w1))\<lparr>w_corr := Some (fst (uuid4 w1))\<rparr>"
  have v: "w_ledger ?v = w_ledger w1" "w_approvals ?v = w_approvals w1" "w_outbox ?v = w_outbox w1"
    by (simp_all add: uuid4_def)
  have "key_held ?key ?v" using \<open>key_held ?key w1\<close> key_held_ledger [OF v(1)] by blast
  note skip = evaluate_once_skips [OF this, of en "fst (uuid4 w1)" ?job "Some t" f1]
  obtain x w3 where e: "evaluate_once en (fst (uuid4 w1)) ?key ?job (Some t) f1 ?v = (x, w3)" by fastforce
  then have "(results', f2) = x" "w2 = w3\<lparr>w_corr := w_corr (snd (uuid4 w1))\<rparr>"
    using assms(2) unfolding ev with_corr_def Let_def by simp_all
  then show ?thesis using skip e v by simp
qed

theorem evaluator_runs_once_witness:
  "let e = run_rules_evaluation demo_engine ''m'' (Some ''rules'') (Some ''t'');
       s = e (write_rows [tick_rule]) (empty_world 0)
   in fst (fst (e (snd (fst s)) (snd s))) = []"
proof -
  let ?e = "run_rules_evaluation demo_engine ''m'' (Some ''rules'') (Some ''t'')"
  obtain results f1 w1 where s: "?e (write_rows [tick_rule]) (empty_world 0) = ((results, f1), w1)" by (metis prod.collapse)
  obtain results' f2 w2 where t: "?e f1 w1 = ((results', f2), w2)" by (metis prod.collapse)
  have "results' = []" using evaluator_runs_once [OF s t] by blast
  then show ?thesis using s t by (simp add: Let_def)
qed

subsection \<open>Rules from text\<close>

text \<open>What the builder checks of the actions of a proposed rule.\<close>

fun validate_actions :: "string set \<Rightarrow> rule_action list \<Rightarrow> exc option" where
  "validate_actions known [] = None"
| "validate_actions known (ProposeAction s args ra # as) =
     (if s \<notin> known then Some (RuntimeError (''unknown write skill: '' @ s)) else validate_actions known as)"
| "validate_actions known (NotifyAction t b # as) = validate_actions known as"

end
