(* ===== verification/JsonFields.thy ===== *)
theory JsonFields
  imports Json
begin

section \<open>The fields of a model\<close>

text \<open>
  How pydantic reads the fields of a model out of a JSON object: an absent field takes its
  default, one of a wrong type is a validation error (\<open>None\<close>), numbers and booleans are read
  leniently.
\<close>

text \<open>The texts pydantic reads as booleans.\<close>

fun lax_bool :: "json \<Rightarrow> bool option" where
  "lax_bool (JBool b) = Some b"
| "lax_bool (JInt i) = (if i = 0 then Some False else if i = 1 then Some True else None)"
| "lax_bool (JStr s) =
     (if casefold s \<in> set [''0'', ''off'', ''f'', ''false'', ''n'', ''no''] then Some False
      else if casefold s \<in> set [''1'', ''on'', ''t'', ''true'', ''y'', ''yes''] then Some True else None)"
| "lax_bool _ = None"

definition bool_field :: "string \<Rightarrow> bool \<Rightarrow> json dict \<Rightarrow> bool option" where
  "bool_field k dflt d = (case map_of d k of None \<Rightarrow> Some dflt | Some j \<Rightarrow> lax_bool j)"

definition str_field :: "string \<Rightarrow> string option \<Rightarrow> json dict \<Rightarrow> string option" where
  "str_field k dflt d = (case map_of d k of None \<Rightarrow> dflt | Some (JStr s) \<Rightarrow> Some s | Some _ \<Rightarrow> None)"

definition opt_field :: "string \<Rightarrow> json dict \<Rightarrow> string option option" where
  \<comment> \<open>a field of type \<open>str | None\<close>\<close>
  "opt_field k d =
     (case map_of d k of None \<Rightarrow> Some None | Some JNull \<Rightarrow> Some None | Some (JStr s) \<Rightarrow> Some (Some s) | Some _ \<Rightarrow> None)"

text \<open>Numbers are read leniently: also from true, false and decimal text.\<close>

definition int_field :: "string \<Rightarrow> int \<Rightarrow> json dict \<Rightarrow> int option" where
  "int_field k dflt d =
     (case map_of d k of
        None \<Rightarrow> Some dflt
      | Some (JInt i) \<Rightarrow> Some i
      | Some (JBool b) \<Rightarrow> Some (if b then 1 else 0)
      | Some (JStr s) \<Rightarrow> py_int s
      | Some _ \<Rightarrow> None)"

fun json_strs :: "json list \<Rightarrow> string list option" where
  "json_strs [] = Some []"
| "json_strs (JStr s # xs) = map_option ((#) s) (json_strs xs)"
| "json_strs (_ # xs) = None"

definition strs_field :: "string \<Rightarrow> string list option \<Rightarrow> json dict \<Rightarrow> string list option" where
  "strs_field k dflt d =
     (case map_of d k of None \<Rightarrow> dflt | Some (JList xs) \<Rightarrow> json_strs xs | Some _ \<Rightarrow> None)"

text \<open>A field that holds an object, with the fields of a model of its own.\<close>

definition sub_field :: "string \<Rightarrow> 'a option \<Rightarrow> (json dict \<Rightarrow> 'a option) \<Rightarrow> json dict \<Rightarrow> 'a option" where
  "sub_field k dflt model d =
     (case map_of d k of None \<Rightarrow> dflt | Some (JDict x) \<Rightarrow> model x | Some _ \<Rightarrow> None)"

end
