(* ===== verification/Breaker.thy ===== *)
theory Breaker
  imports Memory
begin

section \<open>Circuit breakers\<close>

text \<open>
  \<open>core/infra\<close>: the breaker of one service (\<open>breaker.py\<close>), its JSON form and file
  (\<open>breaker_store.py\<close>), and the manager whose \<open>wrap\<close> guards every call to an external
  service (\<open>breaker_manager.py\<close>). Times are instants in microseconds; the guarded call is
  a parameter that may raise and may change the state, the clock included.
\<close>

subsection \<open>One breaker\<close>

datatype bstate = Closed | Open | HalfOpen

record breaker =
  cb_service :: string
  cb_threshold :: int
  cb_open_seconds :: int
  cb_max_trials :: int
  cb_state :: bstate
  cb_failures :: int
  cb_opened_at :: "int option"
  cb_last_failure :: "int option"
  cb_last_error :: "string option"
  cb_trials :: int

definition new_breaker :: "string \<Rightarrow> int \<Rightarrow> int \<Rightarrow> int \<Rightarrow> breaker" where
  "new_breaker service threshold open_seconds max_trials =
     \<lparr>cb_service = service, cb_threshold = threshold, cb_open_seconds = open_seconds,
      cb_max_trials = max_trials, cb_state = Closed, cb_failures = 0, cb_opened_at = None,
      cb_last_failure = None, cb_last_error = None, cb_trials = 0\<rparr>"

definition seconds :: "int \<Rightarrow> int" where
  "seconds n = n * 10 ^ 6"

definition cooled_down :: "int \<Rightarrow> breaker \<Rightarrow> bool" where
  "cooled_down now b \<longleftrightarrow>
     (case cb_opened_at b of None \<Rightarrow> False | Some t \<Rightarrow> t + seconds (max 1 (cb_open_seconds b)) \<le> now)"

definition try_trial :: "breaker \<Rightarrow> bool \<times> breaker" where
  "try_trial b =
     (if max 1 (cb_max_trials b) \<le> cb_trials b then (False, b)
      else (True, b\<lparr>cb_trials := cb_trials b + 1\<rparr>))"

definition allow_request :: "int \<Rightarrow> breaker \<Rightarrow> bool \<times> breaker" where
  "allow_request now b =
     (case cb_state b of
        Closed \<Rightarrow> (True, b)
      | Open \<Rightarrow> (if cooled_down now b then try_trial (b\<lparr>cb_state := HalfOpen, cb_trials := 0\<rparr>) else (False, b))
      | HalfOpen \<Rightarrow> try_trial b)"

type_synonym transition = "(bstate \<times> bstate) option"

definition record_success :: "breaker \<Rightarrow> transition \<times> breaker" where
  "record_success b =
     ((if cb_state b \<noteq> Closed then Some (cb_state b, Closed) else None),
      b\<lparr>cb_failures := 0, cb_last_error := None, cb_last_failure := None, cb_trials := 0,
        cb_state := Closed, cb_opened_at := None\<rparr>)"

definition record_failure :: "string \<Rightarrow> int \<Rightarrow> breaker \<Rightarrow> transition \<times> breaker" where
  "record_failure err now b0 =
     (let b = b0\<lparr>cb_last_error := Some err, cb_last_failure := Some now\<rparr>
      in if cb_state b = HalfOpen then
           (Some (HalfOpen, Open),
            b\<lparr>cb_state := Open, cb_opened_at := Some now,
              cb_failures := max (cb_threshold b) (cb_failures b + 1), cb_trials := 0\<rparr>)
         else
           let b1 = b\<lparr>cb_failures := cb_failures b + 1\<rparr>;
               b2 = (if max 1 (cb_threshold b1) \<le> cb_failures b1
                     then b1\<lparr>cb_state := Open, cb_opened_at := Some now, cb_trials := 0\<rparr> else b1)
           in ((if cb_state b \<noteq> cb_state b2 then Some (cb_state b, cb_state b2) else None), b2))"

subsection \<open>The stored form\<close>

text \<open>
  The values of a stored breaker: JSON scalars, with texts that are read as time stamps
  kept as such. \<open>PTime (NotIso s)\<close> is the text \<open>s\<close>.
\<close>

datatype pvalue = PNull | PBool bool | PInt int | PText string | PTime iso

type_synonym payload = "pvalue dict"

fun ptruthy :: "pvalue \<Rightarrow> bool" where
  "ptruthy PNull = False"
| "ptruthy (PBool b) = b"
| "ptruthy (PInt i) = (i \<noteq> 0)"
| "ptruthy (PText s) = (s \<noteq> [])"
| "ptruthy (PTime t) = iso_truthy (Some t)"

definition pget :: "string \<Rightarrow> payload \<Rightarrow> pvalue" where
  "pget k d = (case map_of d k of None \<Rightarrow> PNull | Some v \<Rightarrow> v)"

text \<open>\<open>int(v or 0)\<close>.\<close>

definition text_int :: "string \<Rightarrow> int res" where
  "text_int s = (if s = [] then Inr 0 else
     case py_int s of None \<Rightarrow> Inl (ValueError ''invalid literal for int() with base 10'') | Some i \<Rightarrow> Inr i)"

fun pint :: "pvalue \<Rightarrow> int res" where
  "pint PNull = Inr 0"
| "pint (PBool b) = Inr (if b then 1 else 0)"
| "pint (PInt i) = Inr i"
| "pint (PText s) = text_int s"
| "pint (PTime (NotIso s)) = text_int s"
| "pint (PTime (Iso d)) = Inl (ValueError ''invalid literal for int() with base 10'')"

fun ptext :: "pvalue \<Rightarrow> string" where
  "ptext PNull = ''None''"
| "ptext (PBool b) = (if b then ''True'' else ''False'')"
| "ptext (PInt i) = show_int i"
| "ptext (PText s) = s"
| "ptext (PTime (NotIso s)) = s"
| "ptext (PTime (Iso d)) = ''<time stamp>''"

text \<open>\<open>_parse_iso\<close>: a naive time is taken as UTC; anything else is \<open>None\<close>.\<close>

fun parse_iso :: "pvalue \<Rightarrow> int option" where
  "parse_iso (PTime (Iso (Aware t))) = Some t"
| "parse_iso (PTime (Iso (Naive t))) = Some t"
| "parse_iso _ = None"

definition to_iso :: "int option \<Rightarrow> pvalue" where
  "to_iso t = (case t of None \<Rightarrow> PNull | Some x \<Rightarrow> PTime (Iso (Aware x)))"

fun bstate_str :: "bstate \<Rightarrow> string" where
  "bstate_str Closed = ''closed''"
| "bstate_str Open = ''open''"
| "bstate_str HalfOpen = ''half_open''"

text \<open>\<open>__post_init__\<close>: an unknown state is \<open>closed\<close>.\<close>

definition bstate_of :: "string \<Rightarrow> bstate" where
  "bstate_of s = (if s = ''open'' then Open else if s = ''half_open'' then HalfOpen else Closed)"

definition breaker_to_dict :: "breaker \<Rightarrow> payload" where
  "breaker_to_dict b =
     [(''state'', PText (bstate_str (cb_state b))), (''failure_count'', PInt (cb_failures b)),
      (''opened_at_iso'', to_iso (cb_opened_at b)), (''last_failure_iso'', to_iso (cb_last_failure b)),
      (''last_error'', case cb_last_error b of None \<Rightarrow> PNull | Some e \<Rightarrow> PText e),
      (''half_open_trials_used'', PInt (cb_trials b))]"

definition breaker_from_dict :: "string \<Rightarrow> payload \<Rightarrow> int \<Rightarrow> int \<Rightarrow> int \<Rightarrow> breaker res" where
  "breaker_from_dict service d threshold open_seconds max_trials =
     (case pint (pget ''failure_count'' d) of
        Inl e \<Rightarrow> Inl e
      | Inr failures \<Rightarrow>
          (case pint (pget ''half_open_trials_used'' d) of
             Inl e \<Rightarrow> Inl e
           | Inr trials \<Rightarrow>
               Inr \<lparr>cb_service = service, cb_threshold = threshold, cb_open_seconds = open_seconds,
                    cb_max_trials = max_trials,
                    cb_state = (if ptruthy (pget ''state'' d) then bstate_of (ptext (pget ''state'' d)) else Closed),
                    cb_failures = failures,
                    cb_opened_at = parse_iso (pget ''opened_at_iso'' d),
                    cb_last_failure = parse_iso (pget ''last_failure_iso'' d),
                    cb_last_error = (if pget ''last_error'' d = PNull then None else Some (ptext (pget ''last_error'' d))),
                    cb_trials = trials\<rparr>))"

lemma breaker_roundtrip_eq:
  "breaker_from_dict (cb_service b) (breaker_to_dict b) (cb_threshold b) (cb_open_seconds b) (cb_max_trials b) = Inr b"
proof -
  have "bstate_of (bstate_str s) = s" "bstate_str s \<noteq> []" for s
    by (cases s; simp add: bstate_of_def)+
  moreover have "parse_iso (to_iso t) = t" for t
    by (cases t) (simp_all add: to_iso_def)
  ultimately show ?thesis
    by (cases "cb_last_error b") (simp_all add: breaker_from_dict_def breaker_to_dict_def pget_def)
qed

subsection \<open>The invariant of a breaker\<close>

definition breaker_ok :: "breaker \<Rightarrow> bool" where
  "breaker_ok b \<longleftrightarrow>
     (case cb_state b of
        Closed \<Rightarrow> 0 \<le> cb_failures b \<and> cb_failures b < max 1 (cb_threshold b) \<and> cb_opened_at b = None \<and> cb_trials b = 0
      | Open \<Rightarrow> cb_opened_at b \<noteq> None \<and> max 1 (cb_threshold b) \<le> cb_failures b \<and> cb_trials b = 0
      | HalfOpen \<Rightarrow> cb_opened_at b \<noteq> None \<and> max 1 (cb_threshold b) \<le> cb_failures b
                    \<and> 1 \<le> cb_trials b \<and> cb_trials b \<le> max 1 (cb_max_trials b))"

datatype breaker_op = Ask int | Success | Failure string int

fun breaker_step :: "breaker_op \<Rightarrow> breaker \<Rightarrow> breaker" where
  "breaker_step (Ask now) b = snd (allow_request now b)"
| "breaker_step Success b = snd (record_success b)"
| "breaker_step (Failure err now) b = snd (record_failure err now b)"

lemma breaker_ok_new: "breaker_ok (new_breaker s th os mt)"
  by (simp add: breaker_ok_def new_breaker_def)

lemma breaker_ok_step: "breaker_ok b \<Longrightarrow> breaker_ok (breaker_step op b)"
  by (cases op; cases "cb_state b")
    (auto simp: breaker_ok_def allow_request_def try_trial_def record_success_def record_failure_def Let_def)

text \<open>
  C28. From a new breaker, every sequence of requests, successes and failures keeps the
  invariant: closed with fewer failures than the threshold, or open with the time of
  opening, or half open with at least one and at most the allowed number of trials.
\<close>

theorem breaker_invariant:
  "breaker_ok (fold breaker_step ops (new_breaker service threshold open_seconds max_trials))"
proof -
  have "breaker_ok b \<Longrightarrow> breaker_ok (fold breaker_step ops b)" for b
    by (induction ops arbitrary: b) (simp_all add: breaker_ok_step)
  then show ?thesis using breaker_ok_new by blast
qed

text \<open>Consecutive failures open a new breaker exactly from the threshold on.\<close>

theorem opens_at_threshold:
  "cb_state (fold (\<lambda>(err, now) b. snd (record_failure err now b)) fs (new_breaker service threshold open_seconds max_trials))
     = (if max 1 threshold \<le> int (length fs) then Open else Closed)"
proof -
  let ?f = "\<lambda>(err, now) b. snd (record_failure err now b)"
  let ?b = "new_breaker service threshold open_seconds max_trials"
  have "cb_state (fold ?f fs ?b) = (if max 1 threshold \<le> int (length fs) then Open else Closed)
      \<and> cb_failures (fold ?f fs ?b) = int (length fs) \<and> cb_threshold (fold ?f fs ?b) = threshold"
  proof (induction fs rule: rev_induct)
    case Nil
    then show ?case by (simp add: new_breaker_def)
  next
    case (snoc f fs)
    obtain err now where "f = (err, now)" by fastforce
    with snoc show ?case by (auto simp: record_failure_def Let_def)
  qed
  then show ?thesis by blast
qed

subsection \<open>The half-open state\<close>

text \<open>
  A half-open breaker whose trials are all in use refuses every request, however late,
  and stays as it is; a restart reads the same breaker back. So a trial whose outcome is
  never recorded (the process died during the call) blocks the service for good.
\<close>

theorem half_open_stuck:
  assumes "cb_state b = HalfOpen" and "max 1 (cb_max_trials b) \<le> cb_trials b"
  shows "list_all (\<lambda>now. allow_request now b = (False, b)) nows
    \<and> fold (\<lambda>now b. snd (allow_request now b)) nows b = b
    \<and> breaker_from_dict (cb_service b) (breaker_to_dict b) (cb_threshold b) (cb_open_seconds b) (cb_max_trials b) = Inr b"
proof -
  have deny: "allow_request now b = (False, b)" for now
    using assms by (simp add: allow_request_def try_trial_def)
  have "fold (\<lambda>now b. snd (allow_request now b)) nows b = b"
    by (induction nows) (simp_all add: deny)
  then show ?thesis using deny by (simp add: list_all_iff breaker_roundtrip_eq)
qed

theorem half_open_stuck_witness:
  "list_all (\<lambda>now. fst (allow_request now
       (breaker_step (Ask 61000000) (breaker_step (Failure ''boom'' 0) (new_breaker ''llm'' 1 60 1)))) = False)
     [61000000, 10 ^ 15]"
  using half_open_stuck [of "breaker_step (Ask 61000000) (breaker_step (Failure ''boom'' 0) (new_breaker ''llm'' 1 60 1))"
      "[61000000, 10 ^ 15]"]
  by (simp add: new_breaker_def record_failure_def allow_request_def try_trial_def cooled_down_def seconds_def Let_def)

subsection \<open>The manager\<close>

definition SERVICES :: "string list" where
  "SERVICES = [''llm'', ''gmail'', ''calendar'']"

definition env_int :: "string \<Rightarrow> int \<Rightarrow> world \<Rightarrow> int" where
  "env_int name dflt w =
     (case w_env w name of None \<Rightarrow> dflt | Some raw \<Rightarrow> (case py_int raw of None \<Rightarrow> dflt | Some i \<Rightarrow> i))"

record manager =
  bm_enabled :: bool
  bm_threshold :: int
  bm_open_seconds :: int
  bm_max_trials :: int
  bm_breakers :: "breaker dict"
  bm_file :: "payload dict jfile"

definition store_load :: "payload dict jfile \<Rightarrow> payload dict" where
  "store_load f = (case f of Content d \<Rightarrow> d | _ \<Rightarrow> [])"

fun load_breakers :: "payload dict \<Rightarrow> int \<Rightarrow> int \<Rightarrow> int \<Rightarrow> string list \<Rightarrow> breaker dict res" where
  "load_breakers loaded th os mt [] = Inr []"
| "load_breakers loaded th os mt (service # services) =
     (case breaker_from_dict service (case map_of loaded service of None \<Rightarrow> [] | Some d \<Rightarrow> d) th os mt of
        Inl e \<Rightarrow> Inl e
      | Inr b \<Rightarrow> (case load_breakers loaded th os mt services of
                   Inl e \<Rightarrow> Inl e | Inr bs \<Rightarrow> Inr ((service, b) # bs)))"

definition manager_init :: "payload dict jfile \<Rightarrow> world \<Rightarrow> manager res" where
  "manager_init file w =
     (let th = max 1 (env_int ''BENJAMIN_BREAKER_FAILURE_THRESHOLD'' 3 w);
          os = max 1 (env_int ''BENJAMIN_BREAKER_OPEN_SECONDS'' 60 w);
          mt = max 1 (env_int ''BENJAMIN_BREAKER_HALFOPEN_MAX_TRIALS'' 1 w)
      in case load_breakers (store_load file) th os mt SERVICES of
           Inl e \<Rightarrow> Inl e
         | Inr bs \<Rightarrow> Inr \<lparr>bm_enabled = (casefold (getenv ''BENJAMIN_BREAKERS_ENABLED'' ''on'' w) \<noteq> ''off''),
                         bm_threshold = th, bm_open_seconds = os, bm_max_trials = mt,
                         bm_breakers = bs, bm_file = file\<rparr>)"

definition manager_get :: "string \<Rightarrow> manager \<Rightarrow> breaker \<times> manager" where
  "manager_get service m =
     (case map_of (bm_breakers m) service of
        Some b \<Rightarrow> (b, m)
      | None \<Rightarrow> (let b = new_breaker service (bm_threshold m) (bm_open_seconds m) (bm_max_trials m)
                in (b, m\<lparr>bm_breakers := bm_breakers m @ [(service, b)]\<rparr>)))"

definition manager_put :: "string \<Rightarrow> breaker \<Rightarrow> manager \<Rightarrow> manager" where
  "manager_put service b m = m\<lparr>bm_breakers := AList.update service b (bm_breakers m)\<rparr>"

definition manager_snapshot :: "manager \<Rightarrow> payload dict" where
  "manager_snapshot m = map (\<lambda>(name, b). (name, breaker_to_dict b)) (bm_breakers m)"

definition persist :: "manager \<Rightarrow> manager" where
  "persist m = m\<lparr>bm_file := Content (manager_snapshot m)\<rparr>"

definition corr_json :: "world \<Rightarrow> json" where
  "corr_json w = (if str_or (w_corr w) [] = [] then JNull else JStr (str_or (w_corr w) []))"

text \<open>The \<open>ts_iso\<close> entry of these episodes repeats the episode's own time and is left out.\<close>

definition record_transition :: "string \<Rightarrow> bstate \<Rightarrow> bstate \<Rightarrow> string \<Rightarrow> world \<Rightarrow> world" where
  "record_transition service from_state to_state reason w =
     log_episode ''infra''
       (''Circuit breaker '' @ service @ '' transitioned '' @ bstate_str from_state @ ''->'' @ bstate_str to_state)
       [(''service'', JStr service), (''from_state'', JStr (bstate_str from_state)),
        (''to_state'', JStr (bstate_str to_state)), (''reason'', JStr reason), (''correlation_id'', corr_json w)] w"

definition record_increment :: "string \<Rightarrow> breaker \<Rightarrow> string \<Rightarrow> world \<Rightarrow> world" where
  "record_increment service b reason w =
     log_episode ''infra'' (''Breaker failure recorded for '' @ service)
       [(''service'', JStr service), (''state'', JStr (bstate_str (cb_state b))), (''reason'', JStr reason),
        (''failure_count'', JInt (cb_failures b)), (''correlation_id'', corr_json w)] w"

definition record_transition_if_needed :: "string \<Rightarrow> bstate \<Rightarrow> bstate \<Rightarrow> string \<Rightarrow> world \<Rightarrow> world" where
  "record_transition_if_needed service previous current reason w =
     (if previous \<noteq> current then record_transition service previous current reason w else w)"

text \<open>After the call: success and failure are recorded, stored, and logged.\<close>

definition settle_failure :: "string \<Rightarrow> exc \<Rightarrow> manager \<Rightarrow> world \<Rightarrow> manager \<times> world" where
  "settle_failure service e m w =
     (let (b, m1) = manager_get service m;
          (tr, b') = record_failure (exc_str e) (w_now w) b
      in (persist (manager_put service b' m1),
          case tr of
            Some (f, t) \<Rightarrow> record_transition service f t (exc_str e) w
          | None \<Rightarrow> (if cb_state b = cb_state b' then record_increment service b' (exc_str e) w else w)))"

definition settle_success :: "string \<Rightarrow> manager \<Rightarrow> world \<Rightarrow> manager \<times> world" where
  "settle_success service m w =
     (let (b, m1) = manager_get service m;
          (tr, b') = record_success b
      in (persist (manager_put service b' m1),
          case tr of Some (f, t) \<Rightarrow> record_transition service f t ''request succeeded'' w | None \<Rightarrow> w))"

definition wrap :: "string \<Rightarrow> (world \<Rightarrow> 'a res \<times> world) \<Rightarrow> manager \<Rightarrow> world \<Rightarrow> 'a res \<times> manager \<times> world" where
  "wrap service fn m w =
     (if \<not> bm_enabled m then (let (r, w') = fn w in (r, m, w'))
      else
        let (b, m1) = manager_get service m;
            (allowed, b') = allow_request (w_now w) b;
            m2 = persist (manager_put service b' m1);
            w1 = record_transition_if_needed service (cb_state b) (cb_state b') ''cooldown elapsed'' w
        in if \<not> allowed then (Inl (ServiceDegraded service (cb_last_error b')), m2, w1)
           else case fn w1 of
             (Inl e, w2) \<Rightarrow> (Inl e, settle_failure service e m2 w2)
           | (Inr r, w2) \<Rightarrow> (Inr r, settle_success service m2 w2))"

definition breaker_of :: "string \<Rightarrow> manager \<Rightarrow> breaker" where
  "breaker_of service m = fst (manager_get service m)"

lemma breaker_of_put: "breaker_of s (manager_put s' b m) = (if s = s' then b else breaker_of s m)"
  by (auto simp: breaker_of_def manager_get_def manager_put_def update_conv' Let_def split: option.splits)

lemma breaker_of_persist [simp]: "breaker_of s (persist m) = breaker_of s m"
  by (simp add: breaker_of_def manager_get_def persist_def Let_def split: option.splits)

lemma breaker_of_get [simp]: "breaker_of s (snd (manager_get s' m)) = breaker_of s m"
  by (auto simp: breaker_of_def manager_get_def Let_def split: option.splits if_splits)

lemma manager_flags [simp]:
  "bm_enabled (manager_put s b m) = bm_enabled m" "bm_enabled (persist m) = bm_enabled m"
  "bm_enabled (snd (manager_get s m)) = bm_enabled m"
  by (auto simp: manager_put_def persist_def manager_get_def Let_def split: option.splits)

lemma settle_breaker:
  "breaker_of s (fst (settle_failure service e m w)) =
     (if s = service then snd (record_failure (exc_str e) (w_now w) (breaker_of service m)) else breaker_of s m)"
  "breaker_of s (fst (settle_success service m w)) =
     (if s = service then snd (record_success (breaker_of service m)) else breaker_of s m)"
proof -
  obtain b m1 where g: "manager_get service m = (b, m1)" by fastforce
  then have "breaker_of service m = b" "breaker_of s m1 = breaker_of s m"
    using breaker_of_get [of s service m] by (simp_all add: breaker_of_def)
  then show "breaker_of s (fst (settle_failure service e m w)) =
     (if s = service then snd (record_failure (exc_str e) (w_now w) (breaker_of service m)) else breaker_of s m)"
    "breaker_of s (fst (settle_success service m w)) =
     (if s = service then snd (record_success (breaker_of service m)) else breaker_of s m)"
    using g by (simp_all add: settle_failure_def settle_success_def Let_def breaker_of_put split: prod.split)
qed

lemma wrap_open:
  assumes "bm_enabled m" and "cb_state (breaker_of service m) = Open" and "\<not> cooled_down (w_now w) (breaker_of service m)"
  shows "\<exists>m'. breaker_of service m' = breaker_of service m
    \<and> (\<forall>fn. wrap service fn m w = (Inl (ServiceDegraded service (cb_last_error (breaker_of service m))), m', w))"
proof -
  obtain b m1 where g: "manager_get service m = (b, m1)" by fastforce
  then have b: "breaker_of service m = b" by (simp add: breaker_of_def)
  have "allow_request (w_now w) b = (False, b)"
    using assms b by (simp add: allow_request_def)
  then show ?thesis using assms(1) g b
    by (intro exI [of _ "persist (manager_put service b m1)"])
      (simp add: wrap_def Let_def record_transition_if_needed_def breaker_of_put)
qed

text \<open>
  While a breaker is open and not cooled down, the guarded function is not called:
  whatever it is, the call fails as degraded and the breaker and the state stay the same.
\<close>

theorem wrap_open_blocks:
  fixes fn fn' :: "world \<Rightarrow> 'a res \<times> world"
  assumes "bm_enabled m" and "cb_state (breaker_of service m) = Open" and "\<not> cooled_down (w_now w) (breaker_of service m)"
  shows "fst (wrap service fn m w) = Inl (ServiceDegraded service (cb_last_error (breaker_of service m)))
    \<and> wrap service fn m w = wrap service fn' m w
    \<and> breaker_of service (fst (snd (wrap service fn m w))) = breaker_of service m
    \<and> snd (snd (wrap service fn m w)) = w"
proof -
  obtain m' where "breaker_of service m' = breaker_of service m"
    "wrap service f m w = (Inl (ServiceDegraded service (cb_last_error (breaker_of service m))), m', w)" for f :: "world \<Rightarrow> 'a res \<times> world"
    using wrap_open [OF assms, where ?'a = 'a] by blast
  then show ?thesis by simp
qed

text \<open>The breaker after one guarded call, by what the call did.\<close>

lemma wrap_allowed:
  assumes "bm_enabled m" and "allow_request (w_now w) (breaker_of service m) = (True, b')"
  obtains w1 m2 where "breaker_of service m2 = b'" and "bm_enabled m2"
    and "w1 = record_transition_if_needed service (cb_state (breaker_of service m)) (cb_state b') ''cooldown elapsed'' w"
    and "wrap service fn m w = (case fn w1 of
             (Inl e, w2) \<Rightarrow> (Inl e, settle_failure service e m2 w2)
           | (Inr r, w2) \<Rightarrow> (Inr r, settle_success service m2 w2))"
proof -
  obtain b m1 where g: "manager_get service m = (b, m1)" by fastforce
  then have b: "breaker_of service m = b" "bm_enabled m1"
    using assms(1) manager_flags(3) [of service m] by (simp_all add: breaker_of_def)
  then show thesis
    using assms g by (intro that [of "persist (manager_put service b' m1)"])
      (simp_all add: breaker_of_put wrap_def Let_def)
qed

theorem wrap_open_blocks_witness:
  "let b = (new_breaker ''gmail'' 1 60 1)\<lparr>cb_state := Open, cb_opened_at := Some 0, cb_last_error := Some ''boom''\<rparr>;
       m = \<lparr>bm_enabled = True, bm_threshold = 1, bm_open_seconds = 60, bm_max_trials = 1,
            bm_breakers = [(''gmail'', b)], bm_file = Missing\<rparr>
   in wrap ''gmail'' (\<lambda>w. (Inr (1 :: nat), w)) m (empty_world 5) = wrap ''gmail'' (\<lambda>w. (Inr 2, w)) m (empty_world 5)"
proof -
  let ?b = "(new_breaker ''gmail'' 1 60 1)\<lparr>cb_state := Open, cb_opened_at := Some 0, cb_last_error := Some ''boom''\<rparr>"
  let ?m = "\<lparr>bm_enabled = True, bm_threshold = 1, bm_open_seconds = 60, bm_max_trials = 1,
            bm_breakers = [(''gmail'', ?b)], bm_file = Missing\<rparr>"
  have b: "breaker_of ''gmail'' ?m = ?b" by (simp add: breaker_of_def manager_get_def)
  have "\<not> cooled_down (w_now (empty_world 5)) (breaker_of ''gmail'' ?m)"
    by (simp add: breaker_of_def manager_get_def cooled_down_def seconds_def empty_world_def new_breaker_def)
  then show ?thesis
    using wrap_open_blocks [of ?m "''gmail''" "empty_world 5" "\<lambda>w. (Inr (1 :: nat), w)" "\<lambda>w. (Inr 2, w)"] b
    by (simp add: Let_def)
qed

subsection \<open>Consecutive failures\<close>

fun wrap_all :: "string \<Rightarrow> (world \<Rightarrow> 'a res \<times> world) list \<Rightarrow> manager \<times> world \<Rightarrow> manager \<times> world" where
  "wrap_all service [] s = s"
| "wrap_all service (fn # fns) (m, w) = wrap_all service fns (snd (wrap service fn m w))"

lemma settle_failure_enabled: "bm_enabled (fst (settle_failure service e m w)) = bm_enabled m"
  using manager_flags(3) [of service m]
  by (cases "manager_get service m") (simp add: settle_failure_def Let_def split: prod.split)

lemma wrap_closed_failing:
  assumes "bm_enabled m" and "cb_state (breaker_of service m) = Closed" and "\<And>w. isl (fst (fn w))"
  obtains e t where "breaker_of service (fst (snd (wrap service fn m w))) = snd (record_failure e t (breaker_of service m))"
    and "bm_enabled (fst (snd (wrap service fn m w)))"
proof -
  have "allow_request (w_now w) (breaker_of service m) = (True, breaker_of service m)"
    using assms(2) by (simp add: allow_request_def)
  from assms(1) this obtain w1 m2 where m2: "breaker_of service m2 = breaker_of service m" "bm_enabled m2"
    and wr: "wrap service fn m w = (case fn w1 of
             (Inl e, w2) \<Rightarrow> (Inl e, settle_failure service e m2 w2)
           | (Inr r, w2) \<Rightarrow> (Inr r, settle_success service m2 w2))"
    by (rule wrap_allowed)
  obtain e w2 where "fn w1 = (Inl e, w2)" using assms(3) [of w1] by (cases "fn w1"; cases "fst (fn w1)") auto
  then show thesis using that m2 wr
    by (simp add: settle_breaker settle_failure_enabled)
qed

text \<open>
  A service whose guarded calls all fail is called until the threshold is reached and
  then cut off: after \<open>n\<close> failing calls from a closed breaker without failures, the
  breaker is open if \<open>n\<close> is the threshold, and still closed if it is below.
\<close>

theorem wrap_trips:
  fixes fns :: "(world \<Rightarrow> 'a res \<times> world) list"
  assumes "bm_enabled m" and "cb_state (breaker_of service m) = Closed" and "cb_failures (breaker_of service m) = 0"
    and "\<forall>fn\<in>set fns. \<forall>w. isl (fst (fn w))"
    and "int (length fns) \<le> max 1 (cb_threshold (breaker_of service m))"
  shows "cb_state (breaker_of service (fst (wrap_all service fns (m, w)))) =
    (if int (length fns) = max 1 (cb_threshold (breaker_of service m)) then Open else Closed)"
proof -
  have "bm_enabled m \<Longrightarrow> cb_state (breaker_of service m) = Closed \<Longrightarrow>
      \<forall>fn\<in>set fns. \<forall>w. isl (fst (fn w)) \<Longrightarrow> 0 \<le> cb_failures (breaker_of service m) \<Longrightarrow>
      cb_failures (breaker_of service m) < max 1 (cb_threshold (breaker_of service m)) \<Longrightarrow>
      cb_failures (breaker_of service m) + int (length fns) \<le> max 1 (cb_threshold (breaker_of service m)) \<Longrightarrow>
      cb_state (breaker_of service (fst (wrap_all service fns (m, w)))) =
        (if cb_failures (breaker_of service m) + int (length fns) = max 1 (cb_threshold (breaker_of service m))
         then Open else Closed)"
    for fns :: "(world \<Rightarrow> 'a res \<times> world) list" and m w
  proof (induction fns arbitrary: m w)
    case (Cons fn fns)
    let ?b = "breaker_of service m"
    obtain r m' w' where wr: "wrap service fn m w = (r, m', w')" by (metis prod_cases3)
    obtain e t where b': "breaker_of service m' = snd (record_failure e t ?b)" and en: "bm_enabled m'"
      using wrap_closed_failing [OF Cons.prems(1,2), of fn w] Cons.prems(3) wr by (metis fst_conv list.set_intros(1) snd_conv)
    show ?case
    proof (cases "fns = []")
      case True
      then show ?thesis using wr b' Cons.prems(2,4,6) by (auto simp: record_failure_def Let_def)
    next
      case False
      then have "cb_state (breaker_of service m') = Closed" "cb_failures (breaker_of service m') = cb_failures ?b + 1"
        "cb_threshold (breaker_of service m') = cb_threshold ?b"
        "cb_failures ?b + 1 < max 1 (cb_threshold ?b)"
        using b' Cons.prems(2,6) by (cases fns; auto simp: record_failure_def Let_def)+
      then show ?thesis using Cons.IH [of m' w'] en wr Cons.prems(3,4,6) by simp
    qed
  qed simp
  from this [of m fns w] assms show ?thesis by simp
qed

theorem wrap_trips_witness:
  "let m = \<lparr>bm_enabled = True, bm_threshold = 2, bm_open_seconds = 60, bm_max_trials = 1, bm_breakers = [], bm_file = Missing\<rparr>
   in cb_state (breaker_of ''llm'' (fst (wrap_all ''llm'' (replicate 2 (\<lambda>w. (Inl (RuntimeError ''boom'') :: nat res, w))) (m, empty_world 0)))) = Open"
proof -
  let ?m = "\<lparr>bm_enabled = True, bm_threshold = 2, bm_open_seconds = 60, bm_max_trials = 1, bm_breakers = [], bm_file = Missing\<rparr>"
  have "breaker_of ''llm'' ?m = new_breaker ''llm'' 2 60 1" by (simp add: breaker_of_def manager_get_def Let_def)
  then show ?thesis
    using wrap_trips [of ?m "''llm''" "replicate 2 (\<lambda>w. (Inl (RuntimeError ''boom'') :: nat res, w))" "empty_world 0"]
    by (simp add: new_breaker_def Let_def)
qed

subsection \<open>Recovery\<close>

text \<open>
  C29. An open breaker recovers: the first call after the cooldown is let through, and when it
  succeeds its result is returned and the breaker is closed, without failures and opening time,
  in the manager and in the file, so that the next call is let through too.
\<close>

theorem breaker_recovers:
  assumes "bm_enabled m" and "cb_state (breaker_of service m) = Open" and "cooled_down (w_now w) (breaker_of service m)"
    and "\<forall>w1. fst (fn w1) = Inr x"
  shows "\<exists>m' w'. wrap service fn m w = (Inr x, m', w')
    \<and> cb_state (breaker_of service m') = Closed \<and> cb_failures (breaker_of service m') = 0
    \<and> cb_opened_at (breaker_of service m') = None
    \<and> bm_file m' = Content (manager_snapshot m')
    \<and> (\<forall>now. fst (allow_request now (breaker_of service m')))"
proof -
  obtain b' where a: "allow_request (w_now w) (breaker_of service m) = (True, b')"
    using assms(2,3) by (auto simp: allow_request_def try_trial_def)
  obtain w1 m2 where r: "wrap service fn m w = (case fn w1 of
             (Inl e, w2) \<Rightarrow> (Inl e, settle_failure service e m2 w2) | (Inr r, w2) \<Rightarrow> (Inr r, settle_success service m2 w2))"
    by (rule wrap_allowed [OF assms(1) a, of fn])
  obtain w2 where f: "fn w1 = (Inr x, w2)" using assms(4) by (metis prod.collapse)
  obtain m' w' where s: "settle_success service m2 w2 = (m', w')" by fastforce
  have b: "breaker_of service m' = snd (record_success (breaker_of service m2))"
    using settle_breaker(2) [of service service m2 w2] s by simp
  have "bm_file m' = Content (manager_snapshot m')"
    using s by (auto simp: settle_success_def persist_def manager_snapshot_def Let_def split: prod.splits)
  then show ?thesis using r f s b by (simp add: record_success_def allow_request_def)
qed

theorem breaker_recovers_witness:
  "let b = (new_breaker ''gmail'' 1 60 1)\<lparr>cb_state := Open, cb_opened_at := Some 0, cb_failures := 1\<rparr>;
       m = \<lparr>bm_enabled = True, bm_threshold = 1, bm_open_seconds = 60, bm_max_trials = 1,
            bm_breakers = [(''gmail'', b)], bm_file = Missing\<rparr>
   in \<exists>m' w'. wrap ''gmail'' (\<lambda>w. (Inr (7 :: nat), w)) m (empty_world 60000000) = (Inr 7, m', w')
        \<and> cb_state (breaker_of ''gmail'' m') = Closed"
proof -
  let ?b = "(new_breaker ''gmail'' 1 60 1)\<lparr>cb_state := Open, cb_opened_at := Some 0, cb_failures := 1\<rparr>"
  let ?m = "\<lparr>bm_enabled = True, bm_threshold = 1, bm_open_seconds = 60, bm_max_trials = 1,
            bm_breakers = [(''gmail'', ?b)], bm_file = Missing\<rparr>"
  have "cooled_down (w_now (empty_world 60000000)) (breaker_of ''gmail'' ?m)"
    by (simp add: breaker_of_def manager_get_def cooled_down_def seconds_def empty_world_def new_breaker_def)
  then show ?thesis
    using breaker_recovers [of ?m "''gmail''" "empty_world 60000000" "\<lambda>w. (Inr (7 :: nat), w)" 7]
    by (auto simp: breaker_of_def manager_get_def Let_def)
qed

end
