(* ===== verification/PyFloat.thy ===== *)
theory PyFloat
  imports PyText
begin

section \<open>Floating-point settings\<close>

text \<open>
  What the settings in seconds need of Python's \<open>float\<close>: reading a literal, the comparisons
  behind \<open>max\<close> and \<open>min\<close> (every comparison with \<open>nan\<close> is false) and products. A finite value is
  kept as an exact decimal, mantissa and exponent: the rounding to 53 bits is not modelled, the
  overflow to infinity is.
\<close>

datatype pyfloat = Num int int | Infty | Minus_Infty | NaN

text \<open>\<open>Num m e\<close> stands for \<open>m * 10 ^ e\<close>; two decimals are compared at the smaller exponent.\<close>

definition decimal_less :: "int \<Rightarrow> int \<Rightarrow> int \<Rightarrow> int \<Rightarrow> bool" where
  "decimal_less m e n f \<longleftrightarrow> m * 10 ^ nat (e - min e f) < n * 10 ^ nat (f - min e f)"

lemma decimal_less_irrefl [simp]: "\<not> decimal_less m e m e"
  by (simp add: decimal_less_def)

lemma decimal_less_asym: "decimal_less m e n f \<Longrightarrow> \<not> decimal_less n f m e"
  by (simp add: decimal_less_def min.commute)

text \<open>
  From half a unit above the largest number on, a value is rounded to infinity. A value
  of at most 308 digits before the point is below that.
\<close>

definition overflow_bound :: int where
  "overflow_bound = 2 ^ 1024 - 2 ^ 970"

definition rounded :: "int \<Rightarrow> int \<Rightarrow> pyfloat" where
  "rounded m e =
     (if int (length (show_int \<bar>m\<bar>)) + e \<le> 308 then Num m e
      else if \<not> decimal_less m e overflow_bound 0 then Infty
      else if \<not> decimal_less (- overflow_bound) 0 m e then Minus_Infty else Num m e)"

fun float_less :: "pyfloat \<Rightarrow> pyfloat \<Rightarrow> bool" where
  "float_less (Num m e) (Num n f) \<longleftrightarrow> decimal_less m e n f"
| "float_less NaN y \<longleftrightarrow> False"
| "float_less x NaN \<longleftrightarrow> False"
| "float_less Minus_Infty y \<longleftrightarrow> y \<noteq> Minus_Infty"
| "float_less x Infty \<longleftrightarrow> x \<noteq> Infty"
| "float_less x y \<longleftrightarrow> False"

text \<open>\<open>max(a, b)\<close> is \<open>a\<close> unless \<open>b > a\<close>; \<open>min(a, b)\<close> is \<open>a\<close> unless \<open>b < a\<close>.\<close>

definition float_max :: "pyfloat \<Rightarrow> pyfloat \<Rightarrow> pyfloat" where
  "float_max a b = (if float_less a b then b else a)"

definition float_min :: "pyfloat \<Rightarrow> pyfloat \<Rightarrow> pyfloat" where
  "float_min a b = (if float_less b a then b else a)"

text \<open>A product with a positive decimal.\<close>

definition float_scale :: "int \<Rightarrow> int \<Rightarrow> pyfloat \<Rightarrow> pyfloat" where
  "float_scale m e x = (case x of Num n f \<Rightarrow> rounded (m * n) (e + f) | _ \<Rightarrow> x)"

subsection \<open>Literals\<close>

definition exponent_of :: "string \<Rightarrow> int option" where
  "exponent_of s =
     (case s of [] \<Rightarrow> Some 0
      | e # cs \<Rightarrow>
          if e \<noteq> CHR ''e'' then None
          else (let (neg, t) = take_sign cs; (ds, rest) = take_digits t
                in if ds = [] \<or> rest \<noteq> [] then None
                   else Some ((if neg then - 1 else 1) * int_of_digits ds)))"

definition unsigned_float :: "string \<Rightarrow> pyfloat option" where
  "unsigned_float t =
     (if t \<in> {''inf'', ''infinity''} then Some Infty
      else if t = ''nan'' then Some NaN
      else
        (let (a, r1) = take_digits t;
             (b, r2) = (case r1 of c # cs \<Rightarrow> if c = CHR ''.'' then take_digits cs else ([], r1) | [] \<Rightarrow> ([], []))
         in if a = [] \<and> b = [] then None
            else map_option (\<lambda>e. rounded (int_of_digits (a @ b)) (e - int (length b))) (exponent_of r2)))"

definition float_neg :: "pyfloat \<Rightarrow> pyfloat" where
  "float_neg x = (case x of Num m e \<Rightarrow> Num (- m) e | Infty \<Rightarrow> Minus_Infty | Minus_Infty \<Rightarrow> Infty | NaN \<Rightarrow> NaN)"

text \<open>\<open>float(s)\<close>; \<open>None\<close> is the \<open>ValueError\<close>.\<close>

definition py_float :: "string \<Rightarrow> pyfloat option" where
  "py_float s =
     (let (neg, t) = take_sign (casefold (strip s))
      in map_option (\<lambda>x. if neg then float_neg x else x) (unsigned_float t))"

subsection \<open>Clamping\<close>

text \<open>
  A setting clamped from below is a number not under the bound or infinity, whatever was
  set: \<open>nan\<close> and minus infinity give the bound.
\<close>

definition at_least :: "pyfloat \<Rightarrow> pyfloat \<Rightarrow> bool" where
  "at_least q x \<longleftrightarrow> x \<noteq> NaN \<and> \<not> float_less x q"

lemma float_less_irrefl [simp]: "\<not> float_less x x"
  by (cases x) simp_all

lemma float_less_asym: "float_less x y \<Longrightarrow> \<not> float_less y x"
  by (cases x; cases y) (auto dest: decimal_less_asym)

lemma float_less_number: "float_less x y \<Longrightarrow> x \<noteq> NaN \<and> y \<noteq> NaN"
  by (cases x; cases y) auto

lemma at_least_max: "q \<noteq> NaN \<Longrightarrow> at_least q (float_max q x)"
  using float_less_asym [of q x] float_less_number [of q x] by (auto simp: float_max_def at_least_def)

lemma at_least_min: "at_least q x \<Longrightarrow> at_least q y \<Longrightarrow> at_least q (float_min x y)"
  by (auto simp: float_min_def)

lemma float_min_le: "\<not> float_less y (float_min x y) \<and> \<not> float_less x (float_min x y)"
  using float_less_asym [of y x] by (auto simp: float_min_def)

subsection \<open>Positive values\<close>

definition positive :: "pyfloat \<Rightarrow> bool" where
  "positive x \<longleftrightarrow> float_less (Num 0 0) x"

lemma positive_Num [simp]: "positive (Num m e) \<longleftrightarrow> 0 < m"
  by (simp add: positive_def decimal_less_def zero_less_mult_iff)

lemma positive_Infty [simp]: "positive Infty"
  by (simp add: positive_def)

lemma positive_min: "positive x \<Longrightarrow> positive y \<Longrightarrow> positive (float_min x y)"
  by (simp add: float_min_def)

lemma negative_less: "b < 0 \<Longrightarrow> 0 < m \<Longrightarrow> decimal_less b 0 m e"
proof -
  assume "b < 0" and "0 < m"
  then have "b * 10 ^ nat (0 - min 0 e) < 0" and "0 < m * 10 ^ nat (e - min 0 e)"
    by (simp_all add: mult_neg_pos)
  then show ?thesis unfolding decimal_less_def by linarith
qed

lemma overflow_bound_pos: "0 < overflow_bound"
  by (simp add: overflow_bound_def)

lemma positive_rounded: "0 < m \<Longrightarrow> positive (rounded m e)"
  using negative_less [of "- overflow_bound" m e] overflow_bound_pos by (simp add: rounded_def)

lemma positive_scale: "positive x \<Longrightarrow> 0 < c \<Longrightarrow> positive (float_scale c f x)"
  by (cases x) (simp_all add: float_scale_def positive_rounded positive_def [of Minus_Infty] positive_def [of NaN])

lemma positive_clamped: "0 < m \<Longrightarrow> positive (float_max (Num m e) x)"
proof (cases x)
  case (Num n f)
  assume m: "0 < m"
  show ?thesis
  proof (cases "decimal_less m e n f")
    case True
    have "0 < m * 10 ^ nat (e - min e f)" using m by simp
    then have "0 < n * 10 ^ nat (f - min e f)" using True unfolding decimal_less_def by linarith
    then have "0 < n" by (simp add: zero_less_mult_iff)
    then show ?thesis using Num m by (simp add: float_max_def)
  qed (use Num m in \<open>simp add: float_max_def\<close>)
qed (simp_all add: float_max_def)

end
