(* ===== verification/Http.thy ===== *)
theory Http
  imports Breaker PyFloat
begin

section \<open>The two HTTP clients with retries\<close>

text \<open>
  \<open>core/net/http.py\<close> (\<open>request_json\<close>, used for the language model) and
  \<open>core/http/client.py\<close> (\<open>request_with_retry\<close>, used for web hooks). The transport, the
  \<open>httpx\<close> client, is a parameter \<open>send\<close>: a function of a state of its own that answers
  each request with a response, with one of the subclasses of \<open>httpx.HTTPError\<close>, or with
  another exception (\<open>httpx.InvalidURL\<close> for an address it cannot parse), which no handler of the
  two clients names; a request carries the timeouts it is sent with. Of the pauses only their
  lengths are modelled, and that one that is negative, or too long for the clock, raises (the
  second for the web hooks only, whose settings are floating-point numbers).
\<close>

subsection \<open>The transport\<close>

datatype http_exc =
    ConnectTimeout | ReadTimeout | WriteTimeout | PoolTimeout
  | ConnectError | ReadError | WriteError | CloseError
  | RemoteProtocolError | LocalProtocolError | OtherHTTPError string

fun exc_name :: "http_exc \<Rightarrow> string" where
  "exc_name ConnectTimeout = ''ConnectTimeout''"
| "exc_name ReadTimeout = ''ReadTimeout''"
| "exc_name WriteTimeout = ''WriteTimeout''"
| "exc_name PoolTimeout = ''PoolTimeout''"
| "exc_name ConnectError = ''ConnectError''"
| "exc_name ReadError = ''ReadError''"
| "exc_name WriteError = ''WriteError''"
| "exc_name CloseError = ''CloseError''"
| "exc_name RemoteProtocolError = ''RemoteProtocolError''"
| "exc_name LocalProtocolError = ''LocalProtocolError''"
| "exc_name (OtherHTTPError n) = n"

text \<open>\<open>httpx\<close>'s \<open>TimeoutException\<close> and \<open>NetworkError\<close>, with their subclasses.\<close>

definition is_timeout :: "http_exc \<Rightarrow> bool" where
  "is_timeout e \<longleftrightarrow> e \<in> {ConnectTimeout, ReadTimeout, WriteTimeout, PoolTimeout}"

definition is_network :: "http_exc \<Rightarrow> bool" where
  "is_network e \<longleftrightarrow> e \<in> {ConnectError, ReadError, WriteError, CloseError}"

text \<open>A response is its status and its body: JSON, or something \<open>json()\<close> rejects.\<close>

datatype outcome = Response nat "json option" | Failed_with http_exc | Raised string

text \<open>The timeouts of a request: for the whole and for the connection, or none at all.\<close>

datatype timeouts = No_timeout | Timeout pyfloat pyfloat

record http_request =
  rq_method :: string
  rq_url :: string
  rq_headers :: "string dict option"
  rq_json :: json
  rq_timeout :: timeouts

subsection \<open>Settings and the shared clients\<close>

definition get_float_env :: "string \<Rightarrow> pyfloat \<Rightarrow> world \<Rightarrow> pyfloat" where
  "get_float_env name dflt w =
     (case w_env w name of None \<Rightarrow> dflt
      | Some raw \<Rightarrow> (case py_float raw of None \<Rightarrow> dflt | Some x \<Rightarrow> x))"

definition get_int_env :: "string \<Rightarrow> int \<Rightarrow> world \<Rightarrow> int" where
  "get_int_env name dflt w = env_int name dflt w"

text \<open>\<open>_timeout\<close> of \<open>net/http.py\<close>: one number for everything, at least 0.1.\<close>

definition json_timeout :: "pyfloat option \<Rightarrow> world \<Rightarrow> timeouts" where
  "json_timeout timeout_s w =
     (let t = float_max (Num 1 (- 1))
                (case timeout_s of None \<Rightarrow> get_float_env ''BENJAMIN_HTTP_TIMEOUT_S'' (Num 10 0) w | Some x \<Rightarrow> x)
      in Timeout t t)"

text \<open>\<open>_build_timeout\<close> of \<open>http/client.py\<close>.\<close>

definition build_timeout :: "pyfloat option \<Rightarrow> world \<Rightarrow> timeouts" where
  "build_timeout total_s w =
     (let connect_s = float_max (Num 1 (- 1)) (get_float_env ''BENJAMIN_HTTP_CONNECT_TIMEOUT_S'' (Num 5 0) w);
          read_total = float_max (Num 1 (- 1))
            (case total_s of None \<Rightarrow> get_float_env ''BENJAMIN_HTTP_TIMEOUT_S'' (Num 15 0) w | Some x \<Rightarrow> x)
      in Timeout read_total (float_min connect_s read_total))"

text \<open>
  \<open>get_http_client\<close>: each module makes its \<open>httpx.Client\<close> once, with a timeout and a
  user agent for every request that says nothing else.
\<close>

record http_client =
  hc_timeout :: timeouts
  hc_user_agent :: string

definition get_client :: "(world \<Rightarrow> timeouts) \<Rightarrow> world \<Rightarrow> http_client option \<Rightarrow> http_client \<times> http_client option" where
  "get_client timeout_of w held =
     (case held of
        Some c \<Rightarrow> (c, held)
      | None \<Rightarrow> (let c = \<lparr>hc_timeout = timeout_of w, hc_user_agent = getenv ''BENJAMIN_HTTP_USER_AGENT'' ''BENJAMIN/1.0'' w\<rparr>
                in (c, Some c)))"

definition get_json_client :: "world \<Rightarrow> http_client option \<Rightarrow> http_client \<times> http_client option" where
  "get_json_client = get_client (json_timeout None)"

definition get_hook_client :: "world \<Rightarrow> http_client option \<Rightarrow> http_client \<times> http_client option" where
  "get_hook_client = get_client (build_timeout None)"

subsection \<open>The retry loop\<close>

text \<open>
  \<open>for attempt in range(attempts)\<close>: one request, and what its outcome means - return or
  raise, or sleep and try again. \<open>last\<close> is whether \<open>attempt >= max_retries\<close>; \<open>pause\<close> is
  what \<open>time.sleep\<close> raises after the attempt, if anything.
\<close>

datatype 'r verdict = Settle "'r res" | Again

definition sleep_error :: exc where
  "sleep_error = ValueError ''sleep length must be non-negative''"

fun attempt_loop ::
  "(bool \<Rightarrow> 'o \<Rightarrow> 'r verdict) \<Rightarrow> (nat \<Rightarrow> exc option) \<Rightarrow> ('s \<Rightarrow> 'o \<times> 's) \<Rightarrow> exc \<Rightarrow> int \<Rightarrow> nat list \<Rightarrow> 's
     \<Rightarrow> 'r res \<times> 's" where
  "attempt_loop judge pause send unknown mx [] s = (Inl unknown, s)"
| "attempt_loop judge pause send unknown mx (n # ns) s =
     (let (out, s') = send s
      in case judge (mx \<le> int n) out of
           Settle r \<Rightarrow> (r, s')
         | Again \<Rightarrow> (case pause n of
                         Some e \<Rightarrow> (Inl e, s')
                       | None \<Rightarrow> attempt_loop judge pause send unknown mx ns s'))"

definition attempts :: "int \<Rightarrow> nat list" where
  \<comment> \<open>\<open>range(max_retries + 1)\<close>\<close>
  "attempts mx = [0..<nat (mx + 1)]"

subsection \<open>The client of the language model\<close>

definition judge_json :: "string \<Rightarrow> string \<Rightarrow> bool \<Rightarrow> outcome \<Rightarrow> json dict verdict" where
  "judge_json method url final out =
     (let at = method @ '':'' @ url in
      case out of
        Failed_with e \<Rightarrow>
          if is_timeout e then
            (if final then Settle (Inl (RuntimeError (''request_timeout:'' @ at))) else Again)
          else if is_network e \<or> e = RemoteProtocolError then
            (if final then Settle (Inl (RuntimeError (''request_connection_error:'' @ at))) else Again)
          else Settle (Inl (RuntimeError (''request_http_error:'' @ at @ '':'' @ exc_name e)))
      | Raised e \<Rightarrow> Settle (Inl (OtherException e))
      | Response status body \<Rightarrow>
          if 200 \<le> status \<and> status < 300 then
            Settle (case body of
                None \<Rightarrow> Inl (ValueError ''body is not JSON'')
              | Some (JDict d) \<Rightarrow> Inr d
              | Some j \<Rightarrow> Inr [(''data'', j)])
          else if status = 429 then
            (if final then Settle (Inl (RuntimeError (''request_rate_limited:'' @ at))) else Again)
          else if 500 \<le> status then
            (if final then Settle (Inl (RuntimeError (''request_server_error:'' @ show_nat status @ '':'' @ at))) else Again)
          else Settle (Inl (RuntimeError (''request_client_error:'' @ show_nat status @ '':'' @ at))))"

text \<open>\<open>jitter n\<close> is what \<open>random.randint(0, max(1, base_ms // 4))\<close> returned on attempt \<open>n\<close>.\<close>

definition sleep_backoff :: "(nat \<Rightarrow> int) \<Rightarrow> int \<Rightarrow> nat \<Rightarrow> int" where
  "sleep_backoff jitter base_ms attempt = base_ms * 2 ^ attempt + jitter attempt"

definition json_pause :: "(nat \<Rightarrow> int) \<Rightarrow> int \<Rightarrow> nat \<Rightarrow> exc option" where
  "json_pause jitter base_ms attempt = (if sleep_backoff jitter base_ms attempt < 0 then Some sleep_error else None)"

definition request_json ::
  "(http_request \<Rightarrow> 's \<Rightarrow> outcome \<times> 's) \<Rightarrow> (nat \<Rightarrow> int) \<Rightarrow> world \<Rightarrow> string \<Rightarrow> string \<Rightarrow> string dict option \<Rightarrow> json
     \<Rightarrow> pyfloat option \<Rightarrow> int option \<Rightarrow> int option \<Rightarrow> 's \<Rightarrow> json dict res \<times> 's" where
  "request_json send jitter env method url headers body timeout_s retries backoff s =
     (let mx = (case retries of None \<Rightarrow> get_int_env ''BENJAMIN_HTTP_RETRIES'' 2 env | Some r \<Rightarrow> max 0 r);
          base = (case backoff of None \<Rightarrow> get_int_env ''BENJAMIN_HTTP_BACKOFF_BASE_MS'' 250 env | Some b \<Rightarrow> max 1 b)
      in attempt_loop (judge_json method url) (json_pause jitter base)
           (send \<lparr>rq_method = method, rq_url = url, rq_headers = headers, rq_json = body,
              rq_timeout = json_timeout timeout_s env\<rparr>)
           (RuntimeError (''request_unknown_error:'' @ method @ '':'' @ url)) mx (attempts mx) s)"

subsection \<open>The client of the web hooks\<close>

definition safe_url :: "string \<Rightarrow> bool \<Rightarrow> string" where
  "safe_url url redact = (if redact then ''[redacted-url]'' else url)"

definition merge_headers :: "string dict option \<Rightarrow> string option \<Rightarrow> string dict" where
  "merge_headers headers key =
     (let merged = (case headers of None \<Rightarrow> [] | Some h \<Rightarrow> h)
      in if str_or key [] \<noteq> [] then setdefault ''Idempotency-Key'' (str_or key []) merged else merged)"

definition RETRYABLE_STATUS_CODES :: "nat list" where
  "RETRYABLE_STATUS_CODES = [429, 500, 502, 503, 504]"

definition RETRYABLE_EXCEPTIONS :: "http_exc list" where
  "RETRYABLE_EXCEPTIONS = [ConnectError, ReadTimeout, RemoteProtocolError]"

definition judge_status :: "string \<Rightarrow> nat set option \<Rightarrow> bool \<Rightarrow> outcome \<Rightarrow> (nat \<times> json option) verdict" where
  "judge_status url allowed final out =
     (case out of
        Failed_with e \<Rightarrow>
          if e \<in> set RETRYABLE_EXCEPTIONS then
            (if final then Settle (Inl (RuntimeError (''HTTP request failed after retries for '' @ url @ '': '' @ exc_name e)))
             else Again)
          else Settle (Inl (RuntimeError (''HTTP request error for '' @ url @ '': '' @ exc_name e)))
      | Raised e \<Rightarrow> Settle (Inl (OtherException e))
      | Response status body \<Rightarrow>
          if (case allowed of None \<Rightarrow> False | Some ok \<Rightarrow> status \<in> ok) \<or> (200 \<le> status \<and> status < 300)
          then Settle (Inr (status, body))
          else if status \<in> set RETRYABLE_STATUS_CODES \<and> \<not> final then Again
          else Settle (Inl (RuntimeError (''HTTP status '' @ show_nat status @ '' for '' @ url))))"

text \<open>
  \<open>_sleep_for_retry\<close>: \<open>j / 2 ^ 53\<close> is what \<open>random.random()\<close> returned, so that the factor
  \<open>0.5 + j / 2 ^ 53\<close> is the decimal below. The pauses are positive (lemma \<open>pauses_positive\<close>), as
  both of the back-off settings are clamped; \<open>2 ^ attempt\<close> fits into a number.
\<close>

definition backoff_base :: "world \<Rightarrow> pyfloat" where
  "backoff_base w = float_max (Num 1 (- 2)) (get_float_env ''BENJAMIN_HTTP_BACKOFF_BASE_S'' (Num 25 (- 2)) w)"

definition backoff_max :: "world \<Rightarrow> pyfloat" where
  "backoff_max w = float_max (Num 1 (- 2)) (get_float_env ''BENJAMIN_HTTP_BACKOFF_MAX_S'' (Num 2 0) w)"

definition sleep_for_retry :: "nat \<Rightarrow> nat \<Rightarrow> pyfloat \<Rightarrow> pyfloat \<Rightarrow> pyfloat" where
  "sleep_for_retry j attempt base mx =
     float_scale (5 * 10 ^ 52 + int j * 5 ^ 53) (- 53) (float_min mx (float_scale (2 ^ attempt) 0 base))"

text \<open>\<open>time.sleep\<close> takes less than \<open>2 ^ 63\<close> nanoseconds, some 292 years.\<close>

definition sleep_overflow :: exc where
  "sleep_overflow = OverflowError ''timestamp too large to convert to C PyTime_t''"

definition hook_pause :: "(nat \<Rightarrow> nat) \<Rightarrow> world \<Rightarrow> nat \<Rightarrow> exc option" where
  "hook_pause jit w attempt =
     (if float_less (sleep_for_retry (jit attempt) attempt (backoff_base w) (backoff_max w)) (Num (2 ^ 63) (- 9))
      then None else Some sleep_overflow)"

definition request_with_retry ::
  "(http_request \<Rightarrow> 's \<Rightarrow> outcome \<times> 's) \<Rightarrow> (nat \<Rightarrow> nat) \<Rightarrow> world \<Rightarrow> string \<Rightarrow> string \<Rightarrow> string dict option \<Rightarrow> json \<Rightarrow> pyfloat option
     \<Rightarrow> int option \<Rightarrow> nat set option \<Rightarrow> bool \<Rightarrow> string option \<Rightarrow> 's \<Rightarrow> (nat \<times> json option) res \<times> 's" where
  "request_with_retry send jit env method url headers body timeout_override retries allowed redact key s =
     (let mx = (case retries of None \<Rightarrow> get_int_env ''BENJAMIN_HTTP_RETRIES'' 2 env | Some r \<Rightarrow> max 0 r);
          merged = merge_headers headers key;
          shown = safe_url url redact
      in attempt_loop (judge_status shown allowed) (hook_pause jit env)
           (send \<lparr>rq_method = method, rq_url = url, rq_headers = (if merged = [] then None else Some merged), rq_json = body,
              rq_timeout = (case timeout_override of None \<Rightarrow> No_timeout | Some t \<Rightarrow> build_timeout (Some t) env)\<rparr>)
           (RuntimeError (''HTTP request failed for '' @ shown @ '': None'')) mx (attempts mx) s)"

subsection \<open>How often a request is sent\<close>

text \<open>
  What the loop promises, for any client: the outcome of the attempt that settles the
  request decides the result, and every attempt before it was followed by a pause.
  \<open>answers\<close> is the sequence of outcomes the transport gives, numbered by the requests sent.
\<close>

locale retry_client =
  fixes judge :: "bool \<Rightarrow> 'o \<Rightarrow> 'r verdict" and pause :: "nat \<Rightarrow> exc option" and bounded :: "nat \<Rightarrow> bool"
  assumes final_settles: "judge True out \<noteq> Again"
    and pause_returns: "bounded n \<Longrightarrow> pause n = None"
begin

definition run :: "(nat \<Rightarrow> 'o) \<Rightarrow> exc \<Rightarrow> int \<Rightarrow> nat list \<Rightarrow> nat \<Rightarrow> 'r res \<times> nat" where
  "run answers unknown mx ns i = attempt_loop judge pause (\<lambda>i. (answers i, Suc i)) unknown mx ns i"

lemma run_from:
  assumes "i \<le> k" and "int k \<le> mx" and "\<And>j. i \<le> j \<Longrightarrow> j < k \<Longrightarrow> judge False (answers j) = Again \<and> bounded j"
    and "judge (mx \<le> int k) (answers k) = Settle r"
  shows "run answers unknown mx [i..<nat (mx + 1)] i = (r, Suc k)"
  using assms
proof (induction "k - i" arbitrary: i)
  case 0
  then have "i = k" "k < nat (mx + 1)" by auto
  then show ?case using 0 by (simp add: run_def upt_conv_Cons)
next
  case (Suc d)
  then have "i < k" "i < nat (mx + 1)" "\<not> mx \<le> int i" by auto
  then have "run answers unknown mx [i..<nat (mx + 1)] i = run answers unknown mx [Suc i..<nat (mx + 1)] (Suc i)"
    using Suc.prems(3) [of i] pause_returns [of i] by (simp add: run_def upt_conv_Cons)
  also have "\<dots> = (r, Suc k)"
    using Suc by (intro Suc.hyps(1)) auto
  finally show ?case .
qed

text \<open>The attempt that settles: the first one that is not retried, at the latest the last one.\<close>

lemma run_settles:
  assumes "0 \<le> mx" and "\<And>j. int j < mx \<Longrightarrow> bounded j"
  obtains k r where "int k \<le> mx" and "\<And>j. j < k \<Longrightarrow> judge False (answers j) = Again"
    and "judge (mx \<le> int k) (answers k) = Settle r"
    and "run answers unknown mx (attempts mx) 0 = (r, Suc k)"
proof -
  define settled where "settled j \<longleftrightarrow> judge (mx \<le> int j) (answers j) \<noteq> Again" for j
  have "settled (nat mx)" using final_settles assms by (simp add: settled_def)
  define k where "k = (LEAST j. settled j)"
  have k: "settled k" "\<And>j. j < k \<Longrightarrow> \<not> settled j" "k \<le> nat mx"
    unfolding k_def by (rule LeastI, rule \<open>settled (nat mx)\<close>) (use not_less_Least in blast, rule Least_le, rule \<open>settled (nat mx)\<close>)
  obtain r where r: "judge (mx \<le> int k) (answers k) = Settle r"
    using k(1) by (cases "judge (mx \<le> int k) (answers k)") (auto simp: settled_def)
  have again: "judge False (answers j) = Again \<and> bounded j" if "j < k" for j
  proof -
    have "\<not> mx \<le> int j" using that k(3) assms(1) by linarith
    then show ?thesis using k(2) [OF that] assms(2) [of j] by (simp add: settled_def)
  qed
  have "int k \<le> mx" using k(3) assms(1) by linarith
  show ?thesis
  proof (rule that)
    show "run answers unknown mx (attempts mx) 0 = (r, Suc k)"
      unfolding attempts_def by (rule run_from) (use again r \<open>int k \<le> mx\<close> in auto)
  qed (use again r \<open>int k \<le> mx\<close> in auto)
qed

end

lemma judge_json_final: "judge_json m u True out \<noteq> Again"
  by (auto simp: judge_json_def Let_def split: outcome.split)

lemma judge_status_final: "judge_status u allowed True out \<noteq> Again"
  by (auto simp: judge_status_def split: outcome.split)

interpretation hook_client: retry_client "judge_status u allowed" "hook_pause jit w"
    "\<lambda>n. float_less (sleep_for_retry (jit n) n (backoff_base w) (backoff_max w)) (Num (2 ^ 63) (- 9))" for u allowed jit w
  by unfold_locales (simp_all add: judge_status_final hook_pause_def)

interpretation json_client: retry_client "judge_json m u" "json_pause (\<lambda>n. int (jitter n)) (int base)" "\<lambda>_. True" for m u jitter base
  by unfold_locales (simp_all add: judge_json_final json_pause_def sleep_backoff_def not_less)

text \<open>
  C31. A JSON request with \<open>n\<close> retries always settles: after at most \<open>n + 1\<close> requests
  it returns, each request but the last had an outcome worth retrying, and the result is
  what the client makes of the last outcome.
\<close>

theorem request_json_settles:
  "\<exists>k\<le>nat (max 0 n). \<exists>r.
     request_json (\<lambda>_ i. (answers i, Suc i)) (\<lambda>a. int (jitter a)) env m u hs body ts (Some n) (Some base) 0 = (r, Suc k)
     \<and> list_all (\<lambda>j. judge_json m u False (answers j) = Again) [0..<k]
     \<and> judge_json m u (max 0 n \<le> int k) (answers k) = Settle r"
proof -
  have b: "int (nat (max 1 base)) = max 1 base" by simp
  let ?unknown = "RuntimeError (''request_unknown_error:'' @ m @ '':'' @ u)"
  have "0 \<le> max 0 n" by simp
  from json_client.run_settles [OF this, of m u answers jitter "nat (max 1 base)" ?unknown]
  obtain k r where k: "int k \<le> max 0 n" "\<And>j. j < k \<Longrightarrow> judge_json m u False (answers j) = Again"
      "judge_json m u (max 0 n \<le> int k) (answers k) = Settle r"
    and run: "json_client.run m u jitter (nat (max 1 base)) answers ?unknown (max 0 n) (attempts (max 0 n)) 0 = (r, Suc k)"
    by blast
  have "request_json (\<lambda>_ i. (answers i, Suc i)) (\<lambda>a. int (jitter a)) env m u hs body ts (Some n) (Some base) 0 = (r, Suc k)"
    using run [unfolded json_client.run_def, unfolded b]
    by (simp only: request_json_def Let_def option.case)
  moreover have "k \<le> nat (max 0 n)" using k(1) by linarith
  ultimately show ?thesis using k(2,3) by (auto simp: list_all_iff)
qed

text \<open>
  The client of the web hooks settles in the same way, as long as its pauses fit the clock.
\<close>

theorem request_with_retry_settles:
  assumes "\<And>j. float_less (sleep_for_retry (jit j) j (backoff_base env) (backoff_max env)) (Num (2 ^ 63) (- 9))"
  shows "\<exists>k\<le>nat (max 0 n). \<exists>r.
     request_with_retry (\<lambda>_ i. (answers i, Suc i)) jit env m u hs body ts (Some n) allowed redact key 0 = (r, Suc k)
     \<and> list_all (\<lambda>j. judge_status (safe_url u redact) allowed False (answers j) = Again) [0..<k]
     \<and> judge_status (safe_url u redact) allowed (max 0 n \<le> int k) (answers k) = Settle r"
proof -
  let ?unknown = "RuntimeError (''HTTP request failed for '' @ safe_url u redact @ '': None'')"
  have "0 \<le> max 0 n" by simp
  from hook_client.run_settles [OF this assms, of "safe_url u redact" allowed answers ?unknown]
  obtain k r where k: "int k \<le> max 0 n" "\<And>j. j < k \<Longrightarrow> judge_status (safe_url u redact) allowed False (answers j) = Again"
      "judge_status (safe_url u redact) allowed (max 0 n \<le> int k) (answers k) = Settle r"
    and run: "hook_client.run (safe_url u redact) allowed jit env answers ?unknown (max 0 n) (attempts (max 0 n)) 0 = (r, Suc k)"
    by blast
  have "request_with_retry (\<lambda>_ i. (answers i, Suc i)) jit env m u hs body ts (Some n) allowed redact key 0 = (r, Suc k)"
    using run [unfolded hook_client.run_def] by (simp only: request_with_retry_def Let_def option.case)
  moreover have "k \<le> nat (max 0 n)" using k(1) by linarith
  ultimately show ?thesis using k(2,3) by (auto simp: list_all_iff)
qed

text \<open>
  A negative retry setting in the environment is not clamped, unlike the parameter:
  with \<open>BENJAMIN_HTTP_RETRIES=-1\<close> neither client ever sends a request; both fail with
  the error meant to be unreachable.
\<close>

theorem negative_retries_send_nothing:
  assumes "w_env env ''BENJAMIN_HTTP_RETRIES'' = Some ''-1''"
  shows "request_json send jitter env m u hs body ts None base s
      = (Inl (RuntimeError (''request_unknown_error:'' @ m @ '':'' @ u)), s)
    \<and> request_with_retry send jit env m u hs body ts None allowed False key s
      = (Inl (RuntimeError (''HTTP request failed for '' @ u @ '': None'')), s)"
proof -
  have "py_int ''-1'' = Some (- 1)" by code_simp
  then have "get_int_env ''BENJAMIN_HTTP_RETRIES'' 2 env = - 1"
    using assms by (simp add: get_int_env_def env_int_def)
  then show ?thesis
    by (simp add: request_json_def request_with_retry_def attempts_def safe_url_def Let_def)
qed

theorem negative_retries_send_nothing_witness:
  "fst (request_json (\<lambda>_ i. (Response 200 (Some (JDict [])), Suc i)) (\<lambda>_. 0)
      ((empty_world 0)\<lparr>w_env := [''BENJAMIN_HTTP_RETRIES'' \<mapsto> ''-1'']\<rparr>) ''GET'' ''u'' None JNull None None None 0)
    = Inl (RuntimeError ''request_unknown_error:GET:u'')"
  using negative_retries_send_nothing
    [where env = "(empty_world 0)\<lparr>w_env := [''BENJAMIN_HTTP_RETRIES'' \<mapsto> ''-1'']\<rparr>" and s = "0 :: nat"
      and send = "\<lambda>_ i. (Response 200 (Some (JDict [])), Suc i)" and jitter = "\<lambda>_. 0" and m = "''GET''" and u = "''u''"
      and hs = None and body = JNull and ts = None and base = None]
  by simp

subsection \<open>Timeouts and pauses\<close>

definition timeout_ok :: "timeouts \<Rightarrow> bool" where
  "timeout_ok t \<longleftrightarrow> (case t of No_timeout \<Rightarrow> False
     | Timeout whole connect \<Rightarrow> at_least (Num 1 (- 1)) whole \<and> at_least (Num 1 (- 1)) connect \<and> \<not> float_less whole connect)"

text \<open>
  Whatever the settings and the callers say, every timeout the two clients are given or made
  with is at least a tenth of a second (or infinite), and the one for the connection is not
  longer than the one for the whole request.
\<close>

theorem timeouts_clamped:
  "timeout_ok (json_timeout t w)" "timeout_ok (build_timeout t w)"
  "timeout_ok (hc_timeout (fst (get_json_client w None)))" "timeout_ok (hc_timeout (fst (get_hook_client w None)))"
proof -
  have clamp: "at_least (Num 1 (- 1)) (float_max (Num 1 (- 1)) x)" for x by (rule at_least_max) simp
  show json: "timeout_ok (json_timeout t w)" for t
    using clamp by (simp add: timeout_ok_def json_timeout_def Let_def)
  show build: "timeout_ok (build_timeout t w)" for t
    using clamp at_least_min [OF clamp clamp] float_min_le
    by (simp add: timeout_ok_def build_timeout_def Let_def)
  show "timeout_ok (hc_timeout (fst (get_json_client w None)))" "timeout_ok (hc_timeout (fst (get_hook_client w None)))"
    using json build by (simp_all add: get_json_client_def get_hook_client_def get_client_def Let_def)
qed

lemma pauses_positive: "positive (sleep_for_retry j attempt (backoff_base w) (backoff_max w))"
proof -
  have "positive (backoff_base w)" "positive (backoff_max w)"
    by (simp_all add: backoff_base_def backoff_max_def positive_clamped)
  then have "positive (float_min (backoff_max w) (float_scale (2 ^ attempt) 0 (backoff_base w)))"
    by (intro positive_min positive_scale) simp_all
  then show ?thesis unfolding sleep_for_retry_def by (rule positive_scale) simp
qed

text \<open>
  A request without an override is sent with no timeout at all: \<open>timeout=None\<close> does not leave the
  choice to the client, whose own timeout is never used.
\<close>

theorem no_override_no_timeout:
  "request_with_retry (\<lambda>rq rqs. (Response 200 None, rqs @ [rq_timeout rq])) jit env m u hs body None (Some 0) allowed redact key []
     = (Inr (200, None), [No_timeout])"
  by (simp add: request_with_retry_def attempts_def judge_status_def Let_def)

end
