(* ===== verification/Llm.thy ===== *)
theory Llm
  imports Http Policy
begin

section \<open>The language model behind the breaker\<close>

text \<open>
  \<open>core/models/llm_provider.py\<close> and \<open>llm_openai_compat.py\<close>: the switches that turn the
  features on, one completion (two attempts behind the breaker of the service \<open>llm\<close>), and
  the extraction of a JSON object from the answer. What the server answers is the transport
  \<open>send\<close>, a parameter that works on the shared state. The temperatures of the
  requests are JSON values of the caller (the model's JSON has no fractions); log lines are left
  out, and the trace argument, which no caller passes.
\<close>

subsection \<open>Feature switches\<close>

definition provider_of :: "world \<Rightarrow> string" where
  "provider_of w = casefold (getenv ''BENJAMIN_LLM_PROVIDER'' ''off'' w)"

definition configured :: "string \<Rightarrow> world \<Rightarrow> bool" where
  "configured name w \<longleftrightarrow>
     casefold (getenv name (if provider_of w \<noteq> ''off'' then ''on'' else ''off'') w) = ''on''"

definition feature_enabled :: "string \<Rightarrow> world \<Rightarrow> bool" where
  "feature_enabled name w =
     (if \<not> is_safe_mode_enabled w then configured name w
      else if name \<in> {''BENJAMIN_LLM_PLANNER'', ''BENJAMIN_LLM_DRAFTER''} then False
      else if name = ''BENJAMIN_LLM_SUMMARIZER'' then configured name w \<and> safe_mode_allow_summarizer w
      else if name = ''BENJAMIN_LLM_RULE_BUILDER'' then configured name w \<and> safe_mode_allow_rule_builder w
      else configured name w)"

subsection \<open>One completion\<close>

text \<open>What a call can raise: the two exceptions of the module, or one it does not handle.\<close>

datatype llm_exc = LLMUnavailable string | LLMOutputError string | Unhandled exc

record llm =
  lm_provider :: string
  lm_model :: string
  lm_url :: string
  lm_timeout :: pyfloat
  lm_temperature :: pyfloat
  lm_strict_json :: bool
  lm_tokens_json :: int
  lm_tokens_text :: int

definition int_setting :: "string \<Rightarrow> string \<Rightarrow> world \<Rightarrow> int res" where
  \<comment> \<open>\<open>int(os.getenv(name, default))\<close>\<close>
  "int_setting name dflt w =
     (case py_int (getenv name dflt w) of
        None \<Rightarrow> Inl (ValueError ''invalid literal for int() with base 10'') | Some i \<Rightarrow> Inr i)"

definition float_setting :: "string \<Rightarrow> string \<Rightarrow> world \<Rightarrow> pyfloat res" where
  \<comment> \<open>\<open>float(os.getenv(name, default))\<close>\<close>
  "float_setting name dflt w =
     (case py_float (getenv name dflt w) of
        None \<Rightarrow> Inl (ValueError ''could not convert string to float'') | Some x \<Rightarrow> Inr x)"

definition llm_init :: "world \<Rightarrow> llm res" where
  "llm_init w =
     (case float_setting ''BENJAMIN_LLM_TIMEOUT_S'' ''45'' w of
        Inl e \<Rightarrow> Inl e
      | Inr timeout \<Rightarrow>
     (case float_setting ''BENJAMIN_LLM_TEMPERATURE'' ''0.2'' w of
        Inl e \<Rightarrow> Inl e
      | Inr temperature \<Rightarrow>
     (case int_setting ''BENJAMIN_LLM_MAX_TOKENS_JSON'' ''1200'' w of
        Inl e \<Rightarrow> Inl e
      | Inr json_tokens \<Rightarrow>
     (case int_setting ''BENJAMIN_LLM_MAX_TOKENS_TEXT'' ''800'' w of
        Inl e \<Rightarrow> Inl e
      | Inr text_tokens \<Rightarrow>
          Inr \<lparr>lm_provider = provider_of w, lm_model = getenv ''BENJAMIN_LLM_MODEL'' ''zai-org/GLM-4.7'' w,
               lm_url = getenv ''BENJAMIN_VLLM_URL'' ''http://127.0.0.1:8001/v1/chat/completions'' w,
               lm_timeout = timeout, lm_temperature = temperature,
               lm_strict_json = (casefold (getenv ''BENJAMIN_LLM_STRICT_JSON'' ''on'' w) = ''on''),
               lm_tokens_json = json_tokens, lm_tokens_text = text_tokens\<rparr>))))"

definition chat_payload :: "string \<Rightarrow> string \<Rightarrow> string \<Rightarrow> json \<Rightarrow> int \<Rightarrow> json option \<Rightarrow> json" where
  "chat_payload model system user temperature max_tokens response_format =
     JDict ([(''model'', JStr model),
             (''messages'', JList [JDict [(''role'', JStr ''system''), (''content'', JStr system)],
                                   JDict [(''role'', JStr ''user''), (''content'', JStr user)]]),
             (''temperature'', temperature), (''max_tokens'', JInt max_tokens)]
            @ (case response_format of None \<Rightarrow> [] | Some f \<Rightarrow> [(''response_format'', f)]))"

text \<open>\<open>str(message.get("content") or "")\<close> of the first choice; a choice that is no object has no \<open>get\<close>.\<close>

definition no_get :: exc where
  "no_get = AttributeError ''object has no attribute get''"

definition choice_content :: "json \<Rightarrow> string res" where
  "choice_content choice =
     (case choice of
        JDict c \<Rightarrow>
          (case jor (jget ''message'' c) (JDict []) of
             JDict m \<Rightarrow> Inr (py_str (jor (jget ''content'' m) (JStr [])))
           | _ \<Rightarrow> Inl no_get)
      | _ \<Rightarrow> Inl no_get)"

definition first_choice :: "json dict \<Rightarrow> string res" where
  "first_choice data =
     (case jor (jget ''choices'' data) (JList []) of
        JList [] \<Rightarrow> Inr []
      | JList (c # cs) \<Rightarrow> choice_content c
      | JStr (ch # cs) \<Rightarrow> Inl no_get
      | JDict d \<Rightarrow> Inl (KeyError ''0'')
      | _ \<Rightarrow> Inl (TypeError ''object is not subscriptable''))"

definition chat_completion ::
  "(http_request \<Rightarrow> world \<Rightarrow> outcome \<times> world) \<Rightarrow> (nat \<Rightarrow> int) \<Rightarrow> llm \<Rightarrow> string \<Rightarrow> string \<Rightarrow> json \<Rightarrow> int
     \<Rightarrow> json option \<Rightarrow> world \<Rightarrow> string res \<times> world" where
  "chat_completion send jitter lm system user temperature max_tokens response_format w =
     (case request_json send jitter w ''POST'' (lm_url lm) None
             (chat_payload (lm_model lm) system user temperature max_tokens response_format) (Some (lm_timeout lm)) None None w of
        (Inl e, w') \<Rightarrow> (Inl e, w')
      | (Inr data, w') \<Rightarrow> (first_choice data, w'))"

text \<open>\<open>except (HTTPRequestError, ValueError, RuntimeError)\<close>: the attempt is repeated.\<close>

fun retried :: "exc \<Rightarrow> bool" where
  "retried (ValueError s) = True"
| "retried (RuntimeError s) = True"
| "retried _ = False"

fun call_attempts ::
  "(world \<Rightarrow> string res \<times> world) \<Rightarrow> nat \<Rightarrow> exc option \<Rightarrow> manager \<Rightarrow> world
     \<Rightarrow> (llm_exc + string) \<times> manager \<times> world" where
  "call_attempts fn 0 last_error m w =
     (Inl (LLMUnavailable (''LLM request failed: '' @ (case last_error of None \<Rightarrow> ''None'' | Some e \<Rightarrow> exc_str e))), m, w)"
| "call_attempts fn (Suc n) last_error m w =
     (case wrap ''llm'' fn m w of
        (Inr output, m', w') \<Rightarrow> (Inr output, m', w')
      | (Inl (ServiceDegraded s le), m', w') \<Rightarrow> (Inl (LLMUnavailable (exc_str (ServiceDegraded s le))), m', w')
      | (Inl e, m', w') \<Rightarrow>
          (if retried e then call_attempts fn n (Some e) m' w' else (Inl (Unhandled e), m', w')))"

definition legacy_answer :: "string \<Rightarrow> string \<Rightarrow> string" where
  "legacy_answer system user = ''LLM response to: '' @ system @ [CHR 0x0A, CHR 0x0A] @ user"

type_synonym server = "http_request \<Rightarrow> world \<Rightarrow> outcome \<times> world"

definition llm_call ::
  "server \<Rightarrow> (nat \<Rightarrow> int) \<Rightarrow> llm \<Rightarrow> string \<Rightarrow> string \<Rightarrow> int \<Rightarrow> json \<Rightarrow> json option \<Rightarrow> manager \<Rightarrow> world
     \<Rightarrow> (llm_exc + string) \<times> manager \<times> world" where
  "llm_call send jitter lm system user max_tokens temperature response_format m w =
     (if lm_provider lm = ''off'' then (Inl (LLMUnavailable ''LLM provider is off''), m, w)
      else if lm_provider lm \<in> {''vllm'', ''http''} then
        call_attempts (chat_completion send jitter lm system user temperature max_tokens response_format) 2 None m w
      else (Inr (legacy_answer system user), m, w))"

definition complete_text ::
  "server \<Rightarrow> (nat \<Rightarrow> int) \<Rightarrow> llm \<Rightarrow> string \<Rightarrow> string \<Rightarrow> int option \<Rightarrow> json \<Rightarrow> manager \<Rightarrow> world
     \<Rightarrow> (llm_exc + string) \<times> manager \<times> world" where
  "complete_text send jitter lm system user max_tokens temperature m w =
     llm_call send jitter lm system user
       (case max_tokens of None \<Rightarrow> lm_tokens_text lm | Some t \<Rightarrow> if t = 0 then lm_tokens_text lm else t)
       temperature None m w"

subsection \<open>The JSON object in an answer\<close>

definition strip_char :: "char \<Rightarrow> string \<Rightarrow> string" where
  "strip_char c s = rev (dropWhile (\<lambda>x. x = c) (rev (dropWhile (\<lambda>x. x = c) s)))"

definition unfence :: "string \<Rightarrow> string" where
  "unfence raw =
     (let cleaned = strip raw
      in if startswith cleaned [CHR 0x60, CHR 0x60, CHR 0x60] then
           (let inner = strip_char (CHR 0x60) cleaned
            in if startswith inner ''json'' then strip (drop 4 inner) else inner)
         else cleaned)"

text \<open>From the first opening to the last closing brace.\<close>

definition snippet :: "string \<Rightarrow> string option" where
  "snippet cleaned =
     (let from_start = dropWhile (\<lambda>x. x \<noteq> CHR ''{'') cleaned;
          core = rev (dropWhile (\<lambda>x. x \<noteq> CHR ''}'') (rev from_start))
      in if core = [] then None else Some core)"

definition parse_json :: "string \<Rightarrow> json dict option" where
  "parse_json raw =
     (case snippet (unfence raw) of
        None \<Rightarrow> None
      | Some t \<Rightarrow> (case loads t of Some (JDict d) \<Rightarrow> Some d | _ \<Rightarrow> None))"

definition complete_json ::
  "server \<Rightarrow> (nat \<Rightarrow> int) \<Rightarrow> llm \<Rightarrow> string \<Rightarrow> string \<Rightarrow> json dict \<Rightarrow> int option \<Rightarrow> json \<Rightarrow> manager \<Rightarrow> world
     \<Rightarrow> (llm_exc + json dict) \<times> manager \<times> world" where
  "complete_json send jitter lm system user schema_hint max_tokens zero m w =
     (let instruction = (if lm_strict_json lm then ''Return strict JSON only with no markdown fences and no prose.''
                         else ''Return JSON.'');
          schema_block = (if schema_hint = [] then [] else ''Schema hint: '' @ dumps (JDict schema_hint) @ [CHR 0x0A]);
          (res, m', w') = llm_call send jitter lm system (instruction @ [CHR 0x0A] @ schema_block @ user)
             (case max_tokens of None \<Rightarrow> lm_tokens_json lm | Some t \<Rightarrow> if t = 0 then lm_tokens_json lm else t)
             zero (if lm_provider lm \<in> {''vllm'', ''http''} then Some (JDict [(''type'', JStr ''json_object'')]) else None) m w
      in (case res of
            Inl e \<Rightarrow> Inl e
          | Inr raw \<Rightarrow>
              (case parse_json raw of
                 Some d \<Rightarrow> Inr d
               | None \<Rightarrow> if lm_strict_json lm then Inl (LLMOutputError ''Could not parse JSON response'') else Inr []),
          m', w'))"

subsection \<open>An object printed into an answer is found again\<close>

lemma dumps_dict_ends:
  obtains body where "dumps (JDict d) = CHR ''{'' # body @ [CHR ''}'']"
  by (simp add: dumps_def)

lemma snippet_around:
  assumes "CHR ''{'' \<notin> set a" and "CHR ''}'' \<notin> set b"
  shows "snippet (a @ dumps (JDict d) @ b) = Some (dumps (JDict d))"
proof -
  obtain body where body: "dumps (JDict d) = CHR ''{'' # body @ [CHR ''}'']" by (rule dumps_dict_ends)
  have "dropWhile (\<lambda>x. x \<noteq> CHR ''{'') (a @ dumps (JDict d) @ b) = dumps (JDict d) @ b"
    using assms(1) by (subst dropWhile_append2) (auto simp: body)
  moreover have "dropWhile (\<lambda>x. x \<noteq> CHR ''}'') (rev (dumps (JDict d) @ b)) = rev (dumps (JDict d))"
    using assms(2) by (subst rev_append, subst dropWhile_append2) (auto simp: body)
  ultimately show ?thesis by (simp add: snippet_def Let_def body)
qed

lemma strip_between:
  assumes "\<not> is_space c" and "\<not> is_space c'"
  shows "strip (c # s @ [c']) = c # s @ [c']"
  using assms by (simp add: strip_def lstrip_def rstrip_def)

definition fenced :: "string \<Rightarrow> string" where
  "fenced t = [CHR 0x60, CHR 0x60, CHR 0x60] @ ''json'' @ [CHR 0x0A] @ t @ [CHR 0x0A, CHR 0x60, CHR 0x60, CHR 0x60]"

lemma unfence_object: "unfence (dumps (JDict d)) = dumps (JDict d)"
proof -
  obtain body where "dumps (JDict d) = CHR ''{'' # body @ [CHR ''}'']" by (rule dumps_dict_ends)
  then show ?thesis using strip_between [of "CHR ''{''" "CHR ''}''" body]
    by (simp add: unfence_def startswith_def is_space_def)
qed

lemma unfence_fenced: "unfence (fenced (dumps (JDict d))) = dumps (JDict d)"
proof -
  obtain body where body: "dumps (JDict d) = CHR ''{'' # body @ [CHR ''}'']" by (rule dumps_dict_ends)
  have "strip (fenced (dumps (JDict d))) = fenced (dumps (JDict d))"
    using strip_between [of "CHR 0x60" "CHR 0x60" "[CHR 0x60, CHR 0x60] @ ''json'' @ [CHR 0x0A] @ dumps (JDict d) @ [CHR 0x0A, CHR 0x60, CHR 0x60]"]
    by (simp add: fenced_def is_space_def)
  moreover have "strip_char (CHR 0x60) (fenced (dumps (JDict d))) = ''json'' @ [CHR 0x0A] @ dumps (JDict d) @ [CHR 0x0A]"
    by (simp add: fenced_def strip_char_def)
  moreover have "strip ([CHR 0x0A] @ dumps (JDict d) @ [CHR 0x0A]) = dumps (JDict d)"
    by (simp add: strip_def lstrip_def rstrip_def body is_space_def)
  ultimately show ?thesis by (simp add: unfence_def Let_def startswith_def fenced_def)
qed

text \<open>
  C33. A JSON object printed by \<open>json.dumps\<close> is read back from an answer that holds it alone
  or in a fenced block; and between prose without an opening brace before it or a closing one
  after it, exactly its text is taken.
\<close>

theorem parse_json_roundtrip:
  assumes "wf_json (JDict d)" and "CHR ''{'' \<notin> set a" and "CHR ''}'' \<notin> set b"
  shows "parse_json (dumps (JDict d)) = Some d
    \<and> parse_json (fenced (dumps (JDict d))) = Some d
    \<and> snippet (a @ dumps (JDict d) @ b) = Some (dumps (JDict d))"
  using snippet_around [of "[]" "[]" d] snippet_around [OF assms(2,3)] loads_dumps [OF assms(1)]
  by (simp add: parse_json_def unfence_object unfence_fenced)

theorem parse_json_roundtrip_witness:
  "parse_json (fenced (dumps (JDict [(''steps'', JList [JInt 1, JStr ''a''])]))) = Some [(''steps'', JList [JInt 1, JStr ''a''])]"
  using parse_json_roundtrip [of "[(''steps'', JList [JInt 1, JStr ''a''])]" "''Sure: ''" "''!''"] by simp

end
