(* ===== verification/RuleRoutes.thy ===== *)
theory RuleRoutes
  imports RuleRuns JsonFields Llm
begin

section \<open>The rule routes\<close>

text \<open>
  \<open>apps/api/routes_rules.py\<close>, the rule pages of \<open>routes_ui.py\<close> and the rest of
  \<open>core/rules/nl_builder.py\<close>: rules are created from JSON or from a form, replaced, switched,
  deleted, reset, tested without effect, evaluated at once, or proposed from text by the
  language model. A handler returns its value or the exception, and the rule file; the
  rendering of the answers is left out.
\<close>

subsection \<open>Rules from JSON and from forms\<close>

record rule_create =
  rt_name :: string
  rt_enabled :: bool
  rt_trigger :: rule_trigger
  rt_condition :: rule_condition
  rt_actions :: "rule_action list"
  rt_max_actions :: int
  rt_cooldown_minutes :: int

definition trigger_type_of :: "string \<Rightarrow> trigger_type option" where
  "trigger_type_of s =
     (if s = ''schedule'' then Some Schedule else if s = ''gmail'' then Some Gmail
      else if s = ''calendar'' then Some Calendar else None)"

definition default_trigger :: "trigger_type \<Rightarrow> rule_trigger" where
  "default_trigger t = \<lparr>tg_type = t, tg_every_minutes = 5, tg_query = None, tg_max_results = 5, tg_hours_ahead = 24\<rparr>"

definition trigger_of :: "json dict \<Rightarrow> rule_trigger option" where
  "trigger_of d =
     (case (Option.bind (str_field ''type'' None d) trigger_type_of, int_field ''every_minutes'' 5 d, opt_field ''query'' d,
            int_field ''max_results'' 5 d, int_field ''hours_ahead'' 24 d) of
        (Some t, Some e, Some q, Some m, Some h) \<Rightarrow>
          Some \<lparr>tg_type = t, tg_every_minutes = e, tg_query = q, tg_max_results = m, tg_hours_ahead = h\<rparr>
      | _ \<Rightarrow> None)"

definition no_condition :: rule_condition where
  "no_condition = \<lparr>rc_contains = None, rc_not_contains = None\<rparr>"

definition condition_of :: "json dict \<Rightarrow> rule_condition option" where
  "condition_of d =
     (case (opt_field ''contains'' d, opt_field ''not_contains'' d) of
        (Some c, Some n) \<Rightarrow> Some \<lparr>rc_contains = c, rc_not_contains = n\<rparr> | _ \<Rightarrow> None)"

definition action_of :: "json \<Rightarrow> rule_action option" where
  "action_of j =
     (case j of
        JDict d \<Rightarrow>
          (if map_of d ''type'' = Some (JStr ''notify'') then
             (case (str_field ''title'' None d, str_field ''body_template'' None d) of
                (Some t, Some b) \<Rightarrow> Some (NotifyAction t b) | _ \<Rightarrow> None)
           else if map_of d ''type'' = Some (JStr ''propose_step'') then
             (case (str_field ''skill_name'' None d, sub_field ''args'' (Some []) Some d, str_field ''rationale'' None d) of
                (Some s, Some a, Some r) \<Rightarrow> Some (ProposeAction s a r) | _ \<Rightarrow> None)
           else None)
      | _ \<Rightarrow> None)"

fun actions_of :: "json list \<Rightarrow> rule_action list option" where
  "actions_of [] = Some []"
| "actions_of (j # js) = (case (action_of j, actions_of js) of (Some a, Some as) \<Rightarrow> Some (a # as) | _ \<Rightarrow> None)"

text \<open>\<open>RuleCreate.model_validate\<close>\<close>

definition rule_create_of :: "json \<Rightarrow> rule_create option" where
  "rule_create_of j =
     (case j of
        JDict d \<Rightarrow>
          (case (str_field ''name'' None d, bool_field ''enabled'' True d, sub_field ''trigger'' None trigger_of d,
                 sub_field ''condition'' (Some no_condition) condition_of d,
                 (case map_of d ''actions'' of None \<Rightarrow> Some [] | Some (JList xs) \<Rightarrow> actions_of xs | Some _ \<Rightarrow> None),
                 int_field ''max_actions_per_run'' 3 d, int_field ''cooldown_minutes'' 0 d) of
             (Some n, Some e, Some t, Some c, Some as, Some m, Some cd) \<Rightarrow>
               Some \<lparr>rt_name = n, rt_enabled = e, rt_trigger = t, rt_condition = c, rt_actions = as,
                     rt_max_actions = m, rt_cooldown_minutes = cd\<rparr>
           | _ \<Rightarrow> None)
      | _ \<Rightarrow> None)"

definition new_state :: rule_state where
  "new_state = \<lparr>rs_last_run = None, rs_last_match = None, rs_cooldown_until = None, rs_seen = [], rs_seen_max = 200,
                rs_cursor = None\<rparr>"

text \<open>\<open>Rule(id=..., **payload.model_dump())\<close>\<close>

definition new_rule :: "string \<Rightarrow> iso \<Rightarrow> rule_create \<Rightarrow> rule" where
  "new_rule i now p =
     \<lparr>ru_id = i, ru_name = rt_name p, ru_enabled = rt_enabled p, ru_created = now, ru_updated = now,
      ru_trigger = rt_trigger p, ru_condition = rt_condition p, ru_actions = rt_actions p,
      ru_max_actions = rt_max_actions p, ru_cooldown_minutes = rt_cooldown_minutes p, ru_state = new_state,
      ru_last_run = None, ru_last_match = None\<rparr>"

record rule_form =
  fo_name :: "string option"
  fo_trigger_type :: "string option"
  fo_contains :: "string option"
  fo_title :: "string option"
  fo_template :: "string option"
  fo_cooldown :: int
  fo_max :: int

definition validation_error :: exc where
  "validation_error = ValueError ''validation error''"

definition nonempty_text :: "string option \<Rightarrow> string option" where
  \<comment> \<open>\<open>x or None\<close>\<close>
  "nonempty_text x = (if str_or x [] = [] then None else x)"

definition form_rule :: "string \<Rightarrow> string \<Rightarrow> iso \<Rightarrow> rule_form \<Rightarrow> rule res" where
  "form_rule default_template i now fo =
     (case trigger_type_of (str_or (fo_trigger_type fo) []) of
        None \<Rightarrow> Inl validation_error
      | Some t \<Rightarrow>
          Inr (new_rule i now
            \<lparr>rt_name = str_or (fo_name fo) [], rt_enabled = True, rt_trigger = default_trigger t,
             rt_condition = \<lparr>rc_contains = nonempty_text (fo_contains fo), rc_not_contains = None\<rparr>,
             rt_actions = [NotifyAction (str_or (fo_title fo) []) (str_or (fo_template fo) default_template)],
             rt_max_actions = max 1 (fo_max fo), rt_cooldown_minutes = max 0 (fo_cooldown fo)\<rparr>))"

definition build_rule_from_form :: "string \<Rightarrow> iso \<Rightarrow> rule_form \<Rightarrow> rule res" where
  "build_rule_from_form = form_rule ''Rule {{count}} matched at {{now_iso}}''"

text \<open>A request with its content type, its text (for JSON) and its form fields.\<close>

record rule_request =
  rq_content_type :: string
  rq_text :: string
  rq_form :: rule_form

text \<open>
  The rule that a request to create one describes, with the identifier it gets, and the draft
  that a request to test one describes: two handlers with a parser each.
\<close>

definition described_rule :: "string \<Rightarrow> iso \<Rightarrow> rule_request \<Rightarrow> rule res" where
  "described_rule i now req =
     (if str_in ''application/json'' (rq_content_type req) then
        (case loads (rq_text req) of
           None \<Rightarrow> Inl (ValueError ''JSONDecodeError'')
         | Some j \<Rightarrow> (case rule_create_of j of None \<Rightarrow> Inl validation_error | Some p \<Rightarrow> Inr (new_rule i now p)))
      else if str_or (fo_name (rq_form req)) [] = [] \<or> str_or (fo_trigger_type (rq_form req)) [] = []
              \<or> str_or (fo_title (rq_form req)) [] = [] then
        Inl (HTTPException 400 ''name, trigger_type, and action_title are required'')
      else build_rule_from_form i now (rq_form req))"

definition draft_rule :: "iso \<Rightarrow> rule_request \<Rightarrow> rule res" where
  "draft_rule now req =
     (if str_in ''application/json'' (rq_content_type req) then
        (case loads (rq_text req) of
           None \<Rightarrow> Inl (ValueError ''JSONDecodeError'')
         | Some j \<Rightarrow> (case rule_create_of j of None \<Rightarrow> Inl validation_error | Some p \<Rightarrow> Inr (new_rule ''draft'' now p)))
      else if str_or (fo_name (rq_form req)) [] = [] \<or> str_or (fo_trigger_type (rq_form req)) [] = []
              \<or> str_or (fo_title (rq_form req)) [] = [] then
        Inl (HTTPException 400 ''name, trigger_type, and action_title are required'')
      else build_rule_from_form ''draft'' now (rq_form req))"

subsection \<open>Handlers\<close>

definition no_rule :: exc where
  "no_rule = HTTPException 404 ''rule not found''"

definition create_rule :: "rule_request \<Rightarrow> rules_file \<Rightarrow> world \<Rightarrow> rule res \<times> rules_file \<times> world" where
  "create_rule req f w0 =
     (let (i, w) = uuid4 w0
      in case described_rule i (now_iso w) req of
           Inl e \<Rightarrow> (Inl e, f, w0)
         | Inr r \<Rightarrow> (let (r', f') = rule_upsert (now_iso w) r f in (Inr r', f', w)))"

definition replace_fields :: "rule_create \<Rightarrow> rule \<Rightarrow> rule" where
  "replace_fields p r =
     r\<lparr>ru_name := rt_name p, ru_enabled := rt_enabled p, ru_trigger := rt_trigger p, ru_condition := rt_condition p,
       ru_actions := rt_actions p, ru_max_actions := rt_max_actions p, ru_cooldown_minutes := rt_cooldown_minutes p\<rparr>"

text \<open>\<open>get\<close>, change, \<open>upsert\<close>: a missing rule is an error and changes nothing.\<close>

definition edit_rule :: "(rule \<Rightarrow> rule) \<Rightarrow> string \<Rightarrow> rules_file \<Rightarrow> world \<Rightarrow> rule res \<times> rules_file" where
  "edit_rule change i f w =
     (case rule_get f i of
        None \<Rightarrow> (Inl no_rule, f)
      | Some r \<Rightarrow> (let (r', f') = rule_upsert (now_iso w) (change r) f in (Inr r', f')))"

definition update_rule :: "string \<Rightarrow> rule_create \<Rightarrow> rules_file \<Rightarrow> world \<Rightarrow> rule res \<times> rules_file" where
  "update_rule i p = edit_rule (replace_fields p) i"

definition switch_rule :: "bool \<Rightarrow> string \<Rightarrow> rules_file \<Rightarrow> world \<Rightarrow> rule res \<times> rules_file" where
  "switch_rule enabled i f w =
     (case rule_set_enabled (now_iso w) i enabled f of (None, f') \<Rightarrow> (Inl no_rule, f') | (Some r, f') \<Rightarrow> (Inr r, f'))"

definition enable_rule :: "string \<Rightarrow> rules_file \<Rightarrow> world \<Rightarrow> rule res \<times> rules_file" where
  "enable_rule = switch_rule True"

definition disable_rule :: "string \<Rightarrow> rules_file \<Rightarrow> world \<Rightarrow> rule res \<times> rules_file" where
  "disable_rule = switch_rule False"

definition delete_rule :: "string \<Rightarrow> rules_file \<Rightarrow> string res \<times> rules_file" where
  "delete_rule i f = (case rule_delete i f of (False, f') \<Rightarrow> (Inl no_rule, f') | (True, f') \<Rightarrow> (Inr i, f'))"

definition reset_state :: "rule \<Rightarrow> rule" where
  "reset_state r =
     r\<lparr>ru_state := (ru_state r)\<lparr>rs_last_run := None, rs_last_match := None, rs_cooldown_until := None, rs_seen := [],
                                rs_cursor := None\<rparr>,
       ru_last_run := None, ru_last_match := None\<rparr>"

definition reset_rule_state :: "string \<Rightarrow> rules_file \<Rightarrow> world \<Rightarrow> rule res \<times> rules_file" where
  "reset_rule_state = edit_rule reset_state"

definition list_rules :: "rules_file \<Rightarrow> rule list" where
  "list_rules = rules_list_all"

definition evaluate_now :: "engine \<Rightarrow> string \<Rightarrow> rules_file \<Rightarrow> world \<Rightarrow> (rule_run_result list \<times> rules_file) \<times> world" where
  "evaluate_now en minute_iso = run_rules_evaluation en minute_iso None None"

definition test_existing_rule :: "engine \<Rightarrow> string \<Rightarrow> bool \<Rightarrow> rules_file \<Rightarrow> world \<Rightarrow> preview res \<times> world" where
  "test_existing_rule en i include_seen f w =
     (case rule_get f i of None \<Rightarrow> (Inl no_rule, w) | Some r \<Rightarrow> evaluate_rule_preview en r include_seen w)"

definition test_draft_rule :: "engine \<Rightarrow> rule_request \<Rightarrow> bool \<Rightarrow> world \<Rightarrow> preview res \<times> world" where
  "test_draft_rule en req include_seen w =
     (case draft_rule (now_iso w) req of
        Inl e \<Rightarrow> (Inl e, w) | Inr r \<Rightarrow> evaluate_rule_preview en r include_seen w)"

subsection \<open>Rules from text\<close>

text \<open>The answer of the route: \<open>ok\<close> with a proposed rule, or a text that says why there is none.\<close>

type_synonym proposed = "string + rule_create"

fun llm_exc_str :: "llm_exc \<Rightarrow> string" where
  "llm_exc_str (LLMUnavailable s) = s"
| "llm_exc_str (LLMOutputError s) = s"
| "llm_exc_str (Unhandled e) = exc_str e"

definition builder_prompt :: "string \<Rightarrow> string" where
  "builder_prompt text =
     ''Input: '' @ text @ [CHR 0x0A] @ ''Allowed triggers: schedule|gmail|calendar. ''
     @ ''Actions are notify or propose_step. ''
     @ ''propose_step must target write skills only and only propose approval.''"

definition builder_hint :: "json dict" where
  "builder_hint = [(''name'', JStr ''string''), (''trigger'', JDict [(''type'', JStr ''schedule|gmail|calendar'')]),
                   (''actions'', JList [])]"

text \<open>\<open>RuleNLBuilder.from_text\<close>, with its exceptions as texts; \<open>zero\<close> is the temperature.\<close>

definition from_text ::
  "server \<Rightarrow> (nat \<Rightarrow> int) \<Rightarrow> llm \<Rightarrow> json \<Rightarrow> bool \<Rightarrow> string \<Rightarrow> string set \<Rightarrow> manager \<Rightarrow> world
     \<Rightarrow> proposed \<times> manager \<times> world" where
  "from_text send jitter lm zero enabled text known m w =
     (if \<not> enabled then (Inl ''rule builder disabled'', m, w)
      else case complete_json send jitter lm ''Convert user text into deterministic RuleCreate JSON.''
                  (builder_prompt text) builder_hint None zero m w of
        (Inl e, m', w') \<Rightarrow> (Inl (llm_exc_str e), m', w')
      | (Inr payload, m', w') \<Rightarrow>
          ((case rule_create_of (JDict payload) of
              None \<Rightarrow> Inl (exc_str validation_error)
            | Some p \<Rightarrow> (case validate_actions known (rt_actions p) of None \<Rightarrow> Inr p | Some e \<Rightarrow> Inl (exc_str e))),
           m', w'))"

definition known_write_skills :: "registry \<Rightarrow> string set" where
  "known_write_skills reg = set (map sk_name (filter is_write (map snd reg)))"

text \<open>The constructor of the builder is outside the \<open>try\<close>: a setting it cannot read is an error of the route.\<close>

definition rules_from_text ::
  "server \<Rightarrow> (nat \<Rightarrow> int) \<Rightarrow> json \<Rightarrow> registry \<Rightarrow> string \<Rightarrow> manager \<Rightarrow> world \<Rightarrow> proposed res \<times> manager \<times> world" where
  "rules_from_text send jitter zero reg text m w =
     (if is_safe_mode_enabled w then (Inr (Inl ''Rule builder disabled in safe mode''), m, w)
      else case llm_init w of
        Inl e \<Rightarrow> (Inl e, m, w)
      | Inr lm \<Rightarrow>
          (let (p, m', w') = from_text send jitter lm zero (feature_enabled ''BENJAMIN_LLM_RULE_BUILDER'' w) text
                               (known_write_skills reg) m w
           in (Inr p, m', w')))"

subsection \<open>The rule pages\<close>

text \<open>The pages change the same file, and pass over a rule that is not there.\<close>

definition ui_create_rule :: "rule_form \<Rightarrow> rules_file \<Rightarrow> world \<Rightarrow> rule res \<times> rules_file \<times> world" where
  "ui_create_rule fo f w0 =
     (let (i, w) = uuid4 w0
      in case form_rule ''Rule matched {{count}} items. Top={{top1}} at {{now_iso}}'' i (now_iso w) fo of
           Inl e \<Rightarrow> (Inl e, f, w0)
         | Inr r \<Rightarrow> (let (r', f') = rule_upsert (now_iso w) r f in (Inr r', f', w)))"

definition ui_enable_rule :: "string \<Rightarrow> rules_file \<Rightarrow> world \<Rightarrow> rules_file" where
  "ui_enable_rule i f w = snd (rule_set_enabled (now_iso w) i True f)"

definition ui_disable_rule :: "string \<Rightarrow> rules_file \<Rightarrow> world \<Rightarrow> rules_file" where
  "ui_disable_rule i f w = snd (rule_set_enabled (now_iso w) i False f)"

definition ui_delete_rule :: "string \<Rightarrow> rules_file \<Rightarrow> rules_file" where
  "ui_delete_rule i f = snd (rule_delete i f)"

definition ui_reset_rule_state :: "string \<Rightarrow> rules_file \<Rightarrow> world \<Rightarrow> rules_file" where
  "ui_reset_rule_state i f w =
     (case rule_get f i of None \<Rightarrow> f | Some r \<Rightarrow> snd (rule_upsert (now_iso w) (reset_state r) f))"

text \<open>The page shows the rules with the results of the last evaluation that was asked for on it.\<close>

definition ui_rules :: "rules_file \<Rightarrow> rule_run_result list \<Rightarrow> rule list \<times> rule_run_result list" where
  "ui_rules f last_results = (rules_list_all f, last_results)"

definition ui_rules_eval :: "engine \<Rightarrow> string \<Rightarrow> rules_file \<Rightarrow> world \<Rightarrow> (rule_run_result list \<times> rules_file) \<times> world" where
  \<comment> \<open>the results are kept for the page\<close>
  "ui_rules_eval = evaluate_now"

definition ui_run_rule_detail :: "string \<Rightarrow> rules_file \<Rightarrow> world \<Rightarrow> (rule \<times> episode list) res" where
  "ui_run_rule_detail i f w =
     (case rule_get f i of
        None \<Rightarrow> Inl no_rule
      | Some r \<Rightarrow>
          Inr (r, take 20 (filter (\<lambda>e. ep_kind e = ''rule'' \<and> map_of (ep_meta e) ''rule_id'' = Some (JStr i))
                            (rev (episodic_list_recent 400 w)))))"

subsection \<open>The routes keep a table of rules\<close>

text \<open>
  What the routes promise: a table from identifiers to rules. Creating enters the rule the
  request describes, stamped; updating, switching and resetting change one entry and stamp
  it; deleting removes one; an identifier that is not in the table is an error and changes
  nothing.
\<close>

datatype rule_op =
    OpCreate rule_request
  | OpUpdate string rule_create
  | OpEnable string
  | OpDisable string
  | OpDelete string
  | OpReset string

text \<open>The answer: an error, the rule, or nothing for a deletion.\<close>

type_synonym rule_answer = "rule option res"

fun answer_of :: "rule res \<times> 's \<Rightarrow> rule_answer \<times> 's" where
  "answer_of (Inl e, s) = (Inl e, s)"
| "answer_of (Inr r, s) = (Inr (Some r), s)"

fun with_world :: "world \<Rightarrow> 'a \<times> 't \<Rightarrow> 'a \<times> 't \<times> world" where
  "with_world w (a, t) = (a, t, w)"

fun apply_op :: "rule_op \<Rightarrow> rules_file \<Rightarrow> world \<Rightarrow> rule_answer \<times> rules_file \<times> world" where
  "apply_op (OpCreate req) f w = answer_of (create_rule req f w)"
| "apply_op (OpUpdate i p) f w = with_world w (answer_of (update_rule i p f w))"
| "apply_op (OpEnable i) f w = with_world w (answer_of (enable_rule i f w))"
| "apply_op (OpDisable i) f w = with_world w (answer_of (disable_rule i f w))"
| "apply_op (OpDelete i) f w = (case delete_rule i f of (Inl e, f') \<Rightarrow> (Inl e, f', w) | (Inr _, f') \<Rightarrow> (Inr None, f', w))"
| "apply_op (OpReset i) f w = with_world w (answer_of (reset_rule_state i f w))"

type_synonym rule_table = "string \<Rightarrow> rule option"

definition stamp :: "world \<Rightarrow> rule \<Rightarrow> rule" where
  "stamp w r = (migrate_rule r)\<lparr>ru_updated := now_iso w\<rparr>"

definition table_edit :: "(rule \<Rightarrow> rule) \<Rightarrow> string \<Rightarrow> rule_table \<Rightarrow> world \<Rightarrow> rule_answer \<times> rule_table \<times> world" where
  "table_edit change i t w =
     (case t i of None \<Rightarrow> (Inl no_rule, t, w)
      | Some r \<Rightarrow> (Inr (Some (stamp w (change r))), t(i \<mapsto> stamp w (change r)), w))"

fun table_op :: "rule_op \<Rightarrow> rule_table \<Rightarrow> world \<Rightarrow> rule_answer \<times> rule_table \<times> world" where
  "table_op (OpCreate req) t w =
     (case described_rule (fst (uuid4 w)) (now_iso w) req of
        Inl e \<Rightarrow> (Inl e, t, w)
      | Inr r \<Rightarrow> (Inr (Some (stamp w r)), t(fst (uuid4 w) \<mapsto> stamp w r), snd (uuid4 w)))"
| "table_op (OpUpdate i p) t w = table_edit (replace_fields p) i t w"
| "table_op (OpEnable i) t w = table_edit (ru_enabled_update (\<lambda>_. True)) i t w"
| "table_op (OpDisable i) t w = table_edit (ru_enabled_update (\<lambda>_. False)) i t w"
| "table_op (OpDelete i) t w = (if t i = None then (Inl no_rule, t, w) else (Inr None, t(i := None), w))"
| "table_op (OpReset i) t w = table_edit reset_state i t w"

text \<open>A sequence of requests, each at its own time.\<close>

fun run_ops :: "(rule_op \<Rightarrow> 't \<Rightarrow> world \<Rightarrow> rule_answer \<times> 't \<times> world) \<Rightarrow> (int \<times> rule_op) list \<Rightarrow> 't \<Rightarrow> world
    \<Rightarrow> rule_answer list \<times> 't \<times> world" where
  "run_ops step [] t w = ([], t, w)"
| "run_ops step ((now, p) # ps) t w =
     (let (a, t1, w1) = step p t (w\<lparr>w_now := now\<rparr>); (as, t2, w2) = run_ops step ps t1 w1 in (a # as, t2, w2))"

lemma new_rule_id [simp]: "ru_id (new_rule i now p) = i"
  by (simp add: new_rule_def)

lemma form_rule_id: "form_rule dt i now fo = Inr r \<Longrightarrow> ru_id r = i"
  by (cases "trigger_type_of (str_or (fo_trigger_type fo) [])") (auto simp: form_rule_def)

lemma described_rule_id:
  assumes "described_rule i now req = Inr r"
  shows "ru_id r = i"
proof (cases "str_in ''application/json'' (rq_content_type req)")
  case True
  then show ?thesis
    using assms unfolding described_rule_def if_P [OF True]
    by (cases "loads (rq_text req)"; cases "rule_create_of (the (loads (rq_text req)))") auto
next
  case False
  then have "build_rule_from_form i now (rq_form req) = Inr r"
    using assms unfolding described_rule_def if_not_P [OF False] by (metis sum.distinct(1))
  then show ?thesis unfolding build_rule_from_form_def by (rule form_rule_id)
qed

lemma changed_ids [simp]: "ru_id (replace_fields p r) = ru_id r" "ru_id (reset_state r) = ru_id r" "ru_id (stamp w r) = ru_id r"
  by (simp_all add: replace_fields_def reset_state_def stamp_def)

lemma rule_get_id: "rule_get f i = Some r \<Longrightarrow> ru_id r = i"
  by (auto simp: rule_get_def find_Some_iff)

lemma rule_upsert_answer: "fst (rule_upsert (now_iso w) r f) = stamp w r"
  by (simp add: rule_upsert_def stamp_def Let_def)

lemma rule_get_upsert:
  "rule_get (snd (rule_upsert (now_iso w) r f)) = (rule_get f)(ru_id r \<mapsto> stamp w r)"
  using rule_store.lookup_put [of "now_iso w" r f] by (auto simp: stamp_def)

lemma rule_get_delete: "rule_get (snd (rule_delete i f)) = (rule_get f)(i := None)"
  using rule_store.lookup_del [of i f] by auto

lemma rule_delete_found: "fst (rule_delete i f) \<longleftrightarrow> rule_get f i \<noteq> None"
proof -
  have "length (filter (\<lambda>r. ru_id r \<noteq> i) (rules_load f)) = length (rules_load f) \<longleftrightarrow> (\<forall>r\<in>set (rules_load f). ru_id r \<noteq> i)"
    using length_filter_less [where xs = "rules_load f" and P = "\<lambda>r. ru_id r \<noteq> i"] by fastforce
  then show ?thesis by (auto simp: rule_delete_def rule_get_def find_None_iff Let_def)
qed

text \<open>How a file stands for a table after a request: the same answer, the same world.\<close>

definition refines_step :: "rule_answer \<times> rules_file \<times> world \<Rightarrow> rule_answer \<times> rule_table \<times> world \<Rightarrow> bool" where
  "refines_step c a \<longleftrightarrow> fst c = fst a \<and> rule_get (fst (snd c)) = fst (snd a) \<and> snd (snd c) = snd (snd a)"

lemma edit_refines:
  assumes "\<And>r. ru_id (change r) = ru_id r"
  shows "refines_step (with_world w (answer_of (edit_rule change i f w))) (table_edit change i (rule_get f) w)"
proof (cases "rule_get f i")
  case (Some r)
  obtain r' f' where u: "rule_upsert (now_iso w) (change r) f = (r', f')" by fastforce
  then show ?thesis
    using Some rule_upsert_answer [of w "change r" f] rule_get_upsert [of w "change r" f] rule_get_id [OF Some] assms
    by (simp add: refines_step_def edit_rule_def table_edit_def)
qed (simp add: refines_step_def edit_rule_def table_edit_def)

lemma switch_edit: "switch_rule b i f w = edit_rule (ru_enabled_update (\<lambda>_. b)) i f w"
  by (simp add: switch_rule_def edit_rule_def rule_set_enabled_def split: option.split prod.split)

lemma create_refines: "refines_step (answer_of (create_rule req f w)) (table_op (OpCreate req) (rule_get f) w)"
proof -
  have now: "now_iso (snd (uuid4 w)) = now_iso w" by (simp add: uuid4_def now_iso_def)
  show ?thesis
  proof (cases "described_rule (fst (uuid4 w)) (now_iso w) req")
    case (Inr r)
    obtain r' f' where u: "rule_upsert (now_iso w) r f = (r', f')" by fastforce
    then show ?thesis
      using Inr now rule_upsert_answer [of w r f] rule_get_upsert [of w r f] described_rule_id [OF Inr]
      by (simp add: refines_step_def create_rule_def split_def)
  qed (simp add: refines_step_def create_rule_def split_def now)
qed

lemma delete_refines: "refines_step (apply_op (OpDelete i) f w) (table_op (OpDelete i) (rule_get f) w)"
  using rule_delete_found [of i f] rule_get_delete [of i f]
  by (cases "rule_delete i f") (auto simp: refines_step_def delete_rule_def fun_upd_idem split: bool.splits)

lemma apply_refines: "refines_step (apply_op p f w) (table_op p (rule_get f) w)"
  by (cases p)
    (simp_all add: edit_refines create_refines delete_refines update_rule_def enable_rule_def disable_rule_def
      reset_rule_state_def switch_edit del: table_op.simps(1,5) apply_op.simps(5))

text \<open>
  C18. The rule routes refine a table of rules: any sequence of create, update, enable,
  disable, delete and reset requests, at any times, gives the answers of the same sequence
  on a table, and leaves a file in which every rule is found exactly as in that table.
\<close>

theorem rule_routes_refine_table:
  "fst (run_ops apply_op ops f w) = fst (run_ops table_op ops (rule_get f) w)
   \<and> rule_get (fst (snd (run_ops apply_op ops f w))) = fst (snd (run_ops table_op ops (rule_get f) w))"
proof (induction ops arbitrary: f w)
  case (Cons op ops)
  obtain now p where op: "op = (now, p)" by fastforce
  let ?w = "w\<lparr>w_now := now\<rparr>"
  obtain a f1 w1 where c: "apply_op p f ?w = (a, f1, w1)" by (metis prod_cases3)
  then have t: "table_op p (rule_get f) ?w = (a, rule_get f1, w1)"
    using apply_refines [of p f ?w] by (cases "table_op p (rule_get f) ?w") (auto simp: refines_step_def)
  show ?case using Cons.IH [of f1 w1] c t op by (simp add: split_def Let_def)
qed simp

subsection \<open>Resetting, and testing a draft\<close>

text \<open>A rule as a reset leaves it: nothing seen, no run, no match, no cooldown.\<close>

definition forgotten :: "rule \<Rightarrow> bool" where
  "forgotten r \<longleftrightarrow> rs_seen (ru_state r) = [] \<and> rs_cursor (ru_state r) = None \<and> rs_cooldown_until (ru_state r) = None
     \<and> rs_last_run (ru_state r) = None \<and> rs_last_match (ru_state r) = None \<and> ru_last_run r = None \<and> ru_last_match r = None"

lemma forgotten_reset: "forgotten (stamp w (reset_state r))"
  by (simp add: forgotten_def stamp_def reset_state_def migrate_rule_def Let_def)

lemma filter_loop_nothing_seen: "filter_loop {} None items = Inr items"
  by (induction items) (simp_all split: option.split)

lemma forgotten_selects: "forgotten r \<Longrightarrow> filter_new_items (ru_state r) items = Inr items \<and> is_cooldown_active r w = Inr False"
  by (simp add: forgotten_def filter_new_items_def filter_loop_nothing_seen is_cooldown_active_def)

text \<open>
  Resetting a rule makes it select everything again: the rule answered is the one the file
  now holds, it has no remembered run, match, item or cursor, also not in the deprecated
  fields, so every item is new to it and it is not cooling down; other rules stay as they are.
\<close>

theorem reset_forgets:
  assumes "reset_rule_state i f w = (Inr r, f')"
  shows "rule_get f' i = Some r \<and> forgotten r
    \<and> filter_new_items (ru_state r) items = Inr items \<and> is_cooldown_active r v = Inr False
    \<and> (\<forall>k. k \<noteq> i \<longrightarrow> rule_get f' k = rule_get f k)"
proof -
  obtain r0 where r0: "rule_get f i = Some r0"
    using assms by (cases "rule_get f i") (auto simp: reset_rule_state_def edit_rule_def)
  then have "fst (rule_upsert (now_iso w) (reset_state r0) f) = r" "snd (rule_upsert (now_iso w) (reset_state r0) f) = f'"
    using assms by (simp_all add: reset_rule_state_def edit_rule_def split: prod.splits)
  then have "r = stamp w (reset_state r0)" "rule_get f' = (rule_get f)(i \<mapsto> stamp w (reset_state r0))"
    using rule_upsert_answer [of w "reset_state r0" f] rule_get_upsert [of w "reset_state r0" f] rule_get_id [OF r0] by auto
  then show ?thesis using forgotten_reset [of w r0] forgotten_selects by simp
qed

definition used_rule :: rule where
  "used_rule = (demo_rule [])
     \<lparr>ru_state := \<lparr>rs_last_run = Some (Iso (Aware 5)), rs_last_match = Some (Iso (Aware 5)), rs_cooldown_until = Some (Iso (Aware 90)),
                   rs_seen = [''e1''], rs_seen_max = 200, rs_cursor = Some (Iso (Aware 5))\<rparr>,
      ru_last_run := Some (Iso (Aware 5)), ru_last_match := Some (Iso (Aware 5))\<rparr>"

lemma used_rule_stored: "rule_get (write_rows [used_rule]) ''r1'' = Some used_rule"
  by code_simp

theorem reset_forgets_witness:
  "\<exists>r f'. reset_rule_state ''r1'' (write_rows [used_rule]) (empty_world 60) = (Inr r, f') \<and> rule_get f' ''r1'' = Some r \<and> forgotten r"
proof -
  obtain r f' where "reset_rule_state ''r1'' (write_rows [used_rule]) (empty_world 60) = (Inr r, f')"
    using used_rule_stored by (fastforce simp: reset_rule_state_def edit_rule_def split: prod.splits)
  then show ?thesis using reset_forgets by blast
qed

text \<open>A draft is the rule that creating would store, under the identifier \<open>draft\<close>.\<close>

lemma new_rule_stamp: "stamp w (new_rule i now p) = (new_rule i now p)\<lparr>ru_updated := now_iso w\<rparr>"
  by (simp add: stamp_def new_rule_def new_state_def migrate_rule_def Let_def)

definition same_but_identity :: "rule \<Rightarrow> rule \<Rightarrow> bool" where
  "same_but_identity r d \<longleftrightarrow> r\<lparr>ru_id := ru_id d, ru_created := ru_created d, ru_updated := ru_updated d\<rparr> = d"

lemma new_rule_same: "same_but_identity (stamp w (new_rule i now p)) (new_rule j now' p)"
  unfolding same_but_identity_def new_rule_stamp by (simp add: new_rule_def)

lemma described_rule_new: "\<exists>p. \<forall>i now. described_rule i now req = map_sum id (new_rule i now) p"
proof (cases "str_in ''application/json'' (rq_content_type req)")
  case True
  show ?thesis
  proof (cases "loads (rq_text req)")
    case None
    then show ?thesis
      unfolding described_rule_def if_P [OF True] by (intro exI [of _ "Inl (ValueError ''JSONDecodeError'')"]) simp
  next
    case (Some j)
    then show ?thesis
      unfolding described_rule_def if_P [OF True]
      by (intro exI [of _ "case rule_create_of j of None \<Rightarrow> Inl validation_error | Some p \<Rightarrow> Inr p"]) (simp split: option.split)
  qed
next
  case False
  have "\<exists>p. \<forall>i now. build_rule_from_form i now fo = map_sum id (new_rule i now) p" for fo
  proof (cases "trigger_type_of (str_or (fo_trigger_type fo) [])")
    case None
    then show ?thesis
      by (intro exI [of _ "Inl validation_error"]) (simp add: build_rule_from_form_def form_rule_def)
  next
    case (Some t)
    show ?thesis
      unfolding build_rule_from_form_def form_rule_def Some option.case by (metis map_sum.simps(2))
  qed
  then obtain p where p: "build_rule_from_form i now (rq_form req) = map_sum id (new_rule i now) p" for i now by blast
  show ?thesis
    unfolding described_rule_def if_not_P [OF False] p
    by (intro exI [of _ "if str_or (fo_name (rq_form req)) [] = [] \<or> str_or (fo_trigger_type (rq_form req)) [] = []
              \<or> str_or (fo_title (rq_form req)) [] = [] then Inl (HTTPException 400 ''name, trigger_type, and action_title are required'') else p"])
      simp
qed

text \<open>The preview depends on a rule's name, trigger, condition, actions, limits and state only.\<close>

lemma preview_same:
  assumes "same_but_identity r d" and "ru_id d = ''draft''" and "ru_id r \<noteq> ''draft''"
  shows "evaluate_rule_preview en r b w =
    map_prod (map_sum id (pv_rule_id_update (\<lambda>_. Some (ru_id r)))) id (evaluate_rule_preview en d b w)"
proof -
  obtain i c u where d: "d = r\<lparr>ru_id := i, ru_created := c, ru_updated := u\<rparr>"
    using assms(1) unfolding same_but_identity_def by metis
  have t: "load_trigger_items en d w = load_trigger_items en r w"
    unfolding load_trigger_items_def by (simp add: d)
  have s: "ru_state d = ru_state r" "ru_condition d = ru_condition r" by (simp_all add: d)
  have m: "compute_matches en d b w = compute_matches en r b w"
    unfolding compute_matches_def t s by (rule refl)
  have c: "is_cooldown_active d w = is_cooldown_active r w"
    by (simp add: d is_cooldown_active_def)
  have l: "plan_loop en d items now v as planned ns = plan_loop en r items now v as planned ns" for items now v as planned ns
    by (induction as arbitrary: planned ns) (simp_all add: d split: rule_action.split)
  have p: "plan_actions en d items now ns v = plan_actions en r items now ns v" for items now ns v
    by (simp add: plan_actions_def l) (simp add: d)
  have n: "ru_name d = ru_name r" by (simp add: d)
  show ?thesis
    using assms(2,3) unfolding evaluate_rule_preview_def m c p n
    by (auto simp: Let_def split: prod.split sum.split)
qed

text \<open>The two parsers agree.\<close>

lemma draft_described: "draft_rule now req = described_rule ''draft'' now req"
  unfolding draft_rule_def described_rule_def by (rule refl)

text \<open>
  C19. Testing a draft shows what the created rule will do: after a request has created a rule,
  and for as long as that rule is stored as it was created (it has not run or been edited since;
  the other rules may have), testing it gives, at every later time and in every state of
  everything else, the preview that testing the same request as a draft gives there, but for
  the identifier.
\<close>

theorem draft_test_predicts:
  assumes "create_rule req f w = (Inr r, f', w')" and "ru_id r \<noteq> ''draft''"
    and "rule_get g (ru_id r) = rule_get f' (ru_id r)"
  shows "test_existing_rule en (ru_id r) b g v =
    map_prod (map_sum id (pv_rule_id_update (\<lambda>_. Some (ru_id r)))) id (test_draft_rule en req b v)"
proof -
  obtain p where p: "described_rule i now req = map_sum id (new_rule i now) p" for i now
    using described_rule_new by blast
  obtain i w1 where u: "uuid4 w = (i, w1)" by fastforce
  obtain q where q: "p = Inr q" using assms(1) u p by (cases p) (auto simp: create_rule_def)
  then have r: "fst (rule_upsert (now_iso w1) (new_rule i (now_iso w1) q) f) = r"
      "snd (rule_upsert (now_iso w1) (new_rule i (now_iso w1) q) f) = f'"
    using assms(1) u p by (simp_all add: create_rule_def split: prod.splits)
  then have "r = stamp w1 (new_rule i (now_iso w1) q)" "rule_get g (ru_id r) = Some r"
    using rule_upsert_answer [of w1 "new_rule i (now_iso w1) q" f] rule_get_upsert [of w1 "new_rule i (now_iso w1) q" f] assms(3) by auto
  then show ?thesis
    using preview_same [of r "new_rule ''draft'' (now_iso v) q" en b v] new_rule_same assms(2) p q
    by (simp add: test_existing_rule_def test_draft_rule_def draft_described)
qed

definition tea_request :: rule_request where
  "tea_request = \<lparr>rq_content_type = ''form'', rq_text = [],
     rq_form = \<lparr>fo_name = Some ''tea'', fo_trigger_type = Some ''schedule'', fo_contains = None, fo_title = Some ''Tea'',
                fo_template = None, fo_cooldown = 0, fo_max = 3\<rparr>\<rparr>"

theorem draft_test_predicts_witness:
  "\<exists>r f' w'. create_rule tea_request [] (empty_world 0) = (Inr r, f', w')
    \<and> test_existing_rule demo_engine (ru_id r) False f' (empty_world 9) =
       map_prod (map_sum id (pv_rule_id_update (\<lambda>_. Some (ru_id r)))) id (test_draft_rule demo_engine tea_request False (empty_world 9))"
proof -
  have "case create_rule tea_request [] (empty_world 0) of (Inr r, _) \<Rightarrow> ru_id r \<noteq> ''draft'' | _ \<Rightarrow> False"
    by code_simp
  then obtain r f' w' where "create_rule tea_request [] (empty_world 0) = (Inr r, f', w')" "ru_id r \<noteq> ''draft''"
    by (auto split: prod.splits sum.splits)
  then show ?thesis using draft_test_predicts [OF _ _ refl] by blast
qed

subsection \<open>What a text can propose\<close>

lemma validate_actions_known:
  "validate_actions known as = None \<Longrightarrow> ProposeAction s args ra \<in> set as \<Longrightarrow> s \<in> known"
  by (induction known as rule: validate_actions.induct) (auto split: if_splits)

lemma from_text_known:
  "fst (from_text send jitter lm zero enabled text known m w) = Inr p \<Longrightarrow>
     enabled \<and> validate_actions known (rt_actions p) = None"
  by (cases "complete_json send jitter lm ''Convert user text into deterministic RuleCreate JSON.'' (builder_prompt text) builder_hint None zero m w")
    (auto simp: from_text_def split: if_splits sum.splits option.splits)

text \<open>
  A rule proposed from text requests only registered write skills, whatever the model
  answers, and there is none in safe mode or while the builder is off; it is only shown, since
  the route does not touch the rule file.
\<close>

theorem text_proposes_write_skills:
  assumes "rules_from_text send jitter zero reg text m w = (Inr (Inr p), m', w')"
    and "ProposeAction s args ra \<in> set (rt_actions p)"
  shows "(\<exists>sk \<in> set (map snd reg). sk_name sk = s \<and> is_write sk) \<and> \<not> is_safe_mode_enabled w
    \<and> feature_enabled ''BENJAMIN_LLM_RULE_BUILDER'' w"
proof -
  have safe: "\<not> is_safe_mode_enabled w" using assms(1) by (auto simp: rules_from_text_def)
  then obtain lm where lm: "llm_init w = Inr lm" using assms(1) by (cases "llm_init w") (auto simp: rules_from_text_def)
  have "fst (from_text send jitter lm zero (feature_enabled ''BENJAMIN_LLM_RULE_BUILDER'' w) text (known_write_skills reg) m w) = Inr p"
    using assms(1) safe lm by (simp add: rules_from_text_def split: prod.splits)
  note known = from_text_known [OF this]
  then have "s \<in> known_write_skills reg" using assms(2) validate_actions_known by blast
  then show ?thesis using safe known by (auto simp: known_write_skills_def)
qed

text \<open>A server that answers with one rule.\<close>

definition demo_rule_json :: "json dict" where
  "demo_rule_json =
     [(''name'', JStr ''tea''), (''trigger'', JDict [(''type'', JStr ''schedule'')]),
      (''actions'', JList [JDict [(''type'', JStr ''propose_step''), (''skill_name'', JStr ''reminders.create''),
                                  (''rationale'', JStr ''asked'')]])]"

definition demo_rule_server :: server where
  "demo_rule_server rq w =
     (Response 200 (Some (JDict [(''choices'', JList [JDict [(''message'', JDict [(''content'', JStr (dumps (JDict demo_rule_json)))])]])])), w)"

definition builder_world :: world where
  "builder_world = (empty_world 0)\<lparr>w_env := [''BENJAMIN_LLM_PROVIDER'' \<mapsto> ''vllm'']\<rparr>"

definition plain_manager :: manager where
  "plain_manager = \<lparr>bm_enabled = False, bm_threshold = 3, bm_open_seconds = 60, bm_max_trials = 1, bm_breakers = [], bm_file = Missing\<rparr>"

definition write_skill :: skill where
  "write_skill = \<lparr>sk_name = ''reminders.create'', sk_side_effect = Some ''write'', sk_scopes = [''reminders.write''],
                  sk_run = (\<lambda>q w. (Inr [], w))\<rparr>"

lemma demo_proposal:
  "case rules_from_text demo_rule_server (\<lambda>_. 0) (JInt 0) [(''reminders.create'', write_skill)] ''tea'' plain_manager builder_world of
     (Inr (Inr p), _) \<Rightarrow> rt_actions p = [ProposeAction ''reminders.create'' [] ''asked''] | _ \<Rightarrow> False"
  by code_simp

theorem text_proposes_write_skills_witness:
  "\<exists>sk \<in> set (map snd [(''reminders.create'', write_skill)]). sk_name sk = ''reminders.create'' \<and> is_write sk"
proof -
  obtain p m' w' where "rules_from_text demo_rule_server (\<lambda>_. 0) (JInt 0) [(''reminders.create'', write_skill)] ''tea'' plain_manager builder_world
      = (Inr (Inr p), m', w')" and "rt_actions p = [ProposeAction ''reminders.create'' [] ''asked'']"
    using demo_proposal by (auto split: prod.splits sum.splits)
  from text_proposes_write_skills [OF this(1), of "''reminders.create''" "[]" "''asked''"] this(2) show ?thesis by simp
qed

text \<open>
  The setting that should keep the builder available in safe mode has no effect on the route:
  with it the feature counts as enabled, and the route refuses all the same.
\<close>

theorem rule_builder_override_ignored:
  "\<exists>w. is_safe_mode_enabled w \<and> feature_enabled ''BENJAMIN_LLM_RULE_BUILDER'' w
    \<and> (\<forall>send jitter zero reg text m. rules_from_text send jitter zero reg text m w =
         (Inr (Inl ''Rule builder disabled in safe mode''), m, w))"
proof -
  let ?w = "(empty_world 0)\<lparr>w_env := [''BENJAMIN_SAFE_MODE'' \<mapsto> ''on'', ''BENJAMIN_LLM_RULE_BUILDER'' \<mapsto> ''on'',
              ''BENJAMIN_SAFE_MODE_ALLOW_RULE_BUILDER'' \<mapsto> ''on'']\<rparr>"
  have "is_safe_mode_enabled ?w" by code_simp
  moreover have "feature_enabled ''BENJAMIN_LLM_RULE_BUILDER'' ?w" by code_simp
  ultimately show ?thesis by (intro exI [of _ ?w]) (simp add: rules_from_text_def)
qed

end
