(* ===== verification/Planner.thy ===== *)
theory Planner
  imports Llm Memory JsonFields
begin

section \<open>The planner\<close>

text \<open>
  \<open>core/orchestration/planner.py\<close> with \<open>core/draft/drafter.py\<close> and the prompts of
  \<open>core/models/prompts.py\<close>: a request that spells a write command becomes one step that
  requires approval; other requests are planned by the language model when it is enabled,
  and answered by a fixed plan of two descriptive steps when it is not or gives no usable
  plan. A step of the model's answer is read the way \<open>PlanStep.model_validate\<close> reads it.
\<close>

subsection \<open>Drafts\<close>

record planner =
  pn_llm :: llm
  pn_enabled :: bool
  pn_drafter_enabled :: bool

definition nl :: string where
  "nl = [CHR 0x0A]"

text \<open>An exception that leaves the planner.\<close>

fun raised :: "llm_exc \<Rightarrow> exc" where
  "raised (LLMUnavailable s) = RuntimeError s"
| "raised (LLMOutputError s) = RuntimeError s"
| "raised (Unhandled e) = e"

definition draft_email ::
  "server \<Rightarrow> (nat \<Rightarrow> int) \<Rightarrow> planner \<Rightarrow> json \<Rightarrow> string list \<Rightarrow> string \<Rightarrow> string \<Rightarrow> string \<Rightarrow> manager \<Rightarrow> world
     \<Rightarrow> string res \<times> manager \<times> world" where
  "draft_email send jitter pn temperature to_list subject context_text tone m w =
     (let fallback = ''Hi,'' @ nl @ nl @ context_text @ nl @ nl @ ''Best,'' @ nl @ ''Benjamin''
      in if \<not> pn_drafter_enabled pn then (Inr fallback, m, w)
         else case complete_text send jitter (pn_llm pn) ''Draft professional emails.''
                (''Recipients: '' @ join '', '' to_list @ nl @ ''Subject: '' @ subject @ nl @ ''Tone: '' @ tone @ nl
                 @ ''Context:'' @ nl @ context_text @ nl @ nl @ ''Return only body text.'') None temperature m w of
           (Inr txt, m', w') \<Rightarrow> (Inr (strip txt), m', w')
         | (Inl (LLMUnavailable s), m', w') \<Rightarrow> (Inr fallback, m', w')
         | (Inl e, m', w') \<Rightarrow> (Inl (raised e), m', w'))"

text \<open>The agenda draft of the same class.\<close>

definition draft_calendar_agenda ::
  "server \<Rightarrow> (nat \<Rightarrow> int) \<Rightarrow> planner \<Rightarrow> json \<Rightarrow> string \<Rightarrow> string \<Rightarrow> manager \<Rightarrow> world
     \<Rightarrow> string res \<times> manager \<times> world" where
  "draft_calendar_agenda send jitter pn temperature title context_text m w =
     (let fallback = ''Agenda for '' @ title @ '':'' @ nl @ ''- Objective'' @ nl @ ''- Discussion'' @ nl @ ''- Next steps''
                       @ nl @ nl @ ''Notes: '' @ take 200 context_text
      in if \<not> pn_drafter_enabled pn then (Inr fallback, m, w)
         else case complete_text send jitter (pn_llm pn) ''Draft concise meeting agendas.''
                (''Title: '' @ title @ nl @ ''Context:'' @ nl @ context_text) None temperature m w of
           (Inr txt, m', w') \<Rightarrow> (Inr (strip txt), m', w')
         | (Inl (LLMUnavailable s), m', w') \<Rightarrow> (Inr fallback, m', w')
         | (Inl e, m', w') \<Rightarrow> (Inl (raised e), m', w'))"

subsection \<open>Prompts\<close>

definition memory_block :: "semantic_fact list \<Rightarrow> episode list \<Rightarrow> string" where
  "memory_block semantic episodic =
     (let block = join nl ([''- Semantic:''] @ map (\<lambda>f. ''  - '' @ sf_key f @ '': '' @ sf_value f) semantic
                           @ [''- Recent episodes:''] @ map (\<lambda>e. ''  - '' @ ep_summary e) (last_n 3 episodic))
      in if length block \<le> 1500 then block else rstrip (take 1499 block) @ ellipsis)"

definition planner_system_prompt :: string where
  "planner_system_prompt = ''You create execution plans as JSON. Write actions require approval and will not execute without approval. Prefer read-only skills when possible.''"

definition planner_user_prompt :: "string \<Rightarrow> string \<Rightarrow> json \<Rightarrow> string" where
  "planner_user_prompt goal memory skills =
     (let schema = JDict [(''goal'', JStr goal),
            (''steps'', JList [JDict [(''description'', JStr ''short action description''),
               (''skill_name'', JStr ''optional.skill''), (''args'', JStr ''JSON string for skill args''),
               (''requires_approval'', JBool False)]])]
      in ''Goal: '' @ goal @ nl @ nl @ ''Available skills: '' @ dumps skills @ nl @ nl
         @ ''Retrieved memory:'' @ nl @ memory @ nl @ nl @ ''Return plan JSON following this shape:'' @ nl
         @ dumps schema @ nl)"

text \<open>The skills offered to the model: name, description, and the shape of the arguments.\<close>

definition args_shape :: "(string \<times> json) list \<Rightarrow> json" where
  "args_shape shape = JStr (dumps_with '','' '':'' (JDict shape))"

definition skill_entry :: "string \<Rightarrow> string \<Rightarrow> (string \<times> json) list \<Rightarrow> json" where
  "skill_entry name description shape =
     JDict [(''name'', JStr name), (''description'', JStr description), (''args_schema'', args_shape shape)]"

definition dots :: json where
  "dots = JStr ''...''"

definition offered_skills :: "json list" where
  "offered_skills =
     [skill_entry ''reminders.create'' ''Create reminder'' [(''message'', dots), (''run_at_iso'', dots)],
      skill_entry ''calendar.search'' ''Search calendar'' [(''query'', dots)],
      skill_entry ''calendar.create_event'' ''Create event (approval)''
        [(''title'', dots), (''start_iso'', dots), (''end_iso'', dots)],
      skill_entry ''gmail.search'' ''Search Gmail'' [(''query'', dots)],
      skill_entry ''gmail.read_message'' ''Read Gmail message'' [(''message_id'', dots)],
      skill_entry ''gmail.thread_summary'' ''Summarize thread'' [(''thread_id'', dots)],
      skill_entry ''gmail.draft_email'' ''Draft Gmail email (approval)''
        [(''to'', JList [JStr ''a@b.com'']), (''subject'', dots), (''body'', dots)]]"

definition valid_skills :: "string list" where
  "valid_skills = [''reminders.create'', ''calendar.search'', ''calendar.create_event'', ''gmail.search'',
     ''gmail.read_message'', ''gmail.thread_summary'', ''gmail.draft_email'']"

subsection \<open>Steps of the model's answer\<close>

definition step_fields :: "string \<Rightarrow> json dict \<Rightarrow> plan_step option" where
  "step_fields fresh d =
     (case (str_field ''id'' (Some fresh) d, str_field ''description'' None d, opt_field ''skill_name'' d,
            str_field ''args'' (Some []) d, (case map_of d ''requires_approval'' of None \<Rightarrow> Some False | Some j \<Rightarrow> lax_bool j)) of
        (Some i, Some desc, Some sk, Some a, Some req) \<Rightarrow>
          Some \<lparr>ps_id = i, ps_description = desc, ps_skill = sk, ps_args = a, ps_requires_approval = req\<rparr>
      | _ \<Rightarrow> None)"

definition step_of_json :: "json \<Rightarrow> world \<Rightarrow> plan_step option \<times> world" where
  "step_of_json raw w =
     (case raw of
        JDict d \<Rightarrow> (if ''id'' \<in> fst ` set d then (step_fields [] d, w)
                    else let (i, w') = uuid4 w in (step_fields i d, w'))
      | _ \<Rightarrow> (None, w))"

fun collect_steps :: "json list \<Rightarrow> world \<Rightarrow> plan_step list option \<times> world" where
  "collect_steps [] w = (Some [], w)"
| "collect_steps (raw # raws) w =
     (case step_of_json raw w of
        (None, w1) \<Rightarrow> (None, w1)
      | (Some step, w1) \<Rightarrow>
          (if str_or (ps_skill step) [] \<noteq> [] \<and> str_or (ps_skill step) [] \<notin> set valid_skills then (None, w1)
           else case collect_steps raws w1 of
             (None, w2) \<Rightarrow> (None, w2)
           | (Some steps, w2) \<Rightarrow> (Some (step # steps), w2)))"

text \<open>
  The plan in a payload. A value of \<open>steps\<close> that is no list is not iterable, empty, or has
  items that are no objects; every exception this raises is caught, and there is no plan.
\<close>

definition plan_of_payload :: "string \<Rightarrow> json dict \<Rightarrow> world \<Rightarrow> plan option \<times> world" where
  "plan_of_payload goal payload w =
     (case map_of payload ''steps'' of
        Some (JList raws) \<Rightarrow>
          (case collect_steps raws w of
             (Some steps, w') \<Rightarrow>
               (if steps = [] then (None, w')
                else (Some \<lparr>pl_goal = py_str (jor (jget ''goal'' payload) (JStr goal)), pl_steps = steps\<rparr>, w'))
           | (None, w') \<Rightarrow> (None, w'))
      | _ \<Rightarrow> (None, w))"

definition llm_plan ::
  "server \<Rightarrow> (nat \<Rightarrow> int) \<Rightarrow> planner \<Rightarrow> json \<Rightarrow> string \<Rightarrow> semantic_fact list \<times> episode list \<Rightarrow> manager \<Rightarrow> world
     \<Rightarrow> plan option res \<times> manager \<times> world" where
  "llm_plan send jitter pn zero goal memory m w =
     (case complete_json send jitter (pn_llm pn) planner_system_prompt
             (planner_user_prompt goal (memory_block (fst memory) (snd memory)) (JList offered_skills))
             [(''goal'', JStr ''string''), (''steps'', JStr ''array'')] None zero m w of
        (Inl (Unhandled e), m', w') \<Rightarrow>
          (case e of TypeError s \<Rightarrow> (Inr None, m', w') | ValueError s \<Rightarrow> (Inr None, m', w') | _ \<Rightarrow> (Inl e, m', w'))
      | (Inl _, m', w') \<Rightarrow> (Inr None, m', w')
      | (Inr payload, m', w') \<Rightarrow> (let (p, w'') = plan_of_payload goal payload w' in (Inr p, m', w'')))"

subsection \<open>Commands\<close>

definition new_step :: "string \<Rightarrow> string option \<Rightarrow> string \<Rightarrow> bool \<Rightarrow> world \<Rightarrow> plan_step \<times> world" where
  "new_step description sk args req w =
     (let (i, w') = uuid4 w
      in (\<lparr>ps_id = i, ps_description = description, ps_skill = sk, ps_args = args, ps_requires_approval = req\<rparr>, w'))"

definition command_plan :: "string \<Rightarrow> string \<Rightarrow> string \<Rightarrow> string \<Rightarrow> world \<Rightarrow> plan \<times> world" where
  "command_plan goal description name payload w =
     (let (st, w') = new_step description (Some name) payload True w in (\<lparr>pl_goal = goal, pl_steps = [st]\<rparr>, w'))"

text \<open>\<open>for item in parsed.get("to") or []\<close>, each through \<open>str\<close>; a number is not iterable.\<close>

definition recipients :: "json \<Rightarrow> string list res" where
  "recipients j =
     (case jor j (JList []) of
        JList xs \<Rightarrow> Inr (map py_str xs)
      | JDict d \<Rightarrow> Inr (map fst d)
      | JStr s \<Rightarrow> Inr (map (\<lambda>c. [c]) s)
      | _ \<Rightarrow> Inl (TypeError ''object is not iterable''))"

definition gmail_payload ::
  "server \<Rightarrow> (nat \<Rightarrow> int) \<Rightarrow> planner \<Rightarrow> json \<Rightarrow> string \<Rightarrow> manager \<Rightarrow> world \<Rightarrow> string res \<times> manager \<times> world" where
  "gmail_payload send jitter pn temperature payload m w =
     (case loads payload of
        Some (JDict parsed) \<Rightarrow>
          (if 12 \<le> length (strip (py_str (jor (jget ''body'' parsed) (JStr [])))) then (Inr payload, m, w)
           else case recipients (jget ''to'' parsed) of
             Inl e \<Rightarrow> (Inl e, m, w)
           | Inr to_list \<Rightarrow>
               (case draft_email send jitter pn temperature to_list (py_str (jor (jget ''subject'' parsed) (JStr [])))
                       (py_str (jor (jget ''body'' parsed) (JStr ''Please provide a helpful response.''))) ''neutral'' m w of
                  (Inl e, m', w') \<Rightarrow> (Inl e, m', w')
                | (Inr body, m', w') \<Rightarrow> (Inr (dumps (JDict (AList.update ''body'' (JStr body) parsed))), m', w')))
      | _ \<Rightarrow> (Inr payload, m, w))"

definition deterministic_plan ::
  "server \<Rightarrow> (nat \<Rightarrow> int) \<Rightarrow> planner \<Rightarrow> json \<Rightarrow> string \<Rightarrow> manager \<Rightarrow> world \<Rightarrow> plan option res \<times> manager \<times> world" where
  "deterministic_plan send jitter pn temperature goal m w =
     (if startswith goal ''reminders.create '' then
        (let (p, w') = command_plan goal ''Create reminder'' ''reminders.create''
                         (strip (drop (length ''reminders.create '') goal)) w in (Inr (Some p), m, w'))
      else if startswith goal ''calendar.create_event '' then
        (let (p, w') = command_plan goal ''Create calendar event'' ''calendar.create_event''
                         (strip (drop (length ''calendar.create_event '') goal)) w in (Inr (Some p), m, w'))
      else if startswith goal ''gmail.draft_email '' then
        (case gmail_payload send jitter pn temperature (strip (drop (length ''gmail.draft_email '') goal)) m w of
           (Inl e, m', w') \<Rightarrow> (Inl e, m', w')
         | (Inr payload, m', w') \<Rightarrow>
             (let (p, w'') = command_plan goal ''Create Gmail draft'' ''gmail.draft_email'' payload w'
              in (Inr (Some p), m', w'')))
      else (Inr None, m, w))"

definition default_plan :: "string \<Rightarrow> world \<Rightarrow> plan \<times> world" where
  "default_plan goal w =
     (let (a, w1) = new_step (''Analyze: '' @ goal) None [] False w;
          (b, w2) = new_step (''Execute: '' @ goal) None [] False w1
      in (\<lparr>pl_goal = goal, pl_steps = [a, b]\<rparr>, w2))"

subsection \<open>Planning\<close>

text \<open>
  The switches are read when the planner is built (\<open>flag\<close> is \<open>llm_enabled\<close> of the
  constructor); \<open>make_plan\<close> is its method \<open>plan\<close>. \<open>temperature\<close> is the configured
  temperature and \<open>zero\<close> is \<open>0.0\<close>.
\<close>

definition planner_init :: "bool \<Rightarrow> world \<Rightarrow> planner res" where
  "planner_init flag w =
     (case llm_init w of
        Inl e \<Rightarrow> Inl e
      | Inr lm \<Rightarrow> Inr \<lparr>pn_llm = lm, pn_enabled = flag \<or> feature_enabled ''BENJAMIN_LLM_PLANNER'' w,
                      pn_drafter_enabled = feature_enabled ''BENJAMIN_LLM_DRAFTER'' w\<rparr>)"

definition make_plan ::
  "server \<Rightarrow> (nat \<Rightarrow> int) \<Rightarrow> planner \<Rightarrow> json \<times> json \<Rightarrow> string \<Rightarrow> semantic_fact list \<times> episode list \<Rightarrow> manager \<Rightarrow> world
     \<Rightarrow> plan res \<times> manager \<times> world" where
  "make_plan send jitter pn temps goal memory m w =
     (case deterministic_plan send jitter pn (fst temps) goal m w of
        (Inl e, m1, w1) \<Rightarrow> (Inl e, m1, w1)
      | (Inr (Some p), m1, w1) \<Rightarrow> (Inr p, m1, w1)
      | (Inr None, m1, w1) \<Rightarrow>
          (case (if pn_enabled pn then llm_plan send jitter pn (snd temps) goal memory m1 w1 else (Inr None, m1, w1)) of
             (Inl e, m2, w2) \<Rightarrow> (Inl e, m2, w2)
           | (Inr (Some p), m2, w2) \<Rightarrow> (Inr p, m2, w2)
           | (Inr None, m2, w2) \<Rightarrow> (let (p, w3) = default_plan goal w2 in (Inr p, m2, w3))))"

subsection \<open>Every plan is well formed\<close>

definition skill_known :: "plan_step \<Rightarrow> bool" where
  "skill_known st \<longleftrightarrow> str_or (ps_skill st) [] = [] \<or> str_or (ps_skill st) [] \<in> set valid_skills"

definition plan_ok :: "plan \<Rightarrow> bool" where
  "plan_ok p \<longleftrightarrow> pl_steps p \<noteq> [] \<and> list_all skill_known (pl_steps p)"

lemma collect_steps_known: "collect_steps raws w = (Some steps, w') \<Longrightarrow> list_all skill_known steps"
proof (induction raws arbitrary: w steps w')
  case (Cons raw raws)
  then show ?case by (auto simp: skill_known_def split: prod.splits option.splits if_splits)
qed simp

lemma plan_of_payload_ok: "plan_of_payload goal payload w = (Some p, w') \<Longrightarrow> plan_ok p"
  by (auto simp: plan_of_payload_def plan_ok_def split: option.splits json.splits prod.splits if_splits
      dest: collect_steps_known)

lemma command_plan_ok: "name \<in> set valid_skills \<Longrightarrow> plan_ok (fst (command_plan goal desc name payload w))"
  by (simp add: command_plan_def new_step_def uuid4_def plan_ok_def skill_known_def)

lemma command_plan_okI: "command_plan goal desc name payload w = (p, w') \<Longrightarrow> name \<in> set valid_skills \<Longrightarrow> plan_ok p"
  using command_plan_ok [of name goal desc payload w] by simp

lemma deterministic_plan_ok:
  "deterministic_plan send jitter pn t goal m w = (Inr (Some p), m', w') \<Longrightarrow> plan_ok p"
  by (auto simp: deterministic_plan_def valid_skills_def dest!: command_plan_okI
      split: if_splits prod.splits sum.splits)

lemma llm_plan_ok: "llm_plan send jitter pn z goal memory m w = (Inr (Some p), m', w') \<Longrightarrow> plan_ok p"
  by (auto simp: llm_plan_def dest: plan_of_payload_ok
      split: prod.splits sum.splits llm_exc.splits exc.splits)

lemma default_plan_ok: "plan_ok (fst (default_plan goal w))"
  by (simp add: default_plan_def new_step_def uuid4_def plan_ok_def skill_known_def Let_def)

text \<open>
  C22. Whatever the language model answers, and whether it answers or not, a plan has at least
  one step, and every step is descriptive or names one of the seven skills offered to the
  model.
\<close>

theorem plans_wellformed:
  "case fst (make_plan send jitter pn temps goal memory m w) of Inr p \<Rightarrow> plan_ok p | Inl e \<Rightarrow> True"
proof -
  obtain r1 m1 w1 where d: "deterministic_plan send jitter pn (fst temps) goal m w = (r1, m1, w1)" by (metis prod_cases3)
  obtain r2 m2 w2 where l: "(if pn_enabled pn then llm_plan send jitter pn (snd temps) goal memory m1 w1
      else (Inr None, m1, w1)) = (r2, m2, w2)" by (metis prod_cases3)
  have det: "r1 = Inr (Some p) \<Longrightarrow> plan_ok p" for p
    using d deterministic_plan_ok by blast
  have llm: "r2 = Inr (Some p) \<Longrightarrow> plan_ok p" for p
    using l llm_plan_ok by (auto split: if_splits)
  show ?thesis
    unfolding make_plan_def d l prod.case
    using det llm default_plan_ok [of goal w2] by (auto split: sum.split option.split prod.split)
qed

subsection \<open>Safe mode and the planner\<close>

text \<open>A server that plans a search, whatever it is asked, and settings that use it.\<close>

definition search_answer :: "json" where
  "search_answer = JDict [(''choices'', JList [JDict [(''message'', JDict [(''content'',
     JStr (dumps (JDict [(''steps'', JList [JDict [(''id'', JStr ''s1''), (''description'', JStr ''look''),
        (''skill_name'', JStr ''calendar.search'')]])])))])]])]"

definition search_server :: server where
  "search_server rq w = (Response 200 (Some search_answer), w)"

definition llm_world :: world where
  "llm_world = (empty_world 0)\<lparr>w_env := [''BENJAMIN_LLM_PROVIDER'' \<mapsto> ''http'', ''BENJAMIN_BREAKERS_ENABLED'' \<mapsto> ''off'']\<rparr>"

definition no_breakers :: manager where
  "no_breakers = \<lparr>bm_enabled = False, bm_threshold = 3, bm_open_seconds = 60, bm_max_trials = 1, bm_breakers = [], bm_file = Missing\<rparr>"

definition planned_skills :: "planner res \<Rightarrow> world \<Rightarrow> string option list" where
  "planned_skills pn w =
     (case pn of
        Inl e \<Rightarrow> []
      | Inr pn \<Rightarrow> (case fst (make_plan search_server (\<lambda>_. 0) pn (JInt 0, JInt 0) ''what is on'' ([], []) no_breakers w) of
                   Inl e \<Rightarrow> [] | Inr p \<Rightarrow> map ps_skill (pl_steps p)))"

text \<open>
  The planner reads its switch when it is built. Safe mode enabled while the program
  runs switches the feature off, but a planner built before still asks the language model;
  one built afterwards does not.
\<close>

theorem planner_ignores_later_safe_mode:
  "let w = snd (enable_safe_mode llm_world)
   in is_safe_mode_enabled w \<and> \<not> feature_enabled ''BENJAMIN_LLM_PLANNER'' w
      \<and> planned_skills (planner_init False llm_world) w = [Some ''calendar.search'']
      \<and> planned_skills (planner_init False w) w = [None, None]"
  by code_simp

end
