(* ===== verification/Critic.thy ===== *)
theory Critic
  imports TimeText Approvals
begin

section \<open>The critic of plans\<close>

text \<open>
  \<open>core/orchestration/critic.py\<close>: before a plan runs, the arguments of its calendar, mail
  and reminder steps are checked and normalised in place; the first step that fails stops
  the review with a question for the user. The parser of time stamps
  (\<open>datetime.fromisoformat\<close>) and the time-zone database (\<open>ZoneInfo\<close>) are parameters, the
  fields of \<open>critic\<close>; of a zone the code needs the instant of a wall-clock time.
\<close>

subsection \<open>Times with zones\<close>

text \<open>
  \<open>ZoneInfo(key)\<close>: a zone, \<open>ZoneInfoNotFoundError\<close>, or \<open>ValueError\<close> for a key that is no
  normalised relative path.
\<close>

datatype zone = Zone "int \<Rightarrow> int" | ZoneNotFound | ZoneInvalid string

record critic =
  ck_default_timezone :: string
  ck_zone :: "string \<Rightarrow> zone"
  ck_iso :: "string \<Rightarrow> datetime option"

definition critic_init :: "(string \<Rightarrow> zone) \<Rightarrow> (string \<Rightarrow> datetime option) \<Rightarrow> world \<Rightarrow> critic" where
  "critic_init zones isos w =
     \<lparr>ck_default_timezone = getenv ''BENJAMIN_TIMEZONE'' ''America/New_York'' w, ck_zone = zones, ck_iso = isos\<rparr>"

definition valid_timezone :: "critic \<Rightarrow> string \<Rightarrow> bool res" where
  "valid_timezone ck name =
     (case ck_zone ck name of Zone f \<Rightarrow> Inr True | ZoneNotFound \<Rightarrow> Inr False | ZoneInvalid e \<Rightarrow> Inl (ValueError e))"

definition local_instant :: "critic \<Rightarrow> string \<Rightarrow> int \<Rightarrow> int option res" where
  "local_instant ck name n =
     (case ck_zone ck name of
        Zone f \<Rightarrow> Inr (Some (f n)) | ZoneNotFound \<Rightarrow> Inr None | ZoneInvalid e \<Rightarrow> Inl (ValueError e))"

definition zone_name :: "critic \<Rightarrow> json \<Rightarrow> string" where
  "zone_name ck timezone_value =
     (if timezone_value = JNull then ck_default_timezone ck else strip (py_str timezone_value))"

definition critic_parse_iso :: "critic \<Rightarrow> json \<Rightarrow> json \<Rightarrow> int option res" where
  "critic_parse_iso ck v timezone_value =
     (case v of
        JStr s \<Rightarrow>
          (if strip s = [] then Inr None
           else case ck_iso ck s of
             None \<Rightarrow> Inr None
           | Some (Aware t) \<Rightarrow> Inr (Some t)
           | Some (Naive n) \<Rightarrow> local_instant ck (zone_name ck timezone_value) n)
      | _ \<Rightarrow> Inr None)"

subsection \<open>The review of one step\<close>

type_synonym change = "string \<times> json \<times> json"

text \<open>A review ends with errors and a question, or with the step, its changes and warnings.\<close>

datatype review = Refuse "string list" string | Accept plan_step "change list" "string list"

definition days :: "int \<Rightarrow> int" where
  "days n = n * 86400000000"

definition rewrite_args :: "plan_step \<Rightarrow> json dict \<Rightarrow> change list \<Rightarrow> plan_step" where
  "rewrite_args st payload changes = (if changes = [] then st else st\<lparr>ps_args := dumps (JDict payload)\<rparr>)"

definition blank :: "json \<Rightarrow> bool" where
  "blank j \<longleftrightarrow> j = JNull \<or> strip (py_str j) = []"

text \<open>The calendar step, after both times have been read.\<close>

definition review_event :: "critic \<Rightarrow> int \<Rightarrow> plan_step \<Rightarrow> json dict \<Rightarrow> int \<Rightarrow> int \<Rightarrow> review res" where
  "review_event ck now st payload start fin =
     (let tz = jget ''timezone'' payload;
          payload' = (if blank tz then AList.update ''timezone'' (JStr (ck_default_timezone ck)) payload else payload);
          changes = (if blank tz then [(''timezone'', tz, JStr (ck_default_timezone ck))] else [])
      in case (if blank tz then Inr True else valid_timezone ck (py_str tz)) of
           Inl e \<Rightarrow> Inl e
         | Inr False \<Rightarrow> Inr (Refuse [''Invalid timezone: '' @ py_str tz]
             ''The timezone looks invalid. What timezone should I use (for example, America/New_York)?'')
         | Inr True \<Rightarrow>
             (if fin \<le> start then Inr (Refuse [''Event end time must be after start time.'']
                ''Your event end time is before the start time. What should the correct end time be?'')
              else Inr (Accept (rewrite_args st payload' changes) changes
                ((if now + days 730 < start
                  then [''calendar.create_event start time is more than 2 years in the future.''] else [])
                 @ (if hours 8 < fin - start then [''calendar.create_event duration exceeds 8 hours.''] else [])))))"

definition review_calendar :: "critic \<Rightarrow> int \<Rightarrow> plan_step \<Rightarrow> review res" where
  "review_calendar ck now st =
     (case loads (ps_args st) of
        None \<Rightarrow> Inr (Refuse [''Invalid calendar.create_event payload JSON.'']
                  ''I couldn't parse the event details. Could you resend them in JSON format?'')
      | Some (JDict payload) \<Rightarrow>
          (case (critic_parse_iso ck (jget ''start_iso'' payload) (jget ''timezone'' payload),
                 critic_parse_iso ck (jget ''end_iso'' payload) (jget ''timezone'' payload)) of
             (Inl e, _) \<Rightarrow> Inl e
           | (Inr _, Inl e) \<Rightarrow> Inl e
           | (Inr (Some start), Inr (Some fin)) \<Rightarrow> review_event ck now st payload start fin
           | _ \<Rightarrow> Inr (Refuse [''calendar.create_event requires valid start_iso and end_iso.'']
                  ''I couldn't understand the event times. Can you provide valid start and end times?''))
      | Some _ \<Rightarrow> Inl (AttributeError ''object has no attribute get''))"

text \<open>\<open>list(dict.fromkeys(xs))\<close>: the first occurrence of each.\<close>

definition dedup :: "'a list \<Rightarrow> 'a list" where
  "dedup xs = rev (remdups (rev xs))"

definition normal_recipients :: "json list \<Rightarrow> string list" where
  "normal_recipients to_list = dedup (filter (\<lambda>s. s \<noteq> []) (map (\<lambda>a. strip (py_str a)) to_list))"

definition to_items :: "json \<Rightarrow> json list" where
  "to_items j = (case j of JList xs \<Rightarrow> xs | _ \<Rightarrow> [])"

definition review_gmail :: "plan_step \<Rightarrow> review res" where
  "review_gmail st =
     (case loads (ps_args st) of
        None \<Rightarrow> Inr (Refuse [''Invalid gmail.draft_email payload JSON.'']
                  ''I couldn't parse the email draft details. Could you resend them in JSON format?'')
      | Some (JDict payload) \<Rightarrow>
          (let to_list = to_items (jget ''to'' payload);
               deduped = normal_recipients to_list;
               changed = map JStr deduped \<noteq> to_list;
               payload' = (if changed then AList.update ''to'' (jstrs deduped) payload else payload);
               changes = (if changed then [(''to'', JList to_list, jstrs deduped)] else [])
           in if deduped = [] then
                Inr (Refuse [''gmail.draft_email requires at least one recipient.'']
                  ''Who should I email? Provide at least one recipient.'')
              else Inr (Accept (rewrite_args st payload' changes) changes
                     (if strip (py_str (jor (jget ''subject'' payload') (JStr []))) = []
                      then [''gmail.draft_email subject is empty.''] else [])))
      | Some _ \<Rightarrow> Inl (AttributeError ''object has no attribute get''))"

definition minutes :: "int \<Rightarrow> int" where
  "minutes n = n * 60000000"

definition review_reminder :: "critic \<Rightarrow> int \<Rightarrow> plan_step \<Rightarrow> review res" where
  "review_reminder ck now st =
     (case loads (ps_args st) of
        None \<Rightarrow> Inr (Refuse [''Invalid reminders.create payload JSON.'']
                  ''I couldn't parse the reminder details. Could you resend them in JSON format?'')
      | Some (JDict payload) \<Rightarrow>
          (if strip (py_str (jor (jget ''message'' payload) (JStr []))) = [] then
             Inr (Refuse [''reminders.create requires a non-empty message.'']
               ''What reminder message should I save?'')
           else case critic_parse_iso ck (jget ''run_at_iso'' payload) (jget ''timezone'' payload) of
             Inl e \<Rightarrow> Inl e
           | Inr None \<Rightarrow> Inr (Refuse [''reminders.create requires valid run_at_iso.'']
               ''When should I schedule this reminder? Please provide a valid date/time.'')
           | Inr (Some run_at) \<Rightarrow>
               (if run_at \<le> now then
                  (let adjusted = JStr (iso_text (now + minutes 5));
                       changes = [(''run_at_iso'', jget ''run_at_iso'' payload, adjusted)]
                   in Inr (Accept (rewrite_args st (AList.update ''run_at_iso'' adjusted payload) changes) changes []))
                else Inr (Accept st [] [])))
      | Some _ \<Rightarrow> Inl (AttributeError ''object has no attribute get''))"

definition review_step :: "critic \<Rightarrow> int \<Rightarrow> plan_step \<Rightarrow> review res" where
  "review_step ck now st =
     (if ps_skill st = Some ''calendar.create_event'' then review_calendar ck now st
      else if ps_skill st = Some ''gmail.draft_email'' then review_gmail st
      else if ps_skill st = Some ''reminders.create'' then review_reminder ck now st
      else Inr (Accept st [] []))"

subsection \<open>The review of a plan\<close>

record critic_result =
  cr_ok :: bool
  cr_warnings :: "string list"
  cr_errors :: "string list"
  cr_question :: "string option"
  cr_norms :: "(string \<times> change list) list"

text \<open>
  The loop over the steps. Steps are changed in place, so also a refused plan comes back
  with the steps before the refused one normalised. A refusal carries no warnings.
\<close>

definition norm_of :: "plan_step \<Rightarrow> change list \<Rightarrow> (string \<times> change list) list" where
  "norm_of st changes = (if changes = [] then [] else [(ps_id st, changes)])"

fun review_steps ::
  "critic \<Rightarrow> int \<Rightarrow> plan_step list \<Rightarrow> string list \<Rightarrow> (string \<times> change list) list \<Rightarrow> (critic_result \<times> plan_step list) res" where
  "review_steps ck now [] warnings norms =
     Inr (\<lparr>cr_ok = True, cr_warnings = warnings, cr_errors = [], cr_question = None, cr_norms = norms\<rparr>, [])"
| "review_steps ck now (st # sts) warnings norms =
     (case review_step ck now st of
        Inl e \<Rightarrow> Inl e
      | Inr (Refuse errors question) \<Rightarrow>
          Inr (\<lparr>cr_ok = False, cr_warnings = [], cr_errors = errors, cr_question = Some question, cr_norms = []\<rparr>, st # sts)
      | Inr (Accept st' changes warns) \<Rightarrow>
          (case review_steps ck now sts (warnings @ warns) (norms @ norm_of st changes) of
             Inl e \<Rightarrow> Inl e
           | Inr (res, sts') \<Rightarrow> Inr (res, st' # sts')))"

definition review_plan :: "critic \<Rightarrow> int \<Rightarrow> plan \<Rightarrow> (critic_result \<times> plan) res" where
  "review_plan ck now p =
     (case review_steps ck now (pl_steps p) [] [] of
        Inl e \<Rightarrow> Inl e
      | Inr (res, sts) \<Rightarrow> Inr (res, p\<lparr>pl_steps := sts\<rparr>))"

subsection \<open>What a passed review promises\<close>

definition event_valid :: "critic \<Rightarrow> json dict \<Rightarrow> bool" where
  "event_valid ck payload \<longleftrightarrow>
     (case (critic_parse_iso ck (jget ''start_iso'' payload) (jget ''timezone'' payload),
            critic_parse_iso ck (jget ''end_iso'' payload) (jget ''timezone'' payload)) of
        (Inr (Some start), Inr (Some fin)) \<Rightarrow> start < fin
      | _ \<Rightarrow> False)
     \<and> \<not> blank (jget ''timezone'' payload) \<and> valid_timezone ck (py_str (jget ''timezone'' payload)) = Inr True"

definition mail_valid :: "json dict \<Rightarrow> bool" where
  "mail_valid payload \<longleftrightarrow>
     (let to_list = to_items (jget ''to'' payload)
      in to_list \<noteq> [] \<and> map JStr (normal_recipients to_list) = to_list)"

definition reminder_valid :: "critic \<Rightarrow> int \<Rightarrow> json dict \<Rightarrow> bool" where
  "reminder_valid ck now payload \<longleftrightarrow>
     strip (py_str (jor (jget ''message'' payload) (JStr []))) \<noteq> []
     \<and> (case critic_parse_iso ck (jget ''run_at_iso'' payload) (jget ''timezone'' payload) of
          Inr (Some t) \<Rightarrow> now < t | _ \<Rightarrow> False)"

definition args_satisfy :: "(json dict \<Rightarrow> bool) \<Rightarrow> string \<Rightarrow> bool" where
  "args_satisfy valid args = (case loads args of Some (JDict payload) \<Rightarrow> valid payload | _ \<Rightarrow> False)"

definition step_valid :: "critic \<Rightarrow> int \<Rightarrow> plan_step \<Rightarrow> bool" where
  "step_valid ck now st =
     (if ps_skill st = Some ''calendar.create_event'' then args_satisfy (event_valid ck) (ps_args st)
      else if ps_skill st = Some ''gmail.draft_email'' then args_satisfy mail_valid (ps_args st)
      else if ps_skill st = Some ''reminders.create'' then args_satisfy (reminder_valid ck now) (ps_args st)
      else True)"

text \<open>
  What the normalisation relies on: a usable default zone, no zone with an empty name, and
  a parser that reads back the time stamp the review itself writes.
\<close>

definition critic_ready :: "critic \<Rightarrow> int \<Rightarrow> bool" where
  "critic_ready ck now \<longleftrightarrow>
     strip (ck_default_timezone ck) = ck_default_timezone ck \<and> ck_default_timezone ck \<noteq> []
     \<and> valid_timezone ck (ck_default_timezone ck) = Inr True \<and> valid_timezone ck [] \<noteq> Inr True
     \<and> ck_iso ck (iso_text (now + minutes 5)) = Some (Aware (now + minutes 5))"

lemma jget_update: "jget k (AList.update k' v d) = (if k = k' then v else jget k d)"
  by (simp add: jget_def update_conv')

lemma strip_nonblank:
  assumes "c \<in> set s" and "\<not> is_space c"
  shows "strip s \<noteq> []"
proof
  assume "strip s = []"
  then have "\<forall>x\<in>set (lstrip s). is_space x"
    by (simp add: strip_def rstrip_def dropWhile_eq_Nil_conv)
  then have "lstrip s = []"
    unfolding lstrip_def by (cases "dropWhile is_space s") (auto dest: hd_dropWhile [of is_space s] simp: dropWhile_eq_Cons_conv)
  then show False using assms by (auto simp: lstrip_def dropWhile_eq_Nil_conv)
qed

lemma strip_iso_text: "strip (iso_text t) \<noteq> []"
proof -
  obtain y m d where "civil_of_days (t div 1000000 div 86400) = (y, m, d)" by (metis prod_cases3)
  then have "CHR ''T'' \<in> set (iso_text t)" by (simp add: iso_text_def Let_def)
  then show ?thesis by (rule strip_nonblank) (simp add: is_space_def)
qed

lemma set_dedup [simp]: "set (dedup xs) = set xs"
  by (simp add: dedup_def)

lemma dedup_distinct: "distinct xs \<Longrightarrow> dedup xs = xs"
  by (simp add: dedup_def distinct_remdups_id)

lemma normal_recipients_idem:
  "normal_recipients (map JStr (normal_recipients xs)) = normal_recipients xs"
proof -
  let ?n = "normal_recipients xs"
  have "\<forall>s\<in>set ?n. strip s = s \<and> s \<noteq> []" by (auto simp: normal_recipients_def)
  then have "filter (\<lambda>s. s \<noteq> []) (map (\<lambda>a. strip (py_str a)) (map JStr ?n)) = ?n"
    by (simp add: filter_id_conv map_idI)
  moreover have "distinct ?n" by (simp add: normal_recipients_def dedup_def)
  ultimately show ?thesis by (simp add: normal_recipients_def [of "map JStr ?n"] dedup_distinct)
qed

lemma args_satisfy_dumps:
  "loads args = Some (JDict d) \<Longrightarrow> wf_json v \<Longrightarrow>
   args_satisfy valid (dumps (JDict (AList.update k v d))) = valid (AList.update k v d)"
  using loads_dumps [OF wf_dict_update, of d v k] loads_wf [of args "JDict d"]
  by (simp add: args_satisfy_def)

lemma wf_jstrs: "wf_json (jstrs xs)"
  by (induction xs) (simp_all add: jstrs_def)

lemma parse_default_zone:
  assumes "critic_ready ck now" and "blank tz" and "critic_parse_iso ck v tz = Inr (Some t)"
  shows "critic_parse_iso ck v (JStr (ck_default_timezone ck)) = Inr (Some t)"
proof (cases "tz = JNull")
  case True
  then have "zone_name ck (JStr (ck_default_timezone ck)) = zone_name ck tz"
    using assms(1) by (simp add: zone_name_def critic_ready_def)
  then show ?thesis using assms(3)
    by (auto simp: critic_parse_iso_def split: json.splits option.splits datetime.splits if_splits)
next
  case False
  then have "zone_name ck tz = []" using assms(2) by (simp add: zone_name_def blank_def)
  then have "local_instant ck (zone_name ck tz) n \<noteq> Inr (Some t)" for n
    using assms(1) by (auto simp: local_instant_def critic_ready_def valid_timezone_def split: zone.splits)
  then show ?thesis using assms(3)
    by (auto simp: critic_parse_iso_def split: json.splits option.splits datetime.splits if_splits)
qed

text \<open>One lemma per kind of step: an accepted step is valid, and a valid one is accepted unchanged.\<close>

lemma review_calendar_valid:
  assumes "review_calendar ck now st = Inr (Accept st' changes warns)" and ready: "critic_ready ck now"
  shows "args_satisfy (event_valid ck) (ps_args st') \<and> ps_id st' = ps_id st \<and> ps_skill st' = ps_skill st"
proof -
  obtain payload where l: "loads (ps_args st) = Some (JDict payload)"
    using assms(1) by (auto simp: review_calendar_def split: option.splits json.splits)
  let ?tz = "jget ''timezone'' payload"
  obtain start fin where s: "critic_parse_iso ck (jget ''start_iso'' payload) ?tz = Inr (Some start)"
    and f: "critic_parse_iso ck (jget ''end_iso'' payload) ?tz = Inr (Some fin)"
    and ev: "review_event ck now st payload start fin = Inr (Accept st' changes warns)"
    using assms(1) l by (auto simp: review_calendar_def split: sum.splits option.splits)
  show ?thesis
  proof (cases "blank ?tz")
    case False
    then show ?thesis using ev l s f
      by (auto simp: review_event_def rewrite_args_def args_satisfy_def event_valid_def Let_def
          split: sum.splits bool.splits if_splits)
  next
    case True
    let ?d = "JStr (ck_default_timezone ck)"
    have "event_valid ck (AList.update ''timezone'' ?d payload)" if "start < fin"
      using parse_default_zone [OF ready True s] parse_default_zone [OF ready True f] ready that
      by (simp add: event_valid_def jget_update blank_def critic_ready_def)
    then show ?thesis using ev True
      by (auto simp: review_event_def rewrite_args_def args_satisfy_dumps [OF l] Let_def split: if_splits)
  qed
qed

lemma review_gmail_valid:
  assumes "review_gmail st = Inr (Accept st' changes warns)"
  shows "args_satisfy mail_valid (ps_args st') \<and> ps_id st' = ps_id st \<and> ps_skill st' = ps_skill st"
proof -
  obtain payload where l: "loads (ps_args st) = Some (JDict payload)"
    using assms by (auto simp: review_gmail_def split: option.splits json.splits)
  let ?t = "to_items (jget ''to'' payload)"
  have ne: "normal_recipients ?t \<noteq> []"
    using assms l by (auto simp: review_gmail_def Let_def)
  have "mail_valid (AList.update ''to'' (jstrs (normal_recipients ?t)) payload)"
    using ne normal_recipients_idem [of ?t]
    by (simp add: mail_valid_def jget_update jstrs_def to_items_def)
  moreover have "mail_valid payload" if "map JStr (normal_recipients ?t) = ?t"
    using ne that by (auto simp: mail_valid_def Let_def)
  moreover have "args_satisfy mail_valid (ps_args st) = mail_valid payload" by (simp add: args_satisfy_def l)
  ultimately show ?thesis using assms l ne
    by (auto simp: review_gmail_def rewrite_args_def args_satisfy_dumps [OF l wf_jstrs] Let_def split: if_splits)
qed

lemma review_reminder_valid:
  assumes "review_reminder ck now st = Inr (Accept st' changes warns)" and ready: "critic_ready ck now"
  shows "args_satisfy (reminder_valid ck now) (ps_args st') \<and> ps_id st' = ps_id st \<and> ps_skill st' = ps_skill st"
proof -
  obtain payload where l: "loads (ps_args st) = Some (JDict payload)"
    using assms by (auto simp: review_reminder_def split: option.splits json.splits)
  let ?msg = "strip (py_str (jor (jget ''message'' payload) (JStr [])))"
  obtain run_at where r: "critic_parse_iso ck (jget ''run_at_iso'' payload) (jget ''timezone'' payload) = Inr (Some run_at)"
    and m: "?msg \<noteq> []"
    using assms l by (auto simp: review_reminder_def split: sum.splits option.splits if_splits)
  let ?new = "JStr (iso_text (now + minutes 5))"
  have "critic_parse_iso ck ?new tz = Inr (Some (now + minutes 5))" for tz
    using ready by (simp add: critic_parse_iso_def critic_ready_def strip_iso_text)
  then have "reminder_valid ck now (AList.update ''run_at_iso'' ?new payload)"
    using m by (simp add: reminder_valid_def jget_update minutes_def)
  moreover have "reminder_valid ck now payload" if "now < run_at"
    using m r that by (simp add: reminder_valid_def)
  moreover have "args_satisfy (reminder_valid ck now) (ps_args st) = reminder_valid ck now payload"
    by (simp add: args_satisfy_def l)
  ultimately show ?thesis using assms(1) l m r
    by (auto simp: review_reminder_def rewrite_args_def args_satisfy_dumps [OF l] Let_def split: if_splits)
qed

lemma review_step_valid:
  assumes "review_step ck now st = Inr (Accept st' changes warns)" and "critic_ready ck now"
  shows "step_valid ck now st' \<and> ps_id st' = ps_id st \<and> ps_skill st' = ps_skill st"
  using assms review_calendar_valid [of ck now st st'] review_gmail_valid [of st st'] review_reminder_valid [of ck now st st']
  by (auto simp: review_step_def step_valid_def split: if_splits)

lemma review_step_again:
  assumes "step_valid ck now st"
  shows "\<exists>warns. review_step ck now st = Inr (Accept st [] warns)"
proof -
  have "\<exists>warns. review_calendar ck now st = Inr (Accept st [] warns)" if "args_satisfy (event_valid ck) (ps_args st)"
    using that
    by (auto simp: args_satisfy_def review_calendar_def event_valid_def review_event_def rewrite_args_def Let_def
        split: option.splits json.splits sum.splits)
  moreover have "\<exists>warns. review_gmail st = Inr (Accept st [] warns)" if "args_satisfy mail_valid (ps_args st)"
    using that
    by (auto simp: args_satisfy_def review_gmail_def mail_valid_def rewrite_args_def Let_def split: option.splits json.splits)
  moreover have "\<exists>warns. review_reminder ck now st = Inr (Accept st [] warns)" if "args_satisfy (reminder_valid ck now) (ps_args st)"
    using that
    by (auto simp: args_satisfy_def review_reminder_def reminder_valid_def split: option.splits json.splits sum.splits)
  ultimately show ?thesis
    using assms by (auto simp: review_step_def step_valid_def split: if_splits)
qed

lemma review_steps_valid:
  assumes "review_steps ck now sts warnings norms = Inr (res, sts')" and "cr_ok res" and "critic_ready ck now"
  shows "list_all (step_valid ck now) sts' \<and> map ps_id sts' = map ps_id sts \<and> map ps_skill sts' = map ps_skill sts"
  using assms
proof (induction sts arbitrary: warnings norms sts')
  case (Cons st sts)
  obtain st' changes warns where st: "review_step ck now st = Inr (Accept st' changes warns)"
    using Cons.prems by (auto split: sum.splits review.splits)
  obtain sts'' where "review_steps ck now sts (warnings @ warns) (norms @ norm_of st changes) = Inr (res, sts'')"
    and "sts' = st' # sts''"
    using Cons.prems st by (auto split: sum.splits)
  then show ?case using Cons.IH [OF _ Cons.prems(2,3)] review_step_valid [OF st Cons.prems(3)] by auto
qed simp

lemma review_steps_again:
  "list_all (step_valid ck now) sts \<Longrightarrow>
   \<exists>ws. review_steps ck now sts warnings norms =
     Inr (\<lparr>cr_ok = True, cr_warnings = ws, cr_errors = [], cr_question = None, cr_norms = norms\<rparr>, sts)"
proof (induction sts arbitrary: warnings)
  case (Cons st sts)
  obtain warns where st: "review_step ck now st = Inr (Accept st [] warns)"
    using Cons.prems review_step_again [of ck now st] by auto
  obtain ws where "review_steps ck now sts (warnings @ warns) norms =
      Inr (\<lparr>cr_ok = True, cr_warnings = ws, cr_errors = [], cr_question = None, cr_norms = norms\<rparr>, sts)"
    using Cons.IH [of "warnings @ warns"] Cons.prems by auto
  with st show ?case by (simp add: norm_of_def)
qed simp

text \<open>
  C21. A plan that passes the review has valid calendar, mail and reminder steps (times that
  parse and lie in order, a known zone, recipients that are clean and distinct, a message
  and a time to come), the same steps in the same order, and reviewing it again changes
  nothing more.
\<close>

theorem critic_normalises:
  assumes "review_plan ck now p = Inr (res, p')" and "cr_ok res" and "critic_ready ck now"
  shows "list_all (step_valid ck now) (pl_steps p')
    \<and> map ps_id (pl_steps p') = map ps_id (pl_steps p) \<and> map ps_skill (pl_steps p') = map ps_skill (pl_steps p)
    \<and> (\<exists>ws. review_plan ck now p' =
          Inr (\<lparr>cr_ok = True, cr_warnings = ws, cr_errors = [], cr_question = None, cr_norms = []\<rparr>, p'))"
proof -
  obtain sts where r: "review_steps ck now (pl_steps p) [] [] = Inr (res, sts)" and p': "p' = p\<lparr>pl_steps := sts\<rparr>"
    using assms(1) by (auto simp: review_plan_def split: sum.splits)
  note v = review_steps_valid [OF r assms(2,3)]
  then obtain ws where "review_steps ck now sts [] [] =
      Inr (\<lparr>cr_ok = True, cr_warnings = ws, cr_errors = [], cr_question = None, cr_norms = []\<rparr>, sts)"
    using review_steps_again [of ck now sts "[]" "[]"] by blast
  then show ?thesis using v p' by (simp add: review_plan_def)
qed

definition demo_critic :: critic where
  "demo_critic = \<lparr>ck_default_timezone = ''UTC'',
     ck_zone = (\<lambda>n. if n = ''UTC'' then Zone (\<lambda>t. t) else if n = [] then ZoneInvalid ''bad key'' else ZoneNotFound),
     ck_iso = map_of [(iso_text (minutes 5), Aware (minutes 5)), (''1969-12-31T00:00:00'', Naive (- days 1))]\<rparr>"

definition demo_review_plan :: plan where
  "demo_review_plan = \<lparr>pl_goal = ''g'', pl_steps =
     [\<lparr>ps_id = ''a'', ps_description = ''mail'', ps_skill = Some ''gmail.draft_email'',
        ps_args = dumps (JDict [(''to'', JList [JStr '' a@b.c '', JStr ''a@b.c''])]), ps_requires_approval = True\<rparr>,
      \<lparr>ps_id = ''b'', ps_description = ''remind'', ps_skill = Some ''reminders.create'',
        ps_args = dumps (JDict [(''message'', JStr ''tea''), (''run_at_iso'', JStr ''1969-12-31T00:00:00'')]),
        ps_requires_approval = True\<rparr>]\<rparr>"

theorem critic_normalises_witness:
  "case review_plan demo_critic 0 demo_review_plan of
     Inr (res, p') \<Rightarrow> length (cr_norms res) = 2 \<and> list_all (step_valid demo_critic 0) (pl_steps p') | Inl e \<Rightarrow> False"
proof -
  have ready: "critic_ready demo_critic 0" by code_simp
  have ok: "case review_plan demo_critic 0 demo_review_plan of
     Inr (res, p') \<Rightarrow> cr_ok res \<and> length (cr_norms res) = 2 | Inl e \<Rightarrow> False" by code_simp
  then obtain res p' where r: "review_plan demo_critic 0 demo_review_plan = Inr (res, p')" and "cr_ok res"
    by (auto split: sum.splits)
  then show ?thesis using critic_normalises [OF r _ ready] ok by simp
qed

text \<open>
  The blank time zone that the review means to replace by the default crashes it: for a
  calendar step whose start has no offset, the zone with the empty name is looked up first,
  and the \<open>ValueError\<close> of \<open>ZoneInfo\<close> leaves the review.
\<close>

theorem blank_timezone_crashes:
  assumes "loads (ps_args st) = Some (JDict payload)" and "ps_skill st = Some ''calendar.create_event''"
    and "jget ''timezone'' payload = JStr []" and "jget ''start_iso'' payload = JStr s"
    and "strip s \<noteq> []" and "ck_iso ck s = Some (Naive n)" and "ck_zone ck [] = ZoneInvalid e"
  shows "review_plan ck now (p\<lparr>pl_steps := st # sts\<rparr>) = Inl (ValueError e)"
proof -
  have "strip [] = []" by (simp add: strip_def lstrip_def rstrip_def)
  then have "critic_parse_iso ck (jget ''start_iso'' payload) (jget ''timezone'' payload) = Inl (ValueError e)"
    using assms by (simp add: critic_parse_iso_def zone_name_def local_instant_def)
  then show ?thesis
    using assms(1,2) by (simp add: review_plan_def review_step_def review_calendar_def)
qed

definition blank_zone_step :: plan_step where
  "blank_zone_step = \<lparr>ps_id = ''c'', ps_description = ''event'', ps_skill = Some ''calendar.create_event'',
     ps_args = dumps (JDict [(''timezone'', JStr []), (''start_iso'', JStr ''1969-12-31T00:00:00'')]), ps_requires_approval = True\<rparr>"

theorem blank_timezone_crashes_witness:
  "review_plan demo_critic 0 (demo_review_plan\<lparr>pl_steps := [blank_zone_step]\<rparr>) = Inl (ValueError ''bad key'')"
proof (rule blank_timezone_crashes)
  let ?d = "[(''timezone'', JStr []), (''start_iso'', JStr ''1969-12-31T00:00:00'')]"
  show "loads (ps_args blank_zone_step) = Some (JDict ?d)"
    unfolding blank_zone_step_def by (simp add: loads_dumps)
  show "ck_iso demo_critic ''1969-12-31T00:00:00'' = Some (Naive (- days 1))" by code_simp
  show "strip ''1969-12-31T00:00:00'' \<noteq> []" by code_simp
qed (simp_all add: blank_zone_step_def jget_def demo_critic_def)

end
