(* ===== verification/Tasks.thy ===== *)
theory Tasks
  imports Memory Ledger
begin

section \<open>Task records\<close>

text \<open>
  \<open>core/runs/store.py\<close>: the log of chat tasks, \<open>tasks.jsonl\<close>, with bounded retention,
  listed and searched newest first. The last part compares the search loops of the three
  logs (tasks, episodes, executions) with their specification.
\<close>

definition tasks :: "world \<Rightarrow> task_record list" where
  "tasks w = load_rows (w_tasks w)"

definition task_trim :: "int \<Rightarrow> world \<Rightarrow> world" where
  "task_trim mx w =
     (let mx = max 1 mx; records = tasks w
      in if int (length records) \<le> mx then w else w\<lparr>w_tasks := write_rows (last_n mx records)\<rparr>)"

definition task_append :: "int \<Rightarrow> task_record \<Rightarrow> world \<Rightarrow> world" where
  \<comment> \<open>\<open>mx\<close> is the \<open>max_records\<close> the store is built with; the constructor clamps it as well\<close>
  "task_append mx r w = task_trim (max 1 mx) (w\<lparr>w_tasks := w_tasks w @ [Row r]\<rparr>)"

definition task_list_recent :: "int \<Rightarrow> world \<Rightarrow> task_record list" where
  "task_list_recent limit w = (if limit \<le> 0 then [] else rev (last_n limit (tasks w)))"

definition task_haystack :: "task_record \<Rightarrow> string" where
  "task_haystack r = casefold (join '' '' [tk_id r, tk_corr r, tk_message r, tk_answer r])"

definition task_search :: "string \<Rightarrow> int \<Rightarrow> world \<Rightarrow> task_record list" where
  "task_search q limit w =
     (let query = strip (casefold q)
      in if limit \<le> 0 then []
         else if query = [] then rev (last_n limit (tasks w))
         else scan_matches (\<lambda>r. str_in query (task_haystack r)) limit [] (rev (tasks w)))"

definition task_get :: "string \<Rightarrow> world \<Rightarrow> task_record option" where
  "task_get i w = find (\<lambda>r. tk_id r = i) (rev (tasks w))"

subsection \<open>The log\<close>

lemma tasks_append: "tasks (task_append mx r w) = retain (max 1 mx) (tasks w @ [r])"
  by (auto simp: task_append_def task_trim_def tasks_def retain_def Let_def)

interpretation task_log: bounded_log tasks "task_append mx" "max 1 mx" for mx
  by unfold_locales (rule tasks_append)

lemma task_append_frames [simp, frames]:
  "w_approvals (task_append mx r w) = w_approvals w"
  "w_ledger (task_append mx r w) = w_ledger w"
  "w_episodic (task_append mx r w) = w_episodic w"
  "w_semantic (task_append mx r w) = w_semantic w"
  "w_env (task_append mx r w) = w_env w"
  "w_safe (task_append mx r w) = w_safe w"
  "w_overrides (task_append mx r w) = w_overrides w"
  "w_now (task_append mx r w) = w_now w"
  "w_corr (task_append mx r w) = w_corr w"
  "w_outbox (task_append mx r w) = w_outbox w"
  "w_uuid (task_append mx r w) = w_uuid w"
  "w_uuids (task_append mx r w) = w_uuids w"
  by (simp_all add: task_append_def task_trim_def Let_def)

lemma task_get_append: "tk_id r = i \<Longrightarrow> task_get i (task_append mx r w) = Some r"
  by (simp add: task_get_def tasks_append retain_snoc)

lemma task_get_in: "task_get i w = Some r \<Longrightarrow> r \<in> set (tasks w) \<and> tk_id r = i"
  by (auto simp: task_get_def dest: find_SomeD)

subsection \<open>The searches against their specification\<close>

text \<open>What a search promises: the newest \<open>limit\<close> records that contain the query.\<close>

definition newest_matches :: "('a \<Rightarrow> string) \<Rightarrow> string \<Rightarrow> int \<Rightarrow> 'a list \<Rightarrow> 'a list" where
  "newest_matches haystack q limit records =
     take (nat limit) (filter (\<lambda>r. str_in (strip (casefold q)) (haystack r)) (rev records))"

lemma str_in_Nil [simp]: "str_in [] s"
  by (cases s) (simp_all add: startswith_def)

lemma rev_last_n: "0 < n \<Longrightarrow> rev (last_n n xs) = take (nat n) (rev xs)"
  by (simp add: last_n_def take_rev)

lemma last_n_rev: "0 < n \<Longrightarrow> last_n n xs = rev (take (nat n) (rev xs))"
  by (simp add: last_n_def take_rev)

text \<open>
  C38. The searches with their early exit, their shortcut for the empty query and their
  different orders compute the same thing on the three logs: the newest matches up to the
  limit, newest first for tasks and oldest first for episodes and executions.
\<close>

theorem searches_equal_specification:
  "task_search q limit w = newest_matches task_haystack q limit (tasks w)
   \<and> episodic_search q limit w = rev (newest_matches episode_haystack q limit (episodes w))
   \<and> ledger_search q limit w = rev (newest_matches ledger_haystack q limit (load_rows (w_ledger w)))"
proof (cases "0 < limit")
  case False
  then show ?thesis
    by (simp add: task_search_def episodic_search_def ledger_search_def newest_matches_def Let_def)
next
  case True
  then show ?thesis
    by (simp add: task_search_def episodic_search_def ledger_search_def newest_matches_def Let_def
        rev_last_n last_n_rev scan_matches_take)
qed

end
