(* ===== verification/Orchestrator.thy ===== *)
theory Orchestrator
  imports ApprovalFlow Planner Critic Tasks
begin

section \<open>A chat request\<close>

text \<open>
  \<open>core/orchestration/orchestrator.py\<close>: one request is planned, reviewed by the critic,
  executed, answered, remembered, and recorded as a task. What lies outside the program
  is gathered in \<open>outside\<close>: the server of the language model and the jitter of its retries,
  the two temperatures, and the working directory. Log lines are not modelled.
\<close>

record outside =
  os_server :: server
  os_jitter :: "nat \<Rightarrow> int"
  os_temps :: "json \<times> json"
  os_cwd :: string

record orchestrator =
  oc_planner :: planner
  oc_critic :: critic
  oc_registry :: registry
  oc_tasks_max :: int
  oc_autowrite :: bool

text \<open>
  The skills the constructor registers, in its order: class, side effect, and the \<open>run\<close>
  methods as a parameter. None of the classes names scopes.
\<close>

definition builtin_skill :: "(string \<Rightarrow> string \<Rightarrow> world \<Rightarrow> string res \<times> world) \<Rightarrow> string \<Rightarrow> string \<Rightarrow> skill" where
  "builtin_skill runs name effect =
     \<lparr>sk_name = name, sk_side_effect = Some effect, sk_scopes = [], sk_run = runs name\<rparr>"

definition builtin_skills :: "(string \<Rightarrow> string \<Rightarrow> world \<Rightarrow> string res \<times> world) \<Rightarrow> skill list" where
  "builtin_skills runs =
     [builtin_skill runs ''reminders.create'' ''write'', builtin_skill runs ''briefings.daily'' ''read'',
      builtin_skill runs ''calendar.search'' ''read'', builtin_skill runs ''gmail.search'' ''read'',
      builtin_skill runs ''gmail.read_message'' ''read'', builtin_skill runs ''gmail.thread_summary'' ''read'',
      builtin_skill runs ''calendar.create_event'' ''write'', builtin_skill runs ''gmail.draft_email'' ''write'']"

definition builtin_registry :: "(string \<Rightarrow> string \<Rightarrow> world \<Rightarrow> string res \<times> world) \<Rightarrow> registry" where
  "builtin_registry runs = fold register (builtin_skills runs) []"

definition orchestrator_init ::
  "(string \<Rightarrow> zone) \<Rightarrow> (string \<Rightarrow> datetime option) \<Rightarrow> (string \<Rightarrow> string \<Rightarrow> world \<Rightarrow> string res \<times> world)
     \<Rightarrow> bool \<Rightarrow> world \<Rightarrow> orchestrator res" where
  "orchestrator_init zones isos runs llm_flag w =
     (case planner_init llm_flag w of
        Inl e \<Rightarrow> Inl e
      | Inr pn \<Rightarrow>
          (case int_setting ''BENJAMIN_TASKS_MAX'' ''500'' w of
             Inl e \<Rightarrow> Inl e
           | Inr mx \<Rightarrow> Inr \<lparr>oc_planner = pn, oc_critic = critic_init zones isos w, oc_registry = builtin_registry runs,
                           oc_tasks_max = mx, oc_autowrite = autowrite_enabled w\<rparr>))"

subsection \<open>The answer\<close>

definition error_of :: "step_result \<Rightarrow> string" where
  "error_of r = str_or (sr_error r) []"

definition output_of :: "step_result \<Rightarrow> string" where
  \<comment> \<open>\<open>result.output or result.error or ""\<close>\<close>
  "output_of r = str_or (sr_output r) (error_of r)"

definition after_colon :: "string \<Rightarrow> string" where
  \<comment> \<open>\<open>s.split(":", 1)[1]\<close> of a text that has a colon\<close>
  "after_colon s = tl (dropWhile (\<lambda>c. c \<noteq> CHR '':'') s)"

definition approvals_created :: "step_result list \<Rightarrow> string list" where
  "approvals_created results =
     map (\<lambda>r. after_colon (error_of r)) (filter (\<lambda>r. startswith (error_of r) ''approval_required:'') results)"

definition blocked_skills :: "plan_step list \<Rightarrow> step_result list \<Rightarrow> string list" where
  "blocked_skills steps results =
     map (\<lambda>(st, r). opt_text (ps_skill st) @ '' requires ['' @ after_colon (error_of r) @ '']'')
       (filter (\<lambda>(st, r). startswith (error_of r) ''policy_denied:'') (zip steps results))"

definition final_response :: "plan_step list \<Rightarrow> step_result list \<Rightarrow> string" where
  "final_response steps results =
     (if list_ex (\<lambda>r. error_of r = ''safe_mode_denied'') results then
        ''Safe mode enabled; cannot propose write actions.''
      else if approvals_created results \<noteq> [] then
        ''Approval required to proceed. Approval ID: '' @ hd (approvals_created results)
        @ ''. Use GET /approvals and POST /approvals/{id}/approve to continue.''
      else if list_ex (\<lambda>r. startswith (error_of r) ''policy_denied:'') results then
        ''Policy denied. Blocked skills: '' @ join ''; '' (blocked_skills steps results)
        @ ''. Remediation: go to /ui/scopes or call POST /v1/security/scopes/enable with the required scopes.''
      else if results = [] then [] else output_of (last results))"

subsection \<open>Handling\<close>

record chat_result =
  ch_task_id :: string
  ch_steps :: "string list + plan_step list"
  ch_outputs :: "string list"
  ch_response :: string
  ch_results :: "step_result list"
  ch_events :: "trace_event list"

definition persist_task_record ::
  "int \<Rightarrow> string \<Rightarrow> string \<Rightarrow> string \<Rightarrow> plan \<Rightarrow> step_result list \<Rightarrow> string \<Rightarrow> trace_event list \<Rightarrow> world \<Rightarrow> world" where
  "persist_task_record mx task_id corr message p results response events w =
     task_append mx
       \<lparr>tk_id = task_id, tk_ts = now_iso w, tk_source = ''chat'', tk_message = message, tk_plan = p, tk_results = results,
        tk_approvals = approvals_created results, tk_answer = response, tk_trace = events, tk_corr = corr\<rparr> w"

definition count :: "string \<Rightarrow> 'a list \<Rightarrow> string \<times> json" where
  "count k xs = (k, JInt (int (length xs)))"

definition changes_json :: "change list \<Rightarrow> json" where
  "changes_json cs = JDict (map (\<lambda>(k, old, new). (k, JDict [(''from'', old), (''to'', new)])) cs)"

definition emit_norms :: "(string \<times> change list) list \<Rightarrow> trace \<Rightarrow> trace" where
  "emit_norms norms tr =
     fold (\<lambda>(i, cs). emit ''PlanNormalized'' [(''step_id'', JStr i), (''changes'', changes_json cs)]) norms tr"

text \<open>The refused plan: the question is the answer, nothing is executed.\<close>

definition refuse ::
  "orchestrator \<Rightarrow> string \<Rightarrow> string \<Rightarrow> string \<Rightarrow> critic_result \<Rightarrow> plan \<Rightarrow> trace \<Rightarrow> world \<Rightarrow> chat_result \<times> world" where
  "refuse oc task_id corr message res p tr w =
     (let tr' = emit ''PlanCriticFailed'' [(''errors'', jstrs (cr_errors res)), (''question'', opt_json (cr_question res))] tr;
          response = str_or (cr_question res) ''I need a bit more detail before I can continue.''
      in (\<lparr>ch_task_id = task_id, ch_steps = Inl (map ps_description (pl_steps p)), ch_outputs = [],
           ch_response = response, ch_results = [], ch_events = tr_events tr'\<rparr>,
          persist_task_record (oc_tasks_max oc) task_id corr message p [] response (tr_events tr') w))"

definition remember :: "orchestrator \<Rightarrow> string \<Rightarrow> string \<Rightarrow> trace \<Rightarrow> world \<Rightarrow> trace \<times> world" where
  "remember oc message response tr w =
     (if \<not> oc_autowrite oc then (tr, w)
      else let proposal = propose_writes message response;
               tr1 = emit ''MemoryWriteProposed''
                       [count ''semantic_count'' (semantic_upserts proposal), count ''episodic_count'' (episode_writes proposal)] tr;
               ((n, k), w') = commit proposal w
           in (emit ''MemoryWriteCommitted'' [(''semantic_count'', JInt (int n)), (''episodic_count'', JInt (int k))] tr1, w'))"

definition finish ::
  "orchestrator \<Rightarrow> string \<Rightarrow> string \<Rightarrow> string \<Rightarrow> plan \<Rightarrow> step_result list \<Rightarrow> trace \<Rightarrow> world \<Rightarrow> chat_result \<times> world" where
  "finish oc task_id corr message p results tr w =
     (let response = final_response (pl_steps p) results;
          (tr1, w1) = remember oc message response tr w;
          tr2 = emit ''TaskCompleted'' [count ''step_count'' results, count ''approval_count'' (approvals_created results)] tr1
      in (\<lparr>ch_task_id = task_id, ch_steps = Inr (pl_steps p), ch_outputs = map output_of results,
           ch_response = response, ch_results = results, ch_events = tr_events tr2\<rparr>,
          persist_task_record (oc_tasks_max oc) task_id corr message p results response (tr_events tr2) w1))"

text \<open>From the plan on: the review, then either the question or the execution.\<close>

definition handle_plan ::
  "orchestrator \<Rightarrow> outside \<Rightarrow> string \<Rightarrow> string \<Rightarrow> string \<Rightarrow> plan \<Rightarrow> trace \<Rightarrow> world \<Rightarrow> chat_result res \<times> world" where
  "handle_plan oc os task_id corr message p tr w =
     (let tr1 = emit ''PlanCriticStarted'' [count ''step_count'' (pl_steps p)]
                  (emit ''PlannerSucceeded'' [count ''step_count'' (pl_steps p)] tr)
      in case review_plan (oc_critic oc) (w_now w) p of
           Inl e \<Rightarrow> (Inl e, w)
         | Inr (res, p') \<Rightarrow>
             (if \<not> cr_ok res then (let (r, w') = refuse oc task_id corr message res p' tr1 w in (Inr r, w'))
              else case execute_plan p' \<lparr>cp_goal = message, cp_cwd = Some (os_cwd os)\<rparr> (oc_registry oc)
                     [(''source'', JStr ''chat''), (''task_id'', JStr task_id), (''correlation_id'', JStr corr)] False
                     (Some (emit ''PlanCriticPassed'' [count ''warnings_count'' (cr_warnings res)] (emit_norms (cr_norms res) tr1))) w of
                (Inl e, w1) \<Rightarrow> (Inl e, w1)
              | (Inr (results, None), w1) \<Rightarrow> (let (r, w') = finish oc task_id corr message p' results tr1 w1 in (Inr r, w'))
              | (Inr (results, Some tr2), w1) \<Rightarrow> (let (r, w') = finish oc task_id corr message p' results tr2 w1 in (Inr r, w'))))"

definition start_trace :: "string \<Rightarrow> string \<Rightarrow> semantic_fact list \<Rightarrow> episode list \<Rightarrow> bool \<Rightarrow> trace" where
  "start_trace task_id corr semantic episodic llm_on =
     emit ''PlannerStarted'' [(''llm_enabled'', JBool llm_on)]
       (emit ''MemoryRetrieved'' [count ''semantic_count'' semantic, count ''episodic_count'' episodic]
         (emit ''TaskStarted'' [(''source'', JStr ''chat'')]
           \<lparr>tr_task_id = Some task_id, tr_corr = Some corr, tr_events = []\<rparr>))"

text \<open>
  The request inside its log context. The planner's breakers \<open>m\<close> are part of the state.
\<close>

definition handle_request ::
  "orchestrator \<Rightarrow> outside \<Rightarrow> string \<Rightarrow> string \<Rightarrow> string \<Rightarrow> manager \<Rightarrow> world \<Rightarrow> (chat_result res \<times> manager) \<times> world" where
  "handle_request oc os task_id corr message m w =
     (let memory = retrieve_context message 8 w;
          tr = start_trace task_id corr (fst memory) (snd memory) (pn_enabled (oc_planner oc))
      in case make_plan (os_server os) (os_jitter os) (oc_planner oc) (os_temps os) message memory m w of
           (Inl e, m', w') \<Rightarrow> ((Inl e, m'), w')
         | (Inr p, m', w') \<Rightarrow> (let (r, w'') = handle_plan oc os task_id corr message p tr w' in ((r, m'), w'')))"

definition chat_ids :: "world \<Rightarrow> (string \<times> string) \<times> world" where
  "chat_ids w =
     (let (task_id, w1) = uuid4 w
      in if str_or (w_corr w1) [] \<noteq> [] then ((task_id, str_or (w_corr w1) []), w1)
         else let (corr, w2) = uuid4 w1 in ((task_id, corr), w2))"

definition handle ::
  "orchestrator \<Rightarrow> outside \<Rightarrow> string \<Rightarrow> manager \<Rightarrow> world \<Rightarrow> (chat_result res \<times> manager) \<times> world" where
  "handle oc os message m w =
     (let ((task_id, corr), w1) = chat_ids w
      in with_corr corr (handle_request oc os task_id corr message m) w1)"

subsection \<open>The registered skills\<close>

lemma builtin_registry_ok: "registry_ok (builtin_registry runs)"
proof -
  have "registry_ok reg \<Longrightarrow> registry_ok (fold register ss reg)" for ss reg
    by (induction ss arbitrary: reg) (simp_all add: registry_ok_register)
  moreover have "registry_ok []" by (simp add: registry_ok_def)
  ultimately show ?thesis by (simp add: builtin_registry_def)
qed

lemma builtin_registry_get:
  "registry_get (builtin_registry runs) n =
     (case find (\<lambda>s. sk_name s = n) (builtin_skills runs) of None \<Rightarrow> Inl (KeyError n) | Some s \<Rightarrow> Inr (as_registered s))"
  by (simp add: builtin_registry_def builtin_skills_def builtin_skill_def registry_get_register)
    (simp add: registry_get_def)

lemma valid_skill_registered:
  "n \<in> set valid_skills \<Longrightarrow> \<exists>s. registry_get (builtin_registry runs) n = Inr s"
  by (auto simp: valid_skills_def builtin_registry_get builtin_skills_def builtin_skill_def)

text \<open>Other \<open>run\<close> methods for the three skills that write.\<close>

definition with_writes ::
  "(string \<Rightarrow> string \<Rightarrow> world \<Rightarrow> string res \<times> world) \<Rightarrow> (string \<Rightarrow> string \<Rightarrow> world \<Rightarrow> string res \<times> world)
     \<Rightarrow> string \<Rightarrow> string \<Rightarrow> world \<Rightarrow> string res \<times> world" where
  "with_writes runs' runs n =
     (if n \<in> set [''reminders.create'', ''calendar.create_event'', ''gmail.draft_email''] then runs' n else runs n)"

lemma same_but_writes_builtin:
  "same_but_writes (builtin_registry runs) (builtin_registry (with_writes runs' runs))"
proof -
  have "map_of (builtin_registry r) n = map_option as_registered (find (\<lambda>s. sk_name s = n) (builtin_skills r))" for r n
    using builtin_registry_get [of r n]
    by (auto simp: registry_get_def split: option.splits)
  then show ?thesis
    by (simp add: same_but_writes_def builtin_skills_def builtin_skill_def with_writes_def as_registered_def
        is_write_def side_effect_def)
qed

subsection \<open>Frames\<close>

lemma answer_registry [simp]:
  "refuse (oc\<lparr>oc_registry := reg\<rparr>) i c message res p tr w = refuse oc i c message res p tr w"
  "finish (oc\<lparr>oc_registry := reg\<rparr>) i c message p results tr w = finish oc i c message p results tr w"
  by (simp_all add: refuse_def finish_def remember_def)

lemma handle_plan_registry:
  assumes "same_but_writes (oc_registry oc) reg"
  shows "handle_plan (oc\<lparr>oc_registry := reg\<rparr>) os task_id corr message p tr w = handle_plan oc os task_id corr message p tr w"
  unfolding handle_plan_def execute_plan_def
  by (simp add: execute_steps_same [OF assms] Let_def cong: sum.case_cong prod.case_cong option.case_cong if_cong)

text \<open>
  A chat request never runs a writing skill: whatever the model plans and whatever the
  writing skills would do, the answer, the recorded task and the state are the same.
\<close>

theorem chat_never_writes:
  "handle (oc\<lparr>oc_registry := builtin_registry (with_writes runs' runs)\<rparr>) os message m w
     = handle (oc\<lparr>oc_registry := builtin_registry runs\<rparr>) os message m w"
proof -
  let ?oc = "oc\<lparr>oc_registry := builtin_registry runs\<rparr>"
  let ?oc' = "oc\<lparr>oc_registry := builtin_registry (with_writes runs' runs)\<rparr>"
  have "?oc' = ?oc\<lparr>oc_registry := builtin_registry (with_writes runs' runs)\<rparr>" by simp
  moreover have "same_but_writes (oc_registry ?oc) (builtin_registry (with_writes runs' runs))"
    by (simp add: same_but_writes_builtin)
  ultimately have "handle_plan ?oc' os i c message p tr w = handle_plan ?oc os i c message p tr w" for i c p tr w
    using handle_plan_registry by metis
  then have "handle_request ?oc' os i c message = handle_request ?oc os i c message" for i c
    by (intro ext) (simp add: handle_request_def cong: prod.case_cong sum.case_cong)
  then show ?thesis by (simp add: handle_def)
qed

subsection \<open>The record of a request\<close>

lemma persisted_task:
  "task_get i (persist_task_record mx i corr message p results response events w) =
     Some \<lparr>tk_id = i, tk_ts = now_iso w, tk_source = ''chat'', tk_message = message, tk_plan = p, tk_results = results,
       tk_approvals = approvals_created results, tk_answer = response, tk_trace = events, tk_corr = corr\<rparr>"
  by (simp add: persist_task_record_def task_get_append)

definition recorded :: "string \<Rightarrow> chat_result \<Rightarrow> world \<Rightarrow> bool" where
  "recorded message r w =
     (case task_get (ch_task_id r) w of
        None \<Rightarrow> False
      | Some t \<Rightarrow> tk_message t = message \<and> tk_answer t = ch_response r \<and> tk_results t = ch_results r
                \<and> tk_trace t = ch_events r \<and> tk_approvals t = approvals_created (ch_results r))"

lemma refuse_recorded: "refuse oc i c message res p tr w = (r, w') \<Longrightarrow> recorded message r w'"
  by (auto simp: refuse_def recorded_def persisted_task approvals_created_def Let_def)

lemma finish_recorded: "finish oc i c message p results tr w = (r, w') \<Longrightarrow> recorded message r w'"
  by (auto simp: finish_def recorded_def persisted_task Let_def split: prod.splits)

lemma handle_plan_recorded: "handle_plan oc os i c message p tr w = (Inr r, w') \<Longrightarrow> recorded message r w'"
  by (auto simp: handle_plan_def Let_def split: sum.splits prod.splits option.splits if_splits
      dest: refuse_recorded finish_recorded)

lemma recorded_corr: "recorded message r (w\<lparr>w_corr := c\<rparr>) = recorded message r w"
  by (simp add: recorded_def task_get_def tasks_def)

text \<open>
  Every request that is answered, by an execution or by a question, leaves a task record
  under its id with its message, its answer, the results of its steps, the approvals they
  created and its trace.
\<close>

theorem chat_is_recorded:
  assumes "handle oc os message m w = ((Inr r, m'), w')"
  shows "recorded message r w'"
proof -
  obtain i c w1 where ids: "chat_ids w = ((i, c), w1)" by (metis prod.collapse)
  let ?h = "handle_request oc os i c message m (w1\<lparr>w_corr := Some c\<rparr>)"
  obtain x w2 where h: "?h = (x, w2)" by fastforce
  then have x: "x = (Inr r, m')" "w' = w2\<lparr>w_corr := w_corr w1\<rparr>"
    using assms ids by (simp_all add: handle_def with_corr_def)
  have "\<exists>p tr w3. handle_plan oc os i c message p tr w3 = (Inr r, w2)"
    using h x(1) by (auto simp: handle_request_def Let_def split: sum.splits prod.splits)
  then show ?thesis using handle_plan_recorded x(2) recorded_corr by blast
qed

definition demo_orchestrator :: orchestrator where
  "demo_orchestrator = \<lparr>
     oc_planner = \<lparr>pn_llm = \<lparr>lm_provider = ''off'', lm_model = [], lm_url = [], lm_timeout = Num 45 0, lm_temperature = Num 2 (- 1), lm_strict_json = True,
         lm_tokens_json = 1, lm_tokens_text = 1\<rparr>, pn_enabled = False, pn_drafter_enabled = False\<rparr>,
     oc_critic = demo_critic, oc_registry = builtin_registry (\<lambda>n q w. (Inr q, w)), oc_tasks_max = 5, oc_autowrite = True\<rparr>"

definition demo_outside :: outside where
  "demo_outside = \<lparr>os_server = search_server, os_jitter = (\<lambda>_. 0), os_temps = (JInt 0, JInt 0), os_cwd = ''/''\<rparr>"

theorem chat_is_recorded_witness:
  "case handle demo_orchestrator demo_outside ''hello'' no_breakers (empty_world 0) of
     ((Inr r, m'), w') \<Rightarrow> recorded ''hello'' r w' \<and> ch_response r = ''done:Execute: hello'' | _ \<Rightarrow> False"
proof -
  have e: "case handle demo_orchestrator demo_outside ''hello'' no_breakers (empty_world 0) of
     ((Inr r, m'), w') \<Rightarrow> ch_response r = ''done:Execute: hello'' | _ \<Rightarrow> False" by code_simp
  obtain x m' w' where h: "handle demo_orchestrator demo_outside ''hello'' no_breakers (empty_world 0) = ((x, m'), w')"
    by (metis prod.collapse)
  with e obtain r where "x = Inr r" by (auto split: sum.splits)
  with h e chat_is_recorded [of demo_orchestrator demo_outside "''hello''" no_breakers "empty_world 0" r m' w']
  show ?thesis by simp
qed

subsection \<open>Refused plans\<close>

text \<open>
  C20. A plan the critic refuses is not executed: no approval, ledger record, episode, fact or
  notification appears, the answer is the critic's question, and the request is recorded.
\<close>

theorem refused_plan_only_asks:
  assumes "review_plan (oc_critic oc) (w_now w) p = Inr (res, p')" and "\<not> cr_ok res"
    and "handle_plan oc os i c message p tr w = (out, w')"
  shows "w_approvals w' = w_approvals w \<and> w_ledger w' = w_ledger w \<and> w_episodic w' = w_episodic w
    \<and> w_semantic w' = w_semantic w \<and> w_outbox w' = w_outbox w
    \<and> (case out of Inl e \<Rightarrow> False
       | Inr r \<Rightarrow> ch_response r = str_or (cr_question res) ''I need a bit more detail before I can continue.''
                \<and> ch_results r = [] \<and> recorded message r w')"
proof -
  obtain tr1 r where "refuse oc i c message res p' tr1 w = (r, w')" and out: "out = Inr r"
    using assms by (auto simp: handle_plan_def Let_def split: prod.splits)
  then show ?thesis using refuse_recorded [of oc i c message res p' tr1 w r w']
    by (auto simp: refuse_def persist_task_record_def Let_def)
qed

definition nobody_plan :: plan where
  "nobody_plan = \<lparr>pl_goal = ''mail'', pl_steps = [\<lparr>ps_id = ''a'', ps_description = ''mail'',
     ps_skill = Some ''gmail.draft_email'', ps_args = ''{}'', ps_requires_approval = True\<rparr>]\<rparr>"

theorem refused_plan_only_asks_witness:
  "case handle_plan demo_orchestrator demo_outside ''t'' ''c'' ''mail'' nobody_plan
      \<lparr>tr_task_id = None, tr_corr = None, tr_events = []\<rparr> (empty_world 0) of
     (Inr r, w') \<Rightarrow> ch_response r = ''Who should I email? Provide at least one recipient.'' \<and> w_approvals w' = []
   | _ \<Rightarrow> False"
proof -
  let ?h = "handle_plan demo_orchestrator demo_outside ''t'' ''c'' ''mail'' nobody_plan
      \<lparr>tr_task_id = None, tr_corr = None, tr_events = []\<rparr> (empty_world 0)"
  have e: "case review_plan (oc_critic demo_orchestrator) (w_now (empty_world 0)) nobody_plan of
      Inr (res, p') \<Rightarrow> \<not> cr_ok res \<and> cr_question res = Some ''Who should I email? Provide at least one recipient.''
    | Inl e \<Rightarrow> False" by code_simp
  then obtain res p' where r: "review_plan (oc_critic demo_orchestrator) (w_now (empty_world 0)) nobody_plan = Inr (res, p')"
    by (cases "review_plan (oc_critic demo_orchestrator) (w_now (empty_world 0)) nobody_plan") auto
  obtain out w' where h: "?h = (out, w')" by fastforce
  have "w_approvals (empty_world 0) = []" by (simp add: empty_world_def)
  with refused_plan_only_asks [OF r _ h] e r h show ?thesis by (auto split: sum.splits)
qed

subsection \<open>Planned skills exist\<close>

lemma create_pending_no_key_error:
  "create_pending st ctx rq ra reg req w = (Inl (KeyError k), w') \<Longrightarrow> registry_get reg (str_or (ps_skill st) []) \<noteq> Inr s"
  by (auto simp: create_pending_def Let_def split: prod.splits option.splits if_splits)

lemma run_allowed_no_key_error:
  assumes "registry_get reg (str_or (ps_skill st) []) = Inr s"
  shows "run_allowed st s ctx reg rq force tr w \<noteq> (Inl (KeyError k), w')"
proof -
  have "approval_payload st \<noteq> Inl (KeyError k)"
    by (auto simp: approval_payload_def split: option.split json.split)
  then show ?thesis
    using create_pending_no_key_error assms
    by (cases "approval_payload st") (auto simp: run_allowed_def split: prod.split sum.split)
qed

lemma execute_step_no_key_error:
  assumes "str_or (ps_skill st) [] = [] \<or> (\<exists>s. registry_get reg (str_or (ps_skill st) []) = Inr s)"
  shows "execute_step st ctx reg rq force tr w \<noteq> (Inl (KeyError k), w')"
proof (cases "str_or (ps_skill st) [] = []")
  case False
  then obtain s where "registry_get reg (str_or (ps_skill st) []) = Inr s" using assms by blast
  then show ?thesis using False run_allowed_no_key_error [of reg st s]
    by (simp add: execute_step_def Let_def split: prod.split)
qed (simp add: execute_step_def)

lemma execute_steps_no_key_error:
  assumes "list_all skill_known steps"
  shows "execute_steps steps ctx (builtin_registry runs) rq force tr w \<noteq> (Inl (KeyError k), w')"
  using assms
proof (induction steps arbitrary: tr w w')
  case (Cons st steps)
  then have st: "str_or (ps_skill st) [] = [] \<or> (\<exists>s. registry_get (builtin_registry runs) (str_or (ps_skill st) []) = Inr s)"
    using valid_skill_registered [of "str_or (ps_skill st) []" runs] by (auto simp: skill_known_def)
  have "execute_steps steps ctx (builtin_registry runs) rq force tr1 w1 \<noteq> (Inl (KeyError k), w2)" for tr1 w1 w2
    using Cons by simp
  with execute_step_no_key_error [OF st] show ?case
    by (auto split: prod.split sum.split)
qed simp

lemma critic_no_key_error: "review_steps ck now sts ws ns \<noteq> Inl (KeyError k)"
proof -
  have parse: "critic_parse_iso ck v tz \<noteq> Inl (KeyError k)" "valid_timezone ck n \<noteq> Inl (KeyError k)" for v tz n
    by (auto simp: critic_parse_iso_def local_instant_def valid_timezone_def
        split: json.split option.split datetime.split zone.split)
  have "review_calendar ck now st \<noteq> Inl (KeyError k)" for st
    using parse
    by (auto simp: review_calendar_def review_event_def Let_def
        split: option.splits json.splits sum.splits bool.splits if_splits)
  moreover have "review_gmail st \<noteq> Inl (KeyError k)" for st
    by (auto simp: review_gmail_def Let_def split: option.splits json.splits if_splits)
  moreover have "review_reminder ck now st \<noteq> Inl (KeyError k)" for st
    using parse
    by (auto simp: review_reminder_def Let_def split: option.splits json.splits sum.splits bool.splits if_splits)
  ultimately have "review_step ck now st \<noteq> Inl (KeyError k)" for st
    by (simp add: review_step_def)
  then show ?thesis
    by (induction sts arbitrary: ws ns) (auto split: sum.split review.split)
qed

lemma review_step_skill:
  "review_step ck now st = Inr (Accept st' changes warns) \<Longrightarrow> ps_skill st' = ps_skill st"
  by (auto simp: review_step_def review_calendar_def review_gmail_def review_reminder_def review_event_def rewrite_args_def Let_def
      split: option.splits json.splits sum.splits bool.splits if_splits)

lemma review_steps_known:
  "review_steps ck now sts ws ns = Inr (res, sts') \<Longrightarrow> list_all skill_known sts \<Longrightarrow> list_all skill_known sts'"
proof (induction sts arbitrary: ws ns sts')
  case (Cons st sts)
  then show ?case
    by (auto split: sum.splits review.splits simp: skill_known_def dest!: review_step_skill)
qed simp

text \<open>
  Every skill a plan names is registered: executing a plan of the planner on the skills of
  the constructor never fails with a \<open>KeyError\<close>, whatever the critic changes in it.
\<close>

theorem planned_skills_exist:
  assumes "plan_ok p" and "oc_registry oc = builtin_registry runs"
  shows "fst (handle_plan oc os i c message p tr w) \<noteq> Inl (KeyError k)"
proof -
  obtain out w' where h: "handle_plan oc os i c message p tr w = (out, w')" by fastforce
  have known: "list_all skill_known (pl_steps p')" if "review_plan (oc_critic oc) (w_now w) p = Inr (res, p')" for res p'
    using that assms(1) review_steps_known by (auto simp: review_plan_def plan_ok_def split: sum.splits)
  have "review_plan (oc_critic oc) (w_now w) p \<noteq> Inl (KeyError k)"
    using critic_no_key_error by (auto simp: review_plan_def split: sum.splits)
  then have "out \<noteq> Inl (KeyError k)"
    using h known execute_steps_no_key_error
    by (auto simp: handle_plan_def execute_plan_def assms(2) Let_def split: sum.splits prod.splits option.splits if_splits)
  then show ?thesis using h by simp
qed

theorem planned_skills_exist_witness:
  "fst (handle_plan demo_orchestrator demo_outside ''t'' ''c'' ''m'' (fst (default_plan ''m'' (empty_world 0)))
      \<lparr>tr_task_id = None, tr_corr = None, tr_events = []\<rparr> (empty_world 0)) \<noteq> Inl (KeyError ''x'')"
  by (rule planned_skills_exist [of _ _ "\<lambda>n q w. (Inr q, w)"])
    (simp_all add: default_plan_ok demo_orchestrator_def)

subsection \<open>A planned read that asks for approval\<close>

text \<open>A server whose plan marks a search as needing approval, and a planner that asks it.\<close>

definition approving_answer :: json where
  "approving_answer = JDict [(''choices'', JList [JDict [(''message'', JDict [(''content'',
     JStr (dumps (JDict [(''steps'', JList [JDict [(''id'', JStr ''s1''), (''description'', JStr ''look''),
        (''skill_name'', JStr ''calendar.search''), (''requires_approval'', JBool True)]])])))])]])]"

definition approving_outside :: outside where
  "approving_outside = demo_outside\<lparr>os_server := (\<lambda>rq w. (Response 200 (Some approving_answer), w))\<rparr>"

definition llm_orchestrator :: orchestrator where
  "llm_orchestrator = demo_orchestrator\<lparr>oc_planner :=
     \<lparr>pn_llm = \<lparr>lm_provider = ''http'', lm_model = ''m'', lm_url = ''u'', lm_timeout = Num 45 0, lm_temperature = Num 2 (- 1), lm_strict_json = True,
         lm_tokens_json = 1, lm_tokens_text = 1\<rparr>, pn_enabled = True, pn_drafter_enabled = False\<rparr>\<rparr>"

text \<open>
  The model may mark a reading step as requiring approval; the executor then asks for an
  approval that the service refuses for reading skills, and the request ends with that
  \<open>ValueError\<close>: no answer and no task record.
\<close>

theorem approval_for_read_crashes:
  "case handle llm_orchestrator approving_outside ''what is on'' no_breakers llm_world of
     ((Inl e, m'), w') \<Rightarrow> e = ValueError ''approval can only be created for write skills'' \<and> tasks w' = []
   | _ \<Rightarrow> False"
  by code_simp

end
