(* ===== verification/Query.thy ===== *)
theory Query
  imports ApprovalFlow Tasks
begin

section \<open>What happened: correlations and the search over all logs\<close>

text \<open>
  \<open>core/observability/query.py\<close>: the records of one correlation id, gathered from tasks,
  episodes, the ledger and the approvals, and the search over the four logs with its filters
  by kind and status.
\<close>

subsection \<open>Statuses\<close>

definition task_status :: "task_record \<Rightarrow> string" where
  "task_status t =
     (if str_in ''skipped'' (casefold (tk_answer t)) then ''skipped''
      else if list_ex (\<lambda>(name, payload). name = ''idempotent_skip'') (tk_trace t) then ''skipped''
      else let failures = filter (\<lambda>r. \<not> sr_ok r) (tk_results t)
           in if failures = [] then ''ok''
              else if list_all (\<lambda>r. casefold (str_or (sr_error r) []) = ''approval_required'') failures then ''ok''
              else ''failed'')"

definition episode_status :: "episode \<Rightarrow> string" where
  "episode_status e = (if map_of (ep_meta e) ''ok'' = Some (JBool False) then ''failed'' else ''ok'')"

definition without_spaces :: "string \<Rightarrow> string" where
  "without_spaces s = filter (\<lambda>c. c \<noteq> CHR '' '') s"

definition skipped_mark :: string where
  "skipped_mark = [CHR 0x22] @ ''skipped'' @ [CHR 0x22] @ '':true''"

definition approval_status_of :: "approval \<Rightarrow> string" where
  "approval_status_of r =
     (if ap_status r \<in> {Rejected, Expired} then ''failed''
      else if ap_status r = Approved then
        (case ap_result r of
           None \<Rightarrow> ''ok''
         | Some res \<Rightarrow>
             (if str_or (sr_output res) [] \<noteq> [] \<and> str_in skipped_mark (without_spaces (str_or (sr_output res) []))
              then ''skipped''
              else if \<not> sr_ok res then ''failed'' else ''ok''))
      else ''ok'')"

definition matches_query :: "string \<Rightarrow> string \<Rightarrow> bool" where
  "matches_query txt query = str_in query (casefold txt)"

subsection \<open>One correlation\<close>

record correlation_view =
  cv_id :: string
  cv_tasks :: "task_record list"
  cv_episodes :: "episode list"
  cv_ledger :: "ledger_record list"
  cv_approvals :: "approval list"
  cv_approval_ids :: "string list"
  cv_task_ids :: "string list"

definition episode_approval_ids :: "episode list \<Rightarrow> string list" where
  "episode_approval_ids es =
     concat (map (\<lambda>e. if truthy (jget ''approval_id'' (ep_meta e)) then [py_str (jget ''approval_id'' (ep_meta e))] else []) es)"

definition by_id :: "approval list \<Rightarrow> approval dict \<Rightarrow> approval dict" where
  "by_id rs d = fold (\<lambda>r. AList.update (ap_id r) r) rs d"

definition build_correlation_view :: "string \<Rightarrow> int \<Rightarrow> world \<Rightarrow> correlation_view" where
  "build_correlation_view corr limit w =
     (let ts = filter (\<lambda>t. tk_corr t = corr) (task_list_recent limit w);
          es = episodic_find_by_correlation corr limit w;
          task_ids = concat (map tk_approvals ts);
          episode_ids = episode_approval_ids es;
          direct = by_id (approvals_find_by_correlation corr limit w) [];
          all = by_id (filter (\<lambda>r. ap_id r \<in> set task_ids \<or> ap_id r \<in> set episode_ids) (approvals_list_all None w)) direct
      in \<lparr>cv_id = corr, cv_tasks = ts, cv_episodes = es, cv_ledger = ledger_find_by_correlation corr limit w,
          cv_approvals = sorted_desc ap_created (map snd all),
          cv_approval_ids = sort (remdups (task_ids @ episode_ids)), cv_task_ids = sort (remdups (map tk_id ts))\<rparr>)"

subsection \<open>The search\<close>

record sections =
  se_tasks :: "task_record list"
  se_rule_runs :: "episode list"
  se_job_runs :: "episode list"
  se_approval_audits :: "episode list"
  se_policy_audits :: "episode list"
  se_ledger :: "ledger_record list"
  se_approvals :: "approval list"

definition with_status :: "string \<Rightarrow> ('a \<Rightarrow> string) \<Rightarrow> 'a list \<Rightarrow> 'a list" where
  "with_status status status_of xs = (if status \<noteq> ''all'' then filter (\<lambda>x. status_of x = status) xs else xs)"

definition with_query :: "string \<Rightarrow> ('a \<Rightarrow> string) \<Rightarrow> 'a list \<Rightarrow> 'a list" where
  "with_query query text_of xs = (if query \<noteq> [] then filter (\<lambda>x. matches_query (text_of x) query) xs else xs)"

definition task_text :: "task_record \<Rightarrow> string" where
  "task_text t = tk_id t @ '' '' @ tk_corr t @ '' '' @ tk_message t @ '' '' @ tk_answer t"

definition approval_text :: "approval \<Rightarrow> string" where
  "approval_text r = join '' '' [ap_id r, approval_status_str (ap_status r), ps_id (ap_step r), str_or (ps_skill (ap_step r)) [],
     dumps (JDict (ap_requester r))]"

definition clamp_limit :: "int \<Rightarrow> int" where
  "clamp_limit limit = max 1 (min 200 limit)"

definition keep_kind :: "string \<Rightarrow> sections \<Rightarrow> sections" where
  "keep_kind kind s =
     (let none = \<lparr>se_tasks = [], se_rule_runs = [], se_job_runs = [], se_approval_audits = [], se_policy_audits = [],
                  se_ledger = [], se_approvals = []\<rparr>
      in if kind = ''chat'' then none\<lparr>se_tasks := se_tasks s\<rparr>
         else if kind = ''rule'' then none\<lparr>se_rule_runs := se_rule_runs s\<rparr>
         else if kind = ''job'' then none\<lparr>se_job_runs := se_job_runs s\<rparr>
         else if kind = ''approval'' then none\<lparr>se_approval_audits := se_approval_audits s, se_approvals := se_approvals s\<rparr>
         else if kind = ''policy'' then none\<lparr>se_policy_audits := se_policy_audits s\<rparr>
         else s)"

definition search_runs :: "string \<Rightarrow> string \<Rightarrow> string \<Rightarrow> int \<Rightarrow> world \<Rightarrow> sections" where
  "search_runs kind status q limit0 w =
     (let limit = clamp_limit limit0;
          query = strip (casefold q);
          ts = with_query query task_text (with_status status task_status (task_search query limit w));
          es = with_status status episode_status (episodic_search query limit w);
          ls = with_status status (\<lambda>r. status_str (lr_status r)) (ledger_search query limit w);
          aps = with_status status approval_status_of (with_query query approval_text (approvals_list_all None w));
          n = nat limit;
          of_kind = (\<lambda>kinds. take n (filter (\<lambda>e. ep_kind e \<in> set kinds) es))
      in keep_kind kind
           \<lparr>se_tasks = take n ts, se_rule_runs = of_kind [''rule''],
            se_job_runs = of_kind [''briefing'', ''notification'', ''job''],
            se_approval_audits = of_kind [''approval''], se_policy_audits = of_kind [''policy''],
            se_ledger = take n ls, se_approvals = take n aps\<rparr>)"

subsection \<open>What the search returns\<close>

lemma with_status_sound: "list_all (\<lambda>x. status = ''all'' \<or> status_of x = status) (with_status status status_of xs)"
  by (simp add: with_status_def list_all_iff)

lemma list_all_take_filter: "list_all P xs \<Longrightarrow> list_all P (take n xs)" "list_all P xs \<Longrightarrow> list_all P (filter Q xs)"
  by (auto simp: list_all_iff dest: in_set_takeD)

lemma with_query_filter: "list_all P xs \<Longrightarrow> list_all P (with_query query text_of xs)"
  by (auto simp: with_query_def list_all_iff)

lemma search_runs_sections:
  fixes kind status q :: string and limit :: int and w :: world
  defines "s \<equiv> search_runs kind status q limit w" and "n \<equiv> nat (clamp_limit limit)" and "query \<equiv> strip (casefold q)"
  shows "se_tasks s \<in> {[], take n (with_query query task_text
          (with_status status task_status (task_search query (clamp_limit limit) w)))}"
    and "se_ledger s \<in> {[], take n (with_status status (\<lambda>r. status_str (lr_status r)) (ledger_search query (clamp_limit limit) w))}"
    and "se_approvals s \<in> {[], take n (with_status status approval_status_of
          (with_query query approval_text (approvals_list_all None w)))}"
    and "se_rule_runs s \<in> {[], take n (filter (\<lambda>e. ep_kind e \<in> set [''rule''])
          (with_status status episode_status (episodic_search query (clamp_limit limit) w)))}"
  by (simp_all add: s_def n_def query_def search_runs_def keep_kind_def Let_def)

lemma section_sound:
  assumes "ys \<in> {[], take (nat (clamp_limit limit)) xs}" and "list_all P xs"
  shows "length ys \<le> 200 \<and> list_all P ys"
  using assms list_all_take_filter(1) by (auto simp: clamp_limit_def)

text \<open>
  A search returns at most 200 tasks, ledger records, approvals and rule runs, and each
  of them has the status asked for.
\<close>

theorem search_runs_sound:
  fixes kind status q :: string and limit :: int and w :: world
  defines "s \<equiv> search_runs kind status q limit w"
  shows "length (se_tasks s) \<le> 200 \<and> list_all (\<lambda>t. status = ''all'' \<or> task_status t = status) (se_tasks s)
    \<and> length (se_ledger s) \<le> 200 \<and> list_all (\<lambda>r. status = ''all'' \<or> status_str (lr_status r) = status) (se_ledger s)
    \<and> length (se_approvals s) \<le> 200 \<and> list_all (\<lambda>r. status = ''all'' \<or> approval_status_of r = status) (se_approvals s)
    \<and> length (se_rule_runs s) \<le> 200 \<and> list_all (\<lambda>e. status = ''all'' \<or> episode_status e = status) (se_rule_runs s)"
proof -
  note sound = with_status_sound list_all_take_filter(2) with_query_filter
  note sections = search_runs_sections [where kind = kind and status = status and q = q and limit = limit and w = w]
  show ?thesis
    unfolding s_def
    using section_sound [OF sections(1), of "\<lambda>t. status = ''all'' \<or> task_status t = status"]
      section_sound [OF sections(2), of "\<lambda>r. status = ''all'' \<or> status_str (lr_status r) = status"]
      section_sound [OF sections(3), of "\<lambda>r. status = ''all'' \<or> approval_status_of r = status"]
      section_sound [OF sections(4), of "\<lambda>e. status = ''all'' \<or> episode_status e = status"]
    by (simp add: sound)
qed

text \<open>
  A task that waits for an approval is reported as failed: the status looks for the error
  \<open>approval_required\<close>, but the executor writes \<open>approval_required:\<close> and the id.
\<close>

theorem waiting_task_reported_failed:
  assumes "r \<in> set (tk_results t)" and "\<not> sr_ok r" and "sr_error r = Some (''approval_required:'' @ i)"
    and "\<not> str_in ''skipped'' (casefold (tk_answer t))"
    and "\<not> list_ex (\<lambda>(name, payload). name = ''idempotent_skip'') (tk_trace t)"
  shows "task_status t = ''failed''"
proof -
  let ?fs = "filter (\<lambda>r. \<not> sr_ok r) (tk_results t)"
  have r: "r \<in> set ?fs" using assms(1,2) by simp
  have "casefold (''approval_required:'' @ i) \<noteq> ''approval_required''"
  proof
    assume "casefold (''approval_required:'' @ i) = ''approval_required''"
    then have "length (casefold (''approval_required:'' @ i)) = length ''approval_required''" by (rule arg_cong)
    then show False by simp
  qed
  then have "\<not> list_all (\<lambda>r. casefold (str_or (sr_error r) []) = ''approval_required'') ?fs"
    using r assms(3) by (fastforce simp: list_all_iff)
  moreover have "?fs \<noteq> []" using r by (metis empty_iff list.set(1))
  ultimately show ?thesis using assms(4,5) by (simp add: task_status_def Let_def)
qed

definition waiting_task :: task_record where
  "waiting_task = \<lparr>tk_id = ''t'', tk_ts = NotIso [], tk_source = ''chat'', tk_message = ''m'', tk_plan = demo_plan,
      tk_results = [step_failed (hd (pl_steps demo_plan)) ''approval_required:a1''],
      tk_approvals = [''a1''], tk_answer = ''Approval required to proceed.'', tk_trace = [], tk_corr = ''c''\<rparr>"

theorem waiting_task_reported_failed_witness: "task_status waiting_task = ''failed''"
proof (rule waiting_task_reported_failed)
  show "step_failed (hd (pl_steps demo_plan)) ''approval_required:a1'' \<in> set (tk_results waiting_task)"
    by (simp add: waiting_task_def)
  show "sr_error (step_failed (hd (pl_steps demo_plan)) ''approval_required:a1'') = Some (''approval_required:'' @ ''a1'')"
    by (simp add: step_failed_def)
  show "\<not> str_in ''skipped'' (casefold (tk_answer waiting_task))" by code_simp
qed (simp_all add: step_failed_def waiting_task_def)

end
