(* ===== verification/Cache.thy ===== *)
theory Cache
  imports World
begin

section \<open>The cache with expiry\<close>

text \<open>
  \<open>core/cache/ttl.py\<close>: a dictionary whose entries expire. The state \<open>'s\<close> is whatever the
  cached computations work on; \<open>clock\<close> reads \<open>time.monotonic()\<close> from it, in microseconds, as
  the whole seconds of a time to live are counted. \<open>get_or_set\<close> computes a missing value
  while it holds the cache's lock, so the computation works on \<open>'s\<close> and not on the cache.
\<close>

subsection \<open>The operations\<close>

record 'v ttl_cache =
  tc_default :: int
  tc_data :: "(int \<times> 'v) dict"

definition SECOND :: int where
  "SECOND = 1000000"

definition ttl_cache_new :: "int \<Rightarrow> 'v ttl_cache" where
  "ttl_cache_new default_ttl_s = \<lparr>tc_default = max 1 default_ttl_s, tc_data = []\<rparr>"

definition ttl_put :: "string \<Rightarrow> int \<Rightarrow> 'v \<Rightarrow> 'v ttl_cache \<Rightarrow> 'v ttl_cache" where
  "ttl_put key expires_at v c = c\<lparr>tc_data := AList.update key (expires_at, v) (tc_data c)\<rparr>"

definition ttl_pop :: "string \<Rightarrow> 'v ttl_cache \<Rightarrow> 'v ttl_cache" where
  "ttl_pop key c = c\<lparr>tc_data := AList.delete key (tc_data c)\<rparr>"

definition ttl_get :: "('s \<Rightarrow> int) \<Rightarrow> string \<Rightarrow> 's \<Rightarrow> 'v ttl_cache \<Rightarrow> 'v option \<times> 'v ttl_cache" where
  "ttl_get clock key s c =
     (let now = clock s
      in case map_of (tc_data c) key of
           None \<Rightarrow> (None, c)
         | Some (expires_at, v) \<Rightarrow>
             if expires_at \<le> now then (None, ttl_pop key c) else (Some v, c))"

definition ttl_set :: "('s \<Rightarrow> int) \<Rightarrow> string \<Rightarrow> 'v \<Rightarrow> int option \<Rightarrow> 's \<Rightarrow> 'v ttl_cache \<Rightarrow> 'v ttl_cache" where
  "ttl_set clock key v ttl_s s c =
     (let ttl_value = (case ttl_s of None \<Rightarrow> tc_default c | Some t \<Rightarrow> max 1 t)
      in ttl_put key (clock s + ttl_value * SECOND) v c)"

definition ttl_compute ::
  "('s \<Rightarrow> int) \<Rightarrow> string \<Rightarrow> int \<Rightarrow> ('s \<Rightarrow> 'v res \<times> 's) \<Rightarrow> 's \<Rightarrow> 'v ttl_cache \<Rightarrow> 'v res \<times> 'v ttl_cache \<times> 's" where
  "ttl_compute clock key ttl_s fn s c =
     (case fn s of
        (Inl e, s') \<Rightarrow> (Inl e, c, s')
      | (Inr v, s') \<Rightarrow> (Inr v, ttl_put key (clock s' + max 1 ttl_s * SECOND) v c, s'))"

definition ttl_get_or_set ::
  "('s \<Rightarrow> int) \<Rightarrow> string \<Rightarrow> int \<Rightarrow> ('s \<Rightarrow> 'v res \<times> 's) \<Rightarrow> 's \<Rightarrow> 'v ttl_cache \<Rightarrow> 'v res \<times> 'v ttl_cache \<times> 's" where
  "ttl_get_or_set clock key ttl_s fn s c =
     (let now = clock s
      in case map_of (tc_data c) key of
           None \<Rightarrow> ttl_compute clock key ttl_s fn s c
         | Some (expires_at, v) \<Rightarrow>
             if now < expires_at then (Inr v, c, s)
             else ttl_compute clock key ttl_s fn s (ttl_pop key c))"

lemma ttl_data [simp]:
  "map_of (tc_data (ttl_put k e v c)) = (map_of (tc_data c))(k \<mapsto> (e, v))"
  "map_of (tc_data (ttl_pop k c)) = (map_of (tc_data c))(k := None)"
  "tc_default (ttl_put k e v c) = tc_default c" "tc_default (ttl_pop k c) = tc_default c"
  by (simp_all add: ttl_put_def ttl_pop_def update_conv' delete_conv')

subsection \<open>What the cache promises\<close>

text \<open>
  The specification is a table that never forgets: it remembers for every key the last value
  stored and until when it holds. A look-up answers with what holds at the time.
\<close>

type_synonym 'v timed = "string \<rightharpoonup> int \<times> 'v"

definition holds_at :: "'v timed \<Rightarrow> int \<Rightarrow> string \<Rightarrow> 'v option" where
  "holds_at m t k = (case m k of None \<Rightarrow> None | Some (e, v) \<Rightarrow> if t < e then Some v else None)"

datatype ('v, 's) cache_op =
    OpGet string
  | OpSet string 'v "int option"
  | OpGetOrSet string int "'s \<Rightarrow> 'v res \<times> 's"
  | OpElapse "'s \<Rightarrow> 's"

fun timed_step ::
  "('s \<Rightarrow> int) \<Rightarrow> int \<Rightarrow> ('v, 's) cache_op \<Rightarrow> 's \<Rightarrow> 'v timed \<Rightarrow> 'v option res \<times> 'v timed \<times> 's" where
  "timed_step clock d (OpGet k) s m = (Inr (holds_at m (clock s) k), m, s)"
| "timed_step clock d (OpSet k v ttl) s m =
     (Inr None, m(k \<mapsto> (clock s + (case ttl of None \<Rightarrow> d | Some t \<Rightarrow> max 1 t) * SECOND, v)), s)"
| "timed_step clock d (OpGetOrSet k ttl fn) s m =
     (case holds_at m (clock s) k of
        Some v \<Rightarrow> (Inr (Some v), m, s)
      | None \<Rightarrow>
          (case fn s of
             (Inl e, s') \<Rightarrow> (Inl e, m, s')
           | (Inr v, s') \<Rightarrow> (Inr (Some v), m(k \<mapsto> (clock s' + max 1 ttl * SECOND, v)), s')))"
| "timed_step clock d (OpElapse f) s m = (Inr None, m, f s)"

fun cache_step ::
  "('s \<Rightarrow> int) \<Rightarrow> ('v, 's) cache_op \<Rightarrow> 's \<Rightarrow> 'v ttl_cache \<Rightarrow> 'v option res \<times> 'v ttl_cache \<times> 's" where
  "cache_step clock (OpGet k) s c = (case ttl_get clock k s c of (r, c') \<Rightarrow> (Inr r, c', s))"
| "cache_step clock (OpSet k v ttl) s c = (Inr None, ttl_set clock k v ttl s c, s)"
| "cache_step clock (OpGetOrSet k ttl fn) s c =
     (case ttl_get_or_set clock k ttl fn s c of (r, c', s') \<Rightarrow> (map_sum id Some r, c', s'))"
| "cache_step clock (OpElapse f) s c = (Inr None, c, f s)"

fun timed_run ::
  "('s \<Rightarrow> int) \<Rightarrow> int \<Rightarrow> ('v, 's) cache_op list \<Rightarrow> 's \<Rightarrow> 'v timed \<Rightarrow> 'v option res list \<times> 'v timed \<times> 's" where
  "timed_run clock d [] s m = ([], m, s)"
| "timed_run clock d (x # xs) s m =
     (let (r, m1, s1) = timed_step clock d x s m; (rs, m2, s2) = timed_run clock d xs s1 m1 in (r # rs, m2, s2))"

fun cache_run ::
  "('s \<Rightarrow> int) \<Rightarrow> ('v, 's) cache_op list \<Rightarrow> 's \<Rightarrow> 'v ttl_cache \<Rightarrow> 'v option res list \<times> 'v ttl_cache \<times> 's" where
  "cache_run clock [] s c = ([], c, s)"
| "cache_run clock (x # xs) s c =
     (let (r, c1, s1) = cache_step clock x s c; (rs, c2, s2) = cache_run clock xs s1 c1 in (r # rs, c2, s2))"

text \<open>The clock is monotonic: whatever is computed or waited for, it does not go back.\<close>

fun forward :: "('s \<Rightarrow> int) \<Rightarrow> ('v, 's) cache_op \<Rightarrow> bool" where
  "forward clock (OpGetOrSet k ttl fn) \<longleftrightarrow> (\<forall>s. clock s \<le> clock (snd (fn s)))"
| "forward clock (OpElapse f) \<longleftrightarrow> (\<forall>s. clock s \<le> clock (f s))"
| "forward clock _ \<longleftrightarrow> True"

text \<open>
  Cache and table are related when they agree from now on; what the cache has dropped had
  expired, and with a clock that does not go back it stays expired.
\<close>

definition agrees :: "int \<Rightarrow> 'v ttl_cache \<Rightarrow> 'v timed \<Rightarrow> bool" where
  "agrees t c m \<longleftrightarrow> (\<forall>t' k. t \<le> t' \<longrightarrow> holds_at (map_of (tc_data c)) t' k = holds_at m t' k)"

lemma agrees_refl: "agrees t c (map_of (tc_data c))"
  by (simp add: agrees_def)

lemma agrees_later: "agrees t c m \<Longrightarrow> t \<le> t' \<Longrightarrow> agrees t' c m"
  by (auto simp: agrees_def)

lemma agrees_now: "agrees t c m \<Longrightarrow> holds_at m t k = holds_at (map_of (tc_data c)) t k"
  by (simp add: agrees_def)

lemma holds_at_put: "holds_at (m(k \<mapsto> (e, v))) t k' = (if k' = k then if t < e then Some v else None else holds_at m t k')"
  by (simp add: holds_at_def)

lemma agrees_put: "agrees t c m \<Longrightarrow> agrees t (ttl_put k e v c) (m(k \<mapsto> (e, v)))"
  by (simp add: agrees_def holds_at_put del: fun_upd_apply)

lemma agrees_pop:
  assumes "agrees t c m" "map_of (tc_data c) k = Some (e, v)" "e \<le> t"
  shows "agrees t (ttl_pop k c) m"
  unfolding agrees_def
proof (intro allI impI)
  fix t' k' assume "t \<le> t'"
  with assms have "holds_at (map_of (tc_data c)) t' k' = holds_at m t' k'" by (simp add: agrees_def)
  moreover have "holds_at (map_of (tc_data (ttl_pop k c))) t' k' = holds_at (map_of (tc_data c)) t' k'"
    using assms \<open>t \<le> t'\<close> by (simp add: holds_at_def)
  ultimately show "holds_at (map_of (tc_data (ttl_pop k c))) t' k' = holds_at m t' k'" by simp
qed

lemma agrees_compute:
  assumes "agrees (clock s) c m" and "\<forall>s. clock s \<le> clock (snd (fn s))"
    and "ttl_compute clock k ttl fn s c = (r, c', s')"
  shows "\<exists>m'. (case fn s of (Inl e, s') \<Rightarrow> (Inl e, m, s')
             | (Inr v, s') \<Rightarrow> (Inr (Some v), m(k \<mapsto> (clock s' + max 1 ttl * SECOND, v)), s')) = (map_sum id Some r, m', s')
    \<and> agrees (clock s') c' m' \<and> tc_default c' = tc_default c"
proof -
  have "clock s \<le> clock (snd (fn s))" using assms(2) by blast
  then have "agrees (clock (snd (fn s))) c m" using agrees_later assms(1) by blast
  then show ?thesis
    using assms(3) by (auto simp: ttl_compute_def agrees_put split: prod.splits sum.splits)
qed

lemma cache_step_simulates:
  assumes agr: "agrees (clock s) c m" and fwd: "forward clock x" and d: "tc_default c = d"
    and st: "cache_step clock x s c = (r, c', s')"
  shows "\<exists>m'. timed_step clock d x s m = (r, m', s') \<and> agrees (clock s') c' m' \<and> tc_default c' = d"
proof (cases x)
  case (OpGet k)
  then show ?thesis
    using st agr d agrees_now [OF agr, of k]
    by (auto simp: ttl_get_def holds_at_def agrees_pop split: option.splits prod.splits if_splits)
next
  case (OpSet k v ttl)
  then show ?thesis using st agr d by (auto simp: ttl_set_def agrees_put)
next
  case (OpElapse f)
  then show ?thesis using st agr d fwd by (auto intro: agrees_later)
next
  case (OpGetOrSet k ttl fn)
  then have fwd': "\<forall>s. clock s \<le> clock (snd (fn s))" using fwd by simp
  obtain r0 where st': "ttl_get_or_set clock k ttl fn s c = (r0, c', s')" and r: "r = map_sum id Some r0"
    using st OpGetOrSet by (auto split: prod.splits)
  show ?thesis
  proof (cases "holds_at m (clock s) k")
    case (Some v)
    then have "holds_at (map_of (tc_data c)) (clock s) k = Some v" using agrees_now [OF agr] by simp
    then have "r0 = Inr v \<and> c' = c \<and> s' = s"
      using st' by (auto simp: ttl_get_or_set_def holds_at_def split: option.splits prod.splits if_splits)
    then show ?thesis using OpGetOrSet Some agr d r by simp
  next
    case None
    then have n: "holds_at (map_of (tc_data c)) (clock s) k = None" using agrees_now [OF agr] by simp
    obtain c0 where c0: "ttl_compute clock k ttl fn s c0 = (r0, c', s')" "agrees (clock s) c0 m" "tc_default c0 = d"
    proof (cases "map_of (tc_data c) k")
      case None
      then show ?thesis using that st' agr d by (simp add: ttl_get_or_set_def)
    next
      case (Some ev)
      then obtain e v where ev: "map_of (tc_data c) k = Some (e, v)" by (cases ev) auto
      then have "e \<le> clock s" using n by (auto simp: holds_at_def split: if_splits)
      then show ?thesis
        using that [of "ttl_pop k c"] st' ev agrees_pop [OF agr ev] d by (simp add: ttl_get_or_set_def)
    qed
    then show ?thesis
      using agrees_compute [OF c0(2) fwd' c0(1)] OpGetOrSet None r by simp
  qed
qed

lemma cache_run_simulates:
  "agrees (clock s) c m \<Longrightarrow> list_all (forward clock) xs \<Longrightarrow> cache_run clock xs s c = (rs, c', s') \<Longrightarrow>
   \<exists>m'. timed_run clock (tc_default c) xs s m = (rs, m', s') \<and> agrees (clock s') c' m'"
proof (induction xs arbitrary: s c m rs)
  case Nil
  then show ?case by auto
next
  case (Cons x xs)
  obtain r c1 s1 where st: "cache_step clock x s c = (r, c1, s1)" by (cases "cache_step clock x s c") auto
  obtain rs2 where run: "cache_run clock xs s1 c1 = (rs2, c', s')" and rs: "rs = r # rs2"
    using Cons.prems(3) st by (auto split: prod.splits)
  from Cons.prems have "forward clock x" by simp
  from cache_step_simulates [OF Cons.prems(1) this refl st] obtain m1
    where m1: "timed_step clock (tc_default c) x s m = (r, m1, s1)" "agrees (clock s1) c1 m1" "tc_default c1 = tc_default c"
    by blast
  from Cons.prems have "list_all (forward clock) xs" by simp
  from Cons.IH [OF m1(2) this run] m1 rs show ?case by auto
qed

text \<open>
  C32. The cache refines the table that never forgets: any sequence of look-ups, stores,
  computations and waiting answers, and leaves the state, as the table does - a value is
  served exactly until its time to live has passed, and a value that is served is not
  computed.
\<close>

theorem cache_refines_table:
  assumes "list_all (forward clock) xs"
  shows "\<exists>m. timed_run clock (tc_default c) xs s (map_of (tc_data c))
             = (fst (cache_run clock xs s c), m, snd (snd (cache_run clock xs s c)))
           \<and> (\<forall>k. holds_at (map_of (tc_data (fst (snd (cache_run clock xs s c))))) (clock (snd (snd (cache_run clock xs s c)))) k
                = holds_at m (clock (snd (snd (cache_run clock xs s c)))) k)"
proof -
  obtain rs c' s' where run: "cache_run clock xs s c = (rs, c', s')" by (cases "cache_run clock xs s c") auto
  from cache_run_simulates [OF agrees_refl assms run] obtain m
    where "timed_run clock (tc_default c) xs s (map_of (tc_data c)) = (rs, m, s')" "agrees (clock s') c' m" by blast
  then show ?thesis using run by (auto simp: agrees_now [of "clock s'" c' m])
qed

definition demo_ops :: "(nat, int) cache_op list" where
  "demo_ops = [OpGetOrSet ''k'' 1 (\<lambda>s. (Inr 7, s + 10)), OpGet ''k'', OpElapse (\<lambda>s. s + 999999), OpGet ''k'',
     OpElapse (\<lambda>s. s + 1), OpGet ''k'', OpGetOrSet ''k'' 1 (\<lambda>s. (Inl (RuntimeError ''down''), s + 10)),
     OpSet ''k'' 8 None, OpGet ''k'']"

lemma demo_run:
  "cache_run (\<lambda>s. s) demo_ops 0 (ttl_cache_new 5)
    = ([Inr (Some 7), Inr (Some 7), Inr None, Inr (Some 7), Inr None, Inr None,
        Inl (RuntimeError ''down''), Inr None, Inr (Some 8)],
       \<lparr>tc_default = 5, tc_data = [(''k'', (6000020, 8))]\<rparr>, 1000020)"
  by (simp add: demo_ops_def ttl_cache_new_def ttl_get_or_set_def ttl_get_def ttl_set_def ttl_compute_def
      ttl_put_def ttl_pop_def SECOND_def)

lemma cache_refines_table_witness:
  "\<exists>m. timed_run (\<lambda>s. s) 5 demo_ops 0 Map.empty
     = ([Inr (Some 7), Inr (Some 7), Inr None, Inr (Some 7), Inr None, Inr None,
         Inl (RuntimeError ''down''), Inr None, Inr (Some 8)], m, 1000020)"
proof -
  have "list_all (forward (\<lambda>s. s)) demo_ops" by (simp add: demo_ops_def)
  from cache_refines_table [OF this, of "ttl_cache_new 5" 0] show ?thesis
    unfolding demo_run fst_conv snd_conv by (auto simp: ttl_cache_new_def simp del: timed_run.simps)
qed

end
