(* ===== verification/PyLines.thy ===== *)
theory PyLines
  imports PyText
begin

section \<open>Lines and word characters\<close>

text \<open>\<open>str.splitlines\<close> and the class \<open>\w\<close> of regular expressions, on ASCII text.\<close>

text \<open>\<open>s.splitlines()\<close> on ASCII: the separators are LF, CR, CR LF, VT, FF and the codes 28 to 30.\<close>

definition is_linebreak :: "char \<Rightarrow> bool" where
  "is_linebreak c \<longleftrightarrow> (let n = (of_char c :: nat) in 10 \<le> n \<and> n \<le> 13 \<or> 28 \<le> n \<and> n \<le> 30)"

fun lines_acc :: "string \<Rightarrow> string \<Rightarrow> string list" where
  "lines_acc l [] = (if l = [] then [] else [l])"
| "lines_acc l [c] = (if is_linebreak c then [l] else [l @ [c]])"
| "lines_acc l (c # d # cs) =
     (if is_linebreak c then l # (if c = CHR 0x0D \<and> d = CHR 0x0A then lines_acc [] cs else lines_acc [] (d # cs))
      else lines_acc (l @ [c]) (d # cs))"

definition splitlines :: "string \<Rightarrow> string list" where
  "splitlines s = lines_acc [] s"

text \<open>\<open>\w\<close>\<close>

definition is_word_char :: "char \<Rightarrow> bool" where
  "is_word_char c \<longleftrightarrow> (let n = (of_char c :: nat) in 48 \<le> n \<and> n \<le> 57 \<or> 65 \<le> n \<and> n \<le> 90 \<or> n = 95 \<or> 97 \<le> n \<and> n \<le> 122)"

text \<open>Lower case keeps white space as it is.\<close>

lemma is_space_casefold [simp]: "is_space (casefold_char c) = is_space c"
proof (cases "65 \<le> (of_char c :: nat) \<and> (of_char c :: nat) \<le> 90")
  case True
  then have "(of_char (char_of ((of_char c :: nat) + 32) :: char) :: nat) = of_char c + 32" by simp
  with True show ?thesis by (simp add: casefold_char_def is_space_def)
qed (auto simp: casefold_char_def)

end
