(* ===== verification/Summaries.thy ===== *)
theory Summaries
  imports Planner PyLines "HOL-Library.Multiset"
begin

section \<open>Summaries, search queries and ranking\<close>

text \<open>
  \<open>core/summarize/summarizer.py\<close> and \<open>core/retrieval/helper.py\<close>: what the reading skills and
  the briefing make of texts, with the language model when it is enabled and with fixed rules
  otherwise. The bullet character the summarizer strips beside dash, blank and tab is not
  ASCII and does not occur in the model's texts.
\<close>

subsection \<open>Lines and words\<close>

text \<open>\<open>re.split\<close> on a class of characters, one at a time, and on runs of non-word characters.\<close>

fun split_on :: "(char \<Rightarrow> bool) \<Rightarrow> string \<Rightarrow> string list" where
  "split_on p [] = [[]]"
| "split_on p (c # cs) =
     (if p c then [] # split_on p cs
      else (case split_on p cs of [] \<Rightarrow> [[c]] | w # ws \<Rightarrow> (c # w) # ws))"

text \<open>\<open>[token for token in re.split(r"\W+", s) if token]\<close>\<close>

definition word_tokens :: "string \<Rightarrow> string list" where
  "word_tokens s = filter (\<lambda>t. t \<noteq> []) (split_on (\<lambda>c. \<not> is_word_char c) s)"

text \<open>\<open>s.strip(chars)\<close>\<close>

definition strip_chars :: "char list \<Rightarrow> string \<Rightarrow> string" where
  "strip_chars cs s = rev (dropWhile (\<lambda>c. c \<in> set cs) (rev (dropWhile (\<lambda>c. c \<in> set cs) s)))"

subsection \<open>The summarizer\<close>

record summarizer =
  sm_llm :: llm
  sm_enabled :: bool

definition summarizer_init :: "world \<Rightarrow> summarizer res" where
  "summarizer_init w =
     (case llm_init w of
        Inl e \<Rightarrow> Inl e
      | Inr lm \<Rightarrow> Inr \<lparr>sm_llm = lm, sm_enabled = feature_enabled ''BENJAMIN_LLM_SUMMARIZER'' w\<rparr>)"

definition fallback_bullets :: "string \<Rightarrow> int \<Rightarrow> string list" where
  "fallback_bullets txt max_bullets =
     (let lines = map strip (filter (\<lambda>l. strip l \<noteq> []) (splitlines txt));
          lines' = (if lines = []
                    then map strip (filter (\<lambda>p. strip p \<noteq> []) (split_on (\<lambda>c. c \<in> {CHR ''.'', CHR ''!'', CHR ''?''}) txt))
                    else lines)
      in map (take 140) (py_take max_bullets lines'))"

definition answered_bullets :: "string \<Rightarrow> string list" where
  "answered_bullets response =
     map (strip_chars [CHR ''-'', CHR '' '', CHR 0x09]) (filter (\<lambda>l. strip l \<noteq> []) (splitlines response))"

definition summarize_bullets ::
  "server \<Rightarrow> (nat \<Rightarrow> int) \<Rightarrow> json \<Rightarrow> summarizer \<Rightarrow> string \<Rightarrow> int \<Rightarrow> manager \<Rightarrow> world
     \<Rightarrow> string list res \<times> manager \<times> world" where
  "summarize_bullets send jitter temperature sm txt max_bullets m w =
     (if strip txt = [] then (Inr [], m, w)
      else if \<not> sm_enabled sm then (Inr (fallback_bullets txt max_bullets), m, w)
      else case complete_text send jitter (sm_llm sm) ''Summarize email threads into concise bullet points.''
                  (''Return up to '' @ show_int max_bullets @ '' bullet points for:'' @ nl @ txt) None temperature m w of
             (Inr response, m', w') \<Rightarrow>
               (Inr (if answered_bullets response \<noteq> [] then py_take max_bullets (answered_bullets response)
                     else fallback_bullets txt max_bullets), m', w')
           | (Inl (LLMUnavailable e), m', w') \<Rightarrow> (Inr (fallback_bullets txt max_bullets), m', w')
           | (Inl e, m', w') \<Rightarrow> (Inl (raised e), m', w'))"

definition merge_sections :: "string dict \<Rightarrow> string" where
  "merge_sections non_empty = join (nl @ nl) (map (\<lambda>(k, v). k @ '':'' @ nl @ v) non_empty)"

definition compress_briefing ::
  "server \<Rightarrow> (nat \<Rightarrow> int) \<Rightarrow> json \<Rightarrow> summarizer \<Rightarrow> string dict \<Rightarrow> manager \<Rightarrow> world \<Rightarrow> string res \<times> manager \<times> world" where
  "compress_briefing send jitter temperature sm sections m w =
     (let non_empty = filter (\<lambda>(k, v). strip v \<noteq> []) sections; merged = merge_sections non_empty
      in if non_empty = [] then (Inr [], m, w)
         else if \<not> sm_enabled sm then (Inr merged, m, w)
         else case complete_text send jitter (sm_llm sm) ''Create a concise prioritized daily briefing.''
                     (''Compress these sections into one narrative:'' @ nl @ merged) None temperature m w of
                (Inr response, m', w') \<Rightarrow> (Inr (if strip response \<noteq> [] then strip response else merged), m', w')
              | (Inl (LLMUnavailable e), m', w') \<Rightarrow> (Inr merged, m', w')
              | (Inl e, m', w') \<Rightarrow> (Inl (raised e), m', w'))"

subsection \<open>The retrieval helper\<close>

record retrieval =
  rt_llm :: llm
  rt_enabled :: bool

definition retrieval_init :: "world \<Rightarrow> retrieval res" where
  "retrieval_init w =
     (case llm_init w of
        Inl e \<Rightarrow> Inl e
      | Inr lm \<Rightarrow> Inr \<lparr>rt_llm = lm, rt_enabled = feature_enabled ''BENJAMIN_LLM_RETRIEVAL'' w\<rparr>)"

text \<open>\<open>s.split(sep, 1)[1]\<close> when \<open>sep\<close> occurs in \<open>s\<close>.\<close>

fun after_first :: "string \<Rightarrow> string \<Rightarrow> string" where
  "after_first sep [] = []"
| "after_first sep (c # cs) = (if startswith (c # cs) sep then drop (length sep) (c # cs) else after_first sep cs)"

definition fallback_rewrite :: "string \<Rightarrow> string \<Rightarrow> string res" where
  "fallback_rewrite txt target =
     (let lowered = casefold txt
      in if target = ''gmail'' \<and> str_in ''from '' lowered then
           (case py_words (after_first ''from '' lowered) of
              [] \<Rightarrow> Inl (IndexError ''list index out of range'')
            | sender # _ \<Rightarrow> Inr (''from:'' @ sender @ '' newer_than:7d''))
         else if target = ''gmail'' \<and> str_in ''unread'' lowered then Inr ''is:unread newer_than:7d''
         else if target = ''calendar'' \<and> str_in ''tomorrow'' lowered then Inr ''tomorrow''
         else Inr txt)"

definition rewrite_query ::
  "server \<Rightarrow> (nat \<Rightarrow> int) \<Rightarrow> json \<Rightarrow> retrieval \<Rightarrow> string \<Rightarrow> string \<Rightarrow> manager \<Rightarrow> world \<Rightarrow> string res \<times> manager \<times> world" where
  "rewrite_query send jitter zero rt user_text target m w =
     (let txt = strip user_text
      in if txt = [] then (Inr txt, m, w)
         else if \<not> rt_enabled rt then (fallback_rewrite txt target, m, w)
         else case complete_text send jitter (rt_llm rt) ''Rewrite natural language into concise search query syntax.''
                     (''Target='' @ target @ ''. Query='' @ user_text) (Some 128) zero m w of
                (Inr response, m', w') \<Rightarrow>
                  (if strip response \<noteq> [] then Inr (strip response) else fallback_rewrite txt target, m', w')
              | (Inl (LLMUnavailable e), m', w') \<Rightarrow> (fallback_rewrite txt target, m', w')
              | (Inl e, m', w') \<Rightarrow> (Inl (raised e), m', w'))"

definition candidate_score :: "string list \<Rightarrow> string \<Rightarrow> json dict \<Rightarrow> nat" where
  "candidate_score terms text_key candidate =
     (let txt = casefold (meta_str text_key candidate) in length (filter (\<lambda>t. str_in t txt) terms))"

text \<open>\<open>sorted(..., reverse=True)\<close> is stable: equal scores keep their order.\<close>

definition rerank_candidates :: "string \<Rightarrow> json dict list \<Rightarrow> string \<Rightarrow> json dict list" where
  "rerank_candidates user_text candidates text_key =
     (let terms = word_tokens (casefold user_text)
      in sort_key (\<lambda>c. - int (candidate_score terms text_key c)) candidates)"

subsection \<open>What they guarantee\<close>

text \<open>
  Ranking keeps all candidates, puts more matching terms first, and leaves candidates with
  equally many in the order the search returned them.
\<close>

theorem rerank_is_stable_sort:
  "mset (rerank_candidates q cs k) = mset cs
   \<and> sorted_wrt (\<lambda>a b. candidate_score (word_tokens (casefold q)) k b \<le> candidate_score (word_tokens (casefold q)) k a)
       (rerank_candidates q cs k)
   \<and> filter (\<lambda>c. candidate_score (word_tokens (casefold q)) k c = n) (rerank_candidates q cs k)
     = filter (\<lambda>c. candidate_score (word_tokens (casefold q)) k c = n) cs"
proof -
  let ?f = "\<lambda>c. - int (candidate_score (word_tokens (casefold q)) k c)"
  have "filter (\<lambda>c. ?f c = - int n) (sort_key ?f cs) = filter (\<lambda>c. ?f c = - int n) cs" by (rule sort_key_stable)
  moreover have "sorted_wrt (\<lambda>a b. ?f a \<le> ?f b) (sort_key ?f cs)"
    using sorted_sort_key [of ?f cs] by (simp add: sorted_map)
  ultimately show ?thesis by (simp add: rerank_candidates_def Let_def)
qed

lemma after_first_split: "str_in sep s \<Longrightarrow> sep \<noteq> [] \<Longrightarrow> \<exists>a. s = a @ sep @ after_first sep s"
proof (induction s)
  case (Cons c s)
  show ?case
  proof (cases "startswith (c # s) sep")
    case True
    then have "c # s = [] @ sep @ after_first sep (c # s)" using startswithD [OF True] by simp
    then show ?thesis by blast
  next
    case False
    then obtain a where "s = a @ sep @ after_first sep s" using Cons by auto
    then have "c # s = (c # a) @ sep @ after_first sep (c # s)" using False by simp
    then show ?thesis by blast
  qed
qed simp

lemma words_acc_nonempty: "w \<noteq> [] \<or> (\<exists>c\<in>set s. \<not> is_space c) \<Longrightarrow> words_acc w s \<noteq> []"
  by (induction s arbitrary: w) auto

lemma last_strip: "strip s \<noteq> [] \<Longrightarrow> \<not> is_space (last (strip s))"
  unfolding strip_def rstrip_def by (metis Nil_is_rev_conv hd_dropWhile last_rev)

text \<open>
  The fixed rewriting of search queries never raises: the query is stripped, so that after
  the word \<open>from\<close> and a blank there is always a sender.
\<close>

theorem rewrite_never_raises:
  "\<exists>query. fallback_rewrite (strip user_text) target = Inr query
     \<and> (target = ''gmail'' \<and> str_in ''from '' (casefold (strip user_text)) \<longrightarrow> startswith query ''from:'')"
proof (cases "target = ''gmail'' \<and> str_in ''from '' (casefold (strip user_text))")
  case True
  let ?s = "casefold (strip user_text)" and ?rest = "after_first ''from '' (casefold (strip user_text))"
  obtain a where a: "?s = a @ ''from '' @ ?rest" using after_first_split [of _ ?s] True by fastforce
  then have "strip user_text \<noteq> []" by (auto simp: casefold_def)
  then have "\<not> is_space (last ?s)" using last_strip [of user_text] by (simp add: casefold_def last_map)
  moreover have "is_space (CHR '' '')" by (simp add: is_space_def)
  ultimately have "?rest \<noteq> []" using a by (metis append.right_neutral last.simps last_appendR list.distinct(1))
  then have "last ?rest = last ?s" using a by (metis append_is_Nil_conv last_appendR)
  then have "\<exists>c\<in>set ?rest. \<not> is_space c" using \<open>\<not> is_space (last ?s)\<close> \<open>?rest \<noteq> []\<close> last_in_set by metis
  then have "py_words ?rest \<noteq> []" unfolding py_words_def by (intro words_acc_nonempty) simp
  then obtain x xs where "py_words ?rest = x # xs" by (meson neq_Nil_conv)
  then show ?thesis using True by (simp add: fallback_rewrite_def Let_def startswith_def)
next
  case False
  then show ?thesis by (auto simp: fallback_rewrite_def Let_def)
qed

text \<open>Never more bullets than asked for, and the fixed ones are short.\<close>

lemma length_py_take: "0 \<le> n \<Longrightarrow> int (length (py_take n xs)) \<le> n"
  by (simp add: py_take_def)

lemma fallback_bullets_bounds:
  "0 \<le> n \<Longrightarrow> int (length (fallback_bullets txt n)) \<le> n \<and> list_all (\<lambda>b. length b \<le> 140) (fallback_bullets txt n)"
  using length_py_take [of n] by (auto simp: fallback_bullets_def Let_def list_all_iff)

lemma summarize_bullets_bound:
  assumes "0 \<le> n" "fst (summarize_bullets send jitter t sm txt n m w) = Inr bullets"
  shows "int (length bullets) \<le> n"
  using assms length_py_take [OF assms(1)] fallback_bullets_bounds [OF assms(1), of "txt"]
  by (auto simp: summarize_bullets_def split: if_splits prod.splits sum.splits llm_exc.splits)

end
