(* ===== verification/Jobs.thy ===== *)
theory Jobs
  imports RuleRuns Summaries Critic
begin

section \<open>Scheduled jobs: reminders and the daily briefing\<close>

text \<open>
  \<open>core/scheduler/jobs.py\<close>, with the connectors of \<open>core/integrations/base.py\<close>. A job takes
  its place in the execution ledger, sends one notification, and records an episode. The
  connectors, the notification channels and the server of the language model are parameters;
  the manager of the breakers is the one the briefing's summarizer loads.
\<close>

subsection \<open>Connectors\<close>

record calendar_connector =
  cc_search_events :: "string \<Rightarrow> iso \<Rightarrow> iso \<Rightarrow> string option \<Rightarrow> int \<Rightarrow> world \<Rightarrow> json dict list res \<times> world"
  cc_create_event :: "string \<Rightarrow> json dict \<Rightarrow> world \<Rightarrow> json dict res \<times> world"

record email_connector =
  ec_search_messages :: "string \<Rightarrow> int \<Rightarrow> world \<Rightarrow> json dict list res \<times> world"
  ec_read_message :: "string \<Rightarrow> world \<Rightarrow> json dict res \<times> world"
  ec_thread_summary :: "json \<Rightarrow> int \<Rightarrow> world \<Rightarrow> json dict res \<times> world"
  ec_create_draft :: "json dict \<Rightarrow> world \<Rightarrow> json dict res \<times> world"

text \<open>
  \<open>google\<close> stands for the construction of the Google connectors from the path of a token; it
  is \<open>None\<close> when that raises.
\<close>

definition build_default_connectors ::
  "(string \<Rightarrow> (calendar_connector \<times> email_connector) option) \<Rightarrow> string \<Rightarrow> world
     \<Rightarrow> calendar_connector option \<times> email_connector option" where
  "build_default_connectors google state_dir w =
     (if casefold (getenv ''BENJAMIN_GOOGLE_ENABLED'' ''off'' w) \<noteq> ''on'' then (None, None)
      else case google (getenv ''BENJAMIN_GOOGLE_TOKEN_PATH'' (state_dir @ ''/google_token.json'') w) of
             None \<Rightarrow> (None, None)
           | Some (cal, mail) \<Rightarrow> (Some cal, Some mail))"

subsection \<open>Reminders\<close>

definition job_or :: "string \<Rightarrow> string option \<Rightarrow> string" where
  \<comment> \<open>\<open>job_id or "reminder"\<close>\<close>
  "job_or dflt job_id = str_or job_id dflt"

definition start_meta :: "string \<Rightarrow> string option \<Rightarrow> json dict" where
  "start_meta job scheduled = [(''job_id'', JStr job), (''scheduled_run_iso'', opt_json scheduled)]"

definition notify_meta :: "string \<Rightarrow> string option \<Rightarrow> json dict" where
  "notify_meta corr job_id =
     [(''correlation_id'', JStr corr)] @ (if str_or job_id [] \<noteq> [] then [(''job_id'', opt_json job_id)] else [])"

text \<open>The parameters of the process: hash and bound of the ledger, the text of the current minute.\<close>

record job_env =
  je_sha :: "string \<Rightarrow> string"
  je_mx :: int
  je_minute :: string

definition reminder_key :: "job_env \<Rightarrow> string \<Rightarrow> string option \<Rightarrow> string option \<Rightarrow> string" where
  "reminder_key je message job_id scheduled =
     job_run_key (je_sha je) (je_minute je) (job_or ''reminder'' job_id) scheduled [(''message'', JStr message)]"

text \<open>\<open>try: send, record, mark succeeded; except: mark failed, raise\<close>\<close>

definition deliver ::
  "int \<Rightarrow> string \<Rightarrow> (world \<Rightarrow> unit res \<times> world) \<Rightarrow> (world \<Rightarrow> world) \<Rightarrow> world \<Rightarrow> unit res \<times> world" where
  "deliver mx key send_it record_it w =
     (case send_it w of
        (Inl e, w') \<Rightarrow> (Inl e, mark mx key Failed [(''error'', JStr (exc_str e))] w')
      | (Inr _, w') \<Rightarrow> (Inr (), mark mx key Succeeded [] (record_it w')))"

text \<open>A job that is started sends; one whose key is held notes that it was skipped.\<close>

definition guarded ::
  "int \<Rightarrow> string \<Rightarrow> json dict \<Rightarrow> string \<Rightarrow> (world \<Rightarrow> world) \<Rightarrow> (world \<Rightarrow> unit res \<times> world) \<Rightarrow> (world \<Rightarrow> world)
     \<Rightarrow> world \<Rightarrow> unit res \<times> world" where
  "guarded mx key meta corr skip_it send_it record_it w =
     (let (started, w1) = try_start mx key JobRun (Some corr) meta w
      in if \<not> started then (Inr (), skip_it w1) else deliver mx key send_it record_it w1)"

definition remind :: "job_env \<Rightarrow> notifier \<Rightarrow> string \<Rightarrow> string option \<Rightarrow> string option \<Rightarrow> string \<Rightarrow> world \<Rightarrow> unit res \<times> world" where
  "remind je notify message job_id scheduled corr =
     (let job = job_or ''reminder'' job_id
      in guarded (je_mx je) (reminder_key je message job_id scheduled) (start_meta job scheduled) corr
           (log_episode ''notification'' (''Skipped duplicate reminder: '' @ message)
              [(''correlation_id'', JStr corr), (''job_id'', JStr job), (''skipped_idempotent'', JBool True)])
           (notify ''Reminder'' message (notify_meta corr job_id))
           (log_episode ''notification'' (''Sent reminder: '' @ message) (notify_meta corr job_id)))"

definition run_reminder ::
  "job_env \<Rightarrow> notifier \<Rightarrow> string \<Rightarrow> string option \<Rightarrow> string option \<Rightarrow> world \<Rightarrow> unit res \<times> world" where
  "run_reminder je notify message job_id scheduled w0 =
     (let (corr, w) = uuid4 w0 in with_corr corr (remind je notify message job_id scheduled corr) w)"

subsection \<open>The daily briefing\<close>

definition em_dash :: string where
  \<comment> \<open>one character; byte \<open>0x97\<close> stands for it\<close>
  "em_dash = [CHR 0x97]"

definition get_or :: "string \<Rightarrow> json \<Rightarrow> json dict \<Rightarrow> json" where
  \<comment> \<open>\<open>d.get(k, default)\<close>\<close>
  "get_or k dflt d = (case map_of d k of None \<Rightarrow> dflt | Some v \<Rightarrow> v)"

definition schedule_line :: "json dict \<Rightarrow> string" where
  "schedule_line ev = ''- '' @ py_str (jget ''start_iso'' ev) @ '' | '' @ py_str (get_or ''title'' (JStr ''(untitled)'') ev)"

text \<open>\<open>xs[0]\<close> of a true value.\<close>

definition first_item :: "json \<Rightarrow> json res" where
  "first_item j =
     (case j of
        JList (x # xs) \<Rightarrow> Inr x
      | JStr (c # cs) \<Rightarrow> Inr (JStr [c])
      | JDict d \<Rightarrow> Inl (KeyError ''0'')
      | _ \<Rightarrow> Inl (TypeError ''object is not subscriptable''))"

definition mail_line :: "json dict \<Rightarrow> json dict \<Rightarrow> string res" where
  "mail_line msg summary =
     (let snippets = get_or ''snippets'' (JList []) summary;
          line = (\<lambda>snippet. ''- '' @ py_str (get_or ''subject'' (JStr ''(no subject)'') msg) @ '' '' @ em_dash @ '' '' @ py_str snippet)
      in if truthy snippets then (case first_item snippets of Inl e \<Rightarrow> Inl e | Inr s \<Rightarrow> Inr (line s))
         else Inr (line (get_or ''snippet'' (JStr []) msg)))"

text \<open>The lines of the mails, and how many of their summaries were refused by the breaker.\<close>

fun mail_lines :: "email_connector \<Rightarrow> json dict list \<Rightarrow> world \<Rightarrow> (string list \<times> nat) res \<times> world" where
  "mail_lines ec [] w = (Inr ([], 0), w)"
| "mail_lines ec (msg # msgs) w =
     (let summarize = (\<lambda>summary d w'.
            case mail_line msg summary of
              Inl e \<Rightarrow> (Inl e, w')
            | Inr line \<Rightarrow>
                (case mail_lines ec msgs w' of
                   (Inl e, w'') \<Rightarrow> (Inl e, w'')
                 | (Inr (lines, n), w'') \<Rightarrow> (Inr (line # lines, d + n), w'')))
      in case ec_thread_summary ec (get_or ''thread_id'' (JStr []) msg) 3 w of
           (Inr summary, w') \<Rightarrow> summarize summary 0 w'
         | (Inl (ServiceDegraded s le), w') \<Rightarrow> summarize [(''snippets'', JList [])] 1 w'
         | (Inl e, w') \<Rightarrow> (Inl e, w'))"

text \<open>The first two sections: their lines (empty: no section), and what was degraded.\<close>

definition schedule_section :: "calendar_connector option \<Rightarrow> world \<Rightarrow> (string list \<times> string list) res \<times> world" where
  "schedule_section cal w =
     (case cal of
        None \<Rightarrow> (Inr ([], []), w)
      | Some cc \<Rightarrow>
          (case cc_search_events cc (getenv ''BENJAMIN_CALENDAR_ID'' ''primary'' w) (now_iso w)
                  (isoformat (Aware (w_now w + hours 12))) None 5 w of
             (Inr events, w') \<Rightarrow> (Inr (map schedule_line (take 5 events), []), w')
           | (Inl (ServiceDegraded s le), w') \<Rightarrow> (Inr ([], [''calendar'']), w')
           | (Inl e, w') \<Rightarrow> (Inl e, w')))"

definition important_query :: "world \<Rightarrow> string" where
  "important_query w =
     getenv ''BENJAMIN_GMAIL_QUERY_IMPORTANT'' ''newer_than:1d -category:social -category:promotions'' w"

definition mail_section :: "email_connector option \<Rightarrow> world \<Rightarrow> (string list \<times> string list) res \<times> world" where
  "mail_section mail w =
     (case mail of
        None \<Rightarrow> (Inr ([], []), w)
      | Some ec \<Rightarrow>
          (case ec_search_messages ec (important_query w) 5 w of
             (Inr msgs, w') \<Rightarrow>
               (case mail_lines ec (take 5 msgs) w' of
                  (Inl e, w'') \<Rightarrow> (Inl e, w'')
                | (Inr (lines, n), w'') \<Rightarrow> (Inr (lines, replicate n ''gmail''), w''))
           | (Inl (ServiceDegraded s le), w') \<Rightarrow> (Inr ([], [''gmail'']), w')
           | (Inl e, w') \<Rightarrow> (Inl e, w')))"

definition titled :: "string \<Rightarrow> string list \<Rightarrow> string list" where
  "titled title lines = (if lines = [] then [] else [title] @ lines @ [[]])"

definition banner :: "string list \<Rightarrow> string list" where
  "banner degraded =
     (if degraded = [] then [] else [''Email/Calendar currently degraded; showing memory-only sections'', []])"

definition or_line :: "string \<Rightarrow> string list \<Rightarrow> string list" where
  "or_line dflt lines = (if lines = [] then [dflt] else lines)"

record briefing =
  br_lines :: "string list"
  br_map :: "string dict"
  br_degraded :: "string list"
  br_events :: "episode list"
  br_preferences :: "semantic_fact list"

definition assemble ::
  "episode list \<Rightarrow> semantic_fact list \<Rightarrow> string list \<times> string list \<Rightarrow> string list \<times> string list \<Rightarrow> briefing" where
  "assemble recents prefs sch mail =
     (let degraded = snd sch @ snd mail;
          event_lines = or_line ''- No recent events'' (map (\<lambda>e. ''- '' @ ep_summary e) recents);
          pref_lines = or_line ''- No saved preferences'' (map (\<lambda>f. ''- '' @ sf_key f @ '': '' @ sf_value f) prefs)
      in \<lparr>br_lines = banner degraded @ titled ''Today's schedule:'' (fst sch) @ titled ''Important emails:'' (fst mail)
                      @ [''Recent episodes:''] @ event_lines @ [[], ''Top preferences:''] @ pref_lines,
          br_map = (if fst sch = [] then [] else [(''schedule'', join nl (fst sch))])
                 @ (if fst mail = [] then [] else [(''email'', join nl (fst mail))])
                 @ [(''recent_episodes'', join nl event_lines), (''preferences'', join nl pref_lines)],
          br_degraded = degraded, br_events = recents, br_preferences = prefs\<rparr>)"

text \<open>The zone of the briefing only decides how the current time is written.\<close>

definition gather ::
  "(string \<Rightarrow> zone) \<Rightarrow> calendar_connector option \<Rightarrow> email_connector option \<Rightarrow> world \<Rightarrow> briefing res \<times> world" where
  "gather zones cal mail w =
     (let recents = episodic_list_recent 3 w;
          prefs = take 5 (filter (\<lambda>f. startswith (sf_key f) ''preference:'') (semantic_list_all (Some ''global'') w));
          tz = getenv ''BENJAMIN_TIMEZONE'' ''America/New_York'' w
      in case zones tz of
           ZoneNotFound \<Rightarrow> (Inl (KeyError (''No time zone found with key '' @ tz)), w)
         | ZoneInvalid e \<Rightarrow> (Inl (ValueError e), w)
         | Zone f \<Rightarrow>
             (case schedule_section cal w of
                (Inl e, w1) \<Rightarrow> (Inl e, w1)
              | (Inr sch, w1) \<Rightarrow>
                  (case mail_section mail w1 of
                     (Inl e, w2) \<Rightarrow> (Inl e, w2)
                   | (Inr ms, w2) \<Rightarrow> (Inr (assemble recents prefs sch ms), w2))))"

definition briefing_body ::
  "server \<Rightarrow> (nat \<Rightarrow> int) \<Rightarrow> json \<Rightarrow> briefing \<Rightarrow> manager \<Rightarrow> world \<Rightarrow> string res \<times> manager \<times> world" where
  "briefing_body send jitter temperature br m w =
     (let body = join nl (br_lines br)
      in case summarizer_init w of
           Inl e \<Rightarrow> (Inl e, m, w)
         | Inr sm \<Rightarrow>
             (if \<not> sm_enabled sm then (Inr body, m, w)
              else case compress_briefing send jitter temperature sm (br_map br) m w of
                     (Inl e, m', w') \<Rightarrow> (Inl e, m', w')
                   | (Inr compressed, m', w') \<Rightarrow> (Inr (if strip compressed \<noteq> [] then compressed else body), m', w')))"

definition briefing_key :: "job_env \<Rightarrow> string option \<Rightarrow> string option \<Rightarrow> string" where
  "briefing_key je job_id scheduled =
     job_run_key (je_sha je) (je_minute je) (job_or ''daily-briefing'' job_id) scheduled []"

definition briefing_meta :: "string option \<Rightarrow> string \<Rightarrow> briefing \<Rightarrow> bool \<Rightarrow> bool \<Rightarrow> json dict" where
  "briefing_meta job_id corr br with_cal with_mail =
     [(''job_id'', opt_json job_id), (''correlation_id'', JStr corr),
      (''items'', JDict [(''recent_events'', jstrs (map ep_summary (br_events br))),
                         (''preferences'', jstrs (map (\<lambda>f. sf_key f @ '':'' @ sf_value f) (br_preferences br)))]),
      (''calendar_included'', JBool with_cal), (''gmail_included'', JBool with_mail),
      (''degraded_services'', jstrs (sorted_set (br_degraded br)))]"

definition brief ::
  "job_env \<Rightarrow> notifier \<Rightarrow> string option \<Rightarrow> string option \<Rightarrow> briefing \<Rightarrow> string \<Rightarrow> bool \<Rightarrow> bool \<Rightarrow> string \<Rightarrow> world
     \<Rightarrow> unit res \<times> world" where
  "brief je notify job_id scheduled br body with_cal with_mail corr =
     guarded (je_mx je) (briefing_key je job_id scheduled) (start_meta (job_or ''daily-briefing'' job_id) scheduled) corr
       (log_episode ''briefing'' ''Skipped duplicate daily briefing''
          [(''job_id'', opt_json job_id), (''correlation_id'', JStr corr), (''skipped_idempotent'', JBool True)])
       (notify ''Daily Briefing'' body (notify_meta corr job_id))
       (log_episode ''briefing'' ''Sent daily briefing'' (briefing_meta job_id corr br with_cal with_mail))"

definition chosen_connectors ::
  "(string \<Rightarrow> (calendar_connector \<times> email_connector) option) \<Rightarrow> string \<Rightarrow> calendar_connector option \<Rightarrow> email_connector option
     \<Rightarrow> world \<Rightarrow> calendar_connector option \<times> email_connector option" where
  "chosen_connectors google state_dir cal mail w =
     (case (cal, mail) of (None, None) \<Rightarrow> build_default_connectors google state_dir w | _ \<Rightarrow> (cal, mail))"

definition briefing_with ::
  "server \<Rightarrow> (nat \<Rightarrow> int) \<Rightarrow> json \<Rightarrow> (string \<Rightarrow> zone) \<Rightarrow> job_env \<Rightarrow> notifier \<Rightarrow> string option \<Rightarrow> string option
     \<Rightarrow> calendar_connector option \<times> email_connector option \<Rightarrow> manager \<Rightarrow> world \<Rightarrow> unit res \<times> manager \<times> world" where
  "briefing_with send jitter temperature zones je notify job_id scheduled connectors m w =
     (case gather zones (fst connectors) (snd connectors) w of
        (Inl e, w1) \<Rightarrow> (Inl e, m, w1)
      | (Inr br, w1) \<Rightarrow>
          (case briefing_body send jitter temperature br m w1 of
             (Inl e, m1, w2) \<Rightarrow> (Inl e, m1, w2)
           | (Inr body, m1, w2) \<Rightarrow>
               (let (corr, w3) = uuid4 w2;
                    (r, w4) = with_corr corr (brief je notify job_id scheduled br body
                                (fst connectors \<noteq> None) (snd connectors \<noteq> None) corr) w3
                in (r, m1, w4))))"

definition run_daily_briefing ::
  "server \<Rightarrow> (nat \<Rightarrow> int) \<Rightarrow> json \<Rightarrow> (string \<Rightarrow> zone) \<Rightarrow> (string \<Rightarrow> (calendar_connector \<times> email_connector) option)
     \<Rightarrow> string \<Rightarrow> job_env \<Rightarrow> notifier \<Rightarrow> string option \<Rightarrow> string option \<Rightarrow> calendar_connector option
     \<Rightarrow> email_connector option \<Rightarrow> manager \<Rightarrow> world \<Rightarrow> unit res \<times> manager \<times> world" where
  "run_daily_briefing send jitter temperature zones google state_dir je notify job_id scheduled cal mail m w =
     briefing_with send jitter temperature zones je notify job_id scheduled
       (chosen_connectors google state_dir cal mail w) m w"

subsection \<open>Jobs happen once\<close>

text \<open>What a run leaves alone when it does nothing but note that it was skipped.\<close>

definition unsent :: "world \<Rightarrow> world \<Rightarrow> bool" where
  "unsent w w' \<longleftrightarrow> w_outbox w' = w_outbox w \<and> w_ledger w' = w_ledger w \<and> w_approvals w' = w_approvals w"

lemma unsent_refl [intro]: "unsent w w"
  by (simp add: unsent_def)

lemma unsent_trans: "unsent a b \<Longrightarrow> unsent b c \<Longrightarrow> unsent a c"
  by (simp add: unsent_def)

text \<open>
  The contract of a job with a key: a run that returns leaves the key held, and while the key
  is held a run returns without sending anything.
\<close>

locale once_job =
  fixes key :: string and run :: "world \<Rightarrow> unit res \<times> world"
  assumes completes: "run w = (Inr r, w') \<Longrightarrow> key_held key w'"
    and skips: "key_held key w \<Longrightarrow> fst (run w) = Inr () \<and> unsent w (snd (run w))"
begin

lemma skipped: "key_held key w \<Longrightarrow> fst (run w) = Inr () \<and> unsent w (snd (run w)) \<and> key_held key (snd (run w))"
  using skips [of w] by (auto simp: unsent_def key_held_def)

lemma skipped_often: "key_held key w \<Longrightarrow> unsent w (((\<lambda>v. snd (run v)) ^^ n) w) \<and> key_held key (((\<lambda>v. snd (run v)) ^^ n) w)"
proof (induction n)
  case (Suc n)
  then show ?case using skipped unsent_trans by fastforce
qed auto

lemma once: "run w = (Inr r, w') \<Longrightarrow> unsent w' (((\<lambda>v. snd (run v)) ^^ n) w')"
  using completes skipped_often by blast

end

lemma try_start_held: "key_held k w \<Longrightarrow> try_start mx k kind c meta w = (False, w)"
  by (auto simp: try_start_def key_held_def)

lemma try_start_not_held: "\<not> key_held k w \<Longrightarrow> \<exists>w'. try_start mx k kind c meta w = (True, w') \<and> w_outbox w' = w_outbox w"
  by (auto simp: try_start_def key_held_def Let_def ledger_append_def split: option.splits)

lemma key_held_mark: "key_held k (mark mx k st meta w) \<longleftrightarrow> st \<in> {Succeeded, Started}"
  using latest_after_mark [of mx k st meta w] by (auto simp: key_held_def)

lemma key_held_deliver: "deliver mx k snd_it rec w = (Inr r, w') \<Longrightarrow> key_held k w'"
  by (auto simp: deliver_def key_held_mark split: prod.splits sum.splits)

lemma not_held_after_failure: "deliver mx k snd_it rec w = (Inl e, w') \<Longrightarrow> \<not> key_held k w'"
  by (auto simp: deliver_def key_held_mark split: prod.splits sum.splits)

lemma with_corr_parts [simp]:
  "fst (with_corr c f w) = fst (f (w\<lparr>w_corr := Some c\<rparr>))"
  "w_outbox (snd (with_corr c f w)) = w_outbox (snd (f (w\<lparr>w_corr := Some c\<rparr>)))"
  "w_ledger (snd (with_corr c f w)) = w_ledger (snd (f (w\<lparr>w_corr := Some c\<rparr>)))"
  "w_approvals (snd (with_corr c f w)) = w_approvals (snd (f (w\<lparr>w_corr := Some c\<rparr>)))"
  by (simp_all add: with_corr_def Let_def split: prod.split)

lemma key_held_frames [simp]:
  "key_held k (w\<lparr>w_corr := x\<rparr>) = key_held k w" "key_held k (snd (uuid4 w)) = key_held k w"
  "key_held k (snd (with_corr c f w)) = key_held k (snd (f (w\<lparr>w_corr := Some c\<rparr>)))"
  "w_outbox (snd (uuid4 w)) = w_outbox w" "w_ledger (snd (uuid4 w)) = w_ledger w" "w_approvals (snd (uuid4 w)) = w_approvals w"
  by (simp_all add: key_held_def uuid4_def)

lemma guarded_completes:
  assumes "guarded mx k meta corr skip_it send_it record_it w = (Inr r, w')" "\<And>v. w_ledger (skip_it v) = w_ledger v"
  shows "key_held k w'"
proof (cases "key_held k w")
  case True
  then have "w' = skip_it w" using assms(1) by (simp add: guarded_def try_start_held)
  then show ?thesis using True assms(2) by (simp add: key_held_def)
next
  case False
  then obtain v where "try_start mx k JobRun (Some corr) meta w = (True, v)" using try_start_not_held by blast
  then show ?thesis using assms(1) key_held_deliver by (simp add: guarded_def)
qed

lemma guarded_skips: "key_held k w \<Longrightarrow> guarded mx k meta corr skip_it send_it record_it w = (Inr (), skip_it w)"
  by (simp add: guarded_def try_start_held)

definition remind_at :: "job_env \<Rightarrow> notifier \<Rightarrow> string \<Rightarrow> string option \<Rightarrow> string option \<Rightarrow> world \<Rightarrow> unit res \<times> world" where
  \<comment> \<open>the reminder inside its context\<close>
  "remind_at je notify message job_id scheduled w =
     remind je notify message job_id scheduled (fst (uuid4 w)) ((snd (uuid4 w))\<lparr>w_corr := Some (fst (uuid4 w))\<rparr>)"

lemma run_reminder_parts:
  "fst (run_reminder je notify message job_id scheduled w) = fst (remind_at je notify message job_id scheduled w)"
  "w_outbox (snd (run_reminder je notify message job_id scheduled w)) = w_outbox (snd (remind_at je notify message job_id scheduled w))"
  "w_ledger (snd (run_reminder je notify message job_id scheduled w)) = w_ledger (snd (remind_at je notify message job_id scheduled w))"
  "w_approvals (snd (run_reminder je notify message job_id scheduled w)) = w_approvals (snd (remind_at je notify message job_id scheduled w))"
  "key_held k (snd (run_reminder je notify message job_id scheduled w)) = key_held k (snd (remind_at je notify message job_id scheduled w))"
  by (simp_all add: run_reminder_def remind_at_def split_def Let_def)

interpretation reminder: once_job "reminder_key je message job_id scheduled" "run_reminder je notify message job_id scheduled"
  for je notify message job_id scheduled
proof unfold_locales
  fix w r w' assume r: "run_reminder je notify message job_id scheduled w = (Inr r, w')"
  then have "fst (remind_at je notify message job_id scheduled w) = Inr r"
    using run_reminder_parts(1) [of je notify message job_id scheduled w] by simp
  then have "remind_at je notify message job_id scheduled w = (Inr r, snd (remind_at je notify message job_id scheduled w))"
    by (metis prod.collapse)
  then have "key_held (reminder_key je message job_id scheduled) (snd (remind_at je notify message job_id scheduled w))"
    unfolding remind_at_def remind_def Let_def by (rule guarded_completes) simp
  then show "key_held (reminder_key je message job_id scheduled) w'"
    using run_reminder_parts(5) [of _ je notify message job_id scheduled w] r by simp
next
  fix w assume "key_held (reminder_key je message job_id scheduled) w"
  then show "fst (run_reminder je notify message job_id scheduled w) = Inr () \<and> unsent w (snd (run_reminder je notify message job_id scheduled w))"
    by (simp add: unsent_def run_reminder_parts remind_at_def remind_def Let_def guarded_skips)
qed

text \<open>A channel that works: what is sent is in the outbox.\<close>

definition to_outbox :: notifier where
  "to_outbox title body meta w = (Inr (), w\<lparr>w_outbox := w_outbox w @ [\<lparr>nt_title = title, nt_body = body, nt_meta = meta\<rparr>]\<rparr>)"

lemma guarded_sends:
  assumes "\<not> key_held k w" "\<And>v. w_outbox (record_it v) = w_outbox v"
  shows "fst (guarded mx k meta corr skip_it (to_outbox title body nm) record_it w) = Inr ()
    \<and> w_outbox (snd (guarded mx k meta corr skip_it (to_outbox title body nm) record_it w))
       = w_outbox w @ [\<lparr>nt_title = title, nt_body = body, nt_meta = nm\<rparr>]"
  using try_start_not_held [OF assms(1), of mx JobRun "Some corr" meta] assms(2)
  by (auto simp: guarded_def deliver_def to_outbox_def mark_def Let_def ledger_append_def)

lemma guarded_fails:
  assumes "guarded mx k meta corr skip_it send_it record_it w = (Inl e, w')"
  shows "\<not> key_held k w'"
proof (cases "key_held k w")
  case True
  then show ?thesis using assms by (simp add: guarded_skips)
next
  case False
  then obtain v where "try_start mx k JobRun (Some corr) meta w = (True, v)" using try_start_not_held by blast
  then show ?thesis using assms not_held_after_failure by (simp add: guarded_def)
qed

text \<open>
  A reminder goes out once: after a run that returned, however often the job of the same
  identifier, time and message runs again, nothing is sent and ledger and approvals stay the
  same. A run whose channel fails raises and leaves the key free, so that the next run sends
  the reminder.
\<close>

theorem reminder_once:
  assumes "run_reminder je notify message job_id scheduled w = (r, w')"
  shows "case r of
      Inr _ \<Rightarrow> unsent w' (((\<lambda>v. snd (run_reminder je notify message job_id scheduled v)) ^^ n) w')
    | Inl e \<Rightarrow> fst (run_reminder je to_outbox message job_id scheduled w') = Inr ()
        \<and> map nt_body (w_outbox (snd (run_reminder je to_outbox message job_id scheduled w'))) = map nt_body (w_outbox w') @ [message]"
proof (cases r)
  case (Inr u)
  then show ?thesis using reminder.once assms by fastforce
next
  case (Inl e)
  let ?k = "reminder_key je message job_id scheduled"
  have "remind_at je notify message job_id scheduled w = (Inl e, snd (remind_at je notify message job_id scheduled w))"
    using assms Inl run_reminder_parts(1) [of je notify message job_id scheduled w] by (metis fst_conv prod.collapse)
  then have "\<not> key_held ?k (snd (remind_at je notify message job_id scheduled w))"
    unfolding remind_at_def remind_def Let_def by (rule guarded_fails)
  then have "\<not> key_held ?k w'"
    using run_reminder_parts(5) [of _ je notify message job_id scheduled w] assms by simp
  then show ?thesis
    using Inl by (simp add: run_reminder_parts remind_at_def remind_def Let_def guarded_sends)
qed

definition demo_job :: job_env where
  "demo_job = \<lparr>je_sha = (\<lambda>s. s), je_mx = 100, je_minute = ''m''\<rparr>"

lemma reminder_once_witness:
  "unsent (snd (run_reminder demo_job to_outbox ''tea'' (Some ''r1'') (Some ''t'') (empty_world 0)))
     (snd (run_reminder demo_job to_outbox ''tea'' (Some ''r1'') (Some ''t'')
        (snd (run_reminder demo_job to_outbox ''tea'' (Some ''r1'') (Some ''t'') (empty_world 0)))))"
proof -
  let ?run = "run_reminder demo_job to_outbox ''tea'' (Some ''r1'') (Some ''t'')"
  have "\<not> key_held k (empty_world 0)" for k
    by (simp add: key_held_def latest_record_by_key_def empty_world_def)
  then have "fst (?run (empty_world 0)) = Inr ()"
    by (simp add: run_reminder_parts remind_at_def remind_def Let_def guarded_sends)
  then have "?run (empty_world 0) = (Inr (), snd (?run (empty_world 0)))" by (metis prod.collapse)
  from reminder_once [OF this, of 1] show ?thesis by simp
qed

subsection \<open>The briefing\<close>

interpretation briefing: once_job "briefing_key je job_id scheduled" "brief je notify job_id scheduled br body c1 c2 corr"
  for je notify job_id scheduled br body c1 c2 corr
proof unfold_locales
  fix w r w' assume "brief je notify job_id scheduled br body c1 c2 corr w = (Inr r, w')"
  then show "key_held (briefing_key je job_id scheduled) w'" unfolding brief_def by (rule guarded_completes) simp
next
  fix w assume "key_held (briefing_key je job_id scheduled) w"
  then show "fst (brief je notify job_id scheduled br body c1 c2 corr w) = Inr ()
      \<and> unsent w (snd (brief je notify job_id scheduled br body c1 c2 corr w))"
    by (simp add: brief_def guarded_skips unsent_def)
qed

text \<open>A service that is down now: the briefing's call is refused and changes nothing.\<close>

definition degraded_calendar :: "calendar_connector \<Rightarrow> world \<Rightarrow> bool" where
  "degraded_calendar cc w \<longleftrightarrow> (\<forall>c a b q n. \<exists>le. cc_search_events cc c a b q n w = (Inl (ServiceDegraded ''calendar'' le), w))"

definition degraded_mail :: "email_connector \<Rightarrow> world \<Rightarrow> bool" where
  "degraded_mail ec w \<longleftrightarrow> (\<forall>q n. \<exists>le. ec_search_messages ec q n w = (Inl (ServiceDegraded ''gmail'' le), w))"

text \<open>What such a briefing says: the notice, the three latest episodes and five preferences.\<close>

definition degraded_lines :: "world \<Rightarrow> string list" where
  "degraded_lines w =
     [''Email/Calendar currently degraded; showing memory-only sections'', [], ''Recent episodes:'']
     @ or_line ''- No recent events'' (map (\<lambda>e. ''- '' @ ep_summary e) (episodic_list_recent 3 w))
     @ [[], ''Top preferences:'']
     @ or_line ''- No saved preferences'' (map (\<lambda>f. ''- '' @ sf_key f @ '': '' @ sf_value f)
         (take 5 (filter (\<lambda>f. startswith (sf_key f) ''preference:'') (semantic_list_all (Some ''global'') w))))"

lemma gather_degraded:
  assumes "degraded_calendar cc w" "degraded_mail ec w" "zones (getenv ''BENJAMIN_TIMEZONE'' ''America/New_York'' w) = Zone f"
  shows "\<exists>br. gather zones (Some cc) (Some ec) w = (Inr br, w) \<and> br_degraded br = [''calendar'', ''gmail'']
    \<and> br_lines br = degraded_lines w"
proof -
  have "\<exists>le. cc_search_events cc (getenv ''BENJAMIN_CALENDAR_ID'' ''primary'' w) (now_iso w) (isoformat (Aware (w_now w + hours 12))) None 5 w
      = (Inl (ServiceDegraded ''calendar'' le), w)"
    using assms(1) unfolding degraded_calendar_def by blast
  then have "schedule_section (Some cc) w = (Inr ([], [''calendar'']), w)" by (auto simp: schedule_section_def)
  moreover have "\<exists>le. ec_search_messages ec (important_query w) 5 w = (Inl (ServiceDegraded ''gmail'' le), w)"
    using assms(2) unfolding degraded_mail_def by blast
  then have "mail_section (Some ec) w = (Inr ([], [''gmail'']), w)" by (auto simp: mail_section_def)
  ultimately show ?thesis using assms(3) by (simp add: gather_def Let_def assemble_def banner_def titled_def degraded_lines_def)
qed

lemma guarded_logs:
  assumes "\<not> key_held k w"
  shows "\<exists>v. guarded mx k meta corr skip_it (to_outbox title body nm) (log_episode kind summary m) w = (Inr (), v)
    \<and> w_outbox v = w_outbox w @ [\<lparr>nt_title = title, nt_body = body, nt_meta = nm\<rparr>]
    \<and> ep_meta (last (episodes v)) = m"
  using try_start_not_held [OF assms, of mx JobRun "Some corr" meta]
  by (auto simp: guarded_def deliver_def to_outbox_def mark_def Let_def ledger_append_def episodes_def log_episode_eq)

lemma sorted_degraded: "sorted_set [''calendar'', ''gmail''] = [''calendar'', ''gmail'']"
  by code_simp

text \<open>
  A briefing with both services down and the summarizer off: a run whose key is free sends
  one notification, whose text is exactly the lines above, completes its key, and records the
  two services as degraded.
\<close>

lemma degraded_run:
  assumes "degraded_calendar cc w" "degraded_mail ec w" "zones (getenv ''BENJAMIN_TIMEZONE'' ''America/New_York'' w) = Zone f"
    and "summarizer_init w = Inr sm" "\<not> sm_enabled sm" "\<not> key_held (briefing_key je job_id scheduled) w"
  shows "\<exists>w'. run_daily_briefing send jitter temperature zones google dir je to_outbox job_id scheduled (Some cc) (Some ec) m w
      = (Inr (), m, w')
    \<and> w_outbox w' = w_outbox w @ [\<lparr>nt_title = ''Daily Briefing'', nt_body = join nl (degraded_lines w),
                                     nt_meta = notify_meta (fst (uuid4 w)) job_id\<rparr>]
    \<and> key_held (briefing_key je job_id scheduled) w'
    \<and> map_of (ep_meta (last (episodes w'))) ''degraded_services'' = Some (jstrs [''calendar'', ''gmail''])"
proof -
  obtain br where g: "gather zones (Some cc) (Some ec) w = (Inr br, w)" "br_degraded br = [''calendar'', ''gmail'']"
    and ls: "br_lines br = degraded_lines w"
    using gather_degraded [where zones = zones, OF assms(1-3)] by blast
  let ?k = "briefing_key je job_id scheduled" and ?corr = "fst (uuid4 w)" and ?v = "(snd (uuid4 w))\<lparr>w_corr := Some (fst (uuid4 w))\<rparr>"
    and ?body = "join nl (degraded_lines w)"
  have body: "briefing_body send jitter temperature br m w = (Inr ?body, m, w)"
    using assms(4,5) ls by (simp add: briefing_body_def)
  have "\<not> key_held ?k ?v" using assms(6) by simp
  from guarded_logs [OF this] obtain v where v: "brief je to_outbox job_id scheduled br ?body True True ?corr ?v = (Inr (), v)"
      "w_outbox v = w_outbox ?v @ [\<lparr>nt_title = ''Daily Briefing'', nt_body = ?body, nt_meta = notify_meta ?corr job_id\<rparr>]"
      "ep_meta (last (episodes v)) = briefing_meta job_id ?corr br True True"
    unfolding brief_def by blast
  let ?w' = "v\<lparr>w_corr := w_corr (snd (uuid4 w))\<rparr>"
  have "run_daily_briefing send jitter temperature zones google dir je to_outbox job_id scheduled (Some cc) (Some ec) m w
      = (Inr (), m, ?w')"
    by (simp add: run_daily_briefing_def chosen_connectors_def briefing_with_def g body with_corr_def v Let_def split: prod.split)
      (metis fst_conv snd_conv v(1))
  moreover have "key_held ?k ?w'" using briefing.completes [OF v(1)] by simp
  moreover have "map_of (ep_meta (last (episodes ?w'))) ''degraded_services'' = Some (jstrs [''calendar'', ''gmail''])"
    using v(3) by (simp add: episodes_def briefing_meta_def g(2) sorted_degraded)
  ultimately show ?thesis using v(2) by auto
qed

lemma summarizer_off: "case summarizer_init (empty_world 0) of Inl e \<Rightarrow> False | Inr sm \<Rightarrow> \<not> sm_enabled sm"
  by code_simp

lemma no_key_held: "\<not> key_held k (empty_world t)"
  by (simp add: key_held_def latest_record_by_key_def empty_world_def)

end
