(* ===== verification/Builtins.thy ===== *)
theory Builtins
  imports Jobs Orchestrator Lifecycle
begin

section \<open>The built-in skills\<close>

text \<open>
  \<open>core/skills/builtin\<close>: the \<open>run\<close> methods of the skills the orchestrator registers. A skill
  reads its arguments from the JSON text of the step (as \<open>model_validate_json\<close> does),
  calls a connector or the scheduler, and returns a JSON text. Connectors, scheduler, search
  helper and summarizer are injected by the constructors and gathered in \<open>services\<close>; \<open>sv_iso\<close>
  is \<open>datetime.fromisoformat\<close> with the text \<open>isoformat\<close> gives back.
\<close>

subsection \<open>Services and arguments\<close>

record services =
  sv_calendar :: "calendar_connector option"
  sv_email :: "email_connector option"
  sv_add_one_off :: "string \<Rightarrow> datetime \<Rightarrow> json dict \<Rightarrow> world \<Rightarrow> unit res \<times> world"
  sv_rewrite_query :: "string \<Rightarrow> string \<Rightarrow> world \<Rightarrow> string res \<times> world"
  sv_summarize_bullets :: "string \<Rightarrow> int \<Rightarrow> world \<Rightarrow> string list res \<times> world"
  sv_daily_briefing :: "world \<Rightarrow> unit res \<times> world"
  sv_zone :: "string \<Rightarrow> zone"
  sv_iso :: "string \<Rightarrow> (datetime \<times> string) option"
  sv_state_dir :: string

definition invalid_input :: exc where
  "invalid_input = ValueError ''validation error''"

definition parse_input :: "string \<Rightarrow> json dict option" where
  "parse_input query = (case loads query of Some (JDict d) \<Rightarrow> Some d | _ \<Rightarrow> None)"

definition content :: "json dict \<Rightarrow> string res" where
  "content d = Inr (dumps (JDict d))"

text \<open>\<open>try: ... except ServiceDegradedError: ...\<close>\<close>

definition unless_degraded ::
  "'a res \<times> world \<Rightarrow> json dict \<Rightarrow> ('a \<Rightarrow> world \<Rightarrow> string res \<times> world) \<Rightarrow> string res \<times> world" where
  "unless_degraded call degraded go =
     (case call of
        (Inr x, w) \<Rightarrow> go x w
      | (Inl (ServiceDegraded s le), w) \<Rightarrow> (content degraded, w)
      | (Inl e, w) \<Rightarrow> (Inl e, w))"

subsection \<open>Skills that write\<close>

definition schedule_reminder :: "services \<Rightarrow> json \<Rightarrow> datetime \<Rightarrow> string \<Rightarrow> world \<Rightarrow> string res \<times> world" where
  "schedule_reminder sv message run_at printed w =
     (let (u, w1) = uuid4 w;
          job_id = ''reminder:'' @ u
      in case sv_add_one_off sv job_id run_at
                [(''message'', message), (''state_dir'', JStr (sv_state_dir sv)),
                 (''job_id'', JStr job_id), (''scheduled_run_iso'', JStr printed)] w1 of
           (Inl e, w2) \<Rightarrow> (Inl e, w2)
         | (Inr _, w2) \<Rightarrow> (content [(''job_id'', JStr job_id), (''scheduled_for_iso'', JStr printed)], w2))"

definition run_reminders_create :: "services \<Rightarrow> string \<Rightarrow> world \<Rightarrow> string res \<times> world" where
  "run_reminders_create sv query w =
     (case loads query of
        None \<Rightarrow> (Inl (ValueError ''JSONDecodeError''), w)
      | Some (JDict payload) \<Rightarrow>
          (case map_of payload ''message'' of
             None \<Rightarrow> (Inl (KeyError ''message''), w)
           | Some message \<Rightarrow>
               (case map_of payload ''run_at_iso'' of
                  None \<Rightarrow> (Inl (KeyError ''run_at_iso''), w)
                | Some (JStr txt) \<Rightarrow>
                    (case sv_iso sv txt of
                       None \<Rightarrow> (Inl (ValueError ''Invalid isoformat string''), w)
                     | Some (run_at, printed) \<Rightarrow>
                         schedule_reminder sv message run_at printed w)
                | Some _ \<Rightarrow> (Inl (TypeError ''fromisoformat: argument must be str''), w)))
      | Some _ \<Rightarrow> (Inl (TypeError ''indices must be integers''), w))"

record event_input =
  ei_title :: string
  ei_start :: string
  ei_end :: string
  ei_timezone :: "string option"
  ei_location :: "string option"
  ei_description :: "string option"
  ei_attendees :: "string list"
  ei_calendar :: "string option"

definition event_input_of :: "json dict \<Rightarrow> event_input option" where
  "event_input_of d =
     (case (str_field ''title'' None d, str_field ''start_iso'' None d, str_field ''end_iso'' None d,
            opt_field ''timezone'' d, opt_field ''location'' d, opt_field ''description'' d,
            strs_field ''attendees'' (Some []) d, opt_field ''calendar_id'' d) of
        (Some t, Some s, Some e, Some z, Some l, Some de, Some a, Some c) \<Rightarrow>
          Some \<lparr>ei_title = t, ei_start = s, ei_end = e, ei_timezone = z, ei_location = l, ei_description = de,
                ei_attendees = a, ei_calendar = c\<rparr>
      | _ \<Rightarrow> None)"

definition event_body :: "event_input \<Rightarrow> world \<Rightarrow> json dict" where
  "event_body p w =
     [(''title'', JStr (ei_title p)), (''start_iso'', JStr (ei_start p)), (''end_iso'', JStr (ei_end p)),
      (''timezone'', JStr (str_or (ei_timezone p) (getenv ''BENJAMIN_TIMEZONE'' ''America/New_York'' w))),
      (''location'', opt_json (ei_location p)), (''description'', opt_json (ei_description p)),
      (''attendees'', jstrs (ei_attendees p))]"

definition run_calendar_create :: "services \<Rightarrow> string \<Rightarrow> world \<Rightarrow> string res \<times> world" where
  "run_calendar_create sv query w =
     (case Option.bind (parse_input query) event_input_of of
        None \<Rightarrow> (Inl invalid_input, w)
      | Some p \<Rightarrow>
          (case sv_calendar sv of
             None \<Rightarrow> (Inl (RuntimeError ''calendar_integration_unavailable''), w)
           | Some cc \<Rightarrow>
               unless_degraded
                 (cc_create_event cc (str_or (ei_calendar p) (getenv ''BENJAMIN_CALENDAR_ID'' ''primary'' w)) (event_body p w) w)
                 [(''reason'', JStr ''service_degraded:calendar'')]
                 (\<lambda>created w'. (content
                    [(''event_id'', get_or ''id'' (JStr []) created), (''html_link'', jget ''html_link'' created),
                     (''title'', get_or ''title'' (JStr (ei_title p)) created),
                     (''start_iso'', get_or ''start_iso'' (JStr (ei_start p)) created),
                     (''end_iso'', get_or ''end_iso'' (JStr (ei_end p)) created)], w'))))"

record draft_input =
  di_to :: "string list"
  di_cc :: "string list"
  di_bcc :: "string list"
  di_subject :: string
  di_body :: string

definition draft_input_of :: "json dict \<Rightarrow> draft_input option" where
  "draft_input_of d =
     (case (strs_field ''to'' None d, strs_field ''cc'' (Some []) d, strs_field ''bcc'' (Some []) d,
            str_field ''subject'' None d, str_field ''body'' None d) of
        (Some t, Some c, Some b, Some s, Some bo) \<Rightarrow>
          Some \<lparr>di_to = t, di_cc = c, di_bcc = b, di_subject = s, di_body = bo\<rparr>
      | _ \<Rightarrow> None)"

definition run_gmail_draft :: "services \<Rightarrow> string \<Rightarrow> world \<Rightarrow> string res \<times> world" where
  "run_gmail_draft sv query w =
     (case Option.bind (parse_input query) draft_input_of of
        None \<Rightarrow> (Inl invalid_input, w)
      | Some p \<Rightarrow>
          (case sv_email sv of
             None \<Rightarrow> (Inl (RuntimeError ''gmail_integration_unavailable''), w)
           | Some ec \<Rightarrow>
               unless_degraded
                 (ec_create_draft ec [(''to'', jstrs (di_to p)), (''cc'', jstrs (di_cc p)), (''bcc'', jstrs (di_bcc p)),
                    (''subject'', JStr (di_subject p)), (''body'', JStr (di_body p))] w)
                 [(''reason'', JStr ''service_degraded:gmail'')]
                 (\<lambda>draft w'. (content
                    [(''draft_id'', get_or ''draft_id'' (JStr []) draft),
                     (''subject'', get_or ''subject'' (JStr (di_subject p)) draft),
                     (''to'', get_or ''to'' (jstrs (di_to p)) draft),
                     (''snippet'', get_or ''snippet'' (JStr []) draft)], w'))))"

subsection \<open>Skills that read\<close>

definition run_briefing :: "services \<Rightarrow> string \<Rightarrow> world \<Rightarrow> string res \<times> world" where
  "run_briefing sv query w =
     (case sv_daily_briefing sv w of
        (Inl e, w') \<Rightarrow> (Inl e, w') | (Inr _, w') \<Rightarrow> (content [(''ok'', JBool True)], w'))"

record search_input =
  si_query :: "string option"
  si_days :: int
  si_hours :: int
  si_calendar :: "string option"
  si_max :: int

definition search_input_of :: "json dict \<Rightarrow> search_input option" where
  "search_input_of d =
     (case (opt_field ''query'' d, int_field ''days'' 1 d, int_field ''hours_ahead'' 12 d, opt_field ''calendar_id'' d,
            int_field ''max_results'' 20 d) of
        (Some q, Some dy, Some h, Some c, Some m) \<Rightarrow>
          Some \<lparr>si_query = q, si_days = dy, si_hours = h, si_calendar = c, si_max = m\<rparr>
      | _ \<Rightarrow> None)"

definition window_end :: "search_input \<Rightarrow> world \<Rightarrow> iso" where
  "window_end p w =
     isoformat (Aware (w_now w + (if 0 < si_hours p then hours (si_hours p) else days (max (si_days p) 1))))"

definition event_entry :: "json dict \<Rightarrow> json" where
  "event_entry ev =
     JDict [(''title'', get_or ''title'' (JStr []) ev), (''start_iso'', jget ''start_iso'' ev),
            (''end_iso'', jget ''end_iso'' ev), (''location'', jget ''location'' ev)]"

text \<open>A query that is free text is rewritten first.\<close>

definition rewritten :: "services \<Rightarrow> string \<Rightarrow> string option \<Rightarrow> world \<Rightarrow> string option res \<times> world" where
  "rewritten sv target query w =
     (if str_or query [] \<noteq> [] \<and> CHR '':'' \<notin> set (str_or query []) then
        (case sv_rewrite_query sv (str_or query []) target w of
           (Inl e, w') \<Rightarrow> (Inl e, w') | (Inr q, w') \<Rightarrow> (Inr (Some q), w'))
      else (Inr query, w))"

definition run_calendar_search :: "services \<Rightarrow> string \<Rightarrow> world \<Rightarrow> string res \<times> world" where
  "run_calendar_search sv query w =
     (case Option.bind (parse_input (if query = [] then ''{}'' else query)) search_input_of of
        None \<Rightarrow> (Inl invalid_input, w)
      | Some p \<Rightarrow>
          (case sv_calendar sv of
             None \<Rightarrow> (content [(''events'', JList []), (''reason'', JStr ''calendar_integration_unavailable'')], w)
           | Some cc \<Rightarrow>
               (case sv_zone sv (getenv ''BENJAMIN_TIMEZONE'' ''America/New_York'' w) of
                  ZoneNotFound \<Rightarrow> (Inl (KeyError ''No time zone found''), w)
                | ZoneInvalid e \<Rightarrow> (Inl (ValueError e), w)
                | Zone f \<Rightarrow>
                    (case rewritten sv ''calendar'' (si_query p) w of
                       (Inl e, w1) \<Rightarrow> (Inl e, w1)
                     | (Inr q, w1) \<Rightarrow>
                         unless_degraded
                           (cc_search_events cc (str_or (si_calendar p) (getenv ''BENJAMIN_CALENDAR_ID'' ''primary'' w))
                              (now_iso w) (window_end p w) q (si_max p) w1)
                           [(''events'', JList []), (''reason'', JStr ''service_degraded:calendar'')]
                           (\<lambda>events w2. (content [(''events'', JList (map event_entry events)),
                                                  (''query_used'', opt_json q)], w2))))))"

definition mail_entry :: "json dict \<Rightarrow> json dict" where
  "mail_entry m =
     [(''from'', get_or ''from'' (JStr []) m), (''subject'', get_or ''subject'' (JStr []) m),
      (''snippet'', get_or ''snippet'' (JStr []) m), (''date_iso'', jget ''date_iso'' m), (''thread_id'', jget ''thread_id'' m)]"

definition run_gmail_search :: "services \<Rightarrow> string \<Rightarrow> world \<Rightarrow> string res \<times> world" where
  "run_gmail_search sv query w =
     (case Option.bind (parse_input query)
             (\<lambda>d. case (str_field ''query'' None d, int_field ''max_results'' 10 d) of
                    (Some q, Some m) \<Rightarrow> Some (q, m) | _ \<Rightarrow> None) of
        None \<Rightarrow> (Inl invalid_input, w)
      | Some (q, mx) \<Rightarrow>
          (case sv_email sv of
             None \<Rightarrow> (content [(''messages'', JList []), (''reason'', JStr ''gmail_integration_unavailable'')], w)
           | Some ec \<Rightarrow>
               (case (if CHR '':'' \<notin> set q \<and> \<not> str_in '' label:'' q then sv_rewrite_query sv q ''gmail'' w else (Inr q, w)) of
                  (Inl e, w1) \<Rightarrow> (Inl e, w1)
                | (Inr q', w1) \<Rightarrow>
                    unless_degraded (ec_search_messages ec q' mx w1)
                      [(''messages'', JList []), (''reason'', JStr ''service_degraded:gmail'')]
                      (\<lambda>ms w2. (content
                         [(''messages'', JList (map JDict (rerank_candidates q (map mail_entry ms) ''snippet''))),
                          (''query_used'', JStr q')], w2)))))"

definition run_gmail_read :: "services \<Rightarrow> string \<Rightarrow> world \<Rightarrow> string res \<times> world" where
  "run_gmail_read sv query w =
     (case Option.bind (parse_input query) (str_field ''message_id'' None) of
        None \<Rightarrow> (Inl invalid_input, w)
      | Some i \<Rightarrow>
          (case sv_email sv of
             None \<Rightarrow> (content [(''message_id'', JStr i), (''reason'', JStr ''gmail_integration_unavailable'')], w)
           | Some ec \<Rightarrow>
               unless_degraded (ec_read_message ec i w)
                 [(''message_id'', JStr i), (''reason'', JStr ''service_degraded:gmail'')]
                 (\<lambda>m w'. (content [(''message_id'', JStr i), (''subject'', get_or ''subject'' (JStr []) m),
                                   (''from'', get_or ''from'' (JStr []) m), (''body'', get_or ''body'' (JStr []) m)], w'))))"

text \<open>\<open>"\n".join(snippets)\<close> of a true value: a list of texts; the characters of a text; the keys of an object.\<close>

definition join_json :: "json \<Rightarrow> string res" where
  "join_json j =
     (case j of
        JList xs \<Rightarrow> (case json_strs xs of None \<Rightarrow> Inl (TypeError ''sequence item: expected str instance'') | Some ss \<Rightarrow> Inr (join nl ss))
      | JStr s \<Rightarrow> Inr (join nl (map (\<lambda>c. [c]) s))
      | JDict d \<Rightarrow> Inr (join nl (map fst d))
      | _ \<Rightarrow> Inl (TypeError ''can only join an iterable''))"

definition thread_bullets :: "services \<Rightarrow> json \<Rightarrow> world \<Rightarrow> json res \<times> world" where
  "thread_bullets sv snippets w =
     (if \<not> truthy snippets then (Inr snippets, w)
      else case join_json snippets of
             Inl e \<Rightarrow> (Inl e, w)
           | Inr txt \<Rightarrow>
               (case sv_summarize_bullets sv txt 6 w of
                  (Inl e, w') \<Rightarrow> (Inl e, w') | (Inr bs, w') \<Rightarrow> (Inr (jstrs bs), w')))"

definition no_thread :: "string \<Rightarrow> string \<Rightarrow> json dict" where
  "no_thread i reason =
     [(''thread_id'', JStr i), (''subject'', JStr []), (''participants'', JList []), (''snippets'', JList []),
      (''reason'', JStr reason)]"

definition run_gmail_thread :: "services \<Rightarrow> string \<Rightarrow> world \<Rightarrow> string res \<times> world" where
  "run_gmail_thread sv query w =
     (case Option.bind (parse_input query)
             (\<lambda>d. case (str_field ''thread_id'' None d, int_field ''max_messages'' 10 d) of
                    (Some i, Some m) \<Rightarrow> Some (i, m) | _ \<Rightarrow> None) of
        None \<Rightarrow> (Inl invalid_input, w)
      | Some (i, mx) \<Rightarrow>
          (case sv_email sv of
             None \<Rightarrow> (content (no_thread i ''gmail_integration_unavailable''), w)
           | Some ec \<Rightarrow>
               unless_degraded (ec_thread_summary ec (JStr i) mx w) (no_thread i ''service_degraded:gmail'')
                 (\<lambda>summary w1.
                    let snippets = get_or ''snippets'' (JList []) summary
                    in case thread_bullets sv snippets w1 of
                         (Inl e, w2) \<Rightarrow> (Inl e, w2)
                       | (Inr bullets, w2) \<Rightarrow>
                           (content [(''thread_id'', get_or ''thread_id'' (JStr i) summary),
                              (''subject'', get_or ''subject'' (JStr []) summary),
                              (''participants'', get_or ''participants'' (JList []) summary),
                              (''snippets'', snippets), (''bullets'', bullets)], w2))))"

text \<open>The \<open>run\<close> method of the skill of each name.\<close>

definition builtin_run :: "services \<Rightarrow> string \<Rightarrow> string \<Rightarrow> world \<Rightarrow> string res \<times> world" where
  "builtin_run sv name =
     (if name = ''reminders.create'' then run_reminders_create sv
      else if name = ''briefings.daily'' then run_briefing sv
      else if name = ''calendar.search'' then run_calendar_search sv
      else if name = ''gmail.search'' then run_gmail_search sv
      else if name = ''gmail.read_message'' then run_gmail_read sv
      else if name = ''gmail.thread_summary'' then run_gmail_thread sv
      else if name = ''calendar.create_event'' then run_calendar_create sv
      else if name = ''gmail.draft_email'' then run_gmail_draft sv
      else (\<lambda>q w. (Inl (KeyError name), w)))"

subsection \<open>A chat request creates nothing\<close>

text \<open>Other operations that create jobs, events and drafts.\<close>

definition with_writers ::
  "(string \<Rightarrow> datetime \<Rightarrow> json dict \<Rightarrow> world \<Rightarrow> unit res \<times> world) \<Rightarrow> (string \<Rightarrow> json dict \<Rightarrow> world \<Rightarrow> json dict res \<times> world)
     \<Rightarrow> (json dict \<Rightarrow> world \<Rightarrow> json dict res \<times> world) \<Rightarrow> services \<Rightarrow> services" where
  "with_writers add create draft sv =
     sv\<lparr>sv_add_one_off := add,
        sv_calendar := map_option (\<lambda>cc. cc\<lparr>cc_create_event := create\<rparr>) (sv_calendar sv),
        sv_email := map_option (\<lambda>ec. ec\<lparr>ec_create_draft := draft\<rparr>) (sv_email sv)\<rparr>"

lemma with_writers_frames [simp]:
  "sv_rewrite_query (with_writers a c d sv) = sv_rewrite_query sv"
  "sv_summarize_bullets (with_writers a c d sv) = sv_summarize_bullets sv"
  "sv_daily_briefing (with_writers a c d sv) = sv_daily_briefing sv"
  "sv_zone (with_writers a c d sv) = sv_zone sv"
  by (simp_all add: with_writers_def)

lemma with_writers_helpers [simp]:
  "rewritten (with_writers a c d sv) = rewritten sv"
  "thread_bullets (with_writers a c d sv) = thread_bullets sv"
  by (simp_all add: fun_eq_iff rewritten_def thread_bullets_def cong: sum.case_cong)

lemma reading_runs:
  "run_briefing (with_writers a c d sv) = run_briefing sv"
  "run_calendar_search (with_writers a c d sv) = run_calendar_search sv"
  "run_gmail_search (with_writers a c d sv) = run_gmail_search sv"
  "run_gmail_read (with_writers a c d sv) = run_gmail_read sv"
  "run_gmail_thread (with_writers a c d sv) = run_gmail_thread sv"
proof -
  have [simp]: "sv_calendar (with_writers a c d sv) = map_option (\<lambda>cc. cc\<lparr>cc_create_event := c\<rparr>) (sv_calendar sv)"
    "sv_email (with_writers a c d sv) = map_option (\<lambda>ec. ec\<lparr>ec_create_draft := d\<rparr>) (sv_email sv)"
    by (simp_all add: with_writers_def)
  show "run_briefing (with_writers a c d sv) = run_briefing sv" by (simp add: fun_eq_iff run_briefing_def)
  show "run_calendar_search (with_writers a c d sv) = run_calendar_search sv"
    by (cases "sv_calendar sv") (simp_all add: fun_eq_iff run_calendar_search_def cong: option.case_cong sum.case_cong prod.case_cong zone.case_cong)
  show "run_gmail_search (with_writers a c d sv) = run_gmail_search sv"
    by (cases "sv_email sv") (auto simp: fun_eq_iff run_gmail_search_def cong: sum.case_cong prod.case_cong split: option.split)
  show "run_gmail_read (with_writers a c d sv) = run_gmail_read sv"
    by (cases "sv_email sv") (simp_all add: fun_eq_iff run_gmail_read_def cong: option.case_cong sum.case_cong prod.case_cong zone.case_cong)
  show "run_gmail_thread (with_writers a c d sv) = run_gmail_thread sv"
    by (cases "sv_email sv") (simp_all add: fun_eq_iff run_gmail_thread_def cong: option.case_cong sum.case_cong prod.case_cong zone.case_cong)
qed

lemma builtin_run_writers:
  "builtin_run (with_writers a c d sv) = with_writes (builtin_run (with_writers a c d sv)) (builtin_run sv)"
  by (simp add: fun_eq_iff builtin_run_def with_writes_def reading_runs)

text \<open>
  C2. A chat request creates nothing: with the built-in skills, and whatever the scheduler, the
  calendar and the mail service would do when asked to create a job, an event or a draft, the
  answer, the state and the task record are the same. Whatever the language model plans,
  these operations are not called.
\<close>

theorem chat_creates_nothing:
  "handle (oc\<lparr>oc_registry := builtin_registry (builtin_run (with_writers add create draft sv))\<rparr>) os message m w
     = handle (oc\<lparr>oc_registry := builtin_registry (builtin_run sv)\<rparr>) os message m w"
  by (subst builtin_run_writers) (rule chat_never_writes)

subsection \<open>What the review promises the skills\<close>

lemma create_reminder_runs:
  assumes "loads query = Some (JDict payload)" and "map_of payload ''message'' = Some message"
    and "map_of payload ''run_at_iso'' = Some (JStr s)" and "sv_iso sv s = Some (run_at, printed)"
  shows "run_reminders_create sv query w =
    (let job = ''reminder:'' @ w_uuids w (w_uuid w)
     in case sv_add_one_off sv job run_at
              [(''message'', message), (''state_dir'', JStr (sv_state_dir sv)), (''job_id'', JStr job),
               (''scheduled_run_iso'', JStr printed)] (w\<lparr>w_uuid := Suc (w_uuid w)\<rparr>) of
          (Inl e, w') \<Rightarrow> (Inl e, w')
        | (Inr _, w') \<Rightarrow> (Inr (dumps (JDict [(''job_id'', JStr job), (''scheduled_for_iso'', JStr printed)])), w'))"
  using assms by (simp add: run_reminders_create_def schedule_reminder_def uuid4_def Let_def content_def split: prod.split sum.split)

lemma future_reading:
  assumes "critic_parse_iso ck (JStr s) tz = Inr (Some t)" and "ck_iso ck s = map_option fst (sv_iso sv s)"
  obtains run_at printed where "sv_iso sv s = Some (run_at, printed)"
    and "case run_at of Aware t' \<Rightarrow> t' = t | Naive n \<Rightarrow> local_instant ck (zone_name ck tz) n = Inr (Some t)"
proof -
  obtain d where d: "ck_iso ck s = Some d" "case d of Aware t' \<Rightarrow> t' = t | Naive n \<Rightarrow> local_instant ck (zone_name ck tz) n = Inr (Some t)"
    using assms(1) by (auto simp: critic_parse_iso_def split: option.splits datetime.splits if_splits)
  then show thesis using assms(2) that by (cases "sv_iso sv s") auto
qed

text \<open>
  C23. A reminder step that passed the review is scheduled as it was asked for: running the
  skill calls the scheduler once, with a fresh identifier, the message of the arguments, and
  the time of the arguments if the review reads it as later than now, else five minutes from
  now; it answers that identifier and time, or raises what the scheduler raises. The time is
  after now as an instant; a time without offset is after now in the zone that the arguments
  name, but is handed on without it.
\<close>

theorem reviewed_reminder_scheduled:
  assumes "review_reminder ck now st = Inr (Accept st' changes warns)" and "critic_ready ck now"
    and "\<forall>s. ck_iso ck s = map_option fst (sv_iso sv s)" and "loads (ps_args st) = Some (JDict payload)"
  shows "\<exists>message t s run_at printed.
      map_of payload ''message'' = Some message \<and> strip (py_str message) \<noteq> []
    \<and> critic_parse_iso ck (jget ''run_at_iso'' payload) (jget ''timezone'' payload) = Inr (Some t)
    \<and> (if now < t then map_of payload ''run_at_iso'' = Some (JStr s) else s = iso_text (now + minutes 5))
    \<and> sv_iso sv s = Some (run_at, printed)
    \<and> (case run_at of
         Aware t' \<Rightarrow> t' = (if now < t then t else now + minutes 5)
       | Naive n \<Rightarrow> now < t \<and> local_instant ck (zone_name ck (jget ''timezone'' payload)) n = Inr (Some t))
    \<and> run_reminders_create sv (ps_args st') w =
       (let job = ''reminder:'' @ w_uuids w (w_uuid w)
        in case sv_add_one_off sv job run_at
                 [(''message'', message), (''state_dir'', JStr (sv_state_dir sv)), (''job_id'', JStr job),
                  (''scheduled_run_iso'', JStr printed)] (w\<lparr>w_uuid := Suc (w_uuid w)\<rparr>) of
             (Inl e, w') \<Rightarrow> (Inl e, w')
           | (Inr _, w') \<Rightarrow> (Inr (dumps (JDict [(''job_id'', JStr job), (''scheduled_for_iso'', JStr printed)])), w'))"
proof -
  let ?tz = "jget ''timezone'' payload"
  have nb: "strip (py_str (jor (jget ''message'' payload) (JStr []))) \<noteq> []"
    using assms(1,4) by (auto simp: review_reminder_def split: if_splits)
  then have "jget ''message'' payload \<noteq> JNull" by (auto simp: jor_def strip_def lstrip_def rstrip_def)
  then obtain message where m: "map_of payload ''message'' = Some message" "message = jget ''message'' payload"
    by (auto simp: jget_def split: option.splits)
  have msg: "strip (py_str message) \<noteq> []"
    using nb m(2) by (auto simp: jor_def strip_def lstrip_def rstrip_def split: if_splits)
  obtain t where t: "critic_parse_iso ck (jget ''run_at_iso'' payload) ?tz = Inr (Some t)"
    using assms(1,4) nb by (auto simp: review_reminder_def split: sum.splits option.splits)
  show ?thesis
  proof (cases "now < t")
    case True
    then have st: "st' = st" using assms(1,4) nb t by (auto simp: review_reminder_def)
    obtain s where "jget ''run_at_iso'' payload = JStr s" using t by (auto simp: critic_parse_iso_def split: json.splits)
    then have s: "map_of payload ''run_at_iso'' = Some (JStr s)" by (auto simp: jget_def split: option.splits)
    obtain run_at printed where r: "sv_iso sv s = Some (run_at, printed)"
        "case run_at of Aware t' \<Rightarrow> t' = t | Naive n \<Rightarrow> local_instant ck (zone_name ck ?tz) n = Inr (Some t)"
      by (rule future_reading [of ck s ?tz t sv]) (use t s assms(3) in \<open>simp_all add: jget_def\<close>)
    show ?thesis using True m(1) msg t s r create_reminder_runs [OF assms(4) m(1) s r(1), of w]
      by (intro exI [of _ message] exI [of _ t] exI [of _ s] exI [of _ run_at] exI [of _ printed])
        (simp add: st split: datetime.splits)
  next
    case False
    let ?s = "iso_text (now + minutes 5)"
    let ?p = "AList.update ''run_at_iso'' (JStr ?s) payload"
    have l: "loads (ps_args st') = Some (JDict ?p)"
      using False assms(1,4) nb t loads_wf [OF assms(4)] wf_dict_update [of payload "JStr ?s" "''run_at_iso''"]
      by (auto simp: review_reminder_def rewrite_args_def Let_def loads_dumps simp del: wf_json.simps(2))
    have "ck_iso ck ?s = Some (Aware (now + minutes 5))" using assms(2) by (simp add: critic_ready_def)
    then obtain printed where r: "sv_iso sv ?s = Some (Aware (now + minutes 5), printed)"
      using assms(3) [rule_format, of ?s] by (cases "sv_iso sv ?s") auto
    have k: "map_of ?p ''message'' = Some message" "map_of ?p ''run_at_iso'' = Some (JStr ?s)"
      using m(1) by (simp_all add: update_conv')
    show ?thesis using False m(1) msg t r create_reminder_runs [OF l k r, of w]
      by (intro exI [of _ message] exI [of _ t] exI [of _ ?s] exI [of _ "Aware (now + minutes 5)"] exI [of _ printed]) simp
  qed
qed

definition demo_services :: services where
  "demo_services = \<lparr>sv_calendar = None, sv_email = None, sv_add_one_off = (\<lambda>j t d w. (Inr (), w)),
     sv_rewrite_query = (\<lambda>q t w. (Inr q, w)), sv_summarize_bullets = (\<lambda>t n w. (Inr [], w)),
     sv_daily_briefing = (\<lambda>w. (Inr (), w)), sv_zone = ck_zone demo_critic,
     sv_iso = (\<lambda>s. map_option (\<lambda>t. (t, s)) (ck_iso demo_critic s)), sv_state_dir = ''state''\<rparr>"

definition demo_reminder :: plan_step where
  "demo_reminder = \<lparr>ps_id = ''b'', ps_description = ''remind'', ps_skill = Some ''reminders.create'',
     ps_args = dumps (JDict [(''message'', JStr ''tea''), (''run_at_iso'', JStr ''1969-12-31T00:00:00'')]),
     ps_requires_approval = True\<rparr>"

theorem reviewed_reminder_scheduled_witness:
  "\<exists>st' ch printed. review_reminder demo_critic 0 demo_reminder = Inr (Accept st' ch [])
     \<and> sv_iso demo_services (iso_text (minutes 5)) = Some (Aware (minutes 5), printed)"
proof -
  have "case review_reminder demo_critic 0 demo_reminder of Inr (Accept st' ch ws) \<Rightarrow> ws = [] | _ \<Rightarrow> False" by code_simp
  then obtain st' ch where r: "review_reminder demo_critic 0 demo_reminder = Inr (Accept st' ch [])"
    by (auto split: sum.splits review.splits)
  have ready: "critic_ready demo_critic 0" by code_simp
  have iso: "\<forall>s. ck_iso demo_critic s = map_option fst (sv_iso demo_services s)"
    by (simp add: demo_services_def option.map_comp comp_def option.map_ident)
  let ?p = "[(''message'', JStr ''tea''), (''run_at_iso'', JStr ''1969-12-31T00:00:00'')]"
  have l: "loads (ps_args demo_reminder) = Some (JDict ?p)" unfolding demo_reminder_def by (simp add: loads_dumps)
  have past: "\<exists>t\<le>0. critic_parse_iso demo_critic (jget ''run_at_iso'' ?p) (jget ''timezone'' ?p) = Inr (Some t)"
  proof -
    have "case critic_parse_iso demo_critic (jget ''run_at_iso'' ?p) (jget ''timezone'' ?p) of Inr (Some t) \<Rightarrow> t \<le> 0 | _ \<Rightarrow> False"
      by code_simp
    then show ?thesis by (auto split: sum.splits option.splits)
  qed
  from reviewed_reminder_scheduled [OF r ready iso l, of "empty_world 0"] past r show ?thesis
    by (fastforce split: datetime.splits)
qed

text \<open>
  The time zone of a reminder is reviewed and then ignored: a reminder for a time without
  offset is checked, and moved when it is past, in the zone its arguments name, but the skill
  hands the scheduler the time without that zone; with two zones between which the instant
  differs, the job is the same.
\<close>

theorem reminder_zone_ignored:
  "let args = (\<lambda>z. [(''message'', JStr ''tea''), (''run_at_iso'', JStr ''2030-01-01T09:00:00''), (''timezone'', JStr z)]);
       ck = demo_critic\<lparr>ck_zone := (\<lambda>n. if n = ''UTC'' then Zone (\<lambda>t. t) else Zone (\<lambda>t. t - hours 9)),
                        ck_iso := (\<lambda>s. Some (Naive 1893488400000000))\<rparr>
   in critic_parse_iso ck (JStr ''2030-01-01T09:00:00'') (JStr ''UTC'') = Inr (Some 1893488400000000)
      \<and> critic_parse_iso ck (JStr ''2030-01-01T09:00:00'') (JStr ''Asia/Tokyo'') = Inr (Some (1893488400000000 - hours 9))
      \<and> run_reminders_create sv (dumps (JDict (args ''UTC''))) w = run_reminders_create sv (dumps (JDict (args ''Asia/Tokyo''))) w"
proof -
  let ?args = "\<lambda>z. [(''message'', JStr ''tea''), (''run_at_iso'', JStr ''2030-01-01T09:00:00''), (''timezone'', JStr z)]"
  have "loads (dumps (JDict (?args z))) = Some (JDict (?args z))" for z by (rule loads_dumps) simp
  then have "run_reminders_create sv (dumps (JDict (?args ''UTC''))) w = run_reminders_create sv (dumps (JDict (?args ''Asia/Tokyo''))) w"
    by (simp add: run_reminders_create_def)
  moreover have "strip ''2030-01-01T09:00:00'' \<noteq> []" "strip ''UTC'' = ''UTC''" "strip ''Asia/Tokyo'' = ''Asia/Tokyo''"
    by code_simp+
  ultimately show ?thesis by (simp add: Let_def critic_parse_iso_def zone_name_def local_instant_def)
qed

text \<open>
  The review lets steps pass that the skill must reject: a draft without body and an event
  without title are accepted, without warning, and fail the validation of their skill - after
  the approval, for every state and every service.
\<close>

theorem incomplete_steps_pass_review:
  "let st = \<lparr>ps_id = ''a'', ps_description = ''d'', ps_skill = Some ''gmail.draft_email'',
              ps_args = dumps (JDict [(''to'', JList [JStr ''a@b.c'']), (''subject'', JStr ''Hi'')]), ps_requires_approval = True\<rparr>
   in review_gmail st = Inr (Accept st [] []) \<and> run_gmail_draft sv (ps_args st) w = (Inl invalid_input, w)"
proof -
  let ?d = "[(''to'', JList [JStr ''a@b.c'']), (''subject'', JStr ''Hi'')]"
  have l: "loads (dumps (JDict ?d)) = Some (JDict ?d)" by (rule loads_dumps) simp
  have n: "normal_recipients [JStr ''a@b.c''] = [''a@b.c'']" "strip ''Hi'' = ''Hi''" by code_simp+
  show ?thesis
    by (simp add: Let_def review_gmail_def run_gmail_draft_def parse_input_def l to_items_def jget_def n rewrite_args_def
        jor_def draft_input_of_def strs_field_def str_field_def)
qed

subsection \<open>What the skills return\<close>

definition answers_json :: "string res \<times> world \<Rightarrow> bool" where
  "answers_json r \<longleftrightarrow> (case fst r of Inl e \<Rightarrow> True | Inr c \<Rightarrow> \<exists>d. loads c = Some (JDict d))"

lemma answers_json_error [simp]: "answers_json (Inl e, w)"
  by (simp add: answers_json_def)

lemma answers_json_content: "wf_json (JDict d) \<Longrightarrow> answers_json (content d, w)"
  using loads_dumps [of "JDict d"] by (auto simp: answers_json_def content_def simp del: wf_json.simps)

lemma answers_json_unless:
  assumes "wf_json (JDict degraded)" "\<And>x w. call = (Inr x, w) \<Longrightarrow> answers_json (go x w)"
  shows "answers_json (unless_degraded call degraded go)"
  using assms answers_json_content [OF assms(1)]
  by (auto simp: unless_degraded_def simp del: wf_json.simps split: prod.split sum.split exc.split)

text \<open>The objects of the services have each key once, as Python dictionaries do.\<close>

definition wf_answer :: "json dict res \<times> world \<Rightarrow> bool" where
  "wf_answer r \<longleftrightarrow> (case fst r of Inl e \<Rightarrow> True | Inr d \<Rightarrow> wf_json (JDict d))"

definition wf_answers :: "json dict list res \<times> world \<Rightarrow> bool" where
  "wf_answers r \<longleftrightarrow> (case fst r of Inl e \<Rightarrow> True | Inr ds \<Rightarrow> list_all (\<lambda>d. wf_json (JDict d)) ds)"

definition wf_services :: "services \<Rightarrow> bool" where
  "wf_services sv \<longleftrightarrow>
     (case sv_calendar sv of None \<Rightarrow> True | Some cc \<Rightarrow>
        (\<forall>c a b q n w. wf_answers (cc_search_events cc c a b q n w)) \<and> (\<forall>c d w. wf_json (JDict d) \<longrightarrow> wf_answer (cc_create_event cc c d w)))
     \<and> (case sv_email sv of None \<Rightarrow> True | Some ec \<Rightarrow>
        (\<forall>q n w. wf_answers (ec_search_messages ec q n w)) \<and> (\<forall>i w. wf_answer (ec_read_message ec i w))
        \<and> (\<forall>i n w. wf_json i \<longrightarrow> wf_answer (ec_thread_summary ec i n w))
        \<and> (\<forall>d w. wf_json (JDict d) \<longrightarrow> wf_answer (ec_create_draft ec d w)))"

lemma wf_answerD: "wf_answer r \<Longrightarrow> r = (Inr d, w) \<Longrightarrow> wf_json (JDict d)"
  by (simp add: wf_answer_def)

lemma wf_answersD: "wf_answers r \<Longrightarrow> r = (Inr ds, w) \<Longrightarrow> list_all (\<lambda>d. wf_json (JDict d)) ds"
  by (simp add: wf_answers_def)

lemma wf_get_or: "wf_json (JDict d) \<Longrightarrow> wf_json v \<Longrightarrow> wf_json (get_or k v d)"
  by (auto simp: get_or_def wf_items_lookup split: option.split)

lemma wf_jget: "wf_json (JDict d) \<Longrightarrow> wf_json (jget k d)"
  by (auto simp: jget_def wf_items_lookup split: option.split)

lemma wf_opt_json [simp]: "wf_json (opt_json x)"
  by (simp add: opt_json_def split: option.split)

lemma wf_list_map: "(\<And>x. x \<in> set xs \<Longrightarrow> wf_json (f x)) \<Longrightarrow> wf_list (map f xs)"
  by (induction xs) auto

lemmas wf_parts = wf_get_or wf_jget wf_jstrs wf_opt_json

lemma wf_event_entry: "wf_json (JDict d) \<Longrightarrow> wf_json (event_entry d)"
  using wf_parts by (simp add: event_entry_def)

lemma wf_mail_entry: "wf_json (JDict d) \<Longrightarrow> wf_json (JDict (mail_entry d))"
  using wf_parts by (simp add: mail_entry_def)

lemma set_rerank: "set (rerank_candidates q cs k) = set cs"
  by (simp add: rerank_candidates_def Let_def)

lemma reminders_json: "answers_json (run_reminders_create sv q w)"
  by (auto simp: run_reminders_create_def schedule_reminder_def Let_def answers_json_content split: option.split json.split prod.split sum.split)

lemma briefing_json: "answers_json (run_briefing sv q w)"
  by (auto simp: run_briefing_def answers_json_content split: prod.split sum.split)

lemma calendar_search_json:
  assumes "wf_services sv"
  shows "answers_json (run_calendar_search sv q w)"
proof -
  have go: "wf_list (map event_entry events)"
    if "cc_search_events cc c a b q' n w1 = (Inr events, w')" "sv_calendar sv = Some cc" for cc c a b q' n w1 events w'
  proof -
    have "wf_answers (cc_search_events cc c a b q' n w1)" using assms that(2) by (simp add: wf_services_def)
    from wf_answersD [OF this that(1)] show ?thesis
      by (auto simp: list_all_iff intro!: wf_list_map wf_event_entry)
  qed
  show ?thesis
    unfolding run_calendar_search_def
    by (auto intro!: answers_json_unless answers_json_content dest: go split: option.split zone.split prod.split sum.split)
qed

lemma gmail_search_json:
  assumes "wf_services sv"
  shows "answers_json (run_gmail_search sv q w)"
proof -
  have go: "wf_list (map JDict (rerank_candidates p (map mail_entry ms) ''snippet''))"
    if "ec_search_messages ec q' n w1 = (Inr ms, w')" "sv_email sv = Some ec" for ec p q' n w1 ms w'
  proof -
    have "wf_answers (ec_search_messages ec q' n w1)" using assms that(2) by (simp add: wf_services_def)
    from wf_answersD [OF this that(1)] show ?thesis
      by (auto simp: list_all_iff set_rerank intro!: wf_list_map wf_mail_entry simp del: wf_json.simps)
  qed
  show ?thesis
    unfolding run_gmail_search_def
    by (auto intro!: answers_json_unless answers_json_content dest: go split: option.split prod.split sum.split)
qed

lemma gmail_read_json:
  assumes "wf_services sv"
  shows "answers_json (run_gmail_read sv q w)"
  using assms unfolding run_gmail_read_def wf_services_def
  by (auto intro!: answers_json_unless answers_json_content dest!: wf_answerD [rotated] simp: wf_parts split: option.split)

lemma wf_bullets:
  assumes "thread_bullets sv (get_or k (JList []) d) w = (Inr b, w')" "distinct (map fst d)" "wf_items d"
  shows "wf_json b"
  using assms wf_get_or [of d "JList []" k] by (auto simp: thread_bullets_def wf_jstrs split: if_splits sum.splits prod.splits)

lemma wf_kwargs:
  "wf_json (JDict (event_body p w))"
  "wf_json (JDict [(''to'', jstrs a), (''cc'', jstrs b), (''bcc'', jstrs c), (''subject'', JStr s), (''body'', JStr t)])"
  using wf_parts by (simp_all add: event_body_def)

lemma gmail_thread_json:
  assumes "wf_services sv"
  shows "answers_json (run_gmail_thread sv q w)"
proof -
  have "wf_answer (ec_thread_summary ec (JStr i) n w)" if "sv_email sv = Some ec" for ec i n w
    using assms that by (simp add: wf_services_def)
  then show ?thesis unfolding run_gmail_thread_def
    by (auto intro!: answers_json_unless answers_json_content dest!: wf_answerD [rotated] simp: wf_parts no_thread_def Let_def split: option.split prod.split sum.split)
      (erule (2) wf_bullets)
qed

lemma calendar_create_json:
  assumes "wf_services sv"
  shows "answers_json (run_calendar_create sv q w)"
proof -
  have "wf_answer (cc_create_event cc c (event_body p w) w')" if "sv_calendar sv = Some cc" for cc c p w w'
    using assms that wf_kwargs(1) [of p w] unfolding wf_services_def by simp
  then show ?thesis unfolding run_calendar_create_def
    by (auto intro!: answers_json_unless answers_json_content dest!: wf_answerD [rotated] simp: wf_parts split: option.split)
qed

lemma gmail_draft_json:
  assumes "wf_services sv"
  shows "answers_json (run_gmail_draft sv q w)"
proof -
  have "wf_answer (ec_create_draft ec [(''to'', jstrs a), (''cc'', jstrs b), (''bcc'', jstrs c), (''subject'', JStr s), (''body'', JStr t)] w')"
    if "sv_email sv = Some ec" for ec a b c s t w'
    using assms that wf_kwargs(2) unfolding wf_services_def by simp
  then show ?thesis unfolding run_gmail_draft_def
    by (auto intro!: answers_json_unless answers_json_content dest!: wf_answerD [rotated] simp: wf_parts split: option.split)
qed

text \<open>
  Whatever a built-in skill is given, its answer, when it has one, is the text of a JSON
  object, provided the services answer with dictionaries (each key once).
\<close>

theorem skills_answer_json:
  assumes "wf_services sv"
  shows "case fst (builtin_run sv name q w) of Inl e \<Rightarrow> True | Inr c \<Rightarrow> \<exists>d. loads c = Some (JDict d)"
proof -
  have "answers_json (builtin_run sv name q w)"
    by (simp add: builtin_run_def reminders_json briefing_json calendar_search_json [OF assms] gmail_search_json [OF assms]
        gmail_read_json [OF assms] gmail_thread_json [OF assms] calendar_create_json [OF assms] gmail_draft_json [OF assms])
  then show ?thesis by (simp add: answers_json_def)
qed

lemma skills_answer_json_witness:
  "case fst (builtin_run demo_services ''calendar.search'' [] (empty_world 0)) of Inl e \<Rightarrow> False | Inr c \<Rightarrow> \<exists>d. loads c = Some (JDict d)"
proof -
  have "wf_services demo_services" by (simp add: wf_services_def demo_services_def)
  moreover have "case fst (builtin_run demo_services ''calendar.search'' [] (empty_world 0)) of Inl e \<Rightarrow> False | Inr c \<Rightarrow> True"
    by code_simp
  ultimately show ?thesis
    using skills_answer_json [of demo_services "''calendar.search''" "[]" "empty_world 0"] by (auto split: sum.splits)
qed

end
