(* ===== verification/Doctor.thy ===== *)
theory Doctor
  imports Tasks Rules
begin

section \<open>Checking, repairing and compacting the state files\<close>

text \<open>
  \<open>core/ops/doctor.py\<close>: every JSONL file is read line by line and reported on; \<open>repair\<close>
  rewrites a file with invalid lines from its valid records, \<open>compact\<close> drops repeated
  identifiers and old records beyond the retention, and each rewriting first copies the file
  to a backup whose name carries the second. Sizes in bytes and the messages of the JSON
  parser are not modelled; a note says only which kind of error a line has.
\<close>

text \<open>
  What the table of known artifacts says of a JSONL file: its time stamp, what its model makes
  of a record it accepts, the identifier by which repeated records are dropped (episodes and
  tasks only), and its retention.
\<close>

record 'r artifact =
  af_ts :: "'r \<Rightarrow> iso option"
  af_norm :: "'r \<Rightarrow> 'r"
  af_id :: "('r \<Rightarrow> string) option"
  af_retention :: "(string \<times> int) option"

subsection \<open>Reading a file\<close>

datatype doc_note = FileMissing | LineNoJson nat | LineInvalid nat | Rewritten | JsonUnreadable | JsonInvalid

record file_report =
  fr_exists :: bool
  fr_records :: nat
  fr_valid :: nat
  fr_invalid :: nat
  fr_last_ts :: "iso option"
  fr_notes :: "doc_note list"

definition new_report :: "bool \<Rightarrow> file_report" where
  "new_report ex = \<lparr>fr_exists = ex, fr_records = 0, fr_valid = 0, fr_invalid = 0, fr_last_ts = None, fr_notes = []\<rparr>"

text \<open>The later of two time stamps; comparing a zone-less with an aware one raises.\<close>

definition timestamp_or_none :: "iso option \<Rightarrow> datetime option" where
  "timestamp_or_none t = (case t of None \<Rightarrow> None | Some i \<Rightarrow> fromisoformat i)"

definition max_ts :: "iso option \<Rightarrow> iso option \<Rightarrow> iso option res" where
  "max_ts current candidate =
     (case timestamp_or_none candidate of
        None \<Rightarrow> Inr current
      | Some c2 \<Rightarrow>
          (case timestamp_or_none current of
             None \<Rightarrow> Inr candidate
           | Some c1 \<Rightarrow> (case dt_gt c2 c1 of Inl e \<Rightarrow> Inl e | Inr later \<Rightarrow> Inr (if later then candidate else current))))"

definition add_invalid :: "doc_note \<Rightarrow> file_report \<Rightarrow> file_report" where
  "add_invalid n r =
     r\<lparr>fr_records := Suc (fr_records r), fr_invalid := Suc (fr_invalid r),
       fr_notes := (if length (fr_notes r) < 3 then fr_notes r @ [n] else fr_notes r)\<rparr>"

fun report_lines ::
  "'r artifact \<Rightarrow> nat \<Rightarrow> 'r line list \<Rightarrow> file_report \<Rightarrow> 'r list \<Rightarrow> (file_report \<times> 'r list) res" where
  "report_lines a n [] rep valid = Inr (rep, valid)"
| "report_lines a n (l # ls) rep valid =
     (case l of
        BlankLine \<Rightarrow> report_lines a (Suc n) ls rep valid
      | BadJson s \<Rightarrow> report_lines a (Suc n) ls (add_invalid (LineNoJson n) rep) valid
      | BadRecord j \<Rightarrow> report_lines a (Suc n) ls (add_invalid (LineInvalid n) rep) valid
      | Row r \<Rightarrow>
          (case max_ts (fr_last_ts rep) (af_ts a r) of
             Inl e \<Rightarrow> Inl e
           | Inr t \<Rightarrow> report_lines a (Suc n) ls
               (rep\<lparr>fr_records := Suc (fr_records rep), fr_valid := Suc (fr_valid rep), fr_last_ts := t\<rparr>)
               (valid @ [af_norm a r])))"

text \<open>A file is missing or a list of lines.\<close>

definition jsonl_report :: "'r artifact \<Rightarrow> 'r line list option \<Rightarrow> (file_report \<times> 'r list) res" where
  "jsonl_report a f =
     (case f of
        None \<Rightarrow> Inr ((new_report False)\<lparr>fr_notes := [FileMissing]\<rparr>, [])
      | Some ls \<Rightarrow> report_lines a 1 ls (new_report True) [])"

text \<open>A JSON file, against the check of its model.\<close>

definition json_report :: "('a \<Rightarrow> bool) \<Rightarrow> 'a jfile \<Rightarrow> file_report" where
  "json_report valid f =
     (case f of
        Missing \<Rightarrow> (new_report False)\<lparr>fr_notes := [FileMissing]\<rparr>
      | Unreadable \<Rightarrow> (new_report True)\<lparr>fr_notes := [JsonUnreadable], fr_invalid := 1\<rparr>
      | Content c \<Rightarrow> (if valid c then (new_report True)\<lparr>fr_valid := 1\<rparr>
                      else (new_report True)\<lparr>fr_notes := [JsonInvalid], fr_invalid := 1\<rparr>))"

subsection \<open>Repair and compaction of one file\<close>

definition retention_max :: "'r artifact \<Rightarrow> world \<Rightarrow> int option" where
  "retention_max a w =
     (case af_retention a of
        None \<Rightarrow> None
      | Some (name, dflt) \<Rightarrow>
          (case py_int (getenv name (show_int dflt) w) of
             None \<Rightarrow> Some dflt
           | Some v \<Rightarrow> if 0 < v then Some v else None))"

fun keep_unseen :: "('r \<Rightarrow> string) \<Rightarrow> string list \<Rightarrow> 'r list \<Rightarrow> 'r list" where
  "keep_unseen key seen [] = []"
| "keep_unseen key seen (r # rs) =
     (if key r \<noteq> [] \<and> key r \<in> set seen then keep_unseen key seen rs
      else r # keep_unseen key (if key r \<noteq> [] then key r # seen else seen) rs)"

definition dedup_latest :: "('r \<Rightarrow> string) \<Rightarrow> 'r list \<Rightarrow> 'r list" where
  "dedup_latest key rows = rev (keep_unseen key [] (rev rows))"

definition compact_rows :: "'r artifact \<Rightarrow> world \<Rightarrow> 'r list \<Rightarrow> 'r list" where
  "compact_rows a w rows =
     (let compacted = (case af_id a of None \<Rightarrow> rows | Some key \<Rightarrow> dedup_latest key rows)
      in case retention_max a w of
           None \<Rightarrow> compacted
         | Some n \<Rightarrow> if n < int (length compacted) then last_n n compacted else compacted)"

text \<open>A file with its backups, by the second in their names.\<close>

type_synonym 'r backups = "(int \<times> 'r line list) list"

definition backup_stamp :: "world \<Rightarrow> int" where
  "backup_stamp w = w_now w div 1000000"

definition backup_and_replace :: "world \<Rightarrow> 'r list \<Rightarrow> 'r line list \<times> 'r backups \<Rightarrow> 'r line list \<times> 'r backups" where
  "backup_and_replace w rows fb = (write_rows rows, AList.update (backup_stamp w) (fst fb) (snd fb))"

definition doctor_file ::
  "'r artifact \<Rightarrow> bool \<Rightarrow> bool \<Rightarrow> world \<Rightarrow> 'r line list option \<times> 'r backups
     \<Rightarrow> file_report res \<times> ('r line list option \<times> 'r backups)" where
  "doctor_file a repair compact w fb =
     (case jsonl_report a (fst fb) of
        Inl e \<Rightarrow> (Inl e, fb)
      | Inr (rep, valid) \<Rightarrow>
          (case fst fb of
             None \<Rightarrow> (Inr rep, fb)
           | Some ls \<Rightarrow>
               let fb1 = (if repair \<and> 0 < fr_invalid rep then backup_and_replace w valid (ls, snd fb) else (ls, snd fb));
                   compacted = compact_rows a w valid;
                   fb2 = (if compact \<and> compacted \<noteq> valid then backup_and_replace w compacted fb1 else fb1);
                   changed = (repair \<and> 0 < fr_invalid rep \<or> compact \<and> compacted \<noteq> valid);
                   out = (Some (fst fb2), snd fb2)
               in if \<not> changed then (Inr rep, out)
                  else case jsonl_report a (Some (fst fb2)) of
                    Inl e \<Rightarrow> (Inl e, out)
                  | Inr (rep', _) \<Rightarrow> (Inr (rep'\<lparr>fr_notes := fr_notes rep' @ [Rewritten]\<rparr>), out)))"

subsection \<open>All files\<close>

text \<open>The state directory as the doctor sees it: files with their backups, and two JSON files.\<close>

type_synonym 'r jsonl_file = "'r line list option \<times> 'r backups"

record 'b disk =
  dk_semantic :: "semantic_fact jsonl_file"
  dk_episodic :: "episode jsonl_file"
  dk_approvals :: "approval jsonl_file"
  dk_rules :: "rule jsonl_file"
  dk_tasks :: "task_record jsonl_file"
  dk_executions :: "ledger_record jsonl_file"
  dk_breakers :: "'b jfile"
  dk_overrides :: "json jfile"

definition semantic_artifact :: "semantic_fact artifact" where
  "semantic_artifact = \<lparr>af_ts = (\<lambda>f. Some (sf_updated f)), af_norm = (\<lambda>f. f), af_id = None, af_retention = None\<rparr>"

definition episodic_artifact :: "episode artifact" where
  "episodic_artifact = \<lparr>af_ts = (\<lambda>e. Some (ep_ts e)), af_norm = (\<lambda>e. e), af_id = Some ep_id,
     af_retention = Some (''BENJAMIN_EPISODES_MAX'', 5000)\<rparr>"

definition approvals_artifact :: "approval artifact" where
  "approvals_artifact = \<lparr>af_ts = (\<lambda>r. Some (ap_created r)), af_norm = (\<lambda>r. r), af_id = None, af_retention = None\<rparr>"

definition rules_artifact :: "rule artifact" where
  "rules_artifact = \<lparr>af_ts = (\<lambda>r. Some (ru_updated r)), af_norm = migrate_legacy_state, af_id = None, af_retention = None\<rparr>"

definition tasks_artifact :: "task_record artifact" where
  "tasks_artifact = \<lparr>af_ts = (\<lambda>t. Some (tk_ts t)), af_norm = (\<lambda>t. t), af_id = Some tk_id,
     af_retention = Some (''BENJAMIN_TASKS_MAX'', 500)\<rparr>"

definition executions_artifact :: "ledger_record artifact" where
  "executions_artifact = \<lparr>af_ts = (\<lambda>r. Some (lr_ts r)), af_norm = (\<lambda>r. r), af_id = None,
     af_retention = Some (''BENJAMIN_LEDGER_MAX'', 5000)\<rparr>"

text \<open>The model of \<open>policy_overrides.json\<close>: two optional lists of strings.\<close>

definition string_list :: "json \<Rightarrow> bool" where
  "string_list j = (case j of JList xs \<Rightarrow> list_all (\<lambda>x. case x of JStr s \<Rightarrow> True | _ \<Rightarrow> False) xs | _ \<Rightarrow> False)"

definition overrides_valid :: "json \<Rightarrow> bool" where
  "overrides_valid j =
     (case j of
        JDict d \<Rightarrow> list_all (\<lambda>k. case map_of d k of None \<Rightarrow> True | Some v \<Rightarrow> string_list v)
                    [''scopes_enabled'', ''rules_allowed_scopes'']
      | _ \<Rightarrow> False)"

record doctor_report =
  dr_ok :: bool
  dr_files :: "(string \<times> bool \<times> file_report) list"
  dr_invalid :: nat
  dr_missing :: nat

definition critical_invalid :: "(string \<times> bool \<times> file_report) list \<Rightarrow> nat" where
  "critical_invalid fs = sum_list (map (\<lambda>(name, critical, r). if critical then fr_invalid r else 0) fs)"

definition summarise :: "(string \<times> bool \<times> file_report) list \<Rightarrow> doctor_report" where
  "summarise fs =
     \<lparr>dr_ok = (critical_invalid fs = 0), dr_files = fs, dr_invalid = sum_list (map (\<lambda>(n, c, r). fr_invalid r) fs),
      dr_missing = length (filter (\<lambda>(n, c, r). \<not> fr_exists r) fs)\<rparr>"

text \<open>One file after the other; an exception leaves the files before it as they are by then.\<close>

definition visit ::
  "string \<Rightarrow> 'r artifact \<Rightarrow> ('d \<Rightarrow> 'r jsonl_file) \<Rightarrow> ('r jsonl_file \<Rightarrow> 'd \<Rightarrow> 'd) \<Rightarrow> bool \<Rightarrow> bool \<Rightarrow> world
     \<Rightarrow> (string \<times> bool \<times> file_report) list res \<times> 'd \<Rightarrow> (string \<times> bool \<times> file_report) list res \<times> 'd" where
  "visit name a get put repair compact w st =
     (case st of
        (Inl e, d) \<Rightarrow> (Inl e, d)
      | (Inr fs, d) \<Rightarrow>
          (case doctor_file a repair compact w (get d) of
             (Inl e, f) \<Rightarrow> (Inl e, put f d)
           | (Inr r, f) \<Rightarrow> (Inr (fs @ [(name, True, r)]), put f d)))"

definition visit_stores :: "bool \<Rightarrow> bool \<Rightarrow> world \<Rightarrow> 'b disk \<Rightarrow> (string \<times> bool \<times> file_report) list res \<times> 'b disk" where
  "visit_stores repair compact w d =
     visit ''rules'' rules_artifact dk_rules (\<lambda>f. dk_rules_update (\<lambda>_. f)) repair compact w
     (visit ''approvals'' approvals_artifact dk_approvals (\<lambda>f. dk_approvals_update (\<lambda>_. f)) repair compact w
     (visit ''episodic'' episodic_artifact dk_episodic (\<lambda>f. dk_episodic_update (\<lambda>_. f)) repair compact w
     (visit ''semantic'' semantic_artifact dk_semantic (\<lambda>f. dk_semantic_update (\<lambda>_. f)) repair compact w
       (Inr [], d))))"

definition visit_all :: "bool \<Rightarrow> bool \<Rightarrow> world \<Rightarrow> 'b disk \<Rightarrow> (string \<times> bool \<times> file_report) list res \<times> 'b disk" where
  "visit_all repair compact w d =
     visit ''executions'' executions_artifact dk_executions (\<lambda>f. dk_executions_update (\<lambda>_. f)) repair compact w
     (visit ''tasks'' tasks_artifact dk_tasks (\<lambda>f. dk_tasks_update (\<lambda>_. f)) repair compact w
       (visit_stores repair compact w d))"

text \<open>\<open>breakers_valid\<close> is the check of the breaker file's model.\<close>

definition run_doctor :: "('b \<Rightarrow> bool) \<Rightarrow> bool \<Rightarrow> bool \<Rightarrow> world \<Rightarrow> 'b disk \<Rightarrow> doctor_report res \<times> 'b disk" where
  "run_doctor breakers_valid repair compact w d =
     (case visit_all repair compact w d of
        (Inl e, d') \<Rightarrow> (Inl e, d')
      | (Inr fs, d') \<Rightarrow>
          (Inr (summarise (fs @ [(''breakers'', False, json_report breakers_valid (dk_breakers d')),
                                 (''policy_overrides'', False, json_report overrides_valid (dk_overrides d'))])), d'))"

subsection \<open>What the doctor does to a file\<close>

fun is_invalid :: "'r line \<Rightarrow> bool" where
  "is_invalid (BadJson s) = True"
| "is_invalid (BadRecord j) = True"
| "is_invalid _ = False"

lemma load_Cons: "load_rows (l # ls) = row_of l @ load_rows ls"
  by (simp add: load_rows_def)

lemma report_lines_ok:
  "report_lines a n ls rep valid = Inr (rep', valid') \<Longrightarrow>
     valid' = valid @ map (af_norm a) (load_rows ls)
     \<and> fr_invalid rep' = fr_invalid rep + length (filter is_invalid ls)"
proof (induction ls arbitrary: n rep valid)
  case (Cons l ls)
  then show ?case
    by (cases l) (force simp: load_Cons add_invalid_def split: sum.splits)+
qed simp

lemma jsonl_report_ok:
  "jsonl_report a (Some ls) = Inr (rep, valid) \<Longrightarrow>
     valid = map (af_norm a) (load_rows ls) \<and> fr_invalid rep = length (filter is_invalid ls)"
  using report_lines_ok [of a 1 ls "new_report True" "[]" rep valid] by (simp add: jsonl_report_def new_report_def)

lemma written_valid: "filter is_invalid (write_rows rows) = []"
  by (simp add: write_rows_def)

lemma doctor_file_readonly: "snd (doctor_file a False False w fb) = fb"
  by (cases fb) (auto simp: doctor_file_def Let_def split: sum.split prod.split option.split)

lemma doctor_file_repaired:
  assumes "doctor_file a True compact w fb = (Inr rep, fb')"
  shows "fr_invalid rep = 0"
proof (cases "fst fb")
  case None
  then show ?thesis using assms
    by (auto simp: doctor_file_def jsonl_report_def new_report_def)
next
  case (Some ls)
  then obtain rep0 valid where r: "jsonl_report a (Some ls) = Inr (rep0, valid)"
    using assms by (auto simp: doctor_file_def split: sum.splits)
  show ?thesis
    using assms Some r jsonl_report_ok [OF r]
    by (auto simp: doctor_file_def backup_and_replace_def Let_def written_valid
        split: if_splits sum.splits dest!: jsonl_report_ok)
qed

lemma doctor_file_repair_keeps:
  assumes "doctor_file a True False w (Some ls, b) = (Inr rep, fb')"
  shows "fb' = (if filter is_invalid ls = [] then (Some ls, b)
     else (Some (write_rows (map (af_norm a) (load_rows ls))), AList.update (backup_stamp w) ls b))"
proof -
  obtain rep0 valid where r: "jsonl_report a (Some ls) = Inr (rep0, valid)"
    using assms by (auto simp: doctor_file_def split: sum.splits)
  show ?thesis using assms r jsonl_report_ok [OF r]
    by (auto simp: doctor_file_def backup_and_replace_def Let_def split: if_splits sum.splits)
qed

subsection \<open>What the doctor does to the directory\<close>

lemma visit_readonly:
  "put (get (snd st)) (snd st) = snd st \<Longrightarrow> snd (visit name a get put False False w st) = snd st"
  using doctor_file_readonly [of a w "get (snd st)"]
  by (cases st; cases "doctor_file a False False w (get (snd st))") (auto simp: visit_def split: sum.split)

definition clean :: "(string \<times> bool \<times> file_report) list res \<times> 'd \<Rightarrow> bool" where
  "clean st = (case fst st of Inl e \<Rightarrow> True | Inr fs \<Rightarrow> critical_invalid fs = 0)"

lemma critical_invalid_snoc: "critical_invalid (fs @ [(n, c, r)]) = critical_invalid fs + (if c then fr_invalid r else 0)"
  by (simp add: critical_invalid_def)

lemma visit_clean: "clean st \<Longrightarrow> clean (visit name a get put True compact w st)"
  by (auto simp: clean_def visit_def critical_invalid_snoc split: sum.splits prod.splits dest: doctor_file_repaired)

lemma visit_all_clean: "clean (visit_all True compact w d)"
  unfolding visit_all_def visit_stores_def
  by (intro visit_clean) (simp add: clean_def critical_invalid_def)

lemma visitE:
  assumes "visit name a get put repair compact w st = (Inr fs', d')"
  obtains fs d r f where "st = (Inr fs, d)" and "doctor_file a repair compact w (get d) = (Inr r, f)"
    and "d' = put f d" and "fs' = fs @ [(name, True, r)]"
  using assms by (auto simp: visit_def split: sum.splits prod.splits)

text \<open>
  Without repair and compaction the doctor changes no file, whatever it finds.
\<close>

theorem doctor_validate_is_read_only: "snd (run_doctor breakers_valid False False w d) = d"
proof -
  have "snd (visit_all False False w d) = d"
    unfolding visit_all_def visit_stores_def by (simp add: visit_readonly)
  then show ?thesis
    by (cases "visit_all False False w d") (auto simp: run_doctor_def split: sum.split)
qed

text \<open>What a repair should leave of a file: itself, or its valid records, in order, with the old content as a backup.\<close>

definition repaired :: "('r \<Rightarrow> 'r) \<Rightarrow> world \<Rightarrow> 'r jsonl_file \<Rightarrow> 'r jsonl_file" where
  "repaired norm w f =
     (case f of
        (None, b) \<Rightarrow> (None, b)
      | (Some ls, b) \<Rightarrow>
          (if filter is_invalid ls = [] then (Some ls, b)
           else (Some (map (\<lambda>r. Row (norm r)) (load_rows ls)), AList.update (backup_stamp w) ls b)))"

lemma doctor_file_repaired_file:
  assumes "doctor_file a True False w f = (Inr rep, f')"
  shows "f' = repaired (af_norm a) w f"
proof (cases f)
  case (Pair ls b)
  show ?thesis
  proof (cases ls)
    case None
    with assms Pair show ?thesis by (auto simp: doctor_file_def repaired_def jsonl_report_def)
  next
    case (Some xs)
    with assms Pair doctor_file_repair_keeps [of a w xs b rep f'] show ?thesis
      by (simp add: repaired_def write_rows_def comp_def)
  qed
qed

lemma visit_repaired:
  assumes "visit name a get put True False w st = (Inr fs', d')"
  obtains fs d r where "st = (Inr fs, d)" and "d' = put (repaired (af_norm a) w (get d)) d" and "fs' = fs @ [(name, True, r)]"
proof (rule visitE [OF assms])
  fix fs d r f
  assume a: "st = (Inr fs, d)" "doctor_file a True False w (get d) = (Inr r, f)" "d' = put f d" "fs' = fs @ [(name, True, r)]"
  show thesis by (rule that [OF a(1) _ a(4)]) (simp add: a(3) doctor_file_repaired_file [OF a(2)])
qed

text \<open>
  C39. A repair that completes leaves the report ok and each of the six critical files repaired:
  a file that is missing, or has no invalid line, is as it was; any other holds exactly its
  valid records, in order (those of the rules migrated, as its reader does), and its old
  content is the backup of that second. The other two files are as they were. The report
  names the eight files.
\<close>

theorem doctor_repairs:
  assumes "run_doctor breakers_valid True False w d = (Inr rep, d')"
  shows "dr_ok rep
    \<and> d' = \<lparr>dk_semantic = repaired (\<lambda>f. f) w (dk_semantic d), dk_episodic = repaired (\<lambda>e. e) w (dk_episodic d),
            dk_approvals = repaired (\<lambda>r. r) w (dk_approvals d), dk_rules = repaired migrate_legacy_state w (dk_rules d),
            dk_tasks = repaired (\<lambda>t. t) w (dk_tasks d), dk_executions = repaired (\<lambda>r. r) w (dk_executions d),
            dk_breakers = dk_breakers d, dk_overrides = dk_overrides d\<rparr>
    \<and> map fst (dr_files rep) = [''semantic'', ''episodic'', ''approvals'', ''rules'', ''tasks'', ''executions'', ''breakers'', ''policy_overrides'']"
proof -
  obtain fs where v: "visit_all True False w d = (Inr fs, d')"
    and rep: "rep = summarise (fs @ [(''breakers'', False, json_report breakers_valid (dk_breakers d')),
                                 (''policy_overrides'', False, json_report overrides_valid (dk_overrides d'))])"
    using assms by (auto simp: run_doctor_def split: sum.splits prod.splits)
  have "critical_invalid fs = 0"
    using v visit_all_clean [of False w d] by (simp add: clean_def)
  then have ok: "dr_ok rep" by (simp add: rep summarise_def critical_invalid_def)
  from v show ?thesis using ok unfolding visit_all_def visit_stores_def rep
    by (elim visit_repaired)
      (simp add: summarise_def semantic_artifact_def episodic_artifact_def approvals_artifact_def rules_artifact_def
        tasks_artifact_def executions_artifact_def)
qed

definition demo_task :: task_record where
  "demo_task = \<lparr>tk_id = ''t1'', tk_ts = Iso (Aware 5), tk_source = ''chat'', tk_message = ''m'',
     tk_plan = \<lparr>pl_goal = ''m'', pl_steps = []\<rparr>, tk_results = [], tk_approvals = [], tk_answer = ''a'', tk_trace = [],
     tk_corr = ''c''\<rparr>"

definition demo_disk :: "unit disk" where
  "demo_disk = \<lparr>dk_semantic = (None, []), dk_episodic = (None, []), dk_approvals = (None, []), dk_rules = (None, []),
     dk_tasks = (Some [BadJson ''{'', Row demo_task, BadJson ''?'', Row demo_task], []), dk_executions = (None, []),
     dk_breakers = Missing, dk_overrides = Missing\<rparr>"

theorem doctor_repairs_witness:
  "case run_doctor (\<lambda>_. True) True False (empty_world 0) demo_disk of
     (Inr rep, d') \<Rightarrow> dr_ok rep \<and> fst (dk_tasks d') = Some [Row demo_task, Row demo_task] \<and> map fst (snd (dk_tasks d')) = [0]
   | _ \<Rightarrow> False"
proof -
  obtain out d' where r: "run_doctor (\<lambda>_. True) True False (empty_world 0) demo_disk = (out, d')" by fastforce
  have "case fst (run_doctor (\<lambda>_. True) True False (empty_world 0) demo_disk) of Inr rep \<Rightarrow> True | Inl e \<Rightarrow> False"
    by code_simp
  then obtain rep where out: "out = Inr rep" using r by (cases out) auto
  from doctor_repairs [OF r [unfolded out]] r out
  show ?thesis by (simp add: demo_disk_def repaired_def load_rows_def backup_stamp_def empty_world_def)
qed

subsection \<open>Compaction\<close>

lemma keep_unseen_set: "set (keep_unseen key seen rows) \<subseteq> set rows"
  by (induction key seen rows rule: keep_unseen.induct) auto

lemma keep_unseen_find:
  "k \<noteq> [] \<Longrightarrow> k \<notin> set seen \<Longrightarrow>
   find (\<lambda>r. key r = k) (keep_unseen key seen rows) = find (\<lambda>r. key r = k) rows"
  by (induction key seen rows rule: keep_unseen.induct) auto

lemma keep_unseen_distinct:
  "distinct (filter (\<lambda>k. k \<noteq> []) (map key (keep_unseen key seen rows)))
   \<and> (\<forall>r\<in>set (keep_unseen key seen rows). key r \<noteq> [] \<longrightarrow> key r \<notin> set seen)"
  by (induction key seen rows rule: keep_unseen.induct) auto

text \<open>
  Compaction by identifier keeps, of all records with the same identifier, exactly the
  latest one, in the old order; records without identifier stay; and the retention bounds
  what is left.
\<close>

theorem compaction_keeps_latest:
  "distinct (filter (\<lambda>k. k \<noteq> []) (map key (dedup_latest key rows)))
   \<and> list_all (\<lambda>k. k = [] \<or> find (\<lambda>r. key r = k) (rev (dedup_latest key rows)) = find (\<lambda>r. key r = k) (rev rows)) ks
   \<and> (case retention_max a w of None \<Rightarrow> True | Some n \<Rightarrow> int (length (compact_rows a w rows')) \<le> max 0 n)"
proof -
  have "distinct (filter (\<lambda>k. k \<noteq> []) (map key (dedup_latest key rows)))"
    using keep_unseen_distinct [of key "[]" "rev rows"]
    by (simp add: dedup_latest_def rev_map [symmetric] rev_filter [symmetric])
  moreover have "k \<noteq> [] \<Longrightarrow> find (\<lambda>r. key r = k) (rev (dedup_latest key rows)) = find (\<lambda>r. key r = k) (rev rows)" for k
    by (simp add: dedup_latest_def keep_unseen_find)
  moreover have "case retention_max a w of None \<Rightarrow> True | Some n \<Rightarrow> int (length (compact_rows a w rows')) \<le> max 0 n"
    by (auto simp: compact_rows_def Let_def split: option.split)
  ultimately show ?thesis by (auto simp: list_all_iff)
qed

subsection \<open>The backup of a repair is overwritten by the compaction\<close>

text \<open>
  Repairing and compacting in one run writes two backups under the same name: when both
  rewrite a file, the copy of the file as it was, with its invalid lines, is lost.
\<close>

theorem backup_of_repair_lost:
  assumes "jsonl_report a (Some ls) = Inr (rep, valid)" and "filter is_invalid ls \<noteq> []"
    and "compact_rows a w valid \<noteq> valid"
  shows "map_of (snd (snd (doctor_file a True True w (Some ls, b)))) (backup_stamp w) = Some (write_rows valid)
    \<and> fst (snd (doctor_file a True True w (Some ls, b))) = Some (write_rows (compact_rows a w valid))"
proof -
  have "0 < fr_invalid rep" using jsonl_report_ok [OF assms(1)] assms(2) by simp
  then show ?thesis using assms(1,3)
    by (auto simp: doctor_file_def backup_and_replace_def Let_def update_conv' split: sum.split)
qed

theorem backup_of_repair_lost_witness:
  "map_of (snd (snd (doctor_file tasks_artifact True True (empty_world 0)
      (Some [BadJson ''{'', Row demo_task, Row demo_task], [])))) 0
     = Some (write_rows [demo_task, demo_task])"
proof -
  have r: "jsonl_report tasks_artifact (Some [BadJson ''{'', Row demo_task, Row demo_task])
      = Inr (\<lparr>fr_exists = True, fr_records = 3, fr_valid = 2, fr_invalid = 1, fr_last_ts = Some (Iso (Aware 5)),
              fr_notes = [LineNoJson 1]\<rparr>, [demo_task, demo_task])"
    by code_simp
  have "length (compact_rows tasks_artifact (empty_world 0) [demo_task, demo_task]) = 1" by code_simp
  then have "compact_rows tasks_artifact (empty_world 0) [demo_task, demo_task] \<noteq> [demo_task, demo_task]" by auto
  with backup_of_repair_lost [OF r, of "empty_world 0" "[]"] show ?thesis
    by (simp add: backup_stamp_def empty_world_def)
qed

end
