(* ===== verification/Maintenance.thy ===== *)
theory Maintenance
  imports Doctor RuleEngine Breaker
begin

section \<open>Maintenance jobs\<close>

text \<open>
  \<open>core/ops/maintenance.py\<close>: the daily validation and the weekly compaction run the doctor,
  store what they found in \<open>maintenance.json\<close>, record an episode, and notify when there is
  something to tell. The files live on the \<open>disk\<close> of the doctor; the size of a file in bytes
  (\<open>st_size\<close>), the JSON of a report (\<open>model_dump\<close>, with its sizes) and the snapshot of the
  breakers are parameters.
\<close>

subsection \<open>The status file\<close>

definition default_job_status :: "json dict" where
  "default_job_status =
     [(''last_run_iso'', JNull), (''ok'', JNull), (''summary'', JDict []), (''details'', JDict []), (''correlation_id'', JNull)]"

definition default_maintenance_status :: "json dict dict" where
  "default_maintenance_status = [(''doctor_validate'', default_job_status), (''weekly_compact'', default_job_status)]"

definition load_maintenance_status :: "json jfile \<Rightarrow> json dict dict" where
  "load_maintenance_status f =
     (case f of
        Content (JDict loaded) \<Rightarrow>
          map (\<lambda>(key, status). (key, case map_of loaded key of Some (JDict v) \<Rightarrow> dict_update status v | _ \<Rightarrow> status))
            default_maintenance_status
      | _ \<Rightarrow> default_maintenance_status)"

definition save_maintenance_status :: "json dict dict \<Rightarrow> json jfile" where
  "save_maintenance_status status = Content (JDict (map (\<lambda>(k, d). (k, JDict d)) status))"

record maint_state =
  ms_disk :: "payload dict disk"
  ms_status :: "json jfile"

definition update_job_status ::
  "string \<Rightarrow> bool \<Rightarrow> json dict \<Rightarrow> json dict \<Rightarrow> string \<Rightarrow> world \<Rightarrow> maint_state \<Rightarrow> maint_state" where
  "update_job_status job ok summary details corr w ms =
     ms\<lparr>ms_status := save_maintenance_status
          (AList.update job
             [(''last_run_iso'', JStr (iso_text (w_now w))), (''ok'', JBool ok), (''summary'', JDict summary),
              (''details'', JDict details), (''correlation_id'', JStr corr)]
             (load_maintenance_status (ms_status ms)))\<rparr>"

subsection \<open>Episodes and notifications\<close>

definition notify_enabled_on_ok :: "world \<Rightarrow> bool" where
  "notify_enabled_on_ok w \<longleftrightarrow> casefold (strip (getenv ''BENJAMIN_MAINTENANCE_NOTIFY_ON_OK'' ''off'' w)) = ''on''"

definition file_lines :: "'r jsonl_file \<Rightarrow> 'r line list" where
  "file_lines f = (case fst f of None \<Rightarrow> [] | Some ls \<Rightarrow> ls)"

text \<open>The episode is appended to the file on the disk, which exists from then on.\<close>

definition write_episode ::
  "string \<Rightarrow> bool \<Rightarrow> json dict \<Rightarrow> string \<Rightarrow> world \<Rightarrow> maint_state \<Rightarrow> world \<times> maint_state" where
  "write_episode job ok summary corr w ms =
     (let w1 = log_episode ''maintenance'' (''Maintenance '' @ job @ '' '' @ (if ok then ''ok'' else ''issue''))
                 [(''job'', JStr job), (''ok'', JBool ok), (''summary'', JDict summary), (''correlation_id'', JStr corr)]
                 (w\<lparr>w_episodic := file_lines (dk_episodic (ms_disk ms))\<rparr>)
      in (w1, ms\<lparr>ms_disk := (ms_disk ms)\<lparr>dk_episodic := (Some (w_episodic w1), snd (dk_episodic (ms_disk ms)))\<rparr>\<rparr>))"

definition tell :: "(world \<Rightarrow> unit res \<times> world) \<Rightarrow> bool \<Rightarrow> world \<Rightarrow> unit res \<times> world" where
  "tell send_it due w = (if due then send_it w else (Inr (), w))"

subsection \<open>Validation\<close>

definition CRITICAL_FILES :: "string list" where
  "CRITICAL_FILES = [''tasks'', ''episodic'', ''executions'', ''rules'', ''approvals'', ''semantic'']"

definition critical_lines :: "doctor_report \<Rightarrow> nat" where
  "critical_lines rep =
     sum_list (map (\<lambda>(name, c, r). if name \<in> set CRITICAL_FILES then fr_invalid r else 0) (dr_files rep))"

definition validate_summary :: "doctor_report \<Rightarrow> json dict" where
  "validate_summary rep =
     [(''invalid_lines'', JInt (int (dr_invalid rep))), (''missing'', JInt (int (dr_missing rep))),
      (''critical_invalid_lines'', JInt (int (critical_lines rep))), (''total_files'', JInt (int (length (dr_files rep))))]"

definition validate_body :: "string \<Rightarrow> doctor_report \<Rightarrow> string" where
  "validate_body severity rep =
     ''job=doctor_validate status='' @ severity @ '' invalid_lines='' @ show_nat (dr_invalid rep)
     @ '' critical_invalid_lines='' @ show_nat (critical_lines rep) @ '' missing='' @ show_nat (dr_missing rep)
     @ '' See /ui/doctor and /ui/ops''"

definition run_doctor_validate ::
  "(payload dict \<Rightarrow> bool) \<Rightarrow> (doctor_report \<Rightarrow> json) \<Rightarrow> json \<Rightarrow> notifier \<Rightarrow> bool option \<Rightarrow> maint_state \<Rightarrow> world
     \<Rightarrow> doctor_report res \<times> maint_state \<times> world" where
  "run_doctor_validate breakers_valid dump breakers notify safe_snapshot ms w0 =
     (let (corr, w) = uuid4 w0
      in case run_doctor breakers_valid False False w (ms_disk ms) of
           (Inl e, d) \<Rightarrow> (Inl e, ms\<lparr>ms_disk := d\<rparr>, w)
         | (Inr rep, d) \<Rightarrow>
             (let safe = (case safe_snapshot of None \<Rightarrow> is_safe_mode_enabled w | Some b \<Rightarrow> b);
                  details = [(''report'', dump rep), (''safe_mode_enabled'', JBool safe), (''breakers'', breakers)];
                  ok = (dr_ok rep \<and> critical_lines rep = 0);
                  ms1 = update_job_status ''doctor_validate'' ok (validate_summary rep) details corr w (ms\<lparr>ms_disk := d\<rparr>);
                  (w1, ms2) = write_episode ''doctor_validate'' ok (validate_summary rep) corr w ms1;
                  severity = (if ok then ''ok'' else ''critical'')
              in case tell (notify (''Maintenance: Doctor Validate ('' @ severity @ '')'') (validate_body severity rep)
                         [(''correlation_id'', JStr corr), (''job'', JStr ''doctor_validate''), (''ok'', JBool ok)])
                        (\<not> ok \<or> notify_enabled_on_ok w1) w1 of
                   (Inl e, w2) \<Rightarrow> (Inl e, ms2, w2)
                 | (Inr _, w2) \<Rightarrow> (Inr rep, ms2, w2)))"

subsection \<open>Compaction\<close>

text \<open>Lines that are not blank.\<close>

definition line_count :: "'r jsonl_file \<Rightarrow> nat" where
  "line_count f = length (filter (\<lambda>l. case l of BlankLine \<Rightarrow> False | _ \<Rightarrow> True) (file_lines f))"

definition tracked :: "payload dict disk \<Rightarrow> nat list" where
  "tracked d = [line_count (dk_tasks d), line_count (dk_episodic d), line_count (dk_executions d)]"

definition TRACKED_FILES :: "string list" where
  "TRACKED_FILES = [''tasks'', ''episodic'', ''executions'']"

definition compact_entry :: "nat \<Rightarrow> nat \<Rightarrow> nat \<Rightarrow> nat \<Rightarrow> json" where
  "compact_entry lines0 lines1 bytes0 bytes1 =
     JDict [(''lines_before'', JInt (int lines0)), (''lines_after'', JInt (int lines1)), (''trimmed'', JInt (int (lines0 - lines1))),
            (''bytes_before'', JInt (int bytes0)), (''bytes_after'', JInt (int bytes1)), (''bytes_saved'', JInt (int (bytes0 - bytes1)))]"

definition decrease :: "nat list \<Rightarrow> nat list \<Rightarrow> nat" where
  \<comment> \<open>the sum of \<open>max(0, before - after)\<close>\<close>
  "decrease before after = sum_list (map (\<lambda>(a, b). a - b) (zip before after))"

definition compact_files ::
  "(string \<Rightarrow> payload dict disk \<Rightarrow> nat) \<Rightarrow> payload dict disk \<Rightarrow> payload dict disk \<Rightarrow> json dict" where
  "compact_files st_size d d' =
     map (\<lambda>(name, a, b). (name, compact_entry a b (st_size name d) (st_size name d')))
       (zip TRACKED_FILES (zip (tracked d) (tracked d')))"

definition compact_summary ::
  "(string \<Rightarrow> payload dict disk \<Rightarrow> nat) \<Rightarrow> payload dict disk \<Rightarrow> payload dict disk \<Rightarrow> nat \<times> nat \<times> json dict" where
  "compact_summary st_size d d' =
     (let trimmed = decrease (tracked d) (tracked d');
          saved = decrease (map (\<lambda>n. st_size n d) TRACKED_FILES) (map (\<lambda>n. st_size n d') TRACKED_FILES)
      in (trimmed, saved,
          [(''trimmed_total'', JInt (int trimmed)), (''bytes_saved_total'', JInt (int saved)),
           (''files'', JDict (compact_files st_size d d'))]))"

definition compact_body :: "nat \<Rightarrow> nat \<Rightarrow> string" where
  "compact_body trimmed saved =
     ''job=weekly_compact status=ok trimmed='' @ show_nat trimmed @ '' bytes_saved='' @ show_nat saved @ '' See /ui/ops''"

definition run_weekly_compact ::
  "(payload dict \<Rightarrow> bool) \<Rightarrow> (string \<Rightarrow> payload dict disk \<Rightarrow> nat) \<Rightarrow> notifier \<Rightarrow> maint_state \<Rightarrow> world
     \<Rightarrow> json dict res \<times> maint_state \<times> world" where
  "run_weekly_compact breakers_valid st_size notify ms w0 =
     (let (corr, w) = uuid4 w0
      in case run_doctor breakers_valid False True w (ms_disk ms) of
           (Inl e, d) \<Rightarrow> (Inl e, ms\<lparr>ms_disk := d\<rparr>, w)
         | (Inr rep, d) \<Rightarrow>
             (let (trimmed, saved, summary) = compact_summary st_size (ms_disk ms) d;
                  ms1 = update_job_status ''weekly_compact'' True summary
                          [(''files'', JDict (compact_files st_size (ms_disk ms) d))] corr w (ms\<lparr>ms_disk := d\<rparr>);
                  (w1, ms2) = write_episode ''weekly_compact'' True summary corr w ms1
              in case tell (notify ''Maintenance: Weekly Compact'' (compact_body trimmed saved)
                         [(''correlation_id'', JStr corr), (''job'', JStr ''weekly_compact''), (''ok'', JBool True)])
                        (0 < trimmed \<or> 0 < saved \<or> notify_enabled_on_ok w1) w1 of
                   (Inl e, w2) \<Rightarrow> (Inl e, ms2, w2)
                 | (Inr _, w2) \<Rightarrow>
                     (Inr [(''ok'', JBool True), (''summary'', JDict summary), (''correlation_id'', JStr corr)], ms2, w2)))"

subsection \<open>What the status file remembers\<close>

definition job_status :: "string \<Rightarrow> json jfile \<Rightarrow> json dict" where
  "job_status job f = (case map_of (load_maintenance_status f) job of None \<Rightarrow> [] | Some d \<Rightarrow> d)"

definition JOBS :: "string list" where
  "JOBS = [''doctor_validate'', ''weekly_compact'']"

lemma load_keys: "map fst (load_maintenance_status f) = JOBS"
  by (auto simp: load_maintenance_status_def default_maintenance_status_def JOBS_def split: jfile.split json.split)

lemma job_status_cases:
  "job \<in> set JOBS \<Longrightarrow> map_of (load_maintenance_status f) job = Some (job_status job f)"
  using load_keys [of f] by (auto simp: job_status_def map_of_eq_None_iff split: option.split dest: arg_cong [of _ _ set])

lemma distinct_dict_update: "distinct (map fst d) \<Longrightarrow> distinct (map fst (dict_update d u))"
  unfolding dict_update_def by (induction u arbitrary: d) (auto simp: distinct_update)

lemma map_of_rev_distinct: "distinct (map fst xs) \<Longrightarrow> map_of (rev xs) = map_of xs"
  by (rule map_of_inject_set [THEN iffD2]) (simp_all add: rev_map [symmetric])

lemma job_status_shape:
  assumes "job \<in> set JOBS"
  obtains "job_status job f = default_job_status" | u where "job_status job f = dict_update default_job_status u"
proof (cases "\<exists>d u. f = Content (JDict d) \<and> map_of d job = Some (JDict u)")
  case True
  then obtain d u where "f = Content (JDict d)" "map_of d job = Some (JDict u)" by blast
  then have "job_status job f = dict_update default_job_status u"
    using assms by (auto simp: JOBS_def job_status_def load_maintenance_status_def default_maintenance_status_def)
  then show ?thesis by (rule that(2))
next
  case False
  then have "job_status job f = default_job_status"
    using assms by (cases f)
      (auto simp: JOBS_def job_status_def load_maintenance_status_def default_maintenance_status_def
        split: json.splits option.splits)
  then show ?thesis by (rule that(1))
qed

lemma distinct_job_status: "job \<in> set JOBS \<Longrightarrow> distinct (map fst (job_status job f))"
  by (erule job_status_shape [where f = f]) (simp_all add: distinct_dict_update default_job_status_def)

lemma job_status_saved:
  assumes "job \<in> set JOBS" "map_of status job = Some d" "distinct (map fst d)" "distinct (map fst status)"
  shows "map_of (job_status job (save_maintenance_status status)) k
     = (case map_of d k of None \<Rightarrow> map_of default_job_status k | Some v \<Rightarrow> Some v)"
proof -
  have "map_of (map (\<lambda>(k, d). (k, JDict d)) status) job = Some (JDict d)"
    using assms(2) by (simp add: map_of_map)
  then show ?thesis
    using assms(1,3)
    by (auto simp: job_status_def save_maintenance_status_def load_maintenance_status_def default_maintenance_status_def
        JOBS_def map_of_dict_update map_of_rev_distinct)
qed

lemma job_status_default:
  "job \<in> set JOBS \<Longrightarrow> map_of (job_status job f) k = None \<Longrightarrow> map_of default_job_status k = None"
  by (erule job_status_shape [where f = f]) (auto simp: map_of_dict_update split: option.splits)

lemma update_status_fields:
  assumes "job \<in> set JOBS" "other \<in> set JOBS" "other \<noteq> job"
  shows "map_of (job_status job (ms_status (update_job_status job ok summary details corr w ms))) k'
       = map_of [(''last_run_iso'', JStr (iso_text (w_now w))), (''ok'', JBool ok), (''summary'', JDict summary),
                 (''details'', JDict details), (''correlation_id'', JStr corr)] k'"
    and "map_of (job_status other (ms_status (update_job_status job ok summary details corr w ms))) k
       = map_of (job_status other (ms_status ms)) k"
proof -
  let ?new = "[(''last_run_iso'', JStr (iso_text (w_now w))), (''ok'', JBool ok), (''summary'', JDict summary),
              (''details'', JDict details), (''correlation_id'', JStr corr)]"
  let ?f = "ms_status (update_job_status job ok summary details corr w ms)"
  let ?status = "AList.update job ?new (load_maintenance_status (ms_status ms))"
  have f: "?f = save_maintenance_status ?status" by (simp add: update_job_status_def)
  have d: "distinct (map fst ?status)" using load_keys [of "ms_status ms"] by (simp add: distinct_update JOBS_def)
  have "map_of (job_status job ?f) k' = (case map_of ?new k' of None \<Rightarrow> map_of default_job_status k' | Some v \<Rightarrow> Some v)"
    unfolding f using assms(1) d by (intro job_status_saved) (simp_all add: update_conv')
  then show "map_of (job_status job ?f) k' = map_of ?new k'" by (simp add: default_job_status_def)
  show "map_of (job_status other ?f) k = map_of (job_status other (ms_status ms)) k"
    unfolding f using assms(2,3) d distinct_job_status [OF assms(2)] job_status_default [OF assms(2)]
    by (subst job_status_saved [of other _ "job_status other (ms_status ms)"])
      (auto simp: update_conv' job_status_cases split: option.split)
qed

subsection \<open>Validation changes nothing but its records\<close>

definition name_flags :: "(string \<times> bool \<times> file_report) list \<Rightarrow> (string \<times> bool) list" where
  "name_flags fs = map (\<lambda>(n, c, r). (n, c)) fs"

lemma name_flags_append [simp]:
  "name_flags (fs @ gs) = name_flags fs @ name_flags gs" "name_flags [] = []" "name_flags ((n, c, r) # fs) = (n, c) # name_flags fs"
  by (simp_all add: name_flags_def)

lemma visit_names:
  assumes "visit name a get put repair compact w st = (Inr fs', d')"
  shows "\<exists>fs d. st = (Inr fs, d) \<and> name_flags fs' = name_flags fs @ [(name, True)]"
  using assms by (rule visitE) simp

lemma visit_stores_names:
  assumes "visit_stores repair compact w d = (Inr fs, d')"
  shows "name_flags fs = [(''semantic'', True), (''episodic'', True), (''approvals'', True), (''rules'', True)]"
proof -
  from visit_names [OF assms [unfolded visit_stores_def]] obtain fs3 d3
    where 4: "visit ''approvals'' approvals_artifact dk_approvals (\<lambda>f. dk_approvals_update (\<lambda>_. f)) repair compact w
     (visit ''episodic'' episodic_artifact dk_episodic (\<lambda>f. dk_episodic_update (\<lambda>_. f)) repair compact w
     (visit ''semantic'' semantic_artifact dk_semantic (\<lambda>f. dk_semantic_update (\<lambda>_. f)) repair compact w (Inr [], d))) = (Inr fs3, d3)"
      "name_flags fs = name_flags fs3 @ [(''rules'', True)]" by blast
  from visit_names [OF 4(1)] obtain fs2 d2
    where 3: "visit ''episodic'' episodic_artifact dk_episodic (\<lambda>f. dk_episodic_update (\<lambda>_. f)) repair compact w
     (visit ''semantic'' semantic_artifact dk_semantic (\<lambda>f. dk_semantic_update (\<lambda>_. f)) repair compact w (Inr [], d)) = (Inr fs2, d2)"
      "name_flags fs3 = name_flags fs2 @ [(''approvals'', True)]" by blast
  from visit_names [OF 3(1)] obtain fs1 d1
    where 2: "visit ''semantic'' semantic_artifact dk_semantic (\<lambda>f. dk_semantic_update (\<lambda>_. f)) repair compact w (Inr [], d) = (Inr fs1, d1)"
      "name_flags fs2 = name_flags fs1 @ [(''episodic'', True)]" by blast
  from visit_names [OF 2(1)] have "name_flags fs1 = [(''semantic'', True)]" by auto
  with 2(2) 3(2) 4(2) show ?thesis by simp
qed

lemma doctor_names:
  assumes "run_doctor bv repair compact w d = (Inr rep, d')"
  shows "name_flags (dr_files rep) =
    [(''semantic'', True), (''episodic'', True), (''approvals'', True), (''rules'', True), (''tasks'', True),
     (''executions'', True), (''breakers'', False), (''policy_overrides'', False)]"
proof -
  obtain fs d1 where v: "visit_all repair compact w d = (Inr fs, d1)"
    and rep: "dr_files rep = fs @ [(''breakers'', False, json_report bv (dk_breakers d1)),
        (''policy_overrides'', False, json_report overrides_valid (dk_overrides d1))]"
    using assms by (auto simp: run_doctor_def summarise_def split: sum.splits prod.splits)
  from visit_names [OF v [unfolded visit_all_def]] obtain fs2 d2
    where 2: "visit ''tasks'' tasks_artifact dk_tasks (\<lambda>f. dk_tasks_update (\<lambda>_. f)) repair compact w
       (visit_stores repair compact w d) = (Inr fs2, d2)" "name_flags fs = name_flags fs2 @ [(''executions'', True)]" by blast
  from visit_names [OF 2(1)] obtain fs3 d3
    where 3: "visit_stores repair compact w d = (Inr fs3, d3)" "name_flags fs2 = name_flags fs3 @ [(''tasks'', True)]" by blast
  from visit_stores_names [OF 3(1)] 2(2) 3(2) show ?thesis unfolding rep by simp
qed

lemma critical_by_name:
  "list_all (\<lambda>(n, c). c = (n \<in> set CRITICAL_FILES)) (name_flags fs) \<Longrightarrow>
   sum_list (map (\<lambda>(name, c, r). if name \<in> set CRITICAL_FILES then fr_invalid r else 0) fs) = critical_invalid fs"
  by (induction fs) (auto simp: critical_invalid_def split: prod.splits)

lemma doctor_ok_critical:
  assumes "run_doctor bv repair compact w d = (Inr rep, d')"
  shows "dr_ok rep = (critical_lines rep = 0)"
proof -
  obtain fs where rep: "rep = summarise fs" using assms by (auto simp: run_doctor_def split: sum.splits prod.splits)
  have "list_all (\<lambda>(n, c). c = (n \<in> set CRITICAL_FILES)) (name_flags (dr_files rep))"
    unfolding doctor_names [OF assms] by (simp add: CRITICAL_FILES_def)
  from critical_by_name [OF this] show ?thesis by (simp add: rep summarise_def critical_lines_def)
qed

lemma write_episode_appends:
  assumes "write_episode job ok summary corr w ms = (w1, ms')"
  shows "\<exists>ep. ep_kind ep = ''maintenance'' \<and> ms_disk ms' = (ms_disk ms)\<lparr>dk_episodic :=
      (Some (file_lines (dk_episodic (ms_disk ms)) @ [Row ep]), snd (dk_episodic (ms_disk ms)))\<rparr>"
proof -
  have "\<exists>ep. w_episodic w1 = file_lines (dk_episodic (ms_disk ms)) @ [Row ep] \<and> ep_kind ep = ''maintenance''"
    using assms by (auto simp: write_episode_def Let_def log_episode_eq)
  then show ?thesis using assms by (auto simp: write_episode_def Let_def)
qed

text \<open>
  The nightly validation changes nothing but its own records: the episodes file gains one
  line, the status entry of the validation says whether the critical files are without invalid
  lines, the entry of the compaction and every other file stay; and unless something is wrong
  or the notification of good results is on, nobody is notified.
\<close>

theorem validation_only_records:
  assumes "run_doctor_validate bv dump br notify snap ms w = (Inr rep, ms', w')"
  shows "(\<exists>e. ep_kind e = ''maintenance'' \<and> ms_disk ms' = (ms_disk ms)\<lparr>dk_episodic :=
             (Some (file_lines (dk_episodic (ms_disk ms)) @ [Row e]), snd (dk_episodic (ms_disk ms)))\<rparr>)
    \<and> map_of (job_status ''doctor_validate'' (ms_status ms')) ''ok'' = Some (JBool (critical_lines rep = 0))
    \<and> map_of (job_status ''weekly_compact'' (ms_status ms')) k = map_of (job_status ''weekly_compact'' (ms_status ms)) k
    \<and> (critical_lines rep \<noteq> 0 \<or> notify_enabled_on_ok w \<or> w_outbox w' = w_outbox w)"
proof -
  obtain corr v where u: "uuid4 w = (corr, v)" by fastforce
  obtain rep0 where d: "run_doctor bv False False v (ms_disk ms) = (Inr rep0, ms_disk ms)"
    using assms doctor_validate_is_read_only [of bv v "ms_disk ms"] u
    by (cases "run_doctor bv False False v (ms_disk ms)") (auto simp: run_doctor_validate_def Let_def split: prod.splits sum.splits)
  have ok: "dr_ok rep0 = (critical_lines rep0 = 0)" using doctor_ok_critical [OF d] .
  define ms1 where "ms1 = update_job_status ''doctor_validate'' (critical_lines rep0 = 0) (validate_summary rep0)
    [(''report'', dump rep0), (''safe_mode_enabled'', JBool (case snap of None \<Rightarrow> is_safe_mode_enabled v | Some b \<Rightarrow> b)), (''breakers'', br)]
    corr v ms"
  obtain w1 ms2 where e: "write_episode ''doctor_validate'' (critical_lines rep0 = 0) (validate_summary rep0) corr v ms1 = (w1, ms2)"
    by fastforce
  have r: "rep = rep0 \<and> ms' = ms2 \<and> (critical_lines rep0 = 0 \<longrightarrow> \<not> notify_enabled_on_ok w1 \<longrightarrow> w' = w1)"
    using assms d e u by (auto simp: run_doctor_validate_def tell_def ms1_def ok Let_def split: prod.splits sum.splits if_splits)
  have w1: "w_outbox w1 = w_outbox w" "w_env w1 = w_env w"
    using e u by (auto simp: write_episode_def Let_def uuid4_def)
  have disk: "\<exists>ep. ep_kind ep = ''maintenance'' \<and> ms_disk ms2 = (ms_disk ms)\<lparr>dk_episodic :=
      (Some (file_lines (dk_episodic (ms_disk ms)) @ [Row ep]), snd (dk_episodic (ms_disk ms)))\<rparr>"
    using write_episode_appends [OF e] by (simp add: ms1_def update_job_status_def)
  have "ms_status ms2 = ms_status ms1" using e by (auto simp: write_episode_def Let_def)
  then have st: "map_of (job_status ''doctor_validate'' (ms_status ms2)) ''ok'' = Some (JBool (critical_lines rep0 = 0))"
    "map_of (job_status ''weekly_compact'' (ms_status ms2)) k = map_of (job_status ''weekly_compact'' (ms_status ms)) k"
    using update_status_fields [of "''doctor_validate''" "''weekly_compact''"] by (simp_all add: ms1_def JOBS_def)
  have "notify_enabled_on_ok w1 = notify_enabled_on_ok w" using w1(2) by (simp add: notify_enabled_on_ok_def getenv_def)
  then show ?thesis using r disk st w1(1) by auto
qed

definition demo_maint :: maint_state where
  "demo_maint = \<lparr>ms_disk = \<lparr>dk_semantic = (None, []), dk_episodic = (None, []), dk_approvals = (None, []), dk_rules = (None, []),
       dk_tasks = (Some [BadJson ''{'', Row demo_task, Row demo_task], []), dk_executions = (None, []),
       dk_breakers = Missing, dk_overrides = Missing\<rparr>, ms_status = Missing\<rparr>"

definition silent :: notifier where
  "silent title body meta w = (Inr (), w)"

lemma validation_only_records_witness:
  "case run_doctor_validate (\<lambda>_. True) (\<lambda>_. JNull) JNull silent None demo_maint (empty_world 0) of
     (Inr rep, ms', w') \<Rightarrow> map_of (job_status ''doctor_validate'' (ms_status ms')) ''ok'' = Some (JBool False)
   | _ \<Rightarrow> False"
proof -
  have c: "case run_doctor_validate (\<lambda>_. True) (\<lambda>_. JNull) JNull silent None demo_maint (empty_world 0) of
     (Inr rep, ms', w') \<Rightarrow> critical_lines rep = 1 | _ \<Rightarrow> False" by code_simp
  then obtain rep ms' w' where r: "run_doctor_validate (\<lambda>_. True) (\<lambda>_. JNull) JNull silent None demo_maint (empty_world 0) = (Inr rep, ms', w')"
    by (auto split: prod.splits sum.splits)
  then show ?thesis using validation_only_records [OF r] c by simp
qed

text \<open>
  The snapshot of the safe mode that the worker passes is taken when the job is scheduled: with
  a snapshot, the stored details repeat it, whatever the switch says when the job runs.
\<close>

lemma validation_reports_snapshot:
  "run_doctor_validate bv dump br notify (Some b) ms w =
     run_doctor_validate bv dump br notify (Some b) ms (w\<lparr>w_safe := w_safe w\<rparr>)
   \<and> (case run_doctor_validate (\<lambda>_. True) (\<lambda>_. JNull) JNull silent (Some False) demo_maint (snd (enable_safe_mode (empty_world 0))) of
        (Inr rep, ms', w') \<Rightarrow> is_safe_mode_enabled w' \<and>
          (case map_of (job_status ''doctor_validate'' (ms_status ms')) ''details'' of
             Some (JDict d) \<Rightarrow> map_of d ''safe_mode_enabled'' = Some (JBool False) | _ \<Rightarrow> False)
      | _ \<Rightarrow> False)"
  by (rule conjI) (simp, code_simp)

subsection \<open>What compaction leaves\<close>

lemma doctor_file_compacted:
  assumes "doctor_file a False True w fb = (Inr rep, fb')" "\<And>r. af_norm a r = r"
  shows "load_rows (file_lines fb') = (case fst fb of None \<Rightarrow> [] | Some ls \<Rightarrow> compact_rows a w (load_rows ls))"
proof (cases "fst fb")
  case None
  then show ?thesis using assms(1)
    by (auto simp: doctor_file_def jsonl_report_def file_lines_def load_rows_def split: prod.splits)
next
  case (Some ls)
  then obtain rep0 valid where r: "jsonl_report a (Some ls) = Inr (rep0, valid)"
    using assms(1) by (auto simp: doctor_file_def split: sum.splits)
  have "valid = load_rows ls" using jsonl_report_ok [OF r] assms(2) by (simp add: map_idI)
  then show ?thesis
    using assms(1) Some r
    by (auto simp: doctor_file_def backup_and_replace_def Let_def file_lines_def split: if_splits sum.splits)
qed

lemma compact_rows_nil: "compact_rows a w [] = []"
  by (simp add: compact_rows_def dedup_latest_def last_n_def split: option.split)

lemma doctor_file_compacted_rows:
  assumes "doctor_file a False True w fb = (Inr rep, fb')" "\<And>r. af_norm a r = r"
  shows "load_rows (file_lines fb') = compact_rows a w (load_rows (file_lines fb))"
  using doctor_file_compacted [OF assms] by (auto simp: file_lines_def compact_rows_nil load_rows_def split: option.splits)

lemma stores_keep:
  assumes "visit_stores repair compact w d = (Inr fs, d')"
  shows "dk_tasks d' = dk_tasks d" "dk_executions d' = dk_executions d"
    "\<exists>r. doctor_file episodic_artifact repair compact w (dk_episodic d) = (Inr r, dk_episodic d')"
proof -
  from assms [unfolded visit_stores_def] obtain fs3 d3 f4
    where 4: "visit ''approvals'' approvals_artifact dk_approvals (\<lambda>f. dk_approvals_update (\<lambda>_. f)) repair compact w
     (visit ''episodic'' episodic_artifact dk_episodic (\<lambda>f. dk_episodic_update (\<lambda>_. f)) repair compact w
     (visit ''semantic'' semantic_artifact dk_semantic (\<lambda>f. dk_semantic_update (\<lambda>_. f)) repair compact w (Inr [], d))) = (Inr fs3, d3)"
      "d' = d3\<lparr>dk_rules := f4\<rparr>" by (rule visitE) blast
  from 4(1) obtain fs2 d2 f3
    where 3: "visit ''episodic'' episodic_artifact dk_episodic (\<lambda>f. dk_episodic_update (\<lambda>_. f)) repair compact w
     (visit ''semantic'' semantic_artifact dk_semantic (\<lambda>f. dk_semantic_update (\<lambda>_. f)) repair compact w (Inr [], d)) = (Inr fs2, d2)"
      "d3 = d2\<lparr>dk_approvals := f3\<rparr>" by (rule visitE) blast
  from 3(1) obtain fs1 d1 r2 f2
    where 2: "visit ''semantic'' semantic_artifact dk_semantic (\<lambda>f. dk_semantic_update (\<lambda>_. f)) repair compact w (Inr [], d) = (Inr fs1, d1)"
      "doctor_file episodic_artifact repair compact w (dk_episodic d1) = (Inr r2, f2)" "d2 = d1\<lparr>dk_episodic := f2\<rparr>" by (rule visitE) blast
  from 2(1) obtain f1 where 1: "d1 = d\<lparr>dk_semantic := f1\<rparr>" by (rule visitE) blast
  show "dk_tasks d' = dk_tasks d" "dk_executions d' = dk_executions d"
    "\<exists>r. doctor_file episodic_artifact repair compact w (dk_episodic d) = (Inr r, dk_episodic d')"
    using 1 2(2,3) 3(2) 4(2) by auto
qed

lemma visit_all_parts:
  assumes "visit_all repair compact w d = (Inr fs, d')"
  shows "\<exists>r. doctor_file tasks_artifact repair compact w (dk_tasks d) = (Inr r, dk_tasks d')"
    "\<exists>r. doctor_file executions_artifact repair compact w (dk_executions d) = (Inr r, dk_executions d')"
    "\<exists>r. doctor_file episodic_artifact repair compact w (dk_episodic d) = (Inr r, dk_episodic d')"
proof -
  from assms [unfolded visit_all_def] obtain fs5 d5 r6 f6
    where 6: "visit ''tasks'' tasks_artifact dk_tasks (\<lambda>f. dk_tasks_update (\<lambda>_. f)) repair compact w
        (visit_stores repair compact w d) = (Inr fs5, d5)"
      "doctor_file executions_artifact repair compact w (dk_executions d5) = (Inr r6, f6)" "d' = d5\<lparr>dk_executions := f6\<rparr>"
    by (rule visitE) blast
  from 6(1) obtain fs4 d4 r5 f5 where 5: "visit_stores repair compact w d = (Inr fs4, d4)"
      "doctor_file tasks_artifact repair compact w (dk_tasks d4) = (Inr r5, f5)" "d5 = d4\<lparr>dk_tasks := f5\<rparr>"
    by (rule visitE) blast
  show "\<exists>r. doctor_file tasks_artifact repair compact w (dk_tasks d) = (Inr r, dk_tasks d')"
    "\<exists>r. doctor_file executions_artifact repair compact w (dk_executions d) = (Inr r, dk_executions d')"
    "\<exists>r. doctor_file episodic_artifact repair compact w (dk_episodic d) = (Inr r, dk_episodic d')"
    using 5(2,3) 6(2,3) stores_keep [OF 5(1)] by auto
qed

lemma compact_rows_env: "w_env w' = w_env w \<Longrightarrow> compact_rows a w' rows = compact_rows a w rows"
proof -
  assume "w_env w' = w_env w"
  then have "getenv n x w' = getenv n x w" for n x by (simp add: getenv_def)
  then have "retention_max a w' = retention_max a w" by (simp add: retention_max_def split: option.split)
  then show ?thesis by (simp add: compact_rows_def)
qed

text \<open>
  The weekly compaction leaves, of tasks and executions, exactly the compacted valid records
  (the latest of each identifier, within the retention), and of the episodes those with its
  own record at the end; its status entry is ok, and the entry of the validation stays.
\<close>

theorem weekly_compact_exact:
  assumes "run_weekly_compact bv st_size notify ms w = (Inr out, ms', w')"
  shows "load_rows (file_lines (dk_tasks (ms_disk ms'))) = compact_rows tasks_artifact w (load_rows (file_lines (dk_tasks (ms_disk ms))))
    \<and> load_rows (file_lines (dk_executions (ms_disk ms')))
      = compact_rows executions_artifact w (load_rows (file_lines (dk_executions (ms_disk ms))))
    \<and> (\<exists>e. load_rows (file_lines (dk_episodic (ms_disk ms')))
      = compact_rows episodic_artifact w (load_rows (file_lines (dk_episodic (ms_disk ms)))) @ [e])
    \<and> map_of (job_status ''weekly_compact'' (ms_status ms')) ''ok'' = Some (JBool True)
    \<and> map_of (job_status ''doctor_validate'' (ms_status ms')) k = map_of (job_status ''doctor_validate'' (ms_status ms)) k"
proof -
  obtain corr v where u: "uuid4 w = (corr, v)" by fastforce
  obtain rep d where doc: "run_doctor bv False True v (ms_disk ms) = (Inr rep, d)"
    using assms u by (auto simp: run_weekly_compact_def Let_def split: prod.splits sum.splits)
  obtain trimmed saved summary where sm: "compact_summary st_size (ms_disk ms) d = (trimmed, saved, summary)" by (metis prod_cases3)
  define ms1 where "ms1 = update_job_status ''weekly_compact'' True summary
    [(''files'', JDict (compact_files st_size (ms_disk ms) d))] corr v (ms\<lparr>ms_disk := d\<rparr>)"
  obtain w1 ms2 where e: "write_episode ''weekly_compact'' True summary corr v ms1 = (w1, ms2)" by fastforce
  have ms': "ms' = ms2"
    using assms u doc sm e by (auto simp: run_weekly_compact_def Let_def ms1_def split: prod.splits sum.splits)
  obtain ep where ep: "ms_disk ms2 = d\<lparr>dk_episodic := (Some (file_lines (dk_episodic d) @ [Row ep]), snd (dk_episodic d))\<rparr>"
    using write_episode_appends [OF e] by (auto simp: ms1_def update_job_status_def)
  have "ms_status ms2 = ms_status ms1" using e by (auto simp: write_episode_def Let_def)
  then have st: "map_of (job_status ''weekly_compact'' (ms_status ms2)) ''ok'' = Some (JBool True)"
    "map_of (job_status ''doctor_validate'' (ms_status ms2)) k = map_of (job_status ''doctor_validate'' (ms_status ms)) k"
    using update_status_fields [of "''weekly_compact''" "''doctor_validate''"] by (simp_all add: ms1_def JOBS_def)
  obtain fs where v: "visit_all False True v (ms_disk ms) = (Inr fs, d)"
    using doc by (cases "visit_all False True v (ms_disk ms)") (auto simp: run_doctor_def split: sum.splits)
  have env: "w_env v = w_env w" using u by (auto simp: uuid4_def)
  from visit_all_parts(1) [OF v] obtain r1 where "doctor_file tasks_artifact False True v (dk_tasks (ms_disk ms)) = (Inr r1, dk_tasks d)" ..
  from doctor_file_compacted_rows [OF this]
  have t: "load_rows (file_lines (dk_tasks d)) = compact_rows tasks_artifact w (load_rows (file_lines (dk_tasks (ms_disk ms))))"
    by (simp add: compact_rows_env [OF env]) (simp add: tasks_artifact_def)
  from visit_all_parts(2) [OF v] obtain r2 where "doctor_file executions_artifact False True v (dk_executions (ms_disk ms)) = (Inr r2, dk_executions d)" ..
  from doctor_file_compacted_rows [OF this]
  have x: "load_rows (file_lines (dk_executions d)) = compact_rows executions_artifact w (load_rows (file_lines (dk_executions (ms_disk ms))))"
    by (simp add: compact_rows_env [OF env]) (simp add: executions_artifact_def)
  from visit_all_parts(3) [OF v] obtain r3 where "doctor_file episodic_artifact False True v (dk_episodic (ms_disk ms)) = (Inr r3, dk_episodic d)" ..
  from doctor_file_compacted_rows [OF this]
  have p: "load_rows (file_lines (dk_episodic d)) = compact_rows episodic_artifact w (load_rows (file_lines (dk_episodic (ms_disk ms))))"
    by (simp add: compact_rows_env [OF env]) (simp add: episodic_artifact_def)
  have "load_rows (file_lines (Some (ls @ [Row e]), b)) = load_rows ls @ [e]" for ls :: "episode line list" and e b
    by (simp add: file_lines_def load_rows_def)
  then show ?thesis using t x p st ep ms' by simp
qed

lemma weekly_compact_exact_witness:
  "case run_weekly_compact (\<lambda>_. True) (\<lambda>_ _. 0) silent demo_maint (empty_world 0) of
     (Inr out, ms', w') \<Rightarrow> length (load_rows (file_lines (dk_tasks (ms_disk ms')))) = 1 | _ \<Rightarrow> False"
proof -
  have "case fst (run_weekly_compact (\<lambda>_. True) (\<lambda>_ _. 0) silent demo_maint (empty_world 0)) of Inr out \<Rightarrow> True | _ \<Rightarrow> False" by code_simp
  then obtain out ms' w' where r: "run_weekly_compact (\<lambda>_. True) (\<lambda>_ _. 0) silent demo_maint (empty_world 0) = (Inr out, ms', w')"
    by (cases "run_weekly_compact (\<lambda>_. True) (\<lambda>_ _. 0) silent demo_maint (empty_world 0)") (auto split: sum.splits)
  have "length (compact_rows tasks_artifact (empty_world 0) (load_rows (file_lines (dk_tasks (ms_disk demo_maint))))) = 1" by code_simp
  with weekly_compact_exact [OF r] r show ?thesis by simp
qed

text \<open>
  Compaction drops unreadable lines without being asked to repair: when a file changes at all,
  it is rewritten from its valid records, and the report made afterwards counts no invalid
  line.
\<close>

theorem compaction_drops_unreadable:
  assumes "jsonl_report a (Some ls) = Inr (rep, valid)" "compact_rows a w valid \<noteq> valid"
    and "doctor_file a False True w (Some ls, b) = (Inr rep', fb')"
  shows "filter is_invalid (file_lines fb') = [] \<and> fr_invalid rep' = 0"
proof -
  obtain x y where x: "jsonl_report a (Some (write_rows (compact_rows a w valid))) = Inr (x, y)"
      "rep' = x\<lparr>fr_notes := fr_notes x @ [Rewritten]\<rparr>" "fst fb' = Some (write_rows (compact_rows a w valid))"
    using assms by (auto simp: doctor_file_def backup_and_replace_def Let_def split: sum.splits)
  then show ?thesis using jsonl_report_ok [OF x(1)] by (simp add: file_lines_def written_valid)
qed

lemma compaction_drops_unreadable_witness:
  "case doctor_file tasks_artifact False True (empty_world 0) (Some [BadJson ''{'', Row demo_task, Row demo_task], []) of
     (Inr rep, fb') \<Rightarrow> fr_invalid rep = 0 \<and> filter is_invalid (file_lines fb') = [] | _ \<Rightarrow> False"
proof -
  let ?ls = "[BadJson ''{'', Row demo_task, Row demo_task]"
  have r: "jsonl_report tasks_artifact (Some ?ls)
      = Inr (\<lparr>fr_exists = True, fr_records = 3, fr_valid = 2, fr_invalid = 1, fr_last_ts = Some (Iso (Aware 5)),
              fr_notes = [LineNoJson 1]\<rparr>, [demo_task, demo_task])"
    by code_simp
  have "length (compact_rows tasks_artifact (empty_world 0) [demo_task, demo_task]) = 1" by code_simp
  then have c: "compact_rows tasks_artifact (empty_world 0) [demo_task, demo_task] \<noteq> [demo_task, demo_task]" by auto
  have "case fst (doctor_file tasks_artifact False True (empty_world 0) (Some ?ls, [])) of Inr rep \<Rightarrow> True | Inl e \<Rightarrow> False" by code_simp
  then obtain rep fb' where d: "doctor_file tasks_artifact False True (empty_world 0) (Some ?ls, []) = (Inr rep, fb')"
    by (cases "doctor_file tasks_artifact False True (empty_world 0) (Some ?ls, [])") (auto split: sum.splits)
  from compaction_drops_unreadable [OF r c d] d show ?thesis by simp
qed

end
