(* ===== verification/Access.thy ===== *)
theory Access
  imports ApprovalFlow
begin

section \<open>Access to the API\<close>

text \<open>
  \<open>apps/api/auth.py\<close>, the two middlewares of \<open>apps/api/main.py\<close>, the login page of
  \<open>routes_ui.py\<close>, and the routes mounted in \<open>main.py\<close>. The handler of a request, the rest of the
  application, is a parameter: a function of request and state. What a browser sends
  back of a cookie is what the response set.
\<close>

subsection \<open>Requests and responses\<close>

record web_request =
  wr_method :: string
  wr_path :: string
  wr_headers :: "string dict"
  wr_cookies :: "string dict"

datatype web_body = Json_body json | Page string "json dict" | Empty_body

record web_response =
  rs_status :: nat
  rs_headers :: "string dict"
  rs_cookies :: "string dict"
  rs_body :: web_body

type_synonym handler = "web_request \<Rightarrow> world \<Rightarrow> web_response res \<times> world"

definition json_response :: "nat \<Rightarrow> json \<Rightarrow> web_response" where
  "json_response status j = \<lparr>rs_status = status, rs_headers = [], rs_cookies = [], rs_body = Json_body j\<rparr>"

definition redirect_response :: "string \<Rightarrow> nat \<Rightarrow> web_response" where
  "redirect_response url status =
     \<lparr>rs_status = status, rs_headers = [(''location'', url)], rs_cookies = [], rs_body = Empty_body\<rparr>"

text \<open>\<open>request.headers.get(name)\<close> ignores case; the first header of that name counts.\<close>

definition header_get :: "string \<Rightarrow> web_request \<Rightarrow> string option" where
  "header_get name req = map_of (map (\<lambda>(k, v). (casefold k, v)) (wr_headers req)) (casefold name)"

definition upper_char :: "char \<Rightarrow> char" where
  "upper_char c =
     (if 97 \<le> (of_char c :: nat) \<and> (of_char c :: nat) \<le> 122 then char_of ((of_char c :: nat) - 32) else c)"

definition upper :: "string \<Rightarrow> string" where
  "upper s = map upper_char s"

subsection \<open>The token\<close>

definition get_auth_mode :: "world \<Rightarrow> string" where
  "get_auth_mode w = casefold (strip (getenv ''BENJAMIN_AUTH_MODE'' ''token'' w))"

definition is_auth_enabled :: "world \<Rightarrow> bool" where
  "is_auth_enabled w \<longleftrightarrow> get_auth_mode w = ''token''"

definition get_required_token :: "world \<Rightarrow> string res" where
  "get_required_token w =
     (let token = getenv ''BENJAMIN_AUTH_TOKEN'' [] w
      in if is_auth_enabled w \<and> token = []
         then Inl (RuntimeError ''BENJAMIN_AUTH_TOKEN must be set when BENJAMIN_AUTH_MODE=token'')
         else Inr token)"

definition extract_token :: "web_request \<Rightarrow> string option" where
  "extract_token req =
     (if str_or (header_get ''X-BENJAMIN-TOKEN'' req) [] \<noteq> [] then header_get ''X-BENJAMIN-TOKEN'' req
      else if str_or (map_of (wr_cookies req) ''benjamin_token'') [] \<noteq> []
           then map_of (wr_cookies req) ''benjamin_token''
      else None)"

text \<open>\<open>hmac.compare_digest\<close> on strings raises unless both are ASCII.\<close>

definition is_ascii :: "string \<Rightarrow> bool" where
  "is_ascii s \<longleftrightarrow> list_all (\<lambda>c. (of_char c :: nat) < 128) s"

definition compare_digest :: "string \<Rightarrow> string \<Rightarrow> bool res" where
  "compare_digest a b =
     (if is_ascii a \<and> is_ascii b then Inr (a = b)
      else Inl (TypeError ''comparing strings with non-ASCII characters is not supported''))"

definition is_request_authenticated :: "web_request \<Rightarrow> world \<Rightarrow> bool res" where
  "is_request_authenticated req w =
     (if \<not> is_auth_enabled w then Inr True
      else case get_required_token w of
             Inl e \<Rightarrow> Inl e
           | Inr required \<Rightarrow>
               (case extract_token req of
                  None \<Rightarrow> Inr False
                | Some provided \<Rightarrow> compare_digest provided required))"

definition should_protect_chat_post :: "world \<Rightarrow> bool" where
  "should_protect_chat_post w \<longleftrightarrow> casefold (strip (getenv ''BENJAMIN_EXPOSE_PUBLIC'' ''off'' w)) = ''on''"

subsection \<open>The middlewares\<close>

definition request_context_middleware :: "handler \<Rightarrow> handler" where
  "request_context_middleware call_next req w =
     (let (corr, w1) = (case header_get ''X-Correlation-ID'' req of
                          None \<Rightarrow> uuid4 w
                        | Some c \<Rightarrow> if c = [] then uuid4 w else (c, w))
      in case with_corr corr (call_next req) w1 of
           (Inl e, w2) \<Rightarrow> (Inl e, w2)
         | (Inr resp, w2) \<Rightarrow>
             (Inr (resp\<lparr>rs_headers := AList.update ''X-Correlation-ID'' corr (rs_headers resp)\<rparr>), w2))"

definition unauthorized :: web_response where
  "unauthorized = json_response 401 (JDict [(''detail'', JStr ''unauthorized'')])"

definition MUTATING_METHODS :: "string list" where
  "MUTATING_METHODS = [''POST'', ''PUT'', ''PATCH'', ''DELETE'']"

definition PROTECTED_PREFIXES :: "string list" where
  "PROTECTED_PREFIXES = [''/approvals'', ''/jobs'', ''/rules'', ''/memory'', ''/v1/security'', ''/v1/ops'']"

text \<open>\<open>if not is_request_authenticated(request): return refusal\<close>, and on.\<close>

definition require_token ::
  "web_request \<Rightarrow> web_response \<Rightarrow> (world \<Rightarrow> web_response res \<times> world) \<Rightarrow> world \<Rightarrow> web_response res \<times> world" where
  "require_token req refusal go w =
     (case is_request_authenticated req w of
        Inl e \<Rightarrow> (Inl e, w)
      | Inr ok \<Rightarrow> if ok then go w else (Inr refusal, w))"

definition auth_middleware :: "handler \<Rightarrow> handler" where
  "auth_middleware call_next req w =
     (let path = wr_path req; method = upper (wr_method req)
      in if startswith path ''/healthz'' then call_next req w
         else if \<not> is_auth_enabled w then call_next req w
         else if startswith path ''/ui'' then
           (if path = ''/ui/login'' \<and> method \<in> {''GET'', ''POST''} then call_next req w
            else require_token req (redirect_response ''/ui/login'' 302) (call_next req) w)
         else
           let chat = (\<lambda>w. if should_protect_chat_post w \<and> method = ''POST'' \<and> startswith path ''/chat''
                           then require_token req unauthorized (call_next req) w
                           else call_next req w)
           in if method \<in> set MUTATING_METHODS \<and> list_ex (startswith path) PROTECTED_PREFIXES
              then require_token req unauthorized chat w
              else chat w)"

text \<open>The middleware added last is the outermost one.\<close>

definition serve :: "handler \<Rightarrow> handler" where
  "serve app = auth_middleware (request_context_middleware app)"

subsection \<open>Logging in\<close>

definition ui_login_post :: "string \<Rightarrow> world \<Rightarrow> web_response res" where
  "ui_login_post token w =
     (let accepted = (redirect_response ''/ui/chat'' 303)
                       \<lparr>rs_cookies := (if is_auth_enabled w then [(''benjamin_token'', token)] else [])\<rparr>
      in if is_auth_enabled w then
           (case get_required_token w of
              Inl e \<Rightarrow> Inl e
            | Inr required \<Rightarrow>
                if token \<noteq> required then
                  Inr \<lparr>rs_status = 401, rs_headers = [], rs_cookies = [],
                       rs_body = Page ''login.html'' [(''safe_mode_enabled'', JBool (is_safe_mode_enabled w)),
                         (''error'', JStr ''Invalid token''), (''auth_enabled'', JBool True)]\<rparr>
                else Inr accepted)
         else Inr accepted)"

subsection \<open>The routes\<close>

text \<open>
  The routers and the prefix each is mounted under, with the methods and paths of their
  decorators; the last entry are the routes of the application itself. A segment in braces
  is a parameter.
\<close>

definition ROUTERS :: "(string \<times> (string \<times> string) list) list" where
  "ROUTERS = [
     (''/chat'', [(''POST'', ''/'')]),
     (''/tasks'', [(''POST'', ''/'')]),
     (''/memory'', [(''GET'', ''/semantic''), (''POST'', ''/semantic''), (''GET'', ''/episodic'')]),
     (''/jobs'', [(''GET'', ''''), (''POST'', ''/reminder''), (''POST'', ''/daily-briefing''), (''DELETE'', ''/{job_id}'')]),
     (''/integrations'', [(''GET'', ''/status'')]),
     (''/approvals'', [(''GET'', ''''), (''POST'', ''/{approval_id}/approve''), (''POST'', ''/{approval_id}/reject'')]),
     (''/rules'', [(''GET'', ''''), (''POST'', ''''), (''POST'', ''/from-text''), (''PUT'', ''/{rule_id}''),
        (''POST'', ''/{rule_id}/enable''), (''POST'', ''/{rule_id}/disable''), (''DELETE'', ''/{rule_id}''),
        (''POST'', ''/{rule_id}/reset-state''), (''POST'', ''/evaluate-now''), (''POST'', ''/{rule_id}/test''),
        (''POST'', ''/test'')]),
     (''/v1/security'', [(''GET'', ''/scopes''), (''POST'', ''/scopes/enable''), (''POST'', ''/scopes/disable''),
        (''POST'', ''/rules/allowed-scopes''), (''POST'', ''/rules/allowed-scopes/reset'')]),
     (''/v1/ops'', [(''GET'', ''/doctor'')]),
     (''/v1/ops'', [(''GET'', ''/safe-mode''), (''POST'', ''/safe-mode/enable''), (''POST'', ''/safe-mode/disable'')]),
     (''/v1/ops'', [(''GET'', ''/maintenance''), (''POST'', ''/maintenance/run-doctor-now''),
        (''POST'', ''/maintenance/run-compact-now'')]),
     (''/ui'', [(''GET'', ''/''), (''GET'', ''/login''), (''POST'', ''/login''), (''POST'', ''/logout''), (''GET'', ''/chat''),
        (''POST'', ''/chat''), (''GET'', ''/ops''), (''POST'', ''/ops/run-doctor-now''), (''POST'', ''/ops/run-compact-now''),
        (''GET'', ''/doctor''), (''GET'', ''/approvals''), (''POST'', ''/approvals/{approval_id}/approve''),
        (''POST'', ''/approvals/{approval_id}/reject''), (''GET'', ''/jobs''), (''POST'', ''/jobs/reminder''),
        (''POST'', ''/jobs/daily-briefing''), (''GET'', ''/rules''), (''POST'', ''/rules/create''),
        (''POST'', ''/rules/{rule_id}/enable''), (''POST'', ''/rules/{rule_id}/disable''), (''POST'', ''/rules/{rule_id}/delete''),
        (''POST'', ''/rules/{rule_id}/reset-state''), (''POST'', ''/rules/evaluate-now''), (''GET'', ''/memory''),
        (''POST'', ''/memory/semantic''), (''GET'', ''/scopes''), (''POST'', ''/scopes/save''), (''GET'', ''/runs''),
        (''GET'', ''/correlation/{correlation_id}''), (''GET'', ''/runs/chat/{task_id}''),
        (''GET'', ''/runs/approvals/{approval_id}''), (''GET'', ''/runs/rules/{rule_id}'')]),
     ('''', [(''GET'', ''/runs/search''), (''GET'', ''/health''), (''GET'', ''/healthz''), (''GET'', ''/healthz/full'')])]"

definition routes :: "(string \<times> string) list" where
  "routes = concat (map (\<lambda>(prefix, rs). map (\<lambda>(m, p). (m, prefix @ p)) rs) ROUTERS)"

fun segments_match :: "string list \<Rightarrow> string list \<Rightarrow> bool" where
  "segments_match [] [] \<longleftrightarrow> True"
| "segments_match (p # ps) (s # ss) \<longleftrightarrow>
     (if startswith p ''{'' then s \<noteq> [] else s = p) \<and> segments_match ps ss"
| "segments_match _ _ \<longleftrightarrow> False"

definition path_match :: "string \<Rightarrow> string \<Rightarrow> bool" where
  "path_match pattern path \<longleftrightarrow> segments_match (split_char (CHR ''/'') pattern) (split_char (CHR ''/'') path)"

text \<open>Whether a request is dispatched to a route.\<close>

definition dispatched :: "string \<times> string \<Rightarrow> web_request \<Rightarrow> bool" where
  "dispatched r req \<longleftrightarrow> wr_method req = fst r \<and> path_match (snd r) (wr_path req)"

subsection \<open>Who gets in\<close>

lemma join_split_char: "join [c] (split_char c s) = s"
proof (induction s)
  case (Cons x s)
  obtain y ys where "split_char c s = y # ys" using split_char_nonempty by (meson neq_Nil_conv)
  with Cons.IH show ?case by (cases ys) auto
qed simp

lemma startswith_join: "startswith (join [c] (x # xs)) x"
  by (cases xs) (auto simp: startswith_def)

lemma startswith_second: "split_char c s = [] # b # r \<Longrightarrow> startswith s (c # b)"
  using join_split_char [of c s] startswith_join [of c b r] by (auto simp: startswith_def)

lemma startswith_third: "split_char c s = [] # b # d # r \<Longrightarrow> startswith s (c # b @ c # d)"
  using join_split_char [of c s] startswith_join [of c d r] by (auto simp: startswith_def)

text \<open>The leading segments of a pattern that lie under a protected prefix, or under \<open>/ui\<close>.\<close>

fun guarded_segments :: "string list \<Rightarrow> bool" where
  "guarded_segments (a # b # c # r) \<longleftrightarrow> a = [] \<and>
     (b \<in> {''approvals'', ''jobs'', ''rules'', ''memory'', ''ui''} \<or> (b = ''v1'' \<and> c \<in> {''security'', ''ops''}))"
| "guarded_segments [a, b] \<longleftrightarrow> a = [] \<and> b \<in> {''approvals'', ''jobs'', ''rules'', ''memory'', ''ui''}"
| "guarded_segments _ \<longleftrightarrow> False"

definition guarded_path :: "string \<Rightarrow> bool" where
  "guarded_path path \<longleftrightarrow> startswith path ''/ui'' \<or> list_ex (startswith path) PROTECTED_PREFIXES"

lemma segments_match_guarded: "segments_match ps ss \<Longrightarrow> guarded_segments ps \<Longrightarrow> guarded_segments ss"
proof (induction ps rule: guarded_segments.induct)
  case (1 a b c r)
  then show ?case by (cases ss rule: guarded_segments.cases) (auto simp: startswith_def)
next
  case (2 a b)
  then show ?case by (cases ss rule: guarded_segments.cases) (auto simp: startswith_def)
qed auto

lemma guarded_segments_path: "guarded_segments (split_char (CHR ''/'') path) \<Longrightarrow> guarded_path path"
proof (cases "split_char (CHR ''/'') path" rule: guarded_segments.cases)
  case (1 a b c r)
  moreover assume "guarded_segments (split_char (CHR ''/'') path)"
  ultimately have "split_char (CHR ''/'') path = [] # b # c # r" "guarded_segments ([] # b # c # r)" by auto
  then show ?thesis
    using startswith_second startswith_third by (fastforce simp: guarded_path_def PROTECTED_PREFIXES_def)
next
  case (2 a b)
  moreover assume "guarded_segments (split_char (CHR ''/'') path)"
  ultimately have "split_char (CHR ''/'') path = [[], b]" "guarded_segments [[], b]" by auto
  then show ?thesis
    using startswith_second by (fastforce simp: guarded_path_def PROTECTED_PREFIXES_def)
qed auto

lemma startswith_comparable:
  assumes "startswith s p" "startswith s q"
  shows "startswith p q \<or> startswith q p"
proof (cases "length p \<le> length q")
  case True
  have "take (length p) q = take (length p) (take (length q) s)" using assms(2) by (simp add: startswith_def)
  then show ?thesis using True assms(1) by (simp add: startswith_def min_def)
next
  case False
  have "take (length q) p = take (length q) (take (length p) s)" using assms(1) by (simp add: startswith_def)
  then show ?thesis using False assms(2) by (simp add: startswith_def min_def)
qed

lemma guarded_not_health: "guarded_path path \<Longrightarrow> \<not> startswith path ''/healthz''"
proof
  assume "guarded_path path" "startswith path ''/healthz''"
  then have "list_ex (\<lambda>q. startswith q ''/healthz'' \<or> startswith ''/healthz'' q) (''/ui'' # PROTECTED_PREFIXES)"
    using startswith_comparable unfolding guarded_path_def list_ex_iff by fastforce
  then show False by (simp add: PROTECTED_PREFIXES_def startswith_def)
qed

lemma mutating_routes_lie_guarded:
  "list_all (\<lambda>(m, p). m \<in> set MUTATING_METHODS \<longrightarrow> p \<in> {''/chat/'', ''/tasks/''} \<or> guarded_segments (split_char (CHR ''/'') p)) routes"
  by code_simp

lemma only_login_at_login:
  "list_all (\<lambda>(m, p). path_match p ''/ui/login'' \<longrightarrow> p = ''/ui/login'') routes"
  by code_simp

lemma upper_mutating: "m \<in> set MUTATING_METHODS \<Longrightarrow> upper m = m"
  by (auto simp: MUTATING_METHODS_def upper_def upper_char_def)

text \<open>Not presenting the token: a different one, none, or there is none to present.\<close>

definition without_token :: "web_request \<Rightarrow> world \<Rightarrow> bool" where
  "without_token req w \<longleftrightarrow> is_auth_enabled w \<and>
     (getenv ''BENJAMIN_AUTH_TOKEN'' [] w = [] \<or> extract_token req \<noteq> Some (getenv ''BENJAMIN_AUTH_TOKEN'' [] w))"

definition refused :: "web_response res \<Rightarrow> bool" where
  "refused r \<longleftrightarrow> (case r of Inl e \<Rightarrow> True | Inr resp \<Rightarrow> rs_status resp = 401 \<or> resp = redirect_response ''/ui/login'' 302)"

lemma not_authenticated:
  "without_token req w \<Longrightarrow> \<exists>e. is_request_authenticated req w = Inl e \<or> is_request_authenticated req w = Inr False"
  by (cases "getenv ''BENJAMIN_AUTH_TOKEN'' [] w = []"; cases "extract_token req")
    (simp_all add: without_token_def is_request_authenticated_def get_required_token_def compare_digest_def)

lemma require_token_refuses:
  "without_token req w \<Longrightarrow>
   (\<exists>e. require_token req refusal go w = (Inl e, w)) \<or> require_token req refusal go w = (Inr refusal, w)"
  using not_authenticated [of req w] by (auto simp: require_token_def)

lemma auth_middleware_refuses:
  assumes "without_token req w" "guarded_path (wr_path req)" "upper (wr_method req) \<in> set MUTATING_METHODS \<or> startswith (wr_path req) ''/ui''"
    and "wr_path req \<noteq> ''/ui/login''"
  shows "auth_middleware app req w = auth_middleware app' req w
    \<and> refused (fst (auth_middleware app req w)) \<and> snd (auth_middleware app req w) = w"
proof -
  have en: "is_auth_enabled w" using assms(1) by (simp add: without_token_def)
  have nh: "\<not> startswith (wr_path req) ''/healthz''" using assms(2) by (rule guarded_not_health)
  obtain x where x: "is_request_authenticated req w = x" "x = Inr False \<or> (\<exists>e. x = Inl e)"
    using not_authenticated [OF assms(1)] by blast
  show ?thesis
  proof (cases "startswith (wr_path req) ''/ui''")
    case True
    then show ?thesis
      using en nh x assms(4) by (auto simp: auth_middleware_def Let_def require_token_def refused_def split: sum.splits)
  next
    case False
    then have "list_ex (startswith (wr_path req)) PROTECTED_PREFIXES" "upper (wr_method req) \<in> set MUTATING_METHODS"
      using assms(2,3) by (auto simp: guarded_path_def)
    then show ?thesis
      using en nh x False
      by (auto simp: auth_middleware_def Let_def require_token_def refused_def unauthorized_def json_response_def split: sum.splits)
  qed
qed

text \<open>
  C6. With authentication on, no request without the token reaches a changing route: for every
  POST, PUT or DELETE route of the application but the login page, the chat endpoint and the
  task stub, a request dispatched to it is refused before its handler, whatever the handler
  would do, and the state is unchanged.
\<close>

theorem mutating_routes_guarded:
  assumes "r \<in> set routes" "fst r \<in> set MUTATING_METHODS" "snd r \<notin> {''/chat/'', ''/tasks/'', ''/ui/login''}"
    and "dispatched r req" "without_token req w"
  shows "serve app req w = serve app' req w \<and> refused (fst (serve app req w)) \<and> snd (serve app req w) = w"
proof -
  obtain m p where r: "r = (m, p)" by fastforce
  have pm: "path_match p (wr_path req)" and m: "wr_method req = m" using assms(4) r by (auto simp: dispatched_def)
  have "guarded_segments (split_char (CHR ''/'') p)"
    using mutating_routes_lie_guarded assms(1-3) r by (auto simp: list_all_iff)
  then have g: "guarded_path (wr_path req)"
    using pm segments_match_guarded guarded_segments_path by (simp add: path_match_def)
  have l: "wr_path req \<noteq> ''/ui/login''"
    using only_login_at_login assms(1,3) r pm by (auto simp: list_all_iff)
  have "upper (wr_method req) \<in> set MUTATING_METHODS" using upper_mutating assms(2) r m by simp
  with auth_middleware_refuses [OF assms(5) g _ l] show ?thesis unfolding serve_def by blast
qed

definition locked_world :: world where
  "locked_world = (empty_world 0)\<lparr>w_env := [''BENJAMIN_AUTH_TOKEN'' \<mapsto> ''s3cret'']\<rparr>"

definition delete_request :: web_request where
  "delete_request = \<lparr>wr_method = ''DELETE'', wr_path = ''/rules/42'', wr_headers = [(''x-benjamin-token'', ''guess'')], wr_cookies = []\<rparr>"

lemma mutating_routes_guarded_witness:
  "refused (fst (serve (\<lambda>_ w. (Inr unauthorized, snd (enable_safe_mode w))) delete_request locked_world))
   \<and> serve (\<lambda>_ w. (Inr unauthorized, snd (enable_safe_mode w))) delete_request locked_world
     = serve (\<lambda>_ w. (Inl (RuntimeError ''unreachable''), w)) delete_request locked_world"
proof -
  have "(''DELETE'', ''/rules/{rule_id}'') \<in> set routes" by (simp add: routes_def ROUTERS_def)
  moreover have "dispatched (''DELETE'', ''/rules/{rule_id}'') delete_request" by code_simp
  moreover have "without_token delete_request locked_world"
    by (simp add: without_token_def is_auth_enabled_def get_auth_mode_def getenv_def locked_world_def empty_world_def
        extract_token_def header_get_def delete_request_def) code_simp
  moreover have "fst (''DELETE'', ''/rules/{rule_id}'') \<in> set MUTATING_METHODS" by (simp add: MUTATING_METHODS_def)
  moreover have "snd (''DELETE'', ''/rules/{rule_id}'') \<notin> {''/chat/'', ''/tasks/'', ''/ui/login''}" by simp
  ultimately show ?thesis using mutating_routes_guarded by blast
qed

lemma authenticated:
  assumes "is_auth_enabled w" "getenv ''BENJAMIN_AUTH_TOKEN'' [] w = t" "t \<noteq> []" "is_ascii t" "extract_token req = Some t"
  shows "is_request_authenticated req w = Inr True"
  using assms by (simp add: is_request_authenticated_def get_required_token_def compare_digest_def)

text \<open>
  The token opens everything, and logging in hands it out: with the login's cookie, or the
  token in the header, every request goes straight to the application; a login with any
  other token sets no cookie.
\<close>

theorem login_opens:
  assumes "is_auth_enabled w" "getenv ''BENJAMIN_AUTH_TOKEN'' [] w = t" "t \<noteq> []" "is_ascii t"
  shows "(\<exists>resp. ui_login_post t w = Inr resp \<and> rs_status resp = 303
            \<and> (\<forall>req. header_get ''X-BENJAMIN-TOKEN'' req = None \<longrightarrow> wr_cookies req = rs_cookies resp
                 \<longrightarrow> serve app req w = request_context_middleware app req w))
       \<and> (\<forall>req. header_get ''X-BENJAMIN-TOKEN'' req = Some t \<longrightarrow> serve app req w = request_context_middleware app req w)
       \<and> (\<forall>guess. guess \<noteq> t \<longrightarrow> (\<exists>resp. ui_login_post guess w = Inr resp \<and> rs_status resp = 401 \<and> rs_cookies resp = []))"
proof (intro conjI)
  have go: "serve app req w = request_context_middleware app req w" if "extract_token req = Some t" for req
    using authenticated [OF assms that] by (simp add: serve_def auth_middleware_def require_token_def Let_def)
  show "\<exists>resp. ui_login_post t w = Inr resp \<and> rs_status resp = 303
            \<and> (\<forall>req. header_get ''X-BENJAMIN-TOKEN'' req = None \<longrightarrow> wr_cookies req = rs_cookies resp
                 \<longrightarrow> serve app req w = request_context_middleware app req w)"
    using assms by (auto simp: ui_login_post_def get_required_token_def redirect_response_def extract_token_def intro!: go)
  show "\<forall>req. header_get ''X-BENJAMIN-TOKEN'' req = Some t \<longrightarrow> serve app req w = request_context_middleware app req w"
    using assms by (auto simp: extract_token_def intro!: go)
  show "\<forall>guess. guess \<noteq> t \<longrightarrow> (\<exists>resp. ui_login_post guess w = Inr resp \<and> rs_status resp = 401 \<and> rs_cookies resp = [])"
    using assms by (simp add: ui_login_post_def get_required_token_def)
qed

lemma login_opens_witness:
  "\<exists>resp. ui_login_post ''s3cret'' locked_world = Inr resp \<and> rs_status resp = 303"
proof -
  have "is_auth_enabled locked_world"
    by (simp add: is_auth_enabled_def get_auth_mode_def getenv_def locked_world_def empty_world_def) code_simp
  moreover have "is_ascii ''s3cret''" by code_simp
  moreover have "getenv ''BENJAMIN_AUTH_TOKEN'' [] locked_world = ''s3cret''" by (simp add: getenv_def locked_world_def)
  ultimately show ?thesis using login_opens by blast
qed

text \<open>
  The reading routes outside \<open>/ui\<close> need no token, and one of them writes: listing the
  approvals first removes the expired ones.
\<close>

lemma reading_routes_open:
  "wr_method req = ''GET'' \<Longrightarrow> \<not> startswith (wr_path req) ''/ui'' \<Longrightarrow> serve app req w = request_context_middleware app req w"
  by (auto simp: serve_def auth_middleware_def Let_def MUTATING_METHODS_def upper_def upper_char_def)

end
