(* ===== verification/Schedule.thy ===== *)
theory Schedule
  imports Jobs
begin

section \<open>The scheduler: jobs that are added, replaced, listed and removed\<close>

text \<open>
  \<open>core/scheduler/scheduler.py\<close> and \<open>schemas.py\<close>, the job routes (\<open>apps/api/routes_jobs.py\<close>
  and the job forms of \<open>routes_ui.py\<close>), the start of the API process, and the worker
  (\<open>apps/worker/worker.py\<close>) with the maintenance jobs it enters. The scheduler library keeps
  the jobs: it is a parameter, and what is proved of it rests on what it documents (a job
  replaces the one of the same identifier, removing a missing one raises, hours and minutes
  outside a day are refused). Signal handling, the wait loop and printing are left out.
\<close>

subsection \<open>Jobs and the library that keeps them\<close>

datatype job_func = RunReminder | RunDailyBriefing | RunRulesEvaluation | RunDoctorValidate | RunWeeklyCompact

text \<open>A moment, a time of day (on one day of the week, or every day) in a zone, or an interval in minutes.\<close>

datatype job_trigger =
    DateTrigger datetime
  | CronTrigger "string option" int int string
  | IntervalTrigger int

text \<open>Arguments: text, a flag, or one of the objects of the process, by name.\<close>

datatype job_arg = ArgText string | ArgFlag bool | ArgObject string

record job =
  jb_id :: string
  jb_func :: job_func
  jb_trigger :: job_trigger
  jb_kwargs :: "job_arg dict"

record 's scheduler_lib =
  sl_add :: "job \<Rightarrow> 's \<Rightarrow> unit res \<times> 's" \<comment> \<open>\<open>add_job(replace_existing=True)\<close>\<close>
  sl_remove :: "string \<Rightarrow> 's \<Rightarrow> unit res \<times> 's"
  sl_jobs :: "'s \<Rightarrow> job list"
  sl_next_run :: "'s \<Rightarrow> job \<Rightarrow> string option res" \<comment> \<open>\<open>job.next_run_time\<close>, written out\<close>
  sl_trigger_text :: "job_trigger \<Rightarrow> string"
  sl_start :: "'s \<Rightarrow> 's"
  sl_shutdown :: "'s \<Rightarrow> 's"

subsection \<open>The service\<close>

record 's service =
  sv_test_mode :: bool
  sv_timezone :: string
  sv_lib :: 's
  sv_started :: bool

text \<open>\<open>fresh\<close> builds the library's scheduler on a job store: in memory (\<open>True\<close>) or in \<open>jobs.sqlite\<close>.\<close>

definition service_init :: "(string \<Rightarrow> zone) \<Rightarrow> (bool \<Rightarrow> 's) \<Rightarrow> world \<Rightarrow> 's service res" where
  "service_init zones fresh w =
     (let test_mode = (casefold (getenv ''BENJAMIN_TEST_MODE'' [] w) \<in> {''1'', ''true'', ''yes'', ''on''});
          tz = getenv ''BENJAMIN_TIMEZONE'' ''America/New_York'' w
      in case zones tz of
           ZoneNotFound \<Rightarrow> Inl (KeyError (''No time zone found with key '' @ tz))
         | ZoneInvalid e \<Rightarrow> Inl (ValueError e)
         | Zone _ \<Rightarrow> Inr \<lparr>sv_test_mode = test_mode, sv_timezone = tz, sv_lib = fresh test_mode, sv_started = False\<rparr>)"

definition service_start :: "'s scheduler_lib \<Rightarrow> 's service \<Rightarrow> 's service" where
  "service_start lib sv =
     (if sv_test_mode sv \<or> sv_started sv then sv else sv\<lparr>sv_lib := sl_start lib (sv_lib sv), sv_started := True\<rparr>)"

definition service_shutdown :: "'s scheduler_lib \<Rightarrow> 's service \<Rightarrow> 's service" where
  "service_shutdown lib sv =
     (if sv_started sv then sv\<lparr>sv_lib := sl_shutdown lib (sv_lib sv), sv_started := False\<rparr> else sv)"

definition service_add :: "'s scheduler_lib \<Rightarrow> job \<Rightarrow> 's service \<Rightarrow> unit res \<times> 's service" where
  "service_add lib j sv = (case sl_add lib j (sv_lib sv) of (r, s) \<Rightarrow> (r, sv\<lparr>sv_lib := s\<rparr>))"

definition add_one_off ::
  "'s scheduler_lib \<Rightarrow> string \<Rightarrow> datetime \<Rightarrow> job_func \<Rightarrow> job_arg dict \<Rightarrow> 's service \<Rightarrow> unit res \<times> 's service" where
  "add_one_off lib i run_at func kwargs =
     service_add lib \<lparr>jb_id = i, jb_func = func, jb_trigger = DateTrigger run_at, jb_kwargs = kwargs\<rparr>"

definition add_cron ::
  "'s scheduler_lib \<Rightarrow> string \<Rightarrow> int \<Rightarrow> int \<Rightarrow> string \<Rightarrow> job_func \<Rightarrow> job_arg dict \<Rightarrow> 's service \<Rightarrow> unit res \<times> 's service" where
  "add_cron lib i hour minute tz func kwargs =
     service_add lib \<lparr>jb_id = i, jb_func = func, jb_trigger = CronTrigger None hour minute tz, jb_kwargs = kwargs\<rparr>"

definition remove_job :: "'s scheduler_lib \<Rightarrow> string \<Rightarrow> 's service \<Rightarrow> unit res \<times> 's service" where
  "remove_job lib i sv = (case sl_remove lib i (sv_lib sv) of (r, s) \<Rightarrow> (r, sv\<lparr>sv_lib := s\<rparr>))"

record job_info =
  ji_id :: string
  ji_next_run :: "string option"
  ji_trigger :: string
  ji_kwargs :: "job_arg dict"

fun list_infos :: "'s scheduler_lib \<Rightarrow> 's \<Rightarrow> job list \<Rightarrow> job_info list res" where
  "list_infos lib s [] = Inr []"
| "list_infos lib s (j # js) =
     (case (case sl_next_run lib s j of Inl (AttributeError _) \<Rightarrow> Inr None | r \<Rightarrow> r) of
        Inl e \<Rightarrow> Inl e
      | Inr next \<Rightarrow>
          (case list_infos lib s js of
             Inl e \<Rightarrow> Inl e
           | Inr rest \<Rightarrow> Inr (\<lparr>ji_id = jb_id j, ji_next_run = next, ji_trigger = sl_trigger_text lib (jb_trigger j),
                               ji_kwargs = jb_kwargs j\<rparr> # rest)))"

definition list_jobs :: "'s scheduler_lib \<Rightarrow> 's service \<Rightarrow> job_info list res" where
  "list_jobs lib sv = list_infos lib (sv_lib sv) (sl_jobs lib (sv_lib sv))"

subsection \<open>Times of day\<close>

definition bad_time :: "string \<Rightarrow> 'a res" where
  "bad_time s = Inl (ValueError s)"

text \<open>\<open>DailyBriefingRequest.validate_time_hhmm\<close>\<close>

definition validate_time_hhmm :: "string \<Rightarrow> string res" where
  "validate_time_hhmm value =
     (case split_char (CHR '':'') value of
        [hour_text, minute_text] \<Rightarrow>
          (if \<not> (isdigit hour_text \<and> isdigit minute_text) then bad_time ''time_hhmm must be HH:MM''
           else let hour = nat_of_digits hour_text; minute = nat_of_digits minute_text
                in if hour \<le> 23 \<and> minute \<le> 59 then Inr (pad 2 (int hour) @ '':'' @ pad 2 (int minute))
                   else bad_time ''time_hhmm must be HH:MM in 24h format'')
      | _ \<Rightarrow> bad_time ''time_hhmm must be HH:MM'')"

fun ints_of :: "string list \<Rightarrow> int list res" where
  "ints_of [] = Inr []"
| "ints_of (s # ss) =
     (case py_int s of
        None \<Rightarrow> Inl (ValueError ''invalid literal for int() with base 10'')
      | Some i \<Rightarrow> (case ints_of ss of Inl e \<Rightarrow> Inl e | Inr is \<Rightarrow> Inr (i # is)))"

text \<open>\<open>hour, minute = [int(part) for part in time_hhmm.split(":")]\<close>\<close>

definition hour_minute :: "string \<Rightarrow> (int \<times> int) res" where
  "hour_minute text =
     (case ints_of (split_char (CHR '':'') text) of
        Inl e \<Rightarrow> Inl e
      | Inr [h, m] \<Rightarrow> Inr (h, m)
      | Inr _ \<Rightarrow> Inl (ValueError ''wrong number of values to unpack''))"

text \<open>The worker reads the times of its settings leniently, and falls back on a default.\<close>

definition parse_hhmm :: "string \<Rightarrow> int \<times> int \<Rightarrow> int \<times> int" where
  "parse_hhmm value dflt =
     (case split_once (CHR '':'') value of
        [hour_raw, minute_raw] \<Rightarrow>
          (case (py_int hour_raw, py_int minute_raw) of
             (Some h, Some m) \<Rightarrow> (if 0 \<le> h \<and> h \<le> 23 \<and> 0 \<le> m \<and> m \<le> 59 then (h, m) else dflt)
           | _ \<Rightarrow> dflt)
      | _ \<Rightarrow> dflt)"

subsection \<open>The job routes\<close>

text \<open>
  \<open>isos\<close> is \<open>datetime.fromisoformat\<close> on text: the \<open>datetime\<close>, with the text \<open>isoformat\<close>
  writes of it.
\<close>

type_synonym iso_reader = "string \<Rightarrow> (datetime \<times> string) option"

definition create_reminder ::
  "'s scheduler_lib \<Rightarrow> iso_reader \<Rightarrow> string \<Rightarrow> string \<Rightarrow> string \<Rightarrow> 's service \<Rightarrow> world
     \<Rightarrow> (string \<times> string) res \<times> 's service \<times> world" where
  "create_reminder lib isos state_dir message run_at_iso sv w0 =
     (case isos run_at_iso of
        None \<Rightarrow> (Inl (HTTPException 400 ''run_at_iso must be an ISO datetime''), sv, w0)
      | Some (run_at, scheduled) \<Rightarrow>
          (let (u, w) = uuid4 w0;
               i = ''reminder:'' @ u
           in case add_one_off lib i run_at RunReminder
                     [(''message'', ArgText message), (''state_dir'', ArgText state_dir), (''job_id'', ArgText i),
                      (''scheduled_run_iso'', ArgText scheduled)] sv of
                (Inl e, sv') \<Rightarrow> (Inl e, sv', w)
              | (Inr _, sv') \<Rightarrow> (Inr (i, scheduled), sv', w)))"

definition upsert_daily_briefing ::
  "'s scheduler_lib \<Rightarrow> string \<Rightarrow> string \<Rightarrow> 's service \<Rightarrow> (string \<times> string) res \<times> 's service" where
  "upsert_daily_briefing lib state_dir time sv =
     (case hour_minute time of
        Inl e \<Rightarrow> (Inl e, sv)
      | Inr (hour, minute) \<Rightarrow>
          (case add_cron lib ''daily-briefing'' hour minute (sv_timezone sv) RunDailyBriefing
                  [(''state_dir'', ArgText state_dir), (''job_id'', ArgText ''daily-briefing'')] sv of
             (Inl e, sv') \<Rightarrow> (Inl e, sv')
           | (Inr _, sv') \<Rightarrow> (Inr (''daily-briefing'', time), sv')))"

text \<open>The route: a request that does not pass its model is refused before the handler.\<close>

definition daily_briefing_route ::
  "'s scheduler_lib \<Rightarrow> string \<Rightarrow> string \<Rightarrow> 's service \<Rightarrow> (string \<times> string) res \<times> 's service" where
  "daily_briefing_route lib state_dir value sv =
     (case validate_time_hhmm value of
        Inl e \<Rightarrow> (Inl (HTTPException 422 (exc_str e)), sv)
      | Inr time \<Rightarrow> upsert_daily_briefing lib state_dir time sv)"

definition delete_job :: "'s scheduler_lib \<Rightarrow> string \<Rightarrow> 's service \<Rightarrow> string res \<times> 's service" where
  "delete_job lib i sv =
     (case remove_job lib i sv of
        (Inl e, sv') \<Rightarrow> (Inl (HTTPException 404 (''job not found: '' @ i)), sv')
      | (Inr _, sv') \<Rightarrow> (Inr i, sv'))"

definition ui_jobs :: "'s scheduler_lib \<Rightarrow> 's service \<Rightarrow> job_info list res" where
  "ui_jobs = list_jobs"

text \<open>
  The forms call the handlers with objects of their own, so past the models: the time of a
  reminder is the current one plus some minutes, the time of the briefing the text as typed.
\<close>

definition ui_jobs_reminder ::
  "'s scheduler_lib \<Rightarrow> iso_reader \<Rightarrow> string \<Rightarrow> string \<Rightarrow> int \<Rightarrow> 's service \<Rightarrow> world
     \<Rightarrow> (string \<times> string) res \<times> 's service \<times> world" where
  "ui_jobs_reminder lib isos state_dir message mins sv w =
     create_reminder lib isos state_dir message (iso_text (w_now w + mins * 60000000)) sv w"

definition ui_jobs_briefing ::
  "'s scheduler_lib \<Rightarrow> string \<Rightarrow> string \<Rightarrow> 's service \<Rightarrow> (string \<times> string) res \<times> 's service" where
  "ui_jobs_briefing = upsert_daily_briefing"

text \<open>\<open>startup\<close> of the API process: the scheduler runs, and evaluates the rules when they are on.\<close>

definition startup :: "'s scheduler_lib \<Rightarrow> string \<Rightarrow> 's service \<Rightarrow> world \<Rightarrow> unit res \<times> 's service" where
  "startup lib state_dir sv0 w =
     (let sv = service_start lib sv0
      in if casefold (getenv ''BENJAMIN_RULES_ENABLED'' ''off'' w) \<noteq> ''on'' then (Inr (), sv)
         else case py_int (getenv ''BENJAMIN_RULES_EVERY_MINUTES'' ''5'' w) of
           None \<Rightarrow> (Inl (ValueError ''invalid literal for int() with base 10''), sv)
         | Some every \<Rightarrow>
             service_add lib \<lparr>jb_id = ''rules-evaluator'', jb_func = RunRulesEvaluation, jb_trigger = IntervalTrigger every,
               jb_kwargs = [(''state_dir'', ArgText state_dir), (''job_id'', ArgText ''rules-evaluator''),
                            (''router'', ArgObject ''notification_router''),
                            (''calendar_connector'', ArgObject ''calendar_connector''),
                            (''email_connector'', ArgObject ''email_connector'')]\<rparr> sv)"

subsection \<open>The worker\<close>

definition maintenance_enabled :: "world \<Rightarrow> bool" where
  "maintenance_enabled w \<longleftrightarrow> casefold (strip (getenv ''BENJAMIN_MAINTENANCE_ENABLED'' ''on'' w)) = ''on''"

definition doctor_job :: "string \<Rightarrow> string \<Rightarrow> world \<Rightarrow> job" where
  "doctor_job state_dir tz w =
     (let (h, m) = parse_hhmm (getenv ''BENJAMIN_DOCTOR_VALIDATE_TIME'' ''09:10'' w) (9, 10)
      in \<lparr>jb_id = ''maintenance:doctor_validate'', jb_func = RunDoctorValidate, jb_trigger = CronTrigger None h m tz,
          jb_kwargs = [(''state_dir'', ArgText state_dir), (''notifier'', ArgObject ''notification_router''),
                       (''memory_manager'', ArgObject ''memory_manager''), (''breaker_manager'', ArgObject ''breaker_manager''),
                       (''safe_mode_snapshot'', ArgFlag (is_safe_mode_enabled w))]\<rparr>)"

definition compact_job :: "string \<Rightarrow> string \<Rightarrow> world \<Rightarrow> job" where
  "compact_job state_dir tz w =
     (let (h, m) = parse_hhmm (getenv ''BENJAMIN_WEEKLY_COMPACT_TIME'' ''03:30'' w) (3, 30);
          dow = or_default (casefold (strip (getenv ''BENJAMIN_WEEKLY_COMPACT_DOW'' ''sun'' w))) ''sun''
      in \<lparr>jb_id = ''maintenance:weekly_compact'', jb_func = RunWeeklyCompact, jb_trigger = CronTrigger (Some dow) h m tz,
          jb_kwargs = [(''state_dir'', ArgText state_dir), (''notifier'', ArgObject ''notification_router''),
                       (''memory_manager'', ArgObject ''memory_manager'')]\<rparr>)"

definition schedule_maintenance_jobs :: "'s scheduler_lib \<Rightarrow> string \<Rightarrow> 's service \<Rightarrow> world \<Rightarrow> unit res \<times> 's service" where
  "schedule_maintenance_jobs lib state_dir sv w =
     (if \<not> maintenance_enabled w then (Inr (), sv)
      else case service_add lib (doctor_job state_dir (sv_timezone sv) w) sv of
        (Inl e, sv1) \<Rightarrow> (Inl e, sv1)
      | (Inr _, sv1) \<Rightarrow> service_add lib (compact_job state_dir (sv_timezone sv1) w) sv1)"

text \<open>\<open>run_forever\<close> up to its wait loop; what follows the loop is \<open>service_shutdown\<close>.\<close>

definition worker_start :: "'s scheduler_lib \<Rightarrow> string \<Rightarrow> 's service \<Rightarrow> world \<Rightarrow> unit res \<times> 's service" where
  "worker_start lib state_dir sv w =
     (case schedule_maintenance_jobs lib state_dir sv w of
        (Inl e, sv1) \<Rightarrow> (Inl e, sv1)
      | (Inr _, sv1) \<Rightarrow> (Inr (), service_start lib sv1))"

subsection \<open>Times of day are read one way\<close>

declare split_char_nonempty [simp]

lemma split_char_two:
  assumes "split_char c v = [a, b]"
  shows "v = a @ c # b \<and> c \<notin> set a \<and> c \<notin> set b"
  using assms
proof (induction v arbitrary: a)
  case (Cons x xs)
  have one: "split_char c ys = [zs] \<Longrightarrow> ys = zs \<and> c \<notin> set zs" for ys zs
    by (induction ys arbitrary: zs) (auto split: if_splits list.splits)
  from Cons show ?case by (auto dest: one split: if_splits list.splits)
qed simp

lemma split_char_sep: "c \<notin> set a \<Longrightarrow> c \<notin> set b \<Longrightarrow> split_char c (a @ c # b) = [a, b]"
  by (induction a) (auto simp: split_char_none)

lemma digit_no_sign: "is_digit c \<Longrightarrow> c \<noteq> CHR '':'' \<and> c \<noteq> CHR ''-'' \<and> c \<noteq> CHR ''+'' \<and> \<not> is_space c"
  by (auto simp: is_digit_def is_space_def Let_def)

lemma isdigit_no_colon: "isdigit s \<Longrightarrow> CHR '':'' \<notin> set s"
  using digit_no_sign by (auto simp: isdigit_def list_all_iff)

lemma strip_digits:
  assumes "isdigit s"
  shows "strip s = s"
proof -
  have "\<not> is_space (hd s)" "\<not> is_space (last s)"
    using assms digit_no_sign by (auto simp: isdigit_def list_all_iff)
  moreover have "s \<noteq> []" using assms by (simp add: isdigit_def)
  ultimately have "dropWhile is_space s = s" "dropWhile is_space (rev s) = rev s"
    by (simp_all add: dropWhile_eq_self_iff hd_rev)
  then show ?thesis by (simp add: strip_def lstrip_def rstrip_def)
qed

lemma py_int_digits: "isdigit s \<Longrightarrow> py_int s = Some (int (nat_of_digits s))"
  using digit_no_sign [of "hd s"] take_digits_all [of s]
  by (cases s) (auto simp: py_int_def take_sign_def strip_digits isdigit_def)

lemma nat_of_digits_zeros: "nat_of_digits (replicate k (CHR ''0'') @ s) = nat_of_digits s"
  by (induction k) (simp_all add: nat_of_digits_def digit_val_def)

lemma pad_value: "isdigit (pad k (int n)) \<and> nat_of_digits (pad k (int n)) = n"
  using isdigit_show_nat [of n]
  by (auto simp: pad_def nat_of_digits_zeros isdigit_def list_all_iff is_digit_def)

lemma pad_length: "n < 100 \<Longrightarrow> length (pad 2 (int n)) = 2"
  by (cases "n < 10") (auto simp: pad_def show_nat.simps [of n] show_nat.simps [of "n div 10"])

text \<open>The text of a time of day.\<close>

definition hhmm :: "nat \<Rightarrow> nat \<Rightarrow> string" where
  "hhmm h m = pad 2 (int h) @ CHR '':'' # pad 2 (int m)"

lemma validate_digits:
  assumes "isdigit a" and "isdigit b" and "nat_of_digits a \<le> 23" and "nat_of_digits b \<le> 59"
  shows "validate_time_hhmm (a @ CHR '':'' # b) = Inr (hhmm (nat_of_digits a) (nat_of_digits b))"
    and "hour_minute (a @ CHR '':'' # b) = Inr (int (nat_of_digits a), int (nat_of_digits b))"
    and "parse_hhmm (a @ CHR '':'' # b) d = (int (nat_of_digits a), int (nat_of_digits b))"
  using assms
  by (simp_all add: validate_time_hhmm_def hour_minute_def parse_hhmm_def split_char_sep isdigit_no_colon hhmm_def py_int_digits
    split_once_append)

lemma validate_cases:
  assumes "validate_time_hhmm v = Inr t"
  obtains a b where "v = a @ CHR '':'' # b" "isdigit a" "isdigit b" "nat_of_digits a \<le> 23" "nat_of_digits b \<le> 59"
proof -
  obtain a b where "split_char (CHR '':'') v = [a, b]"
    using assms by (auto simp: validate_time_hhmm_def bad_time_def split: list.splits)
  with assms split_char_two [OF this] that show ?thesis
    by (auto simp: validate_time_hhmm_def bad_time_def Let_def split: if_splits)
qed

text \<open>
  C25. A time of day the model of the request accepts is one every reader agrees on: it is
  normalised to five characters, accepting that text again changes nothing, and the route and
  the worker read the hour and the minute that were sent, which are within a day.
\<close>

theorem time_of_day_agrees:
  assumes "validate_time_hhmm v = Inr t"
  shows "\<exists>h m. h \<le> 23 \<and> m \<le> 59 \<and> t = hhmm h m \<and> length t = 5 \<and> validate_time_hhmm t = Inr t
    \<and> hour_minute v = Inr (int h, int m) \<and> hour_minute t = Inr (int h, int m) \<and> parse_hhmm t d = (int h, int m)"
proof -
  obtain a b where v: "v = a @ CHR '':'' # b" "isdigit a" "isdigit b" and r: "nat_of_digits a \<le> 23" "nat_of_digits b \<le> 59"
    using assms by (rule validate_cases)
  let ?h = "nat_of_digits a" and ?m = "nat_of_digits b"
  note va = validate_digits [OF v(2,3) r, folded v(1)]
  have "isdigit (pad 2 (int ?h))" "isdigit (pad 2 (int ?m))" "nat_of_digits (pad 2 (int ?h)) = ?h" "nat_of_digits (pad 2 (int ?m)) = ?m"
    using pad_value by blast+
  then have "validate_time_hhmm (hhmm ?h ?m) = Inr (hhmm ?h ?m)" "hour_minute (hhmm ?h ?m) = Inr (int ?h, int ?m)"
      "parse_hhmm (hhmm ?h ?m) d = (int ?h, int ?m)"
    using validate_digits [of "pad 2 (int ?h)" "pad 2 (int ?m)"] r unfolding hhmm_def by simp_all
  moreover have "length (hhmm ?h ?m) = 5" using r by (simp add: hhmm_def pad_length)
  ultimately show ?thesis using va assms r by auto
qed

theorem time_of_day_agrees_witness:
  "validate_time_hhmm ''7:5'' = Inr ''07:05'' \<and> (\<exists>h m. ''07:05'' = hhmm h m \<and> hour_minute ''7:5'' = Inr (int h, int m))"
proof -
  have t: "validate_time_hhmm ''7:5'' = Inr ''07:05''" by code_simp
  then show ?thesis using time_of_day_agrees [OF t] by blast
qed

text \<open>
  The form of the page calls the handler past the model: a text without minutes, which the
  route refuses with 422, fails inside the handler, and an hour 25 reaches the library.
\<close>

theorem briefing_form_not_validated:
  "fst (daily_briefing_route lib dir ''8'' sv) = Inl (HTTPException 422 ''time_hhmm must be HH:MM'')
   \<and> fst (ui_jobs_briefing lib dir ''8'' sv) = Inl (ValueError ''wrong number of values to unpack'')
   \<and> fst (daily_briefing_route lib dir ''25:00'' sv) = Inl (HTTPException 422 ''time_hhmm must be HH:MM in 24h format'')
   \<and> snd (ui_jobs_briefing lib dir ''25:00'' sv) = snd (add_cron lib ''daily-briefing'' 25 0 (sv_timezone sv) RunDailyBriefing
        [(''state_dir'', ArgText dir), (''job_id'', ArgText ''daily-briefing'')] sv)"
proof -
  have "validate_time_hhmm ''8'' = bad_time ''time_hhmm must be HH:MM''" by code_simp
  moreover have "hour_minute ''8'' = Inl (ValueError ''wrong number of values to unpack'')" by code_simp
  moreover have "validate_time_hhmm ''25:00'' = bad_time ''time_hhmm must be HH:MM in 24h format''" by code_simp
  moreover have "hour_minute ''25:00'' = Inr (25, 0)" by code_simp
  ultimately show ?thesis
    by (simp add: daily_briefing_route_def ui_jobs_briefing_def upsert_daily_briefing_def bad_time_def split: prod.split sum.split)
qed

subsection \<open>What the library promises, and what the routes make of it\<close>

definition job_of :: "'s scheduler_lib \<Rightarrow> 's \<Rightarrow> string \<Rightarrow> job option" where
  "job_of lib s i = find (\<lambda>j. jb_id j = i) (sl_jobs lib s)"

definition WEEKDAYS :: "string list" where
  "WEEKDAYS = [''mon'', ''tue'', ''wed'', ''thu'', ''fri'', ''sat'', ''sun'']"

definition time_ok :: "int \<Rightarrow> int \<Rightarrow> bool" where
  "time_ok h m \<longleftrightarrow> 0 \<le> h \<and> h \<le> 23 \<and> 0 \<le> m \<and> m \<le> 59"

text \<open>Triggers the library certainly takes, and times it certainly refuses.\<close>

fun taken :: "job_trigger \<Rightarrow> bool" where
  "taken (DateTrigger d) = True"
| "taken (CronTrigger day h m tz) = (time_ok h m \<and> (case day of None \<Rightarrow> True | Some d \<Rightarrow> d \<in> set WEEKDAYS))"
| "taken (IntervalTrigger n) = (0 < n)"

fun off_clock :: "job_trigger \<Rightarrow> bool" where
  "off_clock (CronTrigger day h m tz) = (\<not> time_ok h m)"
| "off_clock _ = False"

text \<open>
  The documented behaviour of a running scheduler: a job is stored under its identifier, in
  place of an earlier one; a time outside the day is refused; a job that is there can be
  removed, and removing another raises.
\<close>

definition keeps_jobs :: "'s scheduler_lib \<Rightarrow> ('s \<Rightarrow> bool) \<Rightarrow> bool" where
  "keeps_jobs lib running \<longleftrightarrow>
     (\<forall>s j. running s \<longrightarrow> running (snd (sl_add lib j s))
        \<and> (taken (jb_trigger j) \<longrightarrow>
             fst (sl_add lib j s) = Inr () \<and> job_of lib (snd (sl_add lib j s)) = (job_of lib s)(jb_id j \<mapsto> j))
        \<and> (off_clock (jb_trigger j) \<longrightarrow> isl (fst (sl_add lib j s)) \<and> job_of lib (snd (sl_add lib j s)) = job_of lib s))
     \<and> (\<forall>s i. running s \<longrightarrow> running (snd (sl_remove lib i s))
        \<and> (isl (fst (sl_remove lib i s)) \<longleftrightarrow> job_of lib s i = None)
        \<and> job_of lib (snd (sl_remove lib i s)) = (job_of lib s)(i := None))"

text \<open>A scheduler of this kind: the list of its jobs.\<close>

definition table_lib :: "job list scheduler_lib" where
  "table_lib =
     \<lparr>sl_add = (\<lambda>j s. if off_clock (jb_trigger j) then (Inl (ValueError ''time''), s)
                      else (Inr (), upsert_first (\<lambda>x. jb_id x = jb_id j) j s)),
      sl_remove = (\<lambda>i s. if find (\<lambda>j. jb_id j = i) s = None then (Inl (KeyError i), s)
                         else (Inr (), filter (\<lambda>j. jb_id j \<noteq> i) s)),
      sl_jobs = (\<lambda>s. s), sl_next_run = (\<lambda>s j. Inr None), sl_trigger_text = (\<lambda>t. []),
      sl_start = (\<lambda>s. s), sl_shutdown = (\<lambda>s. s)\<rparr>"

lemma table_lib_keeps: "keeps_jobs table_lib (\<lambda>s. True)"
proof -
  have "off_clock t \<Longrightarrow> \<not> taken t" for t by (cases t) auto
  then show ?thesis
    unfolding keeps_jobs_def
    by (auto simp: table_lib_def job_of_def fun_eq_iff find_upsert_first_same find_upsert_first_other
        find_filter_same find_filter_other)
qed

lemma service_add_keeps:
  assumes "keeps_jobs lib running" and "running (sv_lib sv)" and "taken (jb_trigger j)"
  shows "\<exists>s. service_add lib j sv = (Inr (), sv\<lparr>sv_lib := s\<rparr>) \<and> running s \<and> job_of lib s = (job_of lib (sv_lib sv))(jb_id j \<mapsto> j)"
  using assms unfolding keeps_jobs_def service_add_def
  by (cases "sl_add lib j (sv_lib sv)") (metis case_prod_conv fst_conv snd_conv)

lemma keeps_remove:
  assumes "keeps_jobs lib running" and "running s"
  shows "isl (fst (sl_remove lib i s)) \<longleftrightarrow> job_of lib s i = None"
    and "job_of lib (snd (sl_remove lib i s)) = (job_of lib s)(i := None)"
  using assms unfolding keeps_jobs_def by blast+

lemma delete_job_keeps:
  assumes "keeps_jobs lib running" and "running (sv_lib sv)"
  shows "job_of lib (sv_lib (snd (delete_job lib k sv))) = (job_of lib (sv_lib sv))(k := None)
    \<and> fst (delete_job lib k sv) = (if job_of lib (sv_lib sv) k = None then Inl (HTTPException 404 (''job not found: '' @ k)) else Inr k)"
  using keeps_remove [OF assms, of k]
  by (cases "sl_remove lib k (sv_lib sv)"; cases "fst (sl_remove lib k (sv_lib sv))")
    (auto simp: delete_job_def remove_job_def)

definition briefing_job :: "string \<Rightarrow> int \<Rightarrow> int \<Rightarrow> string \<Rightarrow> job" where
  "briefing_job dir h m tz =
     \<lparr>jb_id = ''daily-briefing'', jb_func = RunDailyBriefing, jb_trigger = CronTrigger None h m tz,
      jb_kwargs = [(''state_dir'', ArgText dir), (''job_id'', ArgText ''daily-briefing'')]\<rparr>"

text \<open>
  The briefing route either refuses the time and leaves the scheduler alone, or there is
  exactly one briefing afterwards, at the time sent, in the zone of the service, in place of
  an earlier one; other jobs stay as they are. Deleting a job removes it alone, and answers
  404 when there is none.
\<close>

theorem job_routes_keep_table:
  assumes "keeps_jobs lib running" and "running (sv_lib sv)"
  shows "(case daily_briefing_route lib dir hm sv of
        (Inl e, sv') \<Rightarrow> sv' = sv \<and> isl (validate_time_hhmm hm)
      | (Inr (i, t), sv') \<Rightarrow> i = ''daily-briefing'' \<and> validate_time_hhmm hm = Inr t
          \<and> (\<exists>h m. hour_minute hm = Inr (h, m) \<and> time_ok h m
               \<and> job_of lib (sv_lib sv') = (job_of lib (sv_lib sv))(''daily-briefing'' \<mapsto> briefing_job dir h m (sv_timezone sv))))
    \<and> job_of lib (sv_lib (snd (delete_job lib k sv))) = (job_of lib (sv_lib sv))(k := None)
    \<and> fst (delete_job lib k sv) = (if job_of lib (sv_lib sv) k = None then Inl (HTTPException 404 (''job not found: '' @ k)) else Inr k)"
proof (rule conjI [OF _ delete_job_keeps [OF assms]])
  show "case daily_briefing_route lib dir hm sv of
        (Inl e, sv') \<Rightarrow> sv' = sv \<and> isl (validate_time_hhmm hm)
      | (Inr (i, t), sv') \<Rightarrow> i = ''daily-briefing'' \<and> validate_time_hhmm hm = Inr t
          \<and> (\<exists>h m. hour_minute hm = Inr (h, m) \<and> time_ok h m
               \<and> job_of lib (sv_lib sv') = (job_of lib (sv_lib sv))(''daily-briefing'' \<mapsto> briefing_job dir h m (sv_timezone sv)))"
  proof (cases "validate_time_hhmm hm")
    case (Inr t)
    obtain a b where v: "hm = a @ CHR '':'' # b" "isdigit a" "isdigit b" and r: "nat_of_digits a \<le> 23" "nat_of_digits b \<le> 59"
      using Inr by (rule validate_cases)
    let ?h = "nat_of_digits a" and ?m = "nat_of_digits b"
    let ?j = "briefing_job dir (int ?h) (int ?m) (sv_timezone sv)"
    note va = validate_digits [OF v(2,3) r, folded v(1)]
    have "hour_minute t = Inr (int ?h, int ?m)"
      using validate_digits(2) [of "pad 2 (int ?h)" "pad 2 (int ?m)"] pad_value r Inr va(1) by (simp add: hhmm_def)
    moreover have "taken (jb_trigger ?j)" using r by (simp add: briefing_job_def time_ok_def)
    then obtain s where "service_add lib ?j sv = (Inr (), sv\<lparr>sv_lib := s\<rparr>)"
        "job_of lib s = (job_of lib (sv_lib sv))(''daily-briefing'' \<mapsto> ?j)"
      using service_add_keeps [OF assms] by (metis briefing_job_def job.select_convs(1))
    ultimately have "daily_briefing_route lib dir hm sv = (Inr (''daily-briefing'', t), sv\<lparr>sv_lib := s\<rparr>)"
      using Inr by (simp add: daily_briefing_route_def upsert_daily_briefing_def add_cron_def briefing_job_def)
    then show ?thesis using Inr va \<open>job_of lib s = _\<close> r by (auto simp: time_ok_def)
  qed (simp add: daily_briefing_route_def)
qed

definition demo_service :: "job list service" where
  "demo_service = \<lparr>sv_test_mode = False, sv_timezone = ''UTC'', sv_lib = [briefing_job ''/s'' 7 30 ''UTC''], sv_started = True\<rparr>"

theorem job_routes_keep_table_witness:
  "case daily_briefing_route table_lib ''/s'' ''8:00'' demo_service of
      (Inl e, _) \<Rightarrow> False
    | (Inr (i, t), sv') \<Rightarrow> t = ''08:00'' \<and> (\<exists>h m. job_of table_lib (sv_lib sv') ''daily-briefing'' = Some (briefing_job ''/s'' h m ''UTC''))"
proof -
  have v: "validate_time_hhmm ''8:00'' = Inr ''08:00''" by code_simp
  show ?thesis
    using job_routes_keep_table [where sv = demo_service and dir = "''/s''" and hm = "''8:00''" and k = "''x''", OF table_lib_keeps] v
    by (auto simp: demo_service_def split: prod.splits sum.splits) blast
qed

subsection \<open>A reminder from the route to the channel\<close>

text \<open>What the scheduler calls when a reminder is due: the function of the job with its arguments.\<close>

definition fire :: "job_env \<Rightarrow> notifier \<Rightarrow> job \<Rightarrow> world \<Rightarrow> unit res \<times> world" where
  "fire je notify j w =
     (case (map_of (jb_kwargs j) ''message'', map_of (jb_kwargs j) ''job_id'', map_of (jb_kwargs j) ''scheduled_run_iso'') of
        (Some (ArgText message), Some (ArgText i), Some (ArgText t)) \<Rightarrow> run_reminder je notify message (Some i) (Some t) w
      | _ \<Rightarrow> (Inl (TypeError ''missing argument''), w))"

text \<open>
  C24. A reminder that was accepted is in the scheduler at its time, next to the other jobs,
  and it is sent at most once: after a run of its job that returned, however often the
  scheduler runs it again, nothing is sent and ledger and approvals stay the same.
\<close>

theorem accepted_reminder_sent_once:
  assumes "keeps_jobs lib running" and "running (sv_lib sv)"
    and "create_reminder lib isos dir message at_iso sv w = (Inr (i, t), sv', w')"
  shows "\<exists>j run_at. isos at_iso = Some (run_at, t)
    \<and> job_of lib (sv_lib sv') = (job_of lib (sv_lib sv))(i \<mapsto> j)
    \<and> jb_func j = RunReminder \<and> jb_trigger j = DateTrigger run_at
    \<and> (\<forall>u v n. fire je notify j u = (Inr (), v) \<longrightarrow> unsent v (((\<lambda>x. snd (fire je notify j x)) ^^ n) v))"
proof -
  obtain run_at t' where isos: "isos at_iso = Some (run_at, t')"
    using assms(3) by (cases "isos at_iso") (auto simp: create_reminder_def)
  let ?i = "''reminder:'' @ fst (uuid4 w)"
  let ?j = "\<lparr>jb_id = ?i, jb_func = RunReminder, jb_trigger = DateTrigger run_at,
      jb_kwargs = [(''message'', ArgText message), (''state_dir'', ArgText dir), (''job_id'', ArgText ?i), (''scheduled_run_iso'', ArgText t')]\<rparr>"
  obtain s where s: "service_add lib ?j sv = (Inr (), sv\<lparr>sv_lib := s\<rparr>)" "job_of lib s = (job_of lib (sv_lib sv))(?i \<mapsto> ?j)"
    using service_add_keeps [OF assms(1,2), of ?j] by auto
  have "i = ?i" "t = t'" "sv' = sv\<lparr>sv_lib := s\<rparr>"
    using assms(3) isos s(1) by (auto simp: create_reminder_def add_one_off_def split_def Let_def)
  moreover have "fire je notify ?j = run_reminder je notify message (Some ?i) (Some t')" by (simp add: fire_def fun_eq_iff)
  ultimately show ?thesis
    using isos s(2) reminder.once [of je notify message "Some ?i" "Some t'"]
    by (intro exI [of _ ?j] exI [of _ run_at]) simp
qed

theorem accepted_reminder_sent_once_witness:
  "\<exists>j. job_of table_lib (sv_lib (fst (snd (create_reminder table_lib (\<lambda>s. Some (Aware 60, s)) ''/s'' ''tea'' ''t'' demo_service (empty_world 0)))))
        ''reminder:id-0'' = Some j \<and> jb_trigger j = DateTrigger (Aware 60)"
proof -
  let ?r = "create_reminder table_lib (\<lambda>s. Some (Aware 60, s)) ''/s'' ''tea'' ''t'' demo_service (empty_world 0)"
  have "fst ?r = Inr (''reminder:id-0'', ''t'')" by code_simp
  then have "?r = (Inr (''reminder:id-0'', ''t''), fst (snd ?r), snd (snd ?r))" by (metis prod.collapse)
  from accepted_reminder_sent_once [where je = demo_job and notify = to_outbox, OF table_lib_keeps _ this]
  obtain j where "job_of table_lib (sv_lib (fst (snd ?r))) = (job_of table_lib (sv_lib demo_service))(''reminder:id-0'' \<mapsto> j)"
      "jb_trigger j = DateTrigger (Aware 60)"
    by auto
  then show ?thesis by simp
qed

subsection \<open>The worker's jobs\<close>

lemma parse_hhmm_ok:
  assumes "time_ok h m"
  shows "time_ok (fst (parse_hhmm v (h, m))) (snd (parse_hhmm v (h, m)))"
proof -
  have "parse_hhmm v (h, m) = (h, m) \<or> time_ok (fst (parse_hhmm v (h, m))) (snd (parse_hhmm v (h, m)))"
    by (auto simp: parse_hhmm_def time_ok_def split: list.splits option.splits)
  then show ?thesis using assms by auto
qed

text \<open>
  Whatever the settings of the times hold, the worker enters its two maintenance jobs, at
  times within a day, next to the jobs that are there, when the day of the compaction is a day
  of the week.
\<close>

theorem maintenance_always_scheduled:
  assumes "keeps_jobs lib running" and "running (sv_lib sv)" and "maintenance_enabled w"
    and "or_default (casefold (strip (getenv ''BENJAMIN_WEEKLY_COMPACT_DOW'' ''sun'' w))) ''sun'' \<in> set WEEKDAYS"
  shows "\<exists>sv'. schedule_maintenance_jobs lib dir sv w = (Inr (), sv')
    \<and> taken (jb_trigger (doctor_job dir (sv_timezone sv) w)) \<and> taken (jb_trigger (compact_job dir (sv_timezone sv) w))
    \<and> job_of lib (sv_lib sv') = (job_of lib (sv_lib sv))
         (''maintenance:doctor_validate'' \<mapsto> doctor_job dir (sv_timezone sv) w,
          ''maintenance:weekly_compact'' \<mapsto> compact_job dir (sv_timezone sv) w)"
proof -
  have times: "time_ok 9 10" "time_ok 3 30" by (simp_all add: time_ok_def)
  have d: "taken (jb_trigger (doctor_job dir (sv_timezone sv) w))" "jb_id (doctor_job dir (sv_timezone sv) w) = ''maintenance:doctor_validate''"
    using parse_hhmm_ok [OF times(1)] by (simp_all add: doctor_job_def split_def Let_def)
  have c: "taken (jb_trigger (compact_job dir (sv_timezone sv) w))" "jb_id (compact_job dir (sv_timezone sv) w) = ''maintenance:weekly_compact''"
    using parse_hhmm_ok [OF times(2)] assms(4) by (simp_all add: compact_job_def split_def Let_def)
  obtain s where s: "service_add lib (doctor_job dir (sv_timezone sv) w) sv = (Inr (), sv\<lparr>sv_lib := s\<rparr>)" "running s"
      "job_of lib s = (job_of lib (sv_lib sv))(''maintenance:doctor_validate'' \<mapsto> doctor_job dir (sv_timezone sv) w)"
    using service_add_keeps [OF assms(1,2) d(1)] d(2) by auto
  obtain s2 where s2: "service_add lib (compact_job dir (sv_timezone sv) w) (sv\<lparr>sv_lib := s\<rparr>) = (Inr (), sv\<lparr>sv_lib := s2\<rparr>)"
      "job_of lib s2 = (job_of lib s)(''maintenance:weekly_compact'' \<mapsto> compact_job dir (sv_timezone sv) w)"
    using service_add_keeps [OF assms(1) _ c(1), of "sv\<lparr>sv_lib := s\<rparr>"] c(2) s(2) by auto
  then show ?thesis using s d c assms(3) by (simp add: schedule_maintenance_jobs_def)
qed

definition odd_times :: world where
  "odd_times = (empty_world 0)\<lparr>w_env := [''BENJAMIN_DOCTOR_VALIDATE_TIME'' \<mapsto> ''25:00'', ''BENJAMIN_WEEKLY_COMPACT_TIME'' \<mapsto> ''noon'']\<rparr>"

theorem maintenance_always_scheduled_witness:
  "\<exists>sv'. schedule_maintenance_jobs table_lib ''/s'' demo_service odd_times = (Inr (), sv')
     \<and> job_of table_lib (sv_lib sv') ''maintenance:doctor_validate'' = Some (doctor_job ''/s'' ''UTC'' odd_times)"
proof -
  have e: "maintenance_enabled odd_times" by code_simp
  have d: "or_default (casefold (strip (getenv ''BENJAMIN_WEEKLY_COMPACT_DOW'' ''sun'' odd_times))) ''sun'' \<in> set WEEKDAYS" by code_simp
  from maintenance_always_scheduled [where sv = demo_service and dir = "''/s''", OF table_lib_keeps _ e d]
  show ?thesis by (auto simp: demo_service_def)
qed

text \<open>
  Switching maintenance off does not take the jobs away: a worker that starts with it off
  leaves the ones of an earlier start in the store.
\<close>

lemma maintenance_off_keeps_jobs:
  "\<not> maintenance_enabled w \<Longrightarrow> schedule_maintenance_jobs lib dir sv w = (Inr (), sv)"
  by (simp add: schedule_maintenance_jobs_def)

text \<open>
  The argument of the scheduled validation is fixed when the worker starts: changing safe mode
  later does not change what the job reports.
\<close>

lemma safe_mode_snapshot_fixed:
  "map_of (jb_kwargs (doctor_job dir tz w)) ''safe_mode_snapshot'' = Some (ArgFlag (is_safe_mode_enabled w))"
  by (simp add: doctor_job_def split_def Let_def)

end
