(* ===== verification/Health.thy ===== *)
theory Health
  imports Access Llm Cache Schedule
begin

section \<open>Health report and environment check\<close>

text \<open>
  \<open>healthz_full\<close> of \<open>apps/api/main.py\<close> with its helpers, and \<open>scripts/check.py\<close>, which
  examines the environment before the server is started. What the process finds around it
  (the home directory, which files exist, whether the state directory can be written, the
  connectors that were built) is a parameter; the version numbers and the two parts of the
  report that are copied from elsewhere (breakers and maintenance status) are left out.
\<close>

subsection \<open>Settings and paths\<close>

record process =
  pr_home :: string
  pr_expand :: "string \<Rightarrow> string" \<comment> \<open>\<open>Path(...).expanduser()\<close>\<close>
  pr_exists :: "string \<Rightarrow> bool"
  pr_writable :: "string \<Rightarrow> string option" \<comment> \<open>creating and writing a file there: \<open>None\<close>, or what was raised\<close>
  pr_calendar_ready :: bool
  pr_email_ready :: bool

definition is_on :: "string \<Rightarrow> string \<Rightarrow> world \<Rightarrow> bool" where
  "is_on name dflt w \<longleftrightarrow> casefold (strip (getenv name dflt w)) = ''on''"

definition state_dir_path :: "process \<Rightarrow> world \<Rightarrow> string" where
  "state_dir_path pr w =
     (let configured = getenv ''BENJAMIN_STATE_DIR'' [] w
      in if configured \<noteq> [] then pr_expand pr configured else pr_home pr @ ''/.benjamin'')"

definition health_token_path :: "process \<Rightarrow> string \<Rightarrow> world \<Rightarrow> string" where
  "health_token_path pr dir w =
     (let configured = getenv ''BENJAMIN_GOOGLE_TOKEN_PATH'' [] w
      in if configured \<noteq> [] then pr_expand pr configured else dir @ ''/google_token.json'')"

definition state_dir_writable :: "process \<Rightarrow> string \<Rightarrow> bool" where
  "state_dir_writable pr dir \<longleftrightarrow> pr_writable pr dir = None"

definition COMPLETIONS :: string where
  "COMPLETIONS = ''/v1/chat/completions''"

definition strip_slashes :: "string \<Rightarrow> string" where
  \<comment> \<open>\<open>url.rstrip("/")\<close>\<close>
  "strip_slashes s = rev (dropWhile (\<lambda>c. c = CHR ''/'') (rev s))"

definition base_of :: "string \<Rightarrow> string" where
  "base_of url = (if endswith url COMPLETIONS then take (length url - length COMPLETIONS) url else strip_slashes url)"

definition default_llm_url :: string where
  "default_llm_url = ''http://127.0.0.1:8001/v1/chat/completions''"

definition llm_base_url :: "string \<Rightarrow> world \<Rightarrow> string" where
  "llm_base_url provider w =
     (if provider = ''vllm'' then base_of (getenv ''BENJAMIN_VLLM_URL'' default_llm_url w)
      else if provider = ''http'' then
        base_of (getenv ''BENJAMIN_HTTP_URL'' (getenv ''BENJAMIN_VLLM_URL'' default_llm_url w) w)
      else [])"

subsection \<open>The ping of the model server\<close>

definition llm_reachable_uncached :: "server \<Rightarrow> (nat \<Rightarrow> nat) \<Rightarrow> world \<Rightarrow> string \<Rightarrow> world \<Rightarrow> bool res \<times> world" where
  "llm_reachable_uncached send jit env provider w =
     (if provider \<notin> {''vllm'', ''http''} \<or> llm_base_url provider env = [] then (Inr False, w)
      else case request_with_retry send jit env ''GET'' (llm_base_url provider env @ ''/v1/models'') None JNull (Some (Num 1 0)) (Some 0)
                  (Some {200}) True None w of
        (Inl (RuntimeError _), w') \<Rightarrow> (Inr False, w')
      | (Inl e, w') \<Rightarrow> (Inl e, w')
      | (Inr (status, _), w') \<Rightarrow> (Inr (status = 200), w'))"

definition ping_key :: "string \<Rightarrow> string \<Rightarrow> string" where
  "ping_key provider url = ''llm_ping:'' @ provider @ '':'' @ url"

definition llm_reachable ::
  "server \<Rightarrow> (nat \<Rightarrow> nat) \<Rightarrow> (world \<Rightarrow> int) \<Rightarrow> string \<Rightarrow> bool ttl_cache \<Rightarrow> world \<Rightarrow> bool res \<times> bool ttl_cache \<times> world" where
  "llm_reachable send jit clock provider cache w =
     (if llm_base_url provider w = [] then (Inr False, cache, w)
      else case py_int (getenv ''BENJAMIN_PING_CACHE_TTL_S'' ''10'' w) of
        None \<Rightarrow> (Inl (ValueError ''invalid literal for int() with base 10''), cache, w)
      | Some ttl \<Rightarrow>
          ttl_get_or_set clock (ping_key provider (llm_base_url provider w)) ttl (llm_reachable_uncached send jit w provider) w cache)"

subsection \<open>The report\<close>

record health =
  hl_ok :: bool
  hl_state_dir :: "string \<times> bool"
  hl_auth :: "string \<times> bool"
  hl_llm :: "string \<times> string \<times> bool"
  hl_features :: "(string \<times> bool) list"
  hl_google :: "bool \<times> bool"
  hl_ready :: "bool \<times> bool"
  hl_safe_mode :: bool
  hl_scheduler :: "bool \<times> bool"

definition llm_features :: "world \<Rightarrow> (string \<times> bool) list" where
  "llm_features w =
     [(''planner'', feature_enabled ''BENJAMIN_LLM_PLANNER'' w), (''summarizer'', feature_enabled ''BENJAMIN_LLM_SUMMARIZER'' w),
      (''drafter'', feature_enabled ''BENJAMIN_LLM_DRAFTER'' w), (''rule_builder'', feature_enabled ''BENJAMIN_LLM_RULE_BUILDER'' w),
      (''retrieval'', feature_enabled ''BENJAMIN_LLM_RETRIEVAL'' w)]"

text \<open>\<open>infos\<close> is what the scheduler lists.\<close>

definition report ::
  "process \<Rightarrow> job_info list \<Rightarrow> bool \<Rightarrow> world \<Rightarrow> health" where
  "report pr infos reachable w =
     (let provider = casefold (strip (getenv ''BENJAMIN_LLM_PROVIDER'' ''off'' w));
          dir = state_dir_path pr w;
          google = is_on ''BENJAMIN_GOOGLE_ENABLED'' ''off'' w;
          token = pr_exists pr (health_token_path pr dir w);
          mode = casefold (strip (getenv ''BENJAMIN_AUTH_MODE'' ''token'' w));
          enabled = (mode \<noteq> ''off'');
          writable = state_dir_writable pr dir
      in \<lparr>hl_ok = (\<not> (enabled \<and> getenv ''BENJAMIN_AUTH_TOKEN'' [] w = []) \<and> writable \<and> \<not> (google \<and> \<not> token)),
          hl_state_dir = (dir, writable), hl_auth = (mode, enabled),
          hl_llm = (provider, llm_base_url provider w, reachable), hl_features = llm_features w,
          hl_google = (google, token), hl_ready = (pr_calendar_ready pr, pr_email_ready pr),
          hl_safe_mode = is_safe_mode_enabled w,
          hl_scheduler = (is_on ''BENJAMIN_RULES_ENABLED'' ''off'' w, \<exists>i\<in>set infos. ji_id i = ''daily-briefing'')\<rparr>)"

definition healthz_full ::
  "server \<Rightarrow> (nat \<Rightarrow> nat) \<Rightarrow> (world \<Rightarrow> int) \<Rightarrow> process \<Rightarrow> job_info list \<Rightarrow> bool ttl_cache \<Rightarrow> world \<Rightarrow> health res \<times> bool ttl_cache \<times> world" where
  "healthz_full send jit clock pr infos cache w =
     (case llm_reachable send jit clock (casefold (strip (getenv ''BENJAMIN_LLM_PROVIDER'' ''off'' w))) cache w of
        (Inl e, cache', w') \<Rightarrow> (Inl e, cache', w')
      | (Inr reachable, cache', w') \<Rightarrow> (Inr (report pr infos reachable w), cache', w'))"

subsection \<open>The environment check\<close>

text \<open>
  What the interpreter and the network answer the script: its version is new enough, the
  package can be imported (\<open>None\<close>), and the two requests to the model server: a status, or
  what was raised.
\<close>

record surroundings =
  su_python_ok :: bool
  su_import :: "string option"
  su_get :: "string \<Rightarrow> nat + string"
  su_post :: "string \<Rightarrow> nat + string"

definition base_vllm_url :: "world \<Rightarrow> string" where
  "base_vllm_url w = base_of (strip (getenv ''BENJAMIN_VLLM_URL'' default_llm_url w))"

definition check_vllm :: "surroundings \<Rightarrow> string \<Rightarrow> bool \<times> string" where
  "check_vllm su url =
     (let models = url @ ''/v1/models''; chat = url @ COMPLETIONS;
          second = (case su_post su chat of
              Inl status \<Rightarrow> (if 200 \<le> status \<and> status < 500 then (True, ''reachable via POST '' @ chat) else (False, ''unknown error''))
            | Inr e \<Rightarrow> (False, e))
      in case su_get su models of
           Inl status \<Rightarrow> (if 200 \<le> status \<and> status < 500 then (True, ''reachable via GET '' @ models) else second)
         | Inr _ \<Rightarrow> second)"

definition auth_errors :: "world \<Rightarrow> string list" where
  "auth_errors w =
     (if casefold (strip (getenv ''BENJAMIN_AUTH_MODE'' ''token'' w)) \<noteq> ''off'' \<and> getenv ''BENJAMIN_AUTH_TOKEN'' [] w = []
      then [''Auth is enabled but BENJAMIN_AUTH_TOKEN is missing.''] else [])"

definition state_dir_errors :: "process \<Rightarrow> world \<Rightarrow> string list" where
  "state_dir_errors pr w =
     (let dir = state_dir_path pr w
      in case pr_writable pr dir of None \<Rightarrow> [] | Some e \<Rightarrow> [''BENJAMIN_STATE_DIR is not writable ('' @ dir @ ''): '' @ e])"

definition google_errors :: "process \<Rightarrow> world \<Rightarrow> string list" where
  "google_errors pr w =
     (let token_path = health_token_path pr (state_dir_path pr w) w
      in if is_on ''BENJAMIN_GOOGLE_ENABLED'' ''off'' w \<and> \<not> pr_exists pr token_path
         then [''Google integrations are enabled but token file is missing at '' @ token_path] else [])"

definition llm_errors :: "surroundings \<Rightarrow> world \<Rightarrow> string list" where
  "llm_errors su w =
     (let url = base_vllm_url w; (reachable, detail) = check_vllm su url
      in if casefold (strip (getenv ''BENJAMIN_LLM_PROVIDER'' ''off'' w)) = ''vllm'' \<and> \<not> reachable
         then [''vLLM provider enabled but endpoint is unreachable ('' @ url @ ''): '' @ detail] else [])"

definition worker_errors :: "(string \<Rightarrow> zone) \<Rightarrow> world \<Rightarrow> string list" where
  "worker_errors zones w =
     (if casefold (strip (getenv ''BENJAMIN_DEV_EXPECT_WORKER'' ''on'' w)) \<in> {''off'', ''0'', ''false'', ''no''} then []
      else case service_init zones (\<lambda>_. ()) w of
        Inl e \<Rightarrow> [''Worker scheduler failed to initialize: '' @ exc_str e] | Inr _ \<Rightarrow> [])"

definition check_errors :: "surroundings \<Rightarrow> process \<Rightarrow> (string \<Rightarrow> zone) \<Rightarrow> world \<Rightarrow> string list" where
  "check_errors su pr zones w =
     (if su_python_ok su then [] else [''Python 3.11+ is required.''])
     @ (case su_import su of None \<Rightarrow> [] | Some e \<Rightarrow> [''Could not import benjamin ('' @ e @ '').''])
     @ state_dir_errors pr w @ auth_errors w @ google_errors pr w @ llm_errors su w @ worker_errors zones w"

definition check_main :: "surroundings \<Rightarrow> process \<Rightarrow> (string \<Rightarrow> zone) \<Rightarrow> world \<Rightarrow> int" where
  "check_main su pr zones w = (if check_errors su pr zones w = [] then 0 else 1)"

subsection \<open>Report and check agree\<close>

lemma report_ok: "hl_ok (report pr infos reachable w) \<longleftrightarrow> auth_errors w = [] \<and> state_dir_errors pr w = [] \<and> google_errors pr w = []"
  by (auto simp: report_def auth_errors_def state_dir_errors_def google_errors_def state_dir_writable_def Let_def split: option.splits)

text \<open>
  The report and the check judge the same way: the report is \<open>ok\<close> exactly when the check
  has nothing to say about authentication, the state directory and the Google token, so that
  an environment that passes the check gives a healthy server.
\<close>

theorem health_agrees_with_check:
  assumes "healthz_full send jit clock pr infos cache w = (Inr h, cache', w')"
  shows "(hl_ok h \<longleftrightarrow> state_dir_errors pr w @ auth_errors w @ google_errors pr w = [])
    \<and> (check_main su pr zones w = 0 \<longrightarrow> hl_ok h)"
proof -
  obtain reachable where "h = report pr infos reachable w"
    using assms by (auto simp: healthz_full_def split: prod.splits sum.splits)
  then show ?thesis using report_ok [of pr infos reachable w] by (auto simp: check_main_def check_errors_def)
qed

definition demo_process :: process where
  "demo_process = \<lparr>pr_home = ''/home/a'', pr_expand = (\<lambda>s. s), pr_exists = (\<lambda>_. False), pr_writable = (\<lambda>_. None),
                   pr_calendar_ready = False, pr_email_ready = False\<rparr>"

text \<open>A server that is never asked: without a provider there is no ping.\<close>

definition no_server :: server where
  "no_server rq w = (Failed_with ConnectError, w)"

definition typo_world :: world where
  "typo_world = (empty_world 0)\<lparr>w_env := [''BENJAMIN_AUTH_MODE'' \<mapsto> ''on'', ''BENJAMIN_AUTH_TOKEN'' \<mapsto> ''secret'']\<rparr>"

lemma no_provider_report:
  "getenv ''BENJAMIN_LLM_PROVIDER'' ''off'' w = ''off'' \<Longrightarrow>
     healthz_full send jit clock pr infos cache w = (Inr (report pr infos False w), cache, w)"
  by (simp add: healthz_full_def llm_reachable_def llm_base_url_def strip_def lstrip_def rstrip_def is_space_def casefold_def
      casefold_char_def)

theorem health_agrees_with_check_witness:
  "\<exists>h. fst (healthz_full no_server (\<lambda>_. 0) w_now demo_process [] (ttl_cache_new 10) typo_world) = Inr h \<and> hl_ok h"
proof -
  have "getenv ''BENJAMIN_LLM_PROVIDER'' ''off'' typo_world = ''off''" by code_simp
  note r = no_provider_report [OF this, of no_server "\<lambda>_. 0" w_now demo_process "[]" "ttl_cache_new 10"]
  have "state_dir_errors demo_process typo_world @ auth_errors typo_world @ google_errors demo_process typo_world = []" by code_simp
  then show ?thesis using health_agrees_with_check [OF r] r by auto
qed

text \<open>
  Both take every mode but \<open>off\<close> for enabled, and the server only \<open>token\<close>: with a mode that is
  neither, the report says that authentication is on and all is well, and the server is open.
\<close>

theorem unknown_auth_mode_reported_on:
  "\<exists>h. fst (healthz_full send jit clock demo_process infos cache typo_world) = Inr h \<and> hl_ok h \<and> hl_auth h = (''on'', True)
     \<and> auth_errors typo_world = [] \<and> \<not> is_auth_enabled typo_world"
proof -
  have p: "getenv ''BENJAMIN_LLM_PROVIDER'' ''off'' typo_world = ''off''" by code_simp
  have e: "auth_errors typo_world = []" "state_dir_errors demo_process typo_world = []" "google_errors demo_process typo_world = []"
    by code_simp+
  have "casefold (strip (getenv ''BENJAMIN_AUTH_MODE'' ''token'' typo_world)) = ''on''" by code_simp
  then have "hl_auth (report demo_process infos False typo_world) = (''on'', True)" by (simp add: report_def Let_def)
  moreover have "\<not> is_auth_enabled typo_world" by code_simp
  ultimately show ?thesis using no_provider_report [OF p] report_ok e by auto
qed

subsection \<open>The server is asked once per period\<close>

lemma getenv_same: "w_env v = w_env w \<Longrightarrow> getenv n d v = getenv n d w"
  by (simp add: getenv_def)

lemma base_url_same:
  assumes "w_env v = w_env w"
  shows "llm_base_url p v = llm_base_url p w"
  by (simp add: llm_base_url_def getenv_same [OF assms])

lemma ttl_computed:
  assumes "ttl_get_or_set clock k ttl fn s c = (Inr r, c', s')" and "holds_at (map_of (tc_data c)) (clock s) k = None"
  shows "map_of (tc_data c') k = Some (clock s' + max 1 ttl * SECOND, r)"
proof -
  obtain c0 where "ttl_get_or_set clock k ttl fn s c = ttl_compute clock k ttl fn s c0"
    using assms(2) unfolding ttl_get_or_set_def holds_at_def Let_def by (cases "map_of (tc_data c) k") (auto split: if_splits)
  then have "ttl_compute clock k ttl fn s c0 = (Inr r, c', s')" using assms(1) by simp
  then show ?thesis by (cases "fn s"; cases "fst (fn s)") (auto simp: ttl_compute_def)
qed

lemma ttl_held:
  "map_of (tc_data c) k = Some (e, r) \<Longrightarrow> clock s < e \<Longrightarrow> ttl_get_or_set clock k ttl fn s c = (Inr r, c, s)"
  by (simp add: ttl_get_or_set_def Let_def)

text \<open>
  The report asks the model server at most once per period: once a report has asked it,
  every report until the answer expires gives the same answer without sending anything,
  whatever the server would say by then.
\<close>

theorem health_asks_once:
  assumes "healthz_full send jit clock pr infos cache w = (Inr h, cache', w')"
    and "p = casefold (strip (getenv ''BENJAMIN_LLM_PROVIDER'' ''off'' w))" and "llm_base_url p w \<noteq> []"
    and "py_int (getenv ''BENJAMIN_PING_CACHE_TTL_S'' ''10'' w) = Some ttl"
    and "holds_at (map_of (tc_data cache)) (clock w) (ping_key p (llm_base_url p w)) = None"
    and "w_env v = w_env w" and "clock v < clock w' + max 1 ttl * SECOND"
  shows "\<exists>h2. healthz_full send' jit clock pr infos cache' v = (Inr h2, cache', v) \<and> hl_llm h2 = hl_llm h"
proof -
  let ?key = "ping_key p (llm_base_url p w)"
  obtain r where r: "llm_reachable send jit clock p cache w = (Inr r, cache', w')" and h: "h = report pr infos r w"
    using assms(1,2) by (auto simp: healthz_full_def split: prod.splits sum.splits)
  then have "ttl_get_or_set clock ?key ttl (llm_reachable_uncached send jit w p) w cache = (Inr r, cache', w')"
    using assms(3,4) by (simp add: llm_reachable_def)
  note held = ttl_held [where clock = clock, OF ttl_computed [OF this assms(5)] assms(7)]
  then have "llm_reachable send' jit clock p cache' v = (Inr r, cache', v)"
    using assms(3,4) by (simp add: llm_reachable_def getenv_same [OF assms(6)] base_url_same [OF assms(6)])
  moreover have "hl_llm (report pr infos r v) = hl_llm h"
    by (simp add: h report_def Let_def getenv_same [OF assms(6)] base_url_same [OF assms(6)])
  ultimately show ?thesis using assms(2) by (simp add: healthz_full_def getenv_same [OF assms(6)])
qed

definition up_server :: server where
  "up_server rq w = (Response 200 None, w)"

definition vllm_world :: world where
  "vllm_world = (empty_world 0)\<lparr>w_env := [''BENJAMIN_LLM_PROVIDER'' \<mapsto> ''vllm'']\<rparr>"

theorem health_asks_once_witness:
  "\<exists>h. fst (healthz_full no_server (\<lambda>_. 0) w_now demo_process []
          (fst (snd (healthz_full up_server (\<lambda>_. 0) w_now demo_process [] (ttl_cache_new 10) vllm_world))) (vllm_world\<lparr>w_now := 9000000\<rparr>)) = Inr h
     \<and> hl_llm h = (''vllm'', ''http://127.0.0.1:8001'', True)"
proof -
  have p: "''vllm'' = casefold (strip (getenv ''BENJAMIN_LLM_PROVIDER'' ''off'' vllm_world))" by code_simp
  have u: "llm_base_url ''vllm'' vllm_world = ''http://127.0.0.1:8001''" by code_simp
  have t: "py_int (getenv ''BENJAMIN_PING_CACHE_TTL_S'' ''10'' vllm_world) = Some 10" by code_simp
  let ?r = "llm_reachable up_server (\<lambda>_. 0) w_now ''vllm'' (ttl_cache_new 10) vllm_world"
  have "fst ?r = Inr True" "w_now (snd (snd ?r)) = 0" by code_simp+
  then obtain c w' where r: "?r = (Inr True, c, w')" "w_now w' = 0" by (metis prod.collapse)
  then have h: "healthz_full up_server (\<lambda>_. 0) w_now demo_process [] (ttl_cache_new 10) vllm_world = (Inr (report demo_process [] True vllm_world), c, w')"
    by (simp add: healthz_full_def p [symmetric])
  have "holds_at (map_of (tc_data (ttl_cache_new 10 :: bool ttl_cache))) (w_now vllm_world) (ping_key ''vllm'' (llm_base_url ''vllm'' vllm_world)) = None"
    by (simp add: holds_at_def ttl_cache_new_def)
  from health_asks_once [OF h p _ t this, of "vllm_world\<lparr>w_now := 9000000\<rparr>" no_server] u r(2)
  obtain h2 where "healthz_full no_server (\<lambda>_. 0) w_now demo_process [] c (vllm_world\<lparr>w_now := 9000000\<rparr>) = (Inr h2, c, vllm_world\<lparr>w_now := 9000000\<rparr>)"
      "hl_llm h2 = hl_llm (report demo_process [] True vllm_world)"
    by (auto simp: SECOND_def)
  then show ?thesis using h u by (simp add: report_def Let_def p [symmetric])
qed

subsection \<open>The report may ask another server\<close>

text \<open>
  With the provider \<open>http\<close> the report pings \<open>BENJAMIN_HTTP_URL\<close>, and the client of the
  language model sends to \<open>BENJAMIN_VLLM_URL\<close>.
\<close>

lemma base_of_completions: "base_of (base @ COMPLETIONS) = base"
  by (simp add: base_of_def endswith_def)

theorem report_pings_another_url:
  "\<exists>w lm. llm_init w = Inr lm \<and> lm_provider lm = ''http'' \<and> lm_url lm = ''http://a'' @ COMPLETIONS
     \<and> llm_base_url ''http'' w = ''http://b''"
proof -
  let ?w = "(empty_world 0)\<lparr>w_env := [''BENJAMIN_LLM_PROVIDER'' \<mapsto> ''http'', ''BENJAMIN_HTTP_URL'' \<mapsto> ''http://b'',
              ''BENJAMIN_VLLM_URL'' \<mapsto> ''http://a/v1/chat/completions'']\<rparr>"
  have "case llm_init ?w of Inr lm \<Rightarrow> lm_provider lm = ''http'' \<and> lm_url lm = ''http://a'' @ COMPLETIONS | Inl _ \<Rightarrow> False" by code_simp
  moreover have "llm_base_url ''http'' ?w = ''http://b''" by code_simp
  ultimately show ?thesis by (cases "llm_init ?w") auto
qed

end
