(* ===== verification/Base64.thy ===== *)
theory Base64
  imports Prelude "HOL-Library.Word"
begin

section \<open>Base64 with the URL-safe alphabet\<close>

text \<open>
  \<open>base64.urlsafe_b64encode\<close> and \<open>urlsafe_b64decode\<close> of the standard library, as the mail
  connector uses them on message bodies. Bytes are 8-bit words. The decoder is the lenient
  one: it reads sextet by sextet, skips characters outside the alphabet, stops at complete
  padding, and rejects text that ends within a group.
\<close>

unbundle bit_operations_syntax

type_synonym byte = "8 word"

subsection \<open>The alphabet\<close>

definition b64_char :: "byte \<Rightarrow> char" where
  \<comment> \<open>\<open>A\<close>-\<open>Z\<close>, \<open>a\<close>-\<open>z\<close>, \<open>0\<close>-\<open>9\<close>, minus, underscore\<close>
  "b64_char v =
     (let n = unat v
      in if n < 26 then char_of (n + 65) else if n < 52 then char_of (n + 71)
         else if n < 62 then char_of (n - 4) else if n = 62 then CHR ''-'' else CHR ''_'')"

text \<open>The standard alphabet's plus and slash are read as well.\<close>

definition b64_index :: "char \<Rightarrow> nat option" where
  "b64_index c =
     (let n = of_char c
      in if 65 \<le> n \<and> n \<le> 90 then Some (n - 65)
         else if 97 \<le> n \<and> n \<le> 122 then Some (n - 71)
         else if 48 \<le> n \<and> n \<le> 57 then Some (n + 4)
         else if c = CHR ''-'' \<or> c = CHR ''+'' then Some 62
         else if c = CHR ''_'' \<or> c = CHR ''/'' then Some 63
         else None)"

definition b64_value :: "char \<Rightarrow> byte option" where
  "b64_value c = map_option of_nat (b64_index c)"

abbreviation b64_pad :: char where
  "b64_pad \<equiv> CHR ''=''"

subsection \<open>Encoding and decoding\<close>

fun urlsafe_b64encode :: "byte list \<Rightarrow> string" where
  "urlsafe_b64encode [] = []"
| "urlsafe_b64encode [a] = [b64_char (drop_bit 2 a), b64_char (push_bit 4 (take_bit 2 a)), b64_pad, b64_pad]"
| "urlsafe_b64encode [a, b] =
     [b64_char (drop_bit 2 a), b64_char (push_bit 4 (take_bit 2 a) OR drop_bit 4 b), b64_char (push_bit 2 (take_bit 4 b)), b64_pad]"
| "urlsafe_b64encode (a # b # c # bs) =
     b64_char (drop_bit 2 a) # b64_char (push_bit 4 (take_bit 2 a) OR drop_bit 4 b)
     # b64_char (push_bit 2 (take_bit 4 b) OR drop_bit 6 c) # b64_char (take_bit 6 c) # urlsafe_b64encode bs"

text \<open>
  The state of the decoder: the position in the group of four, the bits left over of the
  sextets read, and the padding characters seen.
\<close>

fun a2b_base64 :: "nat \<Rightarrow> byte \<Rightarrow> nat \<Rightarrow> string \<Rightarrow> byte list res" where
  "a2b_base64 quad left pads [] =
     (if quad = 0 then Inr []
      else if quad = 1 then Inl (ValueError ''Invalid base64-encoded string'')
      else Inl (ValueError ''Incorrect padding''))"
| "a2b_base64 quad left pads (c # cs) =
     (if c = b64_pad then
        (if 2 \<le> quad then (if 4 \<le> quad + Suc pads then Inr [] else a2b_base64 quad left (Suc pads) cs)
         else a2b_base64 quad left pads cs)
      else case b64_value c of
        None \<Rightarrow> a2b_base64 quad left pads cs
      | Some v \<Rightarrow>
          (if quad = 0 then a2b_base64 1 v 0 cs
           else if quad = 1 then
             map_sum id ((#) (push_bit 2 left OR drop_bit 4 v)) (a2b_base64 2 (take_bit 4 v) 0 cs)
           else if quad = 2 then
             map_sum id ((#) (push_bit 4 left OR drop_bit 2 v)) (a2b_base64 3 (take_bit 2 v) 0 cs)
           else map_sum id ((#) (push_bit 6 left OR v)) (a2b_base64 0 0 0 cs)))"

definition urlsafe_b64decode :: "string \<Rightarrow> byte list res" where
  "urlsafe_b64decode s = a2b_base64 0 0 0 s"

text \<open>Padding to a multiple of four, \<open>data + "=" * (-len(data) % 4)\<close>.\<close>

definition repad :: "string \<Rightarrow> string" where
  "repad data = data @ replicate (nat ((- int (length data)) mod 4)) b64_pad"

subsection \<open>Decoding inverts encoding\<close>

lemma b64_value_char: "unat v < 64 \<Longrightarrow> b64_value (b64_char v) = Some v"
proof -
  assume v: "unat v < 64"
  have "b64_index (b64_char v) = Some (unat v)"
  proof (cases "unat v < 62")
    case True
    then show ?thesis by (cases "unat v < 52") (auto simp: b64_char_def b64_index_def Let_def)
  next
    case False
    then have "unat v = 62 \<or> unat v = 63" using v by auto
    then show ?thesis by (auto simp: b64_char_def b64_index_def Let_def)
  qed
  then show ?thesis by (simp add: b64_value_def)
qed

lemma b64_char_not_pad: "unat v < 64 \<Longrightarrow> b64_char v \<noteq> b64_pad"
  using b64_value_char [of v] by (auto simp: b64_value_def b64_index_def)

text \<open>The sextets of three bytes are below 64, and the bytes are put together from them.\<close>

lemma take_bit_6_less: "unat (take_bit 6 v :: byte) < 64"
  using take_bit_nat_less_exp [of 6 "unat v"] by (simp add: unsigned_take_bit_eq)

lemma byte_eqI: "(\<And>n. n \<in> {0, 1, 2, 3, 4, 5, 6, 7} \<Longrightarrow> bit a n = bit b n) \<Longrightarrow> a = (b :: byte)"
  by (rule bit_word_eqI) (auto simp: less_Suc_eq numeral_eq_Suc)

lemma bit_out: "8 \<le> n \<Longrightarrow> \<not> bit (a :: byte) n"
  using bit_imp_le_length [of a n] by auto

lemma sextet_less:
  "unat (drop_bit 2 (a :: byte)) < 64" "unat (push_bit 4 (take_bit 2 (a :: byte))) < 64"
  "unat (push_bit 4 (take_bit 2 a) OR drop_bit 4 (b :: byte)) < 64"
  "unat (push_bit 2 (take_bit 4 (b :: byte))) < 64"
  "unat (push_bit 2 (take_bit 4 b) OR drop_bit 6 (c :: byte)) < 64"
proof -
  have "drop_bit 2 a = take_bit 6 (drop_bit 2 a)" "push_bit 4 (take_bit 2 a) = take_bit 6 (push_bit 4 (take_bit 2 a))"
    "push_bit 4 (take_bit 2 a) OR drop_bit 4 b = take_bit 6 (push_bit 4 (take_bit 2 a) OR drop_bit 4 b)"
    "push_bit 2 (take_bit 4 b) = take_bit 6 (push_bit 2 (take_bit 4 b))"
    "push_bit 2 (take_bit 4 b) OR drop_bit 6 c = take_bit 6 (push_bit 2 (take_bit 4 b) OR drop_bit 6 c)"
    by (rule byte_eqI; auto simp: bit_simps bit_out)+
  then show "unat (drop_bit 2 a) < 64" "unat (push_bit 4 (take_bit 2 a)) < 64"
    "unat (push_bit 4 (take_bit 2 a) OR drop_bit 4 b) < 64" "unat (push_bit 2 (take_bit 4 b)) < 64"
    "unat (push_bit 2 (take_bit 4 b) OR drop_bit 6 c) < 64"
    by (metis take_bit_6_less)+
qed

lemma sextets_join:
  "push_bit 2 (drop_bit 2 a) OR drop_bit 4 (push_bit 4 (take_bit 2 a)) = (a :: byte)"
  "push_bit 2 (drop_bit 2 a) OR drop_bit 4 (push_bit 4 (take_bit 2 a) OR drop_bit 4 b) = (a :: byte)"
  "push_bit 4 (take_bit 4 (push_bit 4 (take_bit 2 a) OR drop_bit 4 b)) OR drop_bit 2 (push_bit 2 (take_bit 4 b)) = (b :: byte)"
  "push_bit 4 (take_bit 4 (push_bit 4 (take_bit 2 a) OR drop_bit 4 b)) OR drop_bit 2 (push_bit 2 (take_bit 4 b) OR drop_bit 6 c) = (b :: byte)"
  "push_bit 6 (take_bit 2 (push_bit 2 (take_bit 4 b) OR drop_bit 6 c)) OR take_bit 6 c = (c :: byte)"
  by (rule byte_eqI; (auto simp: bit_simps bit_out; simp add: numeral_eq_Suc))+

lemma a2b_sextet:
  assumes "unat v < 64"
  shows "a2b_base64 0 left pads (b64_char v # cs) = a2b_base64 (Suc 0) v 0 cs"
    "a2b_base64 (Suc 0) left pads (b64_char v # cs) = map_sum id ((#) (push_bit 2 left OR drop_bit 4 v)) (a2b_base64 2 (take_bit 4 v) 0 cs)"
    "a2b_base64 2 left pads (b64_char v # cs) = map_sum id ((#) (push_bit 4 left OR drop_bit 2 v)) (a2b_base64 3 (take_bit 2 v) 0 cs)"
    "a2b_base64 3 left pads (b64_char v # cs) = map_sum id ((#) (push_bit 6 left OR v)) (a2b_base64 0 0 0 cs)"
  using b64_char_not_pad [OF assms] b64_value_char [OF assms] by simp_all

lemma a2b_pads: "a2b_base64 2 left 0 [b64_pad, b64_pad] = Inr []" "a2b_base64 3 left 0 [b64_pad] = Inr []"
  by simp_all

lemma decode_encode: "urlsafe_b64decode (urlsafe_b64encode bs) = Inr bs"
  unfolding urlsafe_b64decode_def
  by (induction bs rule: urlsafe_b64encode.induct)
    (simp_all only: urlsafe_b64encode.simps a2b_sextet sextet_less take_bit_6_less sextets_join a2b_pads
      a2b_base64.simps(1) map_sum.simps simp_thms if_True)

subsection \<open>With and without padding\<close>

definition unpadded :: "string \<Rightarrow> string" where
  "unpadded s = rev (dropWhile (\<lambda>c. c = b64_pad) (rev s))"

lemma unpadded_snoc: "unpadded (s @ [c]) = (if c = b64_pad then unpadded s else s @ [c])"
  by (simp add: unpadded_def)

lemma unpadded_append: "b64_pad \<notin> set g \<Longrightarrow> unpadded (g @ t) = g @ unpadded t"
proof (induction t rule: rev_induct)
  case Nil
  then show ?case by (cases g rule: rev_cases) (auto simp: unpadded_def)
next
  case (snoc c t)
  then show ?case using unpadded_snoc [of "g @ t" c] unpadded_snoc [of t c] by simp
qed

lemma repad_group: "length s mod 4 = 0 \<Longrightarrow> repad (s @ t) = s @ repad t"
proof -
  assume "length s mod 4 = 0"
  then obtain k where "length s = 4 * k" by auto
  then have len: "int (length (s @ t)) = 4 * int k + int (length t)" by simp
  have "(- (4 * int k + m)) mod 4 = (- m) mod 4" for m by presburger
  then have "(- int (length (s @ t))) mod 4 = (- int (length t)) mod 4" unfolding len .
  then show ?thesis by (simp add: repad_def)
qed

lemma repad_unpadded: "repad (unpadded (urlsafe_b64encode bs)) = urlsafe_b64encode bs"
  "repad (urlsafe_b64encode bs) = urlsafe_b64encode bs"
proof (induction bs rule: urlsafe_b64encode.induct)
  case (2 a)
  { case 1 then show ?case by (simp add: repad_def unpadded_def b64_char_not_pad sextet_less) (simp add: numeral_eq_Suc)
  next
    case 2 then show ?case by (simp add: repad_def) }
next
  case (3 a b)
  { case 1 then show ?case by (simp add: repad_def unpadded_def b64_char_not_pad sextet_less)
  next
    case 2 then show ?case by (simp add: repad_def) }
next
  case (4 a b c bs)
  let ?g = "[b64_char (drop_bit 2 a), b64_char (push_bit 4 (take_bit 2 a) OR drop_bit 4 b),
     b64_char (push_bit 2 (take_bit 4 b) OR drop_bit 6 c), b64_char (take_bit 6 c)]"
  have enc: "urlsafe_b64encode (a # b # c # bs) = ?g @ urlsafe_b64encode bs" by simp
  have g: "length ?g mod 4 = 0" "b64_pad \<notin> set ?g"
    using b64_char_not_pad sextet_less take_bit_6_less by (simp_all, metis)
  { case 1 then show ?case unfolding enc unpadded_append [OF g(2)] using repad_group [OF g(1)] 4 by simp
  next
    case 2 then show ?case unfolding enc using repad_group [OF g(1)] 4 by simp }
qed (simp_all add: repad_def unpadded_def)

end
