(* ===== verification/Google.thy ===== *)
theory Google
  imports Builtins Base64
begin

section \<open>The Google connectors\<close>

text \<open>
  \<open>core/integrations/google_auth.py\<close>, \<open>google_calendar.py\<close> and \<open>google_gmail.py\<close>: the calls the
  connectors make, what they make of the answers, the breaker around every call, and when the
  application has connectors at all (\<open>apps/api/deps.py\<close>). The Google client is a parameter:
  its answers are records with the fields the API documents, a missing field being \<open>None\<close> or
  empty. \<open>mime\<close> is \<open>EmailMessage\<close> with \<open>as_bytes\<close>, \<open>parsedate\<close> is \<open>parsedate_to_datetime\<close>
  (\<open>None\<close> when it raises), \<open>utf8\<close> decodes bytes with replacement.
\<close>

subsection \<open>The client\<close>

record google_event =
  ge_id :: "string option"
  ge_summary :: "string option"
  ge_start :: "string option \<times> string option" \<comment> \<open>\<open>dateTime\<close> and \<open>date\<close>\<close>
  ge_end :: "string option \<times> string option"
  ge_location :: "string option"
  ge_attendees :: "string list"
  ge_link :: "string option"

datatype mail_part =
  Part (pt_mime: "string option") (pt_headers: "(string \<times> string) list") (pt_data: "string option") (pt_parts: "mail_part list")

record gmail_message =
  gm_id :: "string option"
  gm_thread :: "string option"
  gm_snippet :: "string option"
  gm_payload :: mail_part

record gmail_draft =
  gd_id :: "string option"
  gd_message_id :: "string option"
  gd_snippet :: "string option"

record google_service =
  gs_events_list :: "string \<Rightarrow> string option \<Rightarrow> iso \<Rightarrow> iso \<Rightarrow> int \<Rightarrow> world \<Rightarrow> google_event list res \<times> world"
  gs_events_insert :: "string \<Rightarrow> json dict \<Rightarrow> world \<Rightarrow> google_event res \<times> world"
  gs_messages_list :: "string \<Rightarrow> int \<Rightarrow> world \<Rightarrow> string list res \<times> world"
  gs_messages_get :: "string \<Rightarrow> string \<Rightarrow> world \<Rightarrow> gmail_message res \<times> world"
  gs_threads_get :: "json \<Rightarrow> world \<Rightarrow> gmail_message list res \<times> world"
  gs_drafts_create :: "string \<Rightarrow> world \<Rightarrow> gmail_draft res \<times> world"

text \<open>Parsing and printing of mail by the standard library.\<close>

record mail_lib =
  ml_mime :: "(string \<times> string) list \<Rightarrow> string \<Rightarrow> byte list"
  ml_parsedate :: "string \<Rightarrow> datetime option"
  ml_utf8 :: "byte list \<Rightarrow> string"

text \<open>\<open>_guarded\<close>: behind the breaker of the service, when there is a manager.\<close>

definition google_guarded ::
  "string \<Rightarrow> (world \<Rightarrow> 'a res \<times> world) \<Rightarrow> manager option \<Rightarrow> world \<Rightarrow> 'a res \<times> manager option \<times> world" where
  "google_guarded service fn bm w =
     (case bm of
        None \<Rightarrow> (let (r, w') = fn w in (r, None, w'))
      | Some m \<Rightarrow> (let (r, m', w') = wrap service fn m w in (r, Some m', w')))"

definition map_answer :: "('a \<Rightarrow> 'b) \<Rightarrow> 'a res \<times> world \<Rightarrow> 'b res \<times> world" where
  "map_answer f r = (case r of (Inl e, w) \<Rightarrow> (Inl e, w) | (Inr x, w) \<Rightarrow> (Inr (f x), w))"

subsection \<open>Calendar\<close>

text \<open>\<open>start.get("dateTime") or start.get("date")\<close>\<close>

definition when_text :: "string option \<times> string option \<Rightarrow> string option" where
  "when_text t = (if str_or (fst t) [] \<noteq> [] then fst t else snd t)"

definition normalise_event :: "google_event \<Rightarrow> json dict" where
  "normalise_event ev =
     [(''id'', opt_json (ge_id ev)),
      (''title'', JStr (case ge_summary ev of None \<Rightarrow> ''(untitled)'' | Some s \<Rightarrow> s)),
      (''start_iso'', opt_json (when_text (ge_start ev))), (''end_iso'', opt_json (when_text (ge_end ev))),
      (''location'', opt_json (ge_location ev)), (''attendees_count'', JInt (int (length (ge_attendees ev))))]"

definition google_search_events ::
  "google_service \<Rightarrow> string \<Rightarrow> iso \<Rightarrow> iso \<Rightarrow> string option \<Rightarrow> int \<Rightarrow> manager option \<Rightarrow> world
     \<Rightarrow> json dict list res \<times> manager option \<times> world" where
  "google_search_events g calendar_id time_min time_max query max_results =
     google_guarded ''calendar''
       (\<lambda>w. map_answer (map normalise_event) (gs_events_list g calendar_id query time_min time_max max_results w))"

definition event_request :: "json dict \<Rightarrow> json dict" where
  "event_request kw =
     (let at = (\<lambda>k. JDict [(''dateTime'', jget k kw), (''timeZone'', jget ''timezone'' kw)])
      in [(''summary'', jget ''title'' kw), (''start'', at ''start_iso''), (''end'', at ''end_iso'')]
         @ (if truthy (jget ''location'' kw) then [(''location'', jget ''location'' kw)] else [])
         @ (if truthy (jget ''description'' kw) then [(''description'', jget ''description'' kw)] else [])
         @ (case jget ''attendees'' kw of
              JList (x # xs) \<Rightarrow> [(''attendees'', JList (map (\<lambda>email. JDict [(''email'', email)]) (x # xs)))]
            | _ \<Rightarrow> []))"

definition or_json :: "string option \<Rightarrow> json \<Rightarrow> json" where
  \<comment> \<open>\<open>x or default\<close> on text that may be missing\<close>
  "or_json x dflt = (if str_or x [] \<noteq> [] then JStr (str_or x []) else dflt)"

definition created_event :: "json dict \<Rightarrow> google_event \<Rightarrow> json dict" where
  "created_event kw ev =
     [(''id'', opt_json (ge_id ev)),
      (''title'', case ge_summary ev of None \<Rightarrow> jget ''title'' kw | Some s \<Rightarrow> JStr s),
      (''start_iso'', or_json (fst (ge_start ev)) (jget ''start_iso'' kw)),
      (''end_iso'', or_json (fst (ge_end ev)) (jget ''end_iso'' kw)),
      (''html_link'', opt_json (ge_link ev))]"

text \<open>\<open>except Exception as exc: raise RuntimeError(f"...: {exc}")\<close>\<close>

definition as_runtime_error :: "string \<Rightarrow> 'a res \<times> 'b \<Rightarrow> 'a res \<times> 'b" where
  "as_runtime_error msg r =
     (case r of (Inl e, s) \<Rightarrow> (Inl (RuntimeError (msg @ '': '' @ exc_str e)), s) | (Inr x, s) \<Rightarrow> (Inr x, s))"

definition google_create_event ::
  "google_service \<Rightarrow> string \<Rightarrow> json dict \<Rightarrow> manager option \<Rightarrow> world \<Rightarrow> json dict res \<times> manager option \<times> world" where
  "google_create_event g calendar_id kw bm w =
     as_runtime_error ''google_calendar_create_event_failed''
       (google_guarded ''calendar''
          (\<lambda>w. map_answer (created_event kw) (gs_events_insert g calendar_id (event_request kw) w)) bm w)"

subsection \<open>Mail\<close>

text \<open>\<open>headers.get(name)\<close> of \<open>_headers_map\<close>: of repeated names the last one.\<close>

definition header_value :: "string \<Rightarrow> mail_part \<Rightarrow> string option" where
  "header_value name p = map_of (rev (pt_headers p)) name"

definition mail_date :: "mail_lib \<Rightarrow> string option \<Rightarrow> string option" where
  "mail_date lib header =
     (if str_or header [] = [] then None
      else case ml_parsedate lib (str_or header []) of
             None \<Rightarrow> None
           | Some (Aware t) \<Rightarrow> Some (iso_text t)
           | Some (Naive t) \<Rightarrow> Some (iso_text t))"

definition decode_body :: "mail_lib \<Rightarrow> string \<Rightarrow> string res" where
  "decode_body lib data =
     (case urlsafe_b64decode (repad data) of Inl e \<Rightarrow> Inl e | Inr bs \<Rightarrow> Inr (ml_utf8 lib bs))"

definition is_plain :: "mail_part \<Rightarrow> bool" where
  "is_plain p \<longleftrightarrow> pt_mime p = Some ''text/plain'' \<and> str_or (pt_data p) [] \<noteq> []"

definition extract_text_body :: "mail_lib \<Rightarrow> mail_part \<Rightarrow> string res" where
  "extract_text_body lib p =
     (if is_plain p then decode_body lib (str_or (pt_data p) [])
      else case find is_plain (pt_parts p) of
             None \<Rightarrow> Inr []
           | Some q \<Rightarrow> decode_body lib (str_or (pt_data q) []))"

definition message_fields :: "mail_lib \<Rightarrow> gmail_message \<Rightarrow> json dict" where
  "message_fields lib msg =
     (let h = (\<lambda>name. header_value name (gm_payload msg))
      in [(''id'', opt_json (gm_id msg)), (''thread_id'', opt_json (gm_thread msg)),
          (''from'', JStr (str_or (h ''From'') [])), (''subject'', JStr (str_or (h ''Subject'') [])),
          (''snippet'', JStr (str_or (gm_snippet msg) [])), (''date_iso'', opt_json (mail_date lib (h ''Date'')))])"

definition normalize_message ::
  "google_service \<Rightarrow> mail_lib \<Rightarrow> string \<Rightarrow> bool \<Rightarrow> world \<Rightarrow> json dict res \<times> world" where
  "normalize_message g lib message_id include_body w =
     (case gs_messages_get g message_id (if include_body then ''full'' else ''metadata'') w of
        (Inl e, w') \<Rightarrow> (Inl e, w')
      | (Inr msg, w') \<Rightarrow>
          (if include_body then
             (case extract_text_body lib (gm_payload msg) of
                Inl e \<Rightarrow> (Inl e, w')
              | Inr body \<Rightarrow> (Inr (message_fields lib msg @ [(''body'', JStr body)]), w'))
           else (Inr (message_fields lib msg), w')))"

fun normalize_all :: "google_service \<Rightarrow> mail_lib \<Rightarrow> string list \<Rightarrow> world \<Rightarrow> json dict list res \<times> world" where
  "normalize_all g lib [] w = (Inr [], w)"
| "normalize_all g lib (i # is) w =
     (case normalize_message g lib i False w of
        (Inl e, w') \<Rightarrow> (Inl e, w')
      | (Inr m, w') \<Rightarrow> map_answer ((#) m) (normalize_all g lib is w'))"

definition google_search_messages ::
  "google_service \<Rightarrow> mail_lib \<Rightarrow> string \<Rightarrow> int \<Rightarrow> manager option \<Rightarrow> world \<Rightarrow> json dict list res \<times> manager option \<times> world" where
  "google_search_messages g lib query max_results =
     google_guarded ''gmail''
       (\<lambda>w. case gs_messages_list g query max_results w of
              (Inl e, w') \<Rightarrow> (Inl e, w') | (Inr ids, w') \<Rightarrow> normalize_all g lib ids w')"

definition google_read_message ::
  "google_service \<Rightarrow> mail_lib \<Rightarrow> string \<Rightarrow> manager option \<Rightarrow> world \<Rightarrow> json dict res \<times> manager option \<times> world" where
  "google_read_message g lib message_id = google_guarded ''gmail'' (normalize_message g lib message_id True)"

text \<open>Participants, subject and snippets of a thread, collected message by message.\<close>

record thread_scan =
  ts_participants :: "string list"
  ts_subject :: string
  ts_snippets :: "string list"

definition nonempty :: "string option \<Rightarrow> string list" where
  "nonempty x = (if str_or x [] = [] then [] else [str_or x []])"

definition scan_message :: "gmail_message \<Rightarrow> thread_scan \<Rightarrow> thread_scan" where
  "scan_message msg ts =
     (let h = (\<lambda>name. header_value name (gm_payload msg))
      in \<lparr>ts_participants = ts_participants ts @ nonempty (h ''From'') @ nonempty (h ''To''),
          ts_subject = (if ts_subject ts = [] then str_or (h ''Subject'') [] else ts_subject ts),
          ts_snippets = ts_snippets ts @ nonempty (gm_snippet msg)\<rparr>)"

definition thread_fields :: "json \<Rightarrow> int \<Rightarrow> gmail_message list \<Rightarrow> json dict" where
  "thread_fields thread_id max_messages msgs =
     (let ts = fold scan_message (py_take max_messages msgs) \<lparr>ts_participants = [], ts_subject = [], ts_snippets = []\<rparr>
      in [(''thread_id'', thread_id), (''subject'', JStr (ts_subject ts)),
          (''participants'', jstrs (sorted_set (ts_participants ts))), (''snippets'', jstrs (ts_snippets ts))])"

definition google_thread_summary ::
  "google_service \<Rightarrow> json \<Rightarrow> int \<Rightarrow> manager option \<Rightarrow> world \<Rightarrow> json dict res \<times> manager option \<times> world" where
  "google_thread_summary g thread_id max_messages =
     google_guarded ''gmail'' (\<lambda>w. map_answer (thread_fields thread_id max_messages) (gs_threads_get g thread_id w))"

definition texts :: "json \<Rightarrow> string list" where
  "texts j = (case j of JList xs \<Rightarrow> (case json_strs xs of None \<Rightarrow> [] | Some ss \<Rightarrow> ss) | _ \<Rightarrow> [])"

definition draft_headers :: "json dict \<Rightarrow> (string \<times> string) list" where
  "draft_headers kw =
     (let line = (\<lambda>k. join '', '' (texts (jget k kw)))
      in [(''To'', line ''to'')] @ (if texts (jget ''cc'' kw) = [] then [] else [(''Cc'', line ''cc'')])
         @ (if texts (jget ''bcc'' kw) = [] then [] else [(''Bcc'', line ''bcc'')])
         @ [(''Subject'', py_str (jget ''subject'' kw))])"

definition created_draft :: "json dict \<Rightarrow> gmail_draft \<Rightarrow> json dict" where
  "created_draft kw d =
     [(''draft_id'', or_json (gd_id d) (opt_json (gd_message_id d))), (''subject'', jget ''subject'' kw),
      (''to'', jget ''to'' kw), (''snippet'', or_json (gd_snippet d) (JStr (take 200 (py_str (jget ''body'' kw)))))]"

definition google_create_draft ::
  "google_service \<Rightarrow> mail_lib \<Rightarrow> json dict \<Rightarrow> manager option \<Rightarrow> world \<Rightarrow> json dict res \<times> manager option \<times> world" where
  "google_create_draft g lib kw bm w =
     as_runtime_error ''google_gmail_create_draft_failed''
       (google_guarded ''gmail''
          (\<lambda>w. map_answer (created_draft kw)
                 (gs_drafts_create g (urlsafe_b64encode (ml_mime lib (draft_headers kw) (py_str (jget ''body'' kw)))) w)) bm w)"

subsection \<open>When there are connectors\<close>

datatype google_error = GoogleDependency string | GoogleToken string | GoogleOther exc

text \<open>
  What the installation offers: whether the client libraries are there, which token files
  exist, and the construction of the client from a token (which may raise anything).
\<close>

record google_setup =
  gt_installed :: bool
  gt_token_exists :: "string \<Rightarrow> bool"
  gt_build :: "string \<Rightarrow> google_service res"

definition build_google_service :: "google_setup \<Rightarrow> string \<Rightarrow> google_error + google_service" where
  "build_google_service gt token_path =
     (if \<not> gt_installed gt then
        Inl (GoogleDependency ''Google integration dependencies are missing; install with pip install -e .[google].'')
      else if \<not> gt_token_exists gt token_path then Inl (GoogleToken ''Google token not found; run auth bootstrap externally.'')
      else case gt_build gt token_path of Inl e \<Rightarrow> Inl (GoogleOther e) | Inr g \<Rightarrow> Inr g)"

definition google_enabled :: "world \<Rightarrow> bool" where
  "google_enabled w \<longleftrightarrow> casefold (getenv ''BENJAMIN_GOOGLE_ENABLED'' ''off'' w) = ''on''"

definition google_token_path :: "string \<Rightarrow> world \<Rightarrow> string" where
  "google_token_path state_dir w = str_or (w_env w ''BENJAMIN_GOOGLE_TOKEN_PATH'') (state_dir @ ''/google_token.json'')"

text \<open>
  \<open>get_calendar_connector\<close> and \<open>get_email_connector\<close>: a missing library or token means no
  connector; any other exception of the construction is the caller's.
\<close>

definition get_connector :: "google_setup \<Rightarrow> string \<Rightarrow> world \<Rightarrow> google_service option res" where
  "get_connector gt state_dir w =
     (if \<not> google_enabled w then Inr None
      else case build_google_service gt (google_token_path state_dir w) of
             Inr g \<Rightarrow> Inr (Some g)
           | Inl (GoogleOther e) \<Rightarrow> Inl e
           | Inl _ \<Rightarrow> Inr None)"

text \<open>One call of a connector from a given state of its breaker.\<close>

definition one_call :: "'a res \<times> manager option \<times> world \<Rightarrow> 'a res \<times> world" where
  "one_call r = (fst r, snd (snd r))"

definition google_calendar :: "google_service \<Rightarrow> manager option \<Rightarrow> calendar_connector" where
  "google_calendar g bm =
     \<lparr>cc_search_events = (\<lambda>c a b q n w. one_call (google_search_events g c a b q n bm w)),
      cc_create_event = (\<lambda>c kw w. one_call (google_create_event g c kw bm w))\<rparr>"

definition google_mail :: "google_service \<Rightarrow> mail_lib \<Rightarrow> manager option \<Rightarrow> email_connector" where
  "google_mail g lib bm =
     \<lparr>ec_search_messages = (\<lambda>q n w. one_call (google_search_messages g lib q n bm w)),
      ec_read_message = (\<lambda>i w. one_call (google_read_message g lib i bm w)),
      ec_thread_summary = (\<lambda>i n w. one_call (google_thread_summary g i n bm w)),
      ec_create_draft = (\<lambda>kw w. one_call (google_create_draft g lib kw bm w))\<rparr>"

subsection \<open>The body of a mail\<close>

lemma b64_nonempty: "bs \<noteq> [] \<Longrightarrow> unpadded (urlsafe_b64encode bs) \<noteq> []"
proof -
  assume "bs \<noteq> []"
  then have "urlsafe_b64encode bs \<noteq> []" "hd (urlsafe_b64encode bs) \<noteq> CHR ''=''"
    by (cases bs rule: urlsafe_b64encode.cases; simp add: b64_char_not_pad sextet_less)+
  then obtain c cs where "urlsafe_b64encode bs = [c] @ cs" "c \<noteq> CHR ''=''" by (cases "urlsafe_b64encode bs") auto
  then show ?thesis using unpadded_append [of "[c]" cs] by simp
qed

text \<open>
  C34. The text of a mail is read back: a plain-text body that was encoded, with or without its
  padding, is decoded to the bytes it was made of - of the message itself, or of its first
  plain-text part with data, whatever parts of other types come before and after it.
\<close>

theorem mail_body_roundtrip:
  assumes "data = urlsafe_b64encode bs \<or> data = unpadded (urlsafe_b64encode bs)" "bs \<noteq> []"
    and "list_all (\<lambda>q. \<not> is_plain q) before" "pt_mime whole \<noteq> Some ''text/plain''"
    and "pt_parts whole = before @ Part (Some ''text/plain'') hs (Some data) ps # others"
  shows "extract_text_body lib (Part (Some ''text/plain'') hs (Some data) ps) = Inr (ml_utf8 lib bs)
    \<and> extract_text_body lib whole = Inr (ml_utf8 lib bs)"
proof -
  let ?p = "Part (Some ''text/plain'') hs (Some data) ps"
  have d: "data \<noteq> []" using assms(1,2) b64_nonempty [OF assms(2)] by (auto simp: unpadded_def)
  have dec: "decode_body lib data = Inr (ml_utf8 lib bs)"
    using assms(1) repad_unpadded [of bs] decode_encode [of bs] by (auto simp: decode_body_def)
  have "find is_plain (before @ ?p # others) = Some ?p"
    using assms(3) d by (induction before) (auto simp: is_plain_def)
  then show ?thesis using assms(4,5) d dec by (auto simp: extract_text_body_def is_plain_def)
qed

definition plain_lib :: mail_lib where
  "plain_lib = \<lparr>ml_mime = (\<lambda>h b. map (\<lambda>c. of_nat (of_char c)) b), ml_parsedate = (\<lambda>s. None),
                ml_utf8 = map (\<lambda>b. char_of (unat b))\<rparr>"

lemma mail_body_roundtrip_witness:
  "extract_text_body plain_lib (Part (Some ''multipart/alternative'') [] None
     [Part (Some ''text/html'') [] (Some ''PGI-'') [], Part (Some ''text/plain'') [] (Some ''SGk'') []]) = Inr ''Hi''"
proof -
  have "unpadded (urlsafe_b64encode [0x48, 0x69]) = ''SGk''" "ml_utf8 plain_lib [0x48, 0x69] = ''Hi''"
    by (simp_all add: unpadded_def b64_char_def plain_lib_def char_of_eq_iff)
  then show ?thesis
    using mail_body_roundtrip [of "''SGk''" "[0x48, 0x69]" "[Part (Some ''text/html'') [] (Some ''PGI-'') []]"
        "Part (Some ''multipart/alternative'') [] None
           [Part (Some ''text/html'') [] (Some ''PGI-'') [], Part (Some ''text/plain'') [] (Some ''SGk'') []]" "[]" "[]" "[]" plain_lib]
    by (simp add: is_plain_def)
qed

subsection \<open>Behind an open breaker\<close>

definition refuses :: "string \<Rightarrow> manager \<Rightarrow> world \<Rightarrow> bool" where
  "refuses service m w \<longleftrightarrow> bm_enabled m \<and> cb_state (breaker_of service m) = Open \<and> \<not> cooled_down (w_now w) (breaker_of service m)"

definition refusal :: "string \<Rightarrow> manager \<Rightarrow> exc" where
  "refusal service m = ServiceDegraded service (cb_last_error (breaker_of service m))"

lemma google_guarded_refused:
  fixes fn :: "world \<Rightarrow> 'a res \<times> world"
  shows "refuses service m w \<Longrightarrow> \<exists>m'. google_guarded service fn (Some m) w = (Inl (refusal service m), m', w)"
  using wrap_open [of m service w, where ?'a = 'a] by (auto simp: google_guarded_def refuses_def refusal_def)

lemma google_calls_refused:
  assumes "refuses ''calendar'' m w"
  shows "cc_search_events (google_calendar g (Some m)) c a b q n w = (Inl (refusal ''calendar'' m), w)"
    "cc_create_event (google_calendar g (Some m)) c kw w
       = (Inl (RuntimeError (''google_calendar_create_event_failed: '' @ exc_str (refusal ''calendar'' m))), w)"
proof -
  obtain m1 where "google_guarded ''calendar'' (\<lambda>w. map_answer (map normalise_event) (gs_events_list g c q a b n w)) (Some m) w
      = (Inl (refusal ''calendar'' m), m1, w)"
    using google_guarded_refused [OF assms] by metis
  then show "cc_search_events (google_calendar g (Some m)) c a b q n w = (Inl (refusal ''calendar'' m), w)"
    by (simp add: google_calendar_def one_call_def google_search_events_def)
  obtain m2 where "google_guarded ''calendar'' (\<lambda>w. map_answer (created_event kw) (gs_events_insert g c (event_request kw) w)) (Some m) w
      = (Inl (refusal ''calendar'' m), m2, w)"
    using google_guarded_refused [OF assms] by metis
  then show "cc_create_event (google_calendar g (Some m)) c kw w
       = (Inl (RuntimeError (''google_calendar_create_event_failed: '' @ exc_str (refusal ''calendar'' m))), w)"
    by (simp add: google_calendar_def one_call_def google_create_event_def as_runtime_error_def)
qed

text \<open>
  Creating an event behind an open breaker is not the degraded answer the skill provides
  for: the connector turns the breaker's exception into another one, which the skill does not
  catch. Searching, in the same situation, gives the degraded answer.
\<close>

theorem degraded_create_raises:
  assumes "refuses ''calendar'' m w" "sv_calendar sv = Some (google_calendar g (Some m))"
    and "Option.bind (parse_input q) event_input_of = Some p"
    and "sv_zone sv (getenv ''BENJAMIN_TIMEZONE'' ''America/New_York'' w) = Zone f"
  shows "run_calendar_create sv q w
      = (Inl (RuntimeError (''google_calendar_create_event_failed: '' @ exc_str (refusal ''calendar'' m))), w)
    \<and> run_calendar_search sv ''{}'' w
      = (content [(''events'', JList []), (''reason'', JStr ''service_degraded:calendar'')], w)"
proof
  show "run_calendar_create sv q w
      = (Inl (RuntimeError (''google_calendar_create_event_failed: '' @ exc_str (refusal ''calendar'' m))), w)"
    using assms by (simp add: run_calendar_create_def google_calls_refused unless_degraded_def)
  have "Option.bind (parse_input ''{}'') search_input_of
      = Some \<lparr>si_query = None, si_days = 1, si_hours = 12, si_calendar = None, si_max = 20\<rparr>"
    by code_simp
  then show "run_calendar_search sv ''{}'' w
      = (content [(''events'', JList []), (''reason'', JStr ''service_degraded:calendar'')], w)"
    using assms by (simp add: run_calendar_search_def rewritten_def google_calls_refused unless_degraded_def refusal_def)
qed

definition down_manager :: manager where
  "down_manager = \<lparr>bm_enabled = True, bm_threshold = 1, bm_open_seconds = 60, bm_max_trials = 1,
     bm_breakers = [(''calendar'', breaker_step (Failure ''503'' 0) (new_breaker ''calendar'' 1 60 1))], bm_file = Missing\<rparr>"

definition no_google :: google_service where
  "no_google = \<lparr>gs_events_list = (\<lambda>c q a b n w. (Inr [], w)), gs_events_insert = (\<lambda>c b w. (Inl (RuntimeError ''no''), w)),
     gs_messages_list = (\<lambda>q n w. (Inr [], w)), gs_messages_get = (\<lambda>i f w. (Inl (RuntimeError ''no''), w)),
     gs_threads_get = (\<lambda>i w. (Inr [], w)), gs_drafts_create = (\<lambda>r w. (Inl (RuntimeError ''no''), w))\<rparr>"

definition dinner :: string where
  "dinner = dumps (JDict [(''title'', JStr ''Dinner''), (''start_iso'', JStr ''a''), (''end_iso'', JStr ''b'')])"

definition down_world :: world where
  "down_world = (empty_world 5)\<lparr>w_env := [''BENJAMIN_TIMEZONE'' \<mapsto> ''UTC'']\<rparr>"

lemma degraded_create_raises_witness:
  "run_calendar_create (demo_services\<lparr>sv_calendar := Some (google_calendar no_google (Some down_manager))\<rparr>) dinner down_world
     = (Inl (RuntimeError ''google_calendar_create_event_failed: service_degraded:calendar: 503''), down_world)"
proof -
  have l: "loads dinner = Some (JDict [(''title'', JStr ''Dinner''), (''start_iso'', JStr ''a''), (''end_iso'', JStr ''b'')])"
    unfolding dinner_def by (rule loads_dumps) simp
  then have p: "\<exists>p. Option.bind (parse_input dinner) event_input_of = Some p"
    by (simp add: parse_input_def event_input_of_def str_field_def opt_field_def strs_field_def)
  have r: "refuses ''calendar'' down_manager down_world" "exc_str (refusal ''calendar'' down_manager) = ''service_degraded:calendar: 503''"
    by (simp_all add: refuses_def refusal_def down_manager_def breaker_of_def manager_get_def new_breaker_def record_failure_def
        cooled_down_def seconds_def down_world_def empty_world_def Let_def)
  obtain p f where "Option.bind (parse_input dinner) event_input_of = Some p"
    "sv_zone demo_services (getenv ''BENJAMIN_TIMEZONE'' ''America/New_York'' down_world) = Zone f"
    using p by (auto simp: demo_services_def demo_critic_def down_world_def getenv_def)
  from degraded_create_raises [OF r(1) _ this(1), of "demo_services\<lparr>sv_calendar := Some (google_calendar no_google (Some down_manager))\<rparr>" no_google f]
    this(2) r(2)
  show ?thesis by simp
qed

subsection \<open>The answers of the connectors\<close>

lemma wf_or_json [simp]: "wf_json d \<Longrightarrow> wf_json (or_json x d)"
  by (simp add: or_json_def)

definition answers :: "('a \<Rightarrow> bool) \<Rightarrow> 'a res \<times> 's \<Rightarrow> bool" where
  "answers P r \<longleftrightarrow> (case fst r of Inl e \<Rightarrow> True | Inr y \<Rightarrow> P y)"

lemma answers_error: "answers P (Inl e, w)"
  by (simp add: answers_def)

lemma answers_map: "(\<And>x. P (f x)) \<Longrightarrow> answers P (map_answer f r)"
  by (simp add: answers_def map_answer_def split: prod.split sum.split)

lemma answers_guarded: "(\<And>w. answers P (fn w)) \<Longrightarrow> answers P (google_guarded service fn bm w)"
proof -
  assume a: "\<And>w. answers P (fn w)"
  have fn: "P y" if "fn w = (Inr y, w')" for w y w' using a [of w] that by (simp add: answers_def)
  have "answers P (wrap service fn m w)" for m
    by (auto simp: answers_def wrap_def Let_def dest: fn split: prod.split sum.split)
  with a [of w] show ?thesis by (cases bm) (simp_all add: answers_def google_guarded_def case_prod_beta Let_def)
qed

lemma answers_shell [simp]:
  "answers P (one_call r) = answers P r" "answers P (as_runtime_error msg r) = answers P r"
  by (simp_all add: answers_def one_call_def as_runtime_error_def split: prod.split sum.split)

lemma wf_answer_answers: "wf_answer = answers (\<lambda>d. wf_json (JDict d))"
  "wf_answers = answers (list_all (\<lambda>d. wf_json (JDict d)))"
  by (simp_all add: fun_eq_iff answers_def wf_answer_def wf_answers_def cong: sum.case_cong)

lemma wf_fields:
  "wf_json (JDict (normalise_event ev))" "wf_json (JDict (message_fields lib msg))"
  "wf_json (JDict (message_fields lib msg @ [(''body'', JStr body)]))"
  "wf_json i \<Longrightarrow> wf_json (JDict (thread_fields i n msgs))"
  "wf_json (JDict kw) \<Longrightarrow> wf_json (JDict (created_event kw ev))"
  "wf_json (JDict kw) \<Longrightarrow> wf_json (JDict (created_draft kw dr))"
  using wf_jget [of kw] wf_jstrs
  by (simp_all add: normalise_event_def message_fields_def thread_fields_def created_event_def created_draft_def Let_def split: option.split)

lemma normalize_answers:
  "answers (\<lambda>d. wf_json (JDict d)) (normalize_message g lib i b w)"
  "answers (list_all (\<lambda>d. wf_json (JDict d))) (normalize_all g lib is w)"
proof -
  show one: "answers (\<lambda>d. wf_json (JDict d)) (normalize_message g lib i b w)" for i b w
    using wf_fields(2,3) by (simp add: answers_def normalize_message_def split: prod.split sum.split)
  show "answers (list_all (\<lambda>d. wf_json (JDict d))) (normalize_all g lib is w)"
  proof (induction "is" arbitrary: w)
    case (Cons i "is")
    obtain r w' where m: "normalize_message g lib i False w = (r, w')" by fastforce
    obtain rs w'' where ms: "normalize_all g lib is w' = (rs, w'')" by fastforce
    show ?case using one [of i False w] Cons [of w'] m ms
      by (cases r; cases rs) (simp_all add: answers_def map_answer_def del: wf_json.simps)
  qed (simp add: answers_def)
qed

lemma google_wf:
  "wf_services (sv\<lparr>sv_calendar := Some (google_calendar g bm), sv_email := Some (google_mail g lib bm')\<rparr>)"
proof -
  have "answers (list_all (\<lambda>d. wf_json (JDict d))) (google_search_events g c a b q n bm w)" for c a b q n w
    unfolding google_search_events_def by (intro answers_guarded answers_map) (simp add: list_all_iff wf_fields(1) del: wf_json.simps)
  moreover have "answers (\<lambda>d. wf_json (JDict d)) (google_create_event g c kw bm w)" if "wf_json (JDict kw)" for c kw w
    unfolding google_create_event_def answers_shell by (intro answers_guarded answers_map wf_fields(5) that)
  moreover have "answers (list_all (\<lambda>d. wf_json (JDict d))) (google_search_messages g lib q n bm' w)" for q n w
    unfolding google_search_messages_def
    by (intro answers_guarded) (simp add: normalize_answers(2) answers_error del: wf_json.simps split: prod.split sum.split)
  moreover have "answers (\<lambda>d. wf_json (JDict d)) (google_read_message g lib i bm' w)" for i w
    unfolding google_read_message_def by (intro answers_guarded normalize_answers)
  moreover have "answers (\<lambda>d. wf_json (JDict d)) (google_thread_summary g i n bm' w)" if "wf_json i" for i n w
    unfolding google_thread_summary_def by (intro answers_guarded answers_map wf_fields(4) that)
  moreover have "answers (\<lambda>d. wf_json (JDict d)) (google_create_draft g lib kw bm' w)" if "wf_json (JDict kw)" for kw w
    unfolding google_create_draft_def answers_shell by (intro answers_guarded answers_map wf_fields(6) that)
  ultimately show ?thesis
    unfolding wf_services_def wf_answer_answers by (simp add: google_calendar_def google_mail_def del: wf_json.simps)
qed

text \<open>
  Whatever the built-in skills on the Google connectors are given, and whatever the client, the
  mail library and the breakers do, an answer is the text of a JSON object.
\<close>

theorem google_skills_answer_json:
  "case fst (builtin_run (sv\<lparr>sv_calendar := Some (google_calendar g bm), sv_email := Some (google_mail g lib bm')\<rparr>) name q w) of
     Inl e \<Rightarrow> True | Inr c \<Rightarrow> \<exists>d. loads c = Some (JDict d)"
  by (rule skills_answer_json [OF google_wf])

subsection \<open>Searching the calendar\<close>










subsection \<open>The briefing over the Google connectors\<close>

text \<open>
  C27. The briefing goes out although mail and calendar are down. When its connectors are the
  Google ones behind breakers that are open and not cooled down, the summarizer is off, the
  channel works and the run's key is free, the run sends one notification: the notice that only
  sections from memory are shown, then the latest episodes and the preferences. It
  completes its key and records both services as degraded; the Google client is not called.
\<close>

theorem degraded_briefing_sent:
  assumes "refuses ''calendar'' m1 w" "refuses ''gmail'' m2 w"
    and "zones (getenv ''BENJAMIN_TIMEZONE'' ''America/New_York'' w) = Zone f"
    and "summarizer_init w = Inr sm" "\<not> sm_enabled sm" "\<not> key_held (briefing_key je job_id scheduled) w"
  shows "\<exists>w'. run_daily_briefing send jitter temperature zones google dir je to_outbox job_id scheduled
        (Some (google_calendar g (Some m1))) (Some (google_mail g lib (Some m2))) m w = (Inr (), m, w')
    \<and> w_outbox w' = w_outbox w @ [\<lparr>nt_title = ''Daily Briefing'', nt_body = join nl (degraded_lines w),
                                     nt_meta = notify_meta (fst (uuid4 w)) job_id\<rparr>]
    \<and> key_held (briefing_key je job_id scheduled) w'
    \<and> map_of (ep_meta (last (episodes w'))) ''degraded_services'' = Some (jstrs [''calendar'', ''gmail''])"
proof -
  have "degraded_calendar (google_calendar g (Some m1)) w"
    by (simp add: degraded_calendar_def google_calls_refused [OF assms(1)] refusal_def)
  moreover have "degraded_mail (google_mail g lib (Some m2)) w"
    unfolding degraded_mail_def
  proof (intro allI)
    fix q n
    have "\<exists>m'. google_search_messages g lib q n (Some m2) w = (Inl (refusal ''gmail'' m2), m', w)"
      unfolding google_search_messages_def by (rule google_guarded_refused [OF assms(2)])
    then show "\<exists>le. ec_search_messages (google_mail g lib (Some m2)) q n w = (Inl (ServiceDegraded ''gmail'' le), w)"
      by (auto simp: google_mail_def one_call_def refusal_def)
  qed
  ultimately show ?thesis using degraded_run [where zones = zones] assms(3-6) by blast
qed

definition both_down :: manager where
  "both_down = down_manager\<lparr>bm_breakers := map (\<lambda>s. (s, breaker_step (Failure ''503'' 0) (new_breaker s 1 60 1))) [''calendar'', ''gmail'']\<rparr>"

lemma degraded_briefing_sent_witness:
  "\<exists>w'. run_daily_briefing (\<lambda>q w. (Response 200 None, w)) (\<lambda>_. 0) (JInt 0) (\<lambda>_. Zone (\<lambda>t. t)) (\<lambda>_. None) ''state'' demo_job
       to_outbox None (Some ''t'') (Some (google_calendar no_google (Some both_down)))
       (Some (google_mail no_google plain_lib (Some both_down))) both_down (empty_world 0) = (Inr (), both_down, w')
    \<and> map nt_body (w_outbox w') = [join nl [''Email/Calendar currently degraded; showing memory-only sections'', [],
        ''Recent episodes:'', ''- No recent events'', [], ''Top preferences:'', ''- No saved preferences'']]"
proof -
  have "refuses ''calendar'' both_down (empty_world 0)" "refuses ''gmail'' both_down (empty_world 0)"
    by (simp_all add: refuses_def both_down_def down_manager_def breaker_of_def manager_get_def new_breaker_def record_failure_def
        cooled_down_def seconds_def empty_world_def Let_def)
  moreover obtain sm where "summarizer_init (empty_world 0) = Inr sm" "\<not> sm_enabled sm"
    using summarizer_off by (cases "summarizer_init (empty_world 0)") auto
  moreover have "w_outbox (empty_world 0) = []" by (simp add: empty_world_def)
  moreover have "degraded_lines (empty_world 0) = [''Email/Calendar currently degraded; showing memory-only sections'', [],
        ''Recent episodes:'', ''- No recent events'', [], ''Top preferences:'', ''- No saved preferences'']"
    by code_simp
  ultimately show ?thesis
    using degraded_briefing_sent [of both_down "empty_world 0" both_down "\<lambda>_. Zone (\<lambda>t. t)" "\<lambda>t. t" sm demo_job None "Some ''t''",
        OF _ _ refl _ _ no_key_held]
    by fastforce
qed

text \<open>
  The connectors a scheduled briefing makes for itself have no breaker manager: when Google is
  down, the exception of its client ends the briefing. Nothing is sent and the key stays free,
  whatever the breakers in the file say, so the degraded briefing above is one the scheduled
  job never comes to.
\<close>

definition default_connectors :: "google_setup \<Rightarrow> mail_lib \<Rightarrow> string \<Rightarrow> (calendar_connector \<times> email_connector) option" where
  "default_connectors gt lib token_path =
     (case build_google_service gt token_path of
        Inl e \<Rightarrow> None | Inr g \<Rightarrow> Some (google_calendar g None, google_mail g lib None))"

theorem outage_fails_briefing:
  assumes "casefold (getenv ''BENJAMIN_GOOGLE_ENABLED'' ''off'' w) = ''on''"
    and "build_google_service gt (getenv ''BENJAMIN_GOOGLE_TOKEN_PATH'' (dir @ ''/google_token.json'') w) = Inr g"
    and "zones (getenv ''BENJAMIN_TIMEZONE'' ''America/New_York'' w) = Zone f"
    and "\<And>c q a b n. gs_events_list g c q a b n w = (Inl e, w)" "\<forall>service le. e \<noteq> ServiceDegraded service le"
  shows "run_daily_briefing send jitter temperature zones (default_connectors gt lib) dir je notify job_id scheduled None None m w
    = (Inl e, m, w)"
proof -
  have "schedule_section (Some (google_calendar g None)) w = (Inl e, w)"
    using assms(4,5) by (cases e) (simp_all add: schedule_section_def google_calendar_def one_call_def google_search_events_def
        google_guarded_def map_answer_def)
  then have "gather zones (Some (google_calendar g None)) mail w = (Inl e, w)" for mail
    using assms(3) by (simp add: gather_def Let_def)
  then show ?thesis
    using assms(1,2) by (simp add: run_daily_briefing_def chosen_connectors_def build_default_connectors_def default_connectors_def
        briefing_with_def)
qed

definition google_outage :: google_setup where
  "google_outage = \<lparr>gt_installed = True, gt_token_exists = (\<lambda>_. True),
     gt_build = (\<lambda>_. Inr (no_google\<lparr>gs_events_list := (\<lambda>c q a b n w. (Inl (RuntimeError ''503''), w))\<rparr>))\<rparr>"

lemma outage_fails_briefing_witness:
  "let w = (empty_world 0)\<lparr>w_env := [''BENJAMIN_GOOGLE_ENABLED'' \<mapsto> ''on'']\<rparr>
   in run_daily_briefing (\<lambda>q w. (Response 200 None, w)) (\<lambda>_. 0) (JInt 0) (\<lambda>_. Zone (\<lambda>t. t)) (default_connectors google_outage plain_lib)
        ''state'' demo_job to_outbox None (Some ''t'') None None both_down w = (Inl (RuntimeError ''503''), both_down, w)"
  unfolding Let_def
  by (rule outage_fails_briefing [where gt = google_outage and f = "\<lambda>t. t"
        and g = "no_google\<lparr>gs_events_list := (\<lambda>c q a b n w. (Inl (RuntimeError ''503''), w))\<rparr>"])
    (simp_all add: getenv_def casefold_def casefold_char_def build_google_service_def google_outage_def)

end
