(* ===== verification/OpsPages.thy ===== *)
theory OpsPages
  imports Maintenance Health Google
begin

section \<open>The operations pages and the command-line doctor\<close>

text \<open>
  The operations pages of \<open>routes_ui.py\<close>, \<open>routes_ops.py\<close>, \<open>routes_ops_maint.py\<close>,
  \<open>routes_integrations.py\<close> and \<open>scripts/doctor.py\<close>: the doctor and the maintenance jobs run by
  hand, and what they show. \<open>breakers_valid\<close>, \<open>dump\<close> and \<open>st_size\<close> are the parameters of the
  jobs.
\<close>

subsection \<open>Breakers in a report\<close>

fun pvalue_json :: "pvalue \<Rightarrow> json" where
  "pvalue_json PNull = JNull"
| "pvalue_json (PBool b) = JBool b"
| "pvalue_json (PInt i) = JInt i"
| "pvalue_json (PText s) = JStr s"
| "pvalue_json (PTime (NotIso s)) = JStr s"
| "pvalue_json (PTime (Iso (Aware t))) = JStr (iso_text t)"
| "pvalue_json (PTime (Iso (Naive t))) = JStr (iso_text t)"

definition snapshot_json :: "manager \<Rightarrow> json" where
  "snapshot_json m = JDict (map (\<lambda>(name, d). (name, JDict (map (\<lambda>(k, v). (k, pvalue_json v)) d))) (manager_snapshot m))"

subsection \<open>Jobs run by hand\<close>

definition get_maintenance_status :: "maint_state \<Rightarrow> json dict dict" where
  "get_maintenance_status ms = load_maintenance_status (ms_status ms)"

definition run_doctor_now ::
  "(payload dict \<Rightarrow> bool) \<Rightarrow> (doctor_report \<Rightarrow> json) \<Rightarrow> manager \<Rightarrow> notifier \<Rightarrow> maint_state \<Rightarrow> world
     \<Rightarrow> doctor_report res \<times> maint_state \<times> world" where
  "run_doctor_now breakers_valid dump m notify ms w =
     run_doctor_validate breakers_valid dump (snapshot_json m) notify (Some (is_safe_mode_enabled w)) ms w"

definition run_compact_now ::
  "(payload dict \<Rightarrow> bool) \<Rightarrow> (string \<Rightarrow> payload dict disk \<Rightarrow> nat) \<Rightarrow> notifier \<Rightarrow> maint_state \<Rightarrow> world
     \<Rightarrow> json dict res \<times> maint_state \<times> world" where
  "run_compact_now = run_weekly_compact"

text \<open>The buttons of the page do the same and go back to it.\<close>

definition ui_ops_run_doctor ::
  "(payload dict \<Rightarrow> bool) \<Rightarrow> (doctor_report \<Rightarrow> json) \<Rightarrow> manager \<Rightarrow> notifier \<Rightarrow> maint_state \<Rightarrow> world
     \<Rightarrow> unit res \<times> maint_state \<times> world" where
  "ui_ops_run_doctor breakers_valid dump m notify ms w =
     (case run_doctor_now breakers_valid dump m notify ms w of (r, ms', w') \<Rightarrow> (map_sum id (\<lambda>_. ()) r, ms', w'))"

definition ui_ops_run_compact ::
  "(payload dict \<Rightarrow> bool) \<Rightarrow> (string \<Rightarrow> payload dict disk \<Rightarrow> nat) \<Rightarrow> notifier \<Rightarrow> maint_state \<Rightarrow> world
     \<Rightarrow> unit res \<times> maint_state \<times> world" where
  "ui_ops_run_compact breakers_valid st_size notify ms w =
     (case run_compact_now breakers_valid st_size notify ms w of (r, ms', w') \<Rightarrow> (map_sum id (\<lambda>_. ()) r, ms', w'))"

record ops_page =
  op_maintenance :: "json dict dict"
  op_breakers :: json
  op_safe_mode :: bool

definition ui_ops :: "manager \<Rightarrow> maint_state \<Rightarrow> world \<Rightarrow> ops_page" where
  "ui_ops m ms w =
     \<lparr>op_maintenance = load_maintenance_status (ms_status ms), op_breakers = snapshot_json m,
      op_safe_mode = is_safe_mode_enabled w\<rparr>"

definition get_doctor_report :: "(payload dict \<Rightarrow> bool) \<Rightarrow> world \<Rightarrow> payload dict disk \<Rightarrow> doctor_report res \<times> payload dict disk" where
  "get_doctor_report breakers_valid = run_doctor breakers_valid False False"

definition ui_doctor :: "(payload dict \<Rightarrow> bool) \<Rightarrow> world \<Rightarrow> payload dict disk \<Rightarrow> doctor_report res \<times> payload dict disk" where
  "ui_doctor breakers_valid = run_doctor breakers_valid False False"

subsection \<open>The command line\<close>

text \<open>The exit code of \<open>scripts/doctor.py\<close> with the flags \<open>--repair\<close> and \<open>--compact\<close>.\<close>

definition exit_code :: "bool \<Rightarrow> doctor_report \<Rightarrow> int" where
  "exit_code repair rep = (if \<not> dr_ok rep \<and> \<not> repair then 2 else if 0 < dr_missing rep then 1 else 0)"

definition doctor_main ::
  "(payload dict \<Rightarrow> bool) \<Rightarrow> bool \<Rightarrow> bool \<Rightarrow> world \<Rightarrow> payload dict disk \<Rightarrow> int res \<times> payload dict disk" where
  "doctor_main breakers_valid repair compact w d =
     (case run_doctor breakers_valid repair compact w d of
        (Inl e, d') \<Rightarrow> (Inl e, d') | (Inr rep, d') \<Rightarrow> (Inr (exit_code repair rep), d'))"

subsection \<open>The state of the integrations\<close>

record integrations =
  it_safe_mode :: bool
  it_google :: bool
  it_token :: bool
  it_ready :: "bool \<times> bool"
  it_timezone :: string
  it_breakers :: json

definition integrations_status :: "process \<Rightarrow> string \<Rightarrow> manager \<Rightarrow> world \<Rightarrow> integrations" where
  "integrations_status pr state_dir m w =
     \<lparr>it_safe_mode = is_safe_mode_enabled w,
      it_google = (casefold (getenv ''BENJAMIN_GOOGLE_ENABLED'' ''off'' w) = ''on''),
      it_token = pr_exists pr (pr_expand pr (getenv ''BENJAMIN_GOOGLE_TOKEN_PATH'' (state_dir @ ''/google_token.json'') w)),
      it_ready = (pr_calendar_ready pr, pr_email_ready pr),
      it_timezone = getenv ''BENJAMIN_TIMEZONE'' ''America/New_York'' w,
      it_breakers = snapshot_json m\<rparr>"

subsection \<open>A repaired directory passes the check\<close>

text \<open>A file that the check reads through, without a bad line.\<close>

definition settled :: "'r artifact \<Rightarrow> 'r jsonl_file \<Rightarrow> bool" where
  "settled a f \<longleftrightarrow> (\<exists>rep valid. jsonl_report a (fst f) = Inr (rep, valid) \<and> fr_invalid rep = 0)"

lemma written_report: "jsonl_report a (Some (write_rows rows)) = Inr (rep, valid) \<Longrightarrow> fr_invalid rep = 0"
  by (drule jsonl_report_ok) (simp add: written_valid)

lemma doctor_file_settles:
  assumes "doctor_file a True compact w fb = (Inr rep, fb')"
  shows "settled a fb'"
proof (cases "fst fb")
  case None
  then show ?thesis using assms by (auto simp: doctor_file_def settled_def jsonl_report_def new_report_def)
next
  case (Some ls)
  then obtain rep0 valid where r: "jsonl_report a (Some ls) = Inr (rep0, valid)"
    using assms by (auto simp: doctor_file_def split: sum.splits)
  then show ?thesis
    using assms Some jsonl_report_ok [OF r] unfolding settled_def doctor_file_def backup_and_replace_def
    by (auto simp: Let_def split: if_splits sum.splits dest: written_report)
qed

lemma settled_check:
  assumes "settled a f"
  shows "\<exists>r. doctor_file a False False w f = (Inr r, f) \<and> fr_invalid r = 0"
  using assms doctor_file_readonly [of a w f]
  by (cases f) (auto simp: settled_def doctor_file_def Let_def split: option.split)

lemma visit_settlesE:
  assumes "visit name a get put True compact w st = (Inr fs', d')"
  obtains fs d f where "st = (Inr fs, d)" and "d' = put f d" and "settled a f"
  using visitE [OF assms] doctor_file_settles by metis

lemma visit_settled:
  assumes "settled a (get d)" and "put (get d) d = d" and "critical_invalid fs = 0"
  shows "\<exists>fs'. visit name a get put False False w (Inr fs, d) = (Inr fs', d) \<and> critical_invalid fs' = 0"
  using settled_check [OF assms(1), of w] assms(2,3) by (auto simp: visit_def critical_invalid_snoc)

text \<open>All critical files of the directory.\<close>

definition all_settled :: "'b disk \<Rightarrow> bool" where
  "all_settled d \<longleftrightarrow> settled semantic_artifact (dk_semantic d) \<and> settled episodic_artifact (dk_episodic d)
     \<and> settled approvals_artifact (dk_approvals d) \<and> settled rules_artifact (dk_rules d)
     \<and> settled tasks_artifact (dk_tasks d) \<and> settled executions_artifact (dk_executions d)"

lemma visit_all_settles:
  assumes "visit_all True compact w d = (Inr fs, d')"
  shows "all_settled d'"
  using assms unfolding visit_all_def visit_stores_def all_settled_def by (elim visit_settlesE) auto

lemma visit_all_settled:
  assumes "all_settled d"
  shows "\<exists>fs. visit_all False False w d = (Inr fs, d) \<and> critical_invalid fs = 0"
proof -
  have s: "settled semantic_artifact (dk_semantic d)" "settled episodic_artifact (dk_episodic d)"
    "settled approvals_artifact (dk_approvals d)" "settled rules_artifact (dk_rules d)"
    "settled tasks_artifact (dk_tasks d)" "settled executions_artifact (dk_executions d)"
    using assms by (simp_all add: all_settled_def)
  obtain f1 where 1: "visit ''semantic'' semantic_artifact dk_semantic (\<lambda>f. dk_semantic_update (\<lambda>_. f)) False False w (Inr [], d)
      = (Inr f1, d)" "critical_invalid f1 = 0"
    using visit_settled [where name = "''semantic''" and get = dk_semantic and put = "\<lambda>f. dk_semantic_update (\<lambda>_. f)" and fs = "[]" and w = w,
        OF s(1)] by (auto simp: critical_invalid_def)
  obtain f2 where 2: "visit ''episodic'' episodic_artifact dk_episodic (\<lambda>f. dk_episodic_update (\<lambda>_. f)) False False w (Inr f1, d)
      = (Inr f2, d)" "critical_invalid f2 = 0"
    using visit_settled [where name = "''episodic''" and get = dk_episodic and put = "\<lambda>f. dk_episodic_update (\<lambda>_. f)" and fs = f1 and w = w,
        OF s(2)] 1(2) by auto
  obtain f3 where 3: "visit ''approvals'' approvals_artifact dk_approvals (\<lambda>f. dk_approvals_update (\<lambda>_. f)) False False w (Inr f2, d)
      = (Inr f3, d)" "critical_invalid f3 = 0"
    using visit_settled [where name = "''approvals''" and get = dk_approvals and put = "\<lambda>f. dk_approvals_update (\<lambda>_. f)" and fs = f2 and w = w,
        OF s(3)] 2(2) by auto
  obtain f4 where 4: "visit ''rules'' rules_artifact dk_rules (\<lambda>f. dk_rules_update (\<lambda>_. f)) False False w (Inr f3, d)
      = (Inr f4, d)" "critical_invalid f4 = 0"
    using visit_settled [where name = "''rules''" and get = dk_rules and put = "\<lambda>f. dk_rules_update (\<lambda>_. f)" and fs = f3 and w = w,
        OF s(4)] 3(2) by auto
  obtain f5 where 5: "visit ''tasks'' tasks_artifact dk_tasks (\<lambda>f. dk_tasks_update (\<lambda>_. f)) False False w (Inr f4, d)
      = (Inr f5, d)" "critical_invalid f5 = 0"
    using visit_settled [where name = "''tasks''" and get = dk_tasks and put = "\<lambda>f. dk_tasks_update (\<lambda>_. f)" and fs = f4 and w = w,
        OF s(5)] 4(2) by auto
  obtain f6 where 6: "visit ''executions'' executions_artifact dk_executions (\<lambda>f. dk_executions_update (\<lambda>_. f)) False False w (Inr f5, d)
      = (Inr f6, d)" "critical_invalid f6 = 0"
    using visit_settled [where name = "''executions''" and get = dk_executions and put = "\<lambda>f. dk_executions_update (\<lambda>_. f)" and fs = f5 and w = w,
        OF s(6)] 5(2) by auto
  show ?thesis using 1 2 3 4 5 6 by (simp add: visit_all_def visit_stores_def)
qed

text \<open>
  C40. After a repair from the command line that completes, a later check completes as well,
  changes nothing and does not exit with the code for invalid files; the page shows a report
  that is ok.
\<close>

theorem repaired_directory_passes:
  assumes "doctor_main breakers_valid True compact w d = (Inr code, d')"
  shows "(\<exists>code'. doctor_main breakers_valid False False w' d' = (Inr code', d') \<and> code' \<noteq> 2)
    \<and> (\<exists>rep. ui_doctor breakers_valid w' d' = (Inr rep, d') \<and> dr_ok rep)"
proof -
  obtain fs where "visit_all True compact w d = (Inr fs, d')"
    using assms by (auto simp: doctor_main_def run_doctor_def split: sum.splits prod.splits)
  from visit_all_settled [OF visit_all_settles [OF this], of w'] obtain fs'
    where v: "visit_all False False w' d' = (Inr fs', d')" "critical_invalid fs' = 0" by blast
  then have ok: "\<exists>rep. run_doctor breakers_valid False False w' d' = (Inr rep, d') \<and> dr_ok rep"
    by (simp add: run_doctor_def summarise_def critical_invalid_def)
  then show ?thesis by (auto simp: doctor_main_def exit_code_def ui_doctor_def)
qed

definition torn_disk :: "payload dict disk" where
  "torn_disk = \<lparr>dk_semantic = (None, []), dk_episodic = (None, []), dk_approvals = (None, []), dk_rules = (None, []),
     dk_tasks = (Some [BadJson ''{'', Row demo_task], []), dk_executions = (None, []),
     dk_breakers = Missing, dk_overrides = Missing\<rparr>"

theorem repaired_directory_passes_witness:
  "fst (doctor_main (\<lambda>_. True) False False (empty_world 0) torn_disk) = Inr 2
   \<and> (\<exists>code d'. doctor_main (\<lambda>_. True) True False (empty_world 0) torn_disk = (Inr code, d')
        \<and> (\<exists>code'. doctor_main (\<lambda>_. True) False False (empty_world 9) d' = (Inr code', d') \<and> code' \<noteq> 2))"
proof -
  have before: "fst (doctor_main (\<lambda>_. True) False False (empty_world 0) torn_disk) = Inr 2" by code_simp
  have "fst (doctor_main (\<lambda>_. True) True False (empty_world 0) torn_disk) = Inr 1" by code_simp
  then obtain d' where "doctor_main (\<lambda>_. True) True False (empty_world 0) torn_disk = (Inr 1, d')" by (metis prod.collapse)
  with before repaired_directory_passes [OF this, of "empty_world 9"] show ?thesis by blast
qed

subsection \<open>Run by hand, the validation reports the present safe mode\<close>

text \<open>
  The validation that is run by hand records whether safe mode is on now; the nightly job keeps
  recording the state in which it was scheduled.
\<close>

lemma manual_validation_current:
  assumes "run_doctor_now bv dump m notify ms w = (Inr rep, ms', w')"
  shows "map_of (job_status ''doctor_validate'' (ms_status ms')) ''details''
    = Some (JDict [(''report'', dump rep), (''safe_mode_enabled'', JBool (is_safe_mode_enabled w)), (''breakers'', snapshot_json m)])"
proof -
  obtain corr v where u: "uuid4 w = (corr, v)" by fastforce
  obtain rep0 where d: "run_doctor bv False False v (ms_disk ms) = (Inr rep0, ms_disk ms)"
    using assms doctor_validate_is_read_only [of bv v "ms_disk ms"] u
    by (cases "run_doctor bv False False v (ms_disk ms)")
      (auto simp: run_doctor_now_def run_doctor_validate_def Let_def split: prod.splits sum.splits)
  show ?thesis
    using assms u d update_status_fields [of "''doctor_validate''" "''weekly_compact''"]
    by (auto simp: run_doctor_now_def run_doctor_validate_def write_episode_def tell_def JOBS_def Let_def
        split: prod.splits sum.splits if_splits)
qed

subsection \<open>Two readings of the same setting\<close>

text \<open>
  With blanks around \<open>on\<close> the health report and the environment check say that Google is on,
  the integrations page and the connectors that it is off.
\<close>

theorem padded_flag_disagrees:
  "\<exists>w. is_on ''BENJAMIN_GOOGLE_ENABLED'' ''off'' w \<and> \<not> google_enabled w \<and> \<not> it_google (integrations_status pr dir m w)"
proof -
  let ?w = "(empty_world 0)\<lparr>w_env := (\<lambda>_. Some '' on'')\<rparr>"
  have "casefold (strip '' on'') = ''on''" and "casefold '' on'' \<noteq> ''on''" by code_simp+
  then have "is_on ''BENJAMIN_GOOGLE_ENABLED'' ''off'' ?w \<and> \<not> google_enabled ?w \<and> \<not> it_google (integrations_status pr dir m ?w)"
    by (simp add: is_on_def google_enabled_def integrations_status_def getenv_def)
  then show ?thesis by blast
qed

end
