(* ===== verification/Channels.thy ===== *)
theory Channels
  imports Jobs Http
begin

section \<open>Notification channels\<close>

text \<open>
  \<open>core/notifications/notifier.py\<close> and its channels: which channels the settings ask for, the
  console, and the Discord web hook over the retrying client (\<open>jit\<close> are the random numbers of its pauses). A notification that is printed
  is one more in the outbox of the state; the web is the transport \<open>send\<close>.
\<close>

subsection \<open>The channels\<close>

datatype channel = ConsoleNotifier | DiscordWebhookNotifier string

definition console_send :: notifier where
  "console_send title body meta w =
     (Inr (), w\<lparr>w_outbox := w_outbox w @ [\<lparr>nt_title = title, nt_body = body, nt_meta = meta\<rparr>]\<rparr>)"

definition discord_content :: "string \<Rightarrow> string \<Rightarrow> json dict \<Rightarrow> string" where
  "discord_content title body meta =
     ''**'' @ title @ ''**'' @ nl @ body @ (if meta = [] then [] else nl @ ''meta: '' @ dumps (JDict meta))"

text \<open>
  \<open>except BenjaminHTTPError\<close>: such a failure, a \<open>RuntimeError\<close> of the client, is logged and not
  raised; any other exception goes on.
\<close>

definition discord_send :: "server \<Rightarrow> (nat \<Rightarrow> nat) \<Rightarrow> string \<Rightarrow> notifier" where
  "discord_send send jit url title body meta w =
     (case request_with_retry send jit w ''POST'' url (Some [(''Content-Type'', ''application/json'')])
             (JDict [(''content'', JStr (discord_content title body meta))]) (Some (Num 5 0)) (Some 1) None True None w of
        (Inl (RuntimeError e), w') \<Rightarrow> (Inr (), w')
      | (Inl e, w') \<Rightarrow> (Inl e, w')
      | (Inr _, w') \<Rightarrow> (Inr (), w'))"

fun channel_send :: "server \<Rightarrow> (nat \<Rightarrow> nat) \<Rightarrow> channel \<Rightarrow> notifier" where
  "channel_send send jit ConsoleNotifier = console_send"
| "channel_send send jit (DiscordWebhookNotifier url) = discord_send send jit url"

definition requested_channels :: "world \<Rightarrow> string list" where
  "requested_channels w =
     map (\<lambda>n. casefold (strip n))
       (filter (\<lambda>n. strip n \<noteq> []) (split_char (CHR '','') (getenv ''BENJAMIN_NOTIFIER'' ''console'' w)))"

definition build_notification_router :: "world \<Rightarrow> channel list" where
  "build_notification_router w =
     (let requested = requested_channels w;
          webhook = getenv ''BENJAMIN_DISCORD_WEBHOOK_URL'' [] w;
          console = (if ''console'' \<in> set requested \<or> requested = [] then [ConsoleNotifier] else []);
          discord = (if ''discord'' \<in> set requested \<and> webhook \<noteq> [] then [DiscordWebhookNotifier webhook] else []);
          channels = console @ discord
      in if channels = [] then [ConsoleNotifier] else channels)"

text \<open>The router of the process: what the jobs and the rules send through.\<close>

definition notification_router :: "server \<Rightarrow> (nat \<Rightarrow> nat) \<Rightarrow> world \<Rightarrow> notifier" where
  "notification_router send jit env = router_send (map (channel_send send jit) (build_notification_router env))"

subsection \<open>What can come out of sending\<close>

lemma judge_status_error:
  "judge_status url allowed final out = Settle (Inl e) \<Longrightarrow> (\<exists>s. e = RuntimeError s) \<or> (\<exists>s. out = Raised s \<and> e = OtherException s)"
  by (auto simp: judge_status_def split: outcome.splits if_splits)

lemma attempt_loop_error:
  assumes "attempt_loop (judge_status url allowed) pause send (RuntimeError u) mx ns w = (Inl e, w')"
  shows "(\<exists>s. e = RuntimeError s) \<or> (\<exists>v s. fst (send v) = Raised s \<and> e = OtherException s)
    \<or> (\<exists>n\<in>set ns. int n < mx \<and> pause n = Some e)"
  using assms
proof (induction ns arbitrary: w)
  case (Cons n ns)
  obtain out v where s: "send w = (out, v)" by fastforce
  show ?case
  proof (cases "judge_status url allowed (mx \<le> int n) out")
    case (Settle r)
    then have "judge_status url allowed (mx \<le> int n) out = Settle (Inl e)" using Cons.prems s by simp
    from judge_status_error [OF this] s show ?thesis by (metis fst_conv)
  next
    case Again
    then have "int n < mx" using judge_status_final [of url allowed out] by (cases "mx \<le> int n") auto
    then show ?thesis using Cons s Again by (auto split: option.splits)
  qed
qed auto

text \<open>The exceptions a notification can end with: those of a library, for the address of the web hook, or of its one pause.\<close>

definition may_escape :: "server \<Rightarrow> (nat \<Rightarrow> nat) \<Rightarrow> string \<Rightarrow> (string \<Rightarrow> string option) \<Rightarrow> exc \<Rightarrow> bool" where
  "may_escape send jit url settings e \<longleftrightarrow>
     (\<exists>rq v s. rq_url rq = url \<and> fst (send rq v) = Raised s \<and> e = OtherException s)
     \<or> hook_pause jit ((empty_world 0)\<lparr>w_env := settings\<rparr>) 0 = Some e"

lemma may_escapeI: "fst (send rq v) = Raised s \<Longrightarrow> rq_url rq = url \<Longrightarrow> e = OtherException s \<Longrightarrow> may_escape send jit url settings e"
  unfolding may_escape_def by blast

lemma hook_pause_settings: "hook_pause jit w n = hook_pause jit ((empty_world 0)\<lparr>w_env := w_env w\<rparr>) n"
  by (simp add: hook_pause_def backoff_base_def backoff_max_def get_float_env_def)

lemma discord_escapes:
  assumes "discord_send send jit url title body meta w = (Inl e, w')"
  shows "may_escape send jit url (w_env w) e"
proof -
  let ?headers = "merge_headers (Some [(''Content-Type'', ''application/json'')]) None"
  let ?rq = "\<lparr>rq_method = ''POST'', rq_url = url, rq_headers = (if ?headers = [] then None else Some ?headers),
      rq_json = JDict [(''content'', JStr (discord_content title body meta))], rq_timeout = build_timeout (Some (Num 5 0)) w\<rparr>"
  obtain r v where r: "request_with_retry send jit w ''POST'' url (Some [(''Content-Type'', ''application/json'')])
      (JDict [(''content'', JStr (discord_content title body meta))]) (Some (Num 5 0)) (Some 1) None True None w = (r, v)" by fastforce
  have e: "r = Inl e" "\<And>s. e \<noteq> RuntimeError s"
    using assms r by (auto simp: discord_send_def split: sum.splits exc.splits)
  have "attempts 1 = [0, 1]" by (simp add: attempts_def upt_rec)
  with attempt_loop_error [OF r [unfolded request_with_retry_def Let_def e(1)]] e(2)
  have "(\<exists>v s. fst (send ?rq v) = Raised s
        \<and> e = OtherException s) \<or> hook_pause jit w 0 = Some e"
    by auto
  then show ?thesis
  proof (elim disjE exE conjE)
    fix v s assume "fst (send ?rq v) = Raised s"
      and "e = OtherException s"
    then show ?thesis by (intro may_escapeI [where rq = ?rq]) simp_all
  next
    assume "hook_pause jit w 0 = Some e"
    then show ?thesis by (simp add: may_escape_def hook_pause_settings [of jit w])
  qed
qed

lemma console_sends: "console_send title body meta w = (Inr (), w\<lparr>w_outbox := w_outbox w @ [\<lparr>nt_title = title, nt_body = body, nt_meta = meta\<rparr>]\<rparr>)"
  by (simp add: console_send_def)

lemma channels_built:
  "build_notification_router env \<in> {[ConsoleNotifier], [DiscordWebhookNotifier (getenv ''BENJAMIN_DISCORD_WEBHOOK_URL'' [] env)],
     [ConsoleNotifier, DiscordWebhookNotifier (getenv ''BENJAMIN_DISCORD_WEBHOOK_URL'' [] env)]}"
  by (simp add: build_notification_router_def Let_def)

text \<open>
  C30. Whatever the settings ask for there is a channel, and the console is one when it is asked
  for or nothing is. Sending through the router returns whatever the web hook answers, and
  whatever happens on the wire: it raises only what a library raises outside the family of
  \<open>httpx.HTTPError\<close> for the address of the web hook (\<open>InvalidURL\<close>), or for a pause longer than
  the clock can hold, and never when Discord is not a channel. The console, when it is a channel,
  has shown the notification in any case.
\<close>

theorem notifying_fails_only_outside:
  "build_notification_router env \<noteq> []
   \<and> (requested_channels env = [] \<or> ''console'' \<in> set (requested_channels env) \<longrightarrow>
        ConsoleNotifier \<in> set (build_notification_router env))
   \<and> (case notification_router send jit env title body meta w of
        (Inr _, w') \<Rightarrow> True
      | (Inl e, w') \<Rightarrow> (\<exists>url. DiscordWebhookNotifier url \<in> set (build_notification_router env) \<and> url = getenv ''BENJAMIN_DISCORD_WEBHOOK_URL'' [] env
           \<and> may_escape send jit url (w_env w) e))
   \<and> (ConsoleNotifier \<in> set (build_notification_router env) \<longrightarrow>
        (\<exists>cs. notification_router send jit env title body meta w
           = router_send cs title body meta (w\<lparr>w_outbox := w_outbox w @ [\<lparr>nt_title = title, nt_body = body, nt_meta = meta\<rparr>]\<rparr>)
         \<and> cs = map (channel_send send jit) (filter (\<lambda>c. c \<noteq> ConsoleNotifier) (build_notification_router env))))"
proof -
  let ?url = "getenv ''BENJAMIN_DISCORD_WEBHOOK_URL'' [] env"
  let ?shown = "w\<lparr>w_outbox := w_outbox w @ [\<lparr>nt_title = title, nt_body = body, nt_meta = meta\<rparr>]\<rparr>"
  have esc: "may_escape send jit ?url (w_env w) e"
    if "discord_send send jit ?url title body meta v = (Inl e, w')" and "v = w \<or> v = ?shown" for v e w'
    using discord_escapes [OF that(1)] that(2) by auto
  have channels: "build_notification_router env \<noteq> []
   \<and> (requested_channels env = [] \<or> ''console'' \<in> set (requested_channels env) \<longrightarrow>
        ConsoleNotifier \<in> set (build_notification_router env))"
    by (simp add: build_notification_router_def Let_def)
  from channels_built [of env] consider
      "build_notification_router env = [ConsoleNotifier]" | "build_notification_router env = [DiscordWebhookNotifier ?url]"
    | "build_notification_router env = [ConsoleNotifier, DiscordWebhookNotifier ?url]" by blast
  then show ?thesis
    by cases (use channels esc in \<open>auto simp: notification_router_def console_sends split: prod.splits sum.splits\<close>)
qed

text \<open>A server that is down, and one whose address is no address.\<close>

definition no_hook :: server where
  "no_hook rq w = (if rq_url rq = ''nonsense'' then Raised ''Invalid URL'' else Failed_with ConnectError, w)"

definition hook_world :: "string \<Rightarrow> world" where
  "hook_world url = (empty_world 0)\<lparr>w_env := [''BENJAMIN_NOTIFIER'' \<mapsto> ''discord'', ''BENJAMIN_DISCORD_WEBHOOK_URL'' \<mapsto> url]\<rparr>"

theorem notifying_fails_only_outside_witness:
  "fst (notification_router no_hook (\<lambda>_. 0) (hook_world ''https://discord'') ''t'' ''b'' [] (hook_world ''https://discord'')) = Inr ()
   \<and> ConsoleNotifier \<in> set (build_notification_router (empty_world 0))"
proof (rule conjI)
  let ?w = "hook_world ''https://discord''"
  have url: "getenv ''BENJAMIN_DISCORD_WEBHOOK_URL'' [] ?w = ''https://discord''" by code_simp
  have "hook_pause (\<lambda>_. 0) ((empty_world 0)\<lparr>w_env := w_env ?w\<rparr>) 0 = None" by code_simp
  then have "\<not> may_escape no_hook (\<lambda>_. 0) ''https://discord'' (w_env ?w) e" for e
    by (simp add: may_escape_def no_hook_def)
  then show "fst (notification_router no_hook (\<lambda>_. 0) ?w ''t'' ''b'' [] ?w) = Inr ()"
    using notifying_fails_only_outside [where env = ?w and send = no_hook and jit = "\<lambda>_. 0" and title = "''t''" and body = "''b''" and meta = "[]" and w = ?w] url
    by (cases "notification_router no_hook (\<lambda>_. 0) ?w ''t'' ''b'' [] ?w") (auto split: sum.splits)
  have "''console'' \<in> set (requested_channels (empty_world 0))" by code_simp
  then show "ConsoleNotifier \<in> set (build_notification_router (empty_world 0))"
    using notifying_fails_only_outside by blast
qed

text \<open>
  A web hook whose address the library cannot parse makes every notification fail, and with it
  the reminder that sends it: its key is not held, and nothing was sent.
\<close>

theorem bad_webhook_fails_reminder:
  "case run_reminder demo_job (notification_router no_hook (\<lambda>_. 0) (hook_world ''nonsense'')) ''tea'' (Some ''r1'') (Some ''t'') (hook_world ''nonsense'') of
     (res, w') \<Rightarrow> res = Inl (OtherException ''Invalid URL'') \<and> w_outbox w' = []"
  by code_simp

subsection \<open>A lost message counts as sent\<close>

lemma discord_down:
  assumes "\<And>rq v. send rq v = (Failed_with ConnectTimeout, v)"
  shows "discord_send send jit url title body meta w = (Inr (), w)"
proof -
  have a: "attempts 1 = [0, 1]" by (simp add: attempts_def upt_rec)
  have e: "judge_status u None final (Failed_with ConnectTimeout)
      = Settle (Inl (RuntimeError (''HTTP request error for '' @ u @ '': '' @ exc_name ConnectTimeout)))" for u final
    by (simp add: judge_status_def RETRYABLE_EXCEPTIONS_def)
  show ?thesis unfolding discord_send_def request_with_retry_def Let_def by (simp add: a assms e del: exc_name.simps)
qed

lemma guarded_silent:
  assumes "\<not> key_held k w" and "\<And>v. send_it v = (Inr (), v)" and "\<And>v. w_outbox (record_it v) = w_outbox v"
  shows "fst (guarded mx k meta corr skip_it send_it record_it w) = Inr ()
    \<and> w_outbox (snd (guarded mx k meta corr skip_it send_it record_it w)) = w_outbox w"
  using try_start_not_held [OF assms(1), of mx JobRun "Some corr" meta] assms(2,3)
  by (auto simp: guarded_def deliver_def mark_def Let_def ledger_append_def)

text \<open>
  With Discord as the only channel and its server out of reach, a reminder returns as sent: its key is
  held, so it is not tried again, and nobody has seen it.
\<close>

theorem lost_reminder_counts_as_sent:
  assumes "build_notification_router env = [DiscordWebhookNotifier url]"
    and "\<And>rq v. send rq v = (Failed_with ConnectTimeout, v)"
    and "\<not> key_held (reminder_key je message job_id scheduled) w"
  shows "\<exists>w'. run_reminder je (notification_router send jit env) message job_id scheduled w = (Inr (), w')
    \<and> w_outbox w' = w_outbox w \<and> key_held (reminder_key je message job_id scheduled) w'"
proof -
  let ?run = "run_reminder je (notification_router send jit env) message job_id scheduled w"
  have "notification_router send jit env t b m v = (Inr (), v)" for t b m v
    using assms(1) discord_down [OF assms(2)] by (simp add: notification_router_def)
  then have "fst ?run = Inr () \<and> w_outbox (snd ?run) = w_outbox w"
    using guarded_silent assms(3) by (simp add: run_reminder_parts remind_at_def remind_def Let_def)
  moreover then have "key_held (reminder_key je message job_id scheduled) (snd ?run)"
    using reminder.completes [of je "notification_router send jit env" message job_id scheduled w "()" "snd ?run"]
    by (metis prod.collapse)
  ultimately show ?thesis by (metis prod.collapse)
qed

end
