(* ===== verification/Deps.thy ===== *)
theory Deps
  imports Google Schedule Channels Orchestrator
begin

section \<open>The objects of the process\<close>

text \<open>
  \<open>apps/api/deps.py\<close>: the functions that make the objects of the process, most of them cached
  (\<open>lru_cache\<close>) so that the first answer is the only one. The breaker manager is not cached:
  every call makes a manager of its own over the same file.
\<close>

subsection \<open>Cached objects\<close>

text \<open>What the caches hold; an exception is not cached.\<close>

record 's objects =
  ob_calendar :: "google_service option option"
  ob_email :: "google_service option option"
  ob_scheduler :: "'s service option"
  ob_router :: "channel list option"
  ob_orchestrator :: "orchestrator option"

definition no_objects :: "'s objects" where
  "no_objects = \<lparr>ob_calendar = None, ob_email = None, ob_scheduler = None, ob_router = None,
     ob_orchestrator = None\<rparr>"

definition get_calendar_connector ::
  "google_setup \<Rightarrow> string \<Rightarrow> world \<Rightarrow> 's objects \<Rightarrow> google_service option res \<times> 's objects" where
  "get_calendar_connector gt state_dir w ob =
     (case ob_calendar ob of
        Some c \<Rightarrow> (Inr c, ob)
      | None \<Rightarrow> (case get_connector gt state_dir w of
                   Inl e \<Rightarrow> (Inl e, ob) | Inr c \<Rightarrow> (Inr c, ob\<lparr>ob_calendar := Some c\<rparr>)))"

definition get_email_connector ::
  "google_setup \<Rightarrow> string \<Rightarrow> world \<Rightarrow> 's objects \<Rightarrow> google_service option res \<times> 's objects" where
  "get_email_connector gt state_dir w ob =
     (case ob_email ob of
        Some c \<Rightarrow> (Inr c, ob)
      | None \<Rightarrow> (case get_connector gt state_dir w of
                   Inl e \<Rightarrow> (Inl e, ob) | Inr c \<Rightarrow> (Inr c, ob\<lparr>ob_email := Some c\<rparr>)))"

definition get_scheduler_service ::
  "(string \<Rightarrow> zone) \<Rightarrow> (bool \<Rightarrow> 's) \<Rightarrow> world \<Rightarrow> 's objects \<Rightarrow> 's service res \<times> 's objects" where
  "get_scheduler_service zones fresh w ob =
     (case ob_scheduler ob of
        Some sv \<Rightarrow> (Inr sv, ob)
      | None \<Rightarrow> (case service_init zones fresh w of
                   Inl e \<Rightarrow> (Inl e, ob) | Inr sv \<Rightarrow> (Inr sv, ob\<lparr>ob_scheduler := Some sv\<rparr>)))"

definition get_notification_router :: "world \<Rightarrow> 's objects \<Rightarrow> channel list \<times> 's objects" where
  "get_notification_router w ob =
     (case ob_router ob of
        Some r \<Rightarrow> (r, ob)
      | None \<Rightarrow> (let r = build_notification_router w in (r, ob\<lparr>ob_router := Some r\<rparr>)))"

text \<open>
  \<open>get_orchestrator\<close>: the scheduler, the calendar and the mail are asked for first. \<open>skills\<close> gives
  the \<open>run\<close> methods of the built-in skills over these three, \<open>llm_flag\<close> whether the planner is
  to ask the model.
\<close>

definition get_orchestrator ::
  "google_setup \<Rightarrow> string \<Rightarrow> (string \<Rightarrow> zone) \<Rightarrow> (string \<Rightarrow> datetime option) \<Rightarrow> (bool \<Rightarrow> 's)
     \<Rightarrow> ('s service \<Rightarrow> google_service option \<Rightarrow> google_service option \<Rightarrow> string \<Rightarrow> string \<Rightarrow> world \<Rightarrow> string res \<times> world)
     \<Rightarrow> bool \<Rightarrow> world \<Rightarrow> 's objects \<Rightarrow> orchestrator res \<times> 's objects" where
  "get_orchestrator gt state_dir zones isos fresh skills llm_flag w ob =
     (case ob_orchestrator ob of
        Some oc \<Rightarrow> (Inr oc, ob)
      | None \<Rightarrow>
          (case get_scheduler_service zones fresh w ob of
             (Inl e, ob1) \<Rightarrow> (Inl e, ob1)
           | (Inr sv, ob1) \<Rightarrow>
          (case get_calendar_connector gt state_dir w ob1 of
             (Inl e, ob2) \<Rightarrow> (Inl e, ob2)
           | (Inr cal, ob2) \<Rightarrow>
          (case get_email_connector gt state_dir w ob2 of
             (Inl e, ob3) \<Rightarrow> (Inl e, ob3)
           | (Inr mail, ob3) \<Rightarrow>
          (case orchestrator_init zones isos (skills sv cal mail) llm_flag w of
             Inl e \<Rightarrow> (Inl e, ob3)
           | Inr oc \<Rightarrow> (Inr oc, ob3\<lparr>ob_orchestrator := Some oc\<rparr>))))))"

text \<open>The managers of the process share the file: this one now sees what the other wrote.\<close>

definition get_breaker_manager :: "payload dict jfile \<Rightarrow> world \<Rightarrow> manager res" where
  "get_breaker_manager = manager_init"

definition shares_file :: "manager \<Rightarrow> manager \<Rightarrow> manager" where
  "shares_file other m = m\<lparr>bm_file := bm_file other\<rparr>"

subsection \<open>The first answer is the only one\<close>

text \<open>
  What \<open>lru_cache\<close> on a function without arguments promises: an answer fills the slot, a filled
  slot is the answer, an exception leaves the slot empty, so that the next call tries again. The argument is what the function
  reads when it has to compute.
\<close>

locale cached =
  fixes get :: "'a \<Rightarrow> 'o \<Rightarrow> 'v res \<times> 'o"
    and slot :: "'o \<Rightarrow> 'v option"
  assumes hit: "slot ob = Some v \<Longrightarrow> get a ob = (Inr v, ob)"
    and fill: "get a ob = (Inr v, ob') \<Longrightarrow> slot ob' = Some v"
    and retry: "get a ob = (Inl e, ob') \<Longrightarrow> slot ob' = None"
begin

lemma answer_fixed: "get a ob = (Inr v, ob1) \<Longrightarrow> get a' ob1 = (Inr v, ob1)"
  using fill hit by blast

text \<open>From the first answer on, every further call gives it, whatever it would compute.\<close>

lemma answers_fixed:
  assumes "get a ob = (Inr v, ob1)"
  shows "fold (\<lambda>x (rs, o1). let (r, o2) = get x o1 in (rs @ [r], o2)) xs ([], ob1) = (map (\<lambda>_. Inr v) xs, ob1)"
proof -
  have "fold (\<lambda>x (rs, o1). let (r, o2) = get x o1 in (rs @ [r], o2)) xs (rs, ob1) = (rs @ map (\<lambda>_. Inr v) xs, ob1)" for rs
    by (induction xs arbitrary: rs) (simp_all add: answer_fixed [OF assms])
  then show ?thesis by simp
qed

end

interpretation calendar_cache: cached "\<lambda>(gt, dir, w). get_calendar_connector gt dir w" ob_calendar
  by unfold_locales (auto simp: get_calendar_connector_def split: option.splits sum.splits)

interpretation email_cache: cached "\<lambda>(gt, dir, w). get_email_connector gt dir w" ob_email
  by unfold_locales (auto simp: get_email_connector_def split: option.splits sum.splits)

interpretation scheduler_cache: cached "\<lambda>(zones, fresh, w). get_scheduler_service zones fresh w" ob_scheduler
  by unfold_locales (auto simp: get_scheduler_service_def split: option.splits sum.splits)

interpretation router_cache: cached "\<lambda>w ob. (Inr (fst (get_notification_router w ob)), snd (get_notification_router w ob))" ob_router
  by unfold_locales (auto simp: get_notification_router_def Let_def split: option.splits)

lemma other_slots:
  "get_scheduler_service zones fresh w ob = (r1, ob') \<Longrightarrow> ob_orchestrator ob' = ob_orchestrator ob"
  "get_calendar_connector gt dir w ob = (r2, ob') \<Longrightarrow> ob_orchestrator ob' = ob_orchestrator ob"
  "get_email_connector gt dir w ob = (r2, ob') \<Longrightarrow> ob_orchestrator ob' = ob_orchestrator ob"
  by (auto simp: get_scheduler_service_def get_calendar_connector_def get_email_connector_def split: option.splits sum.splits)

interpretation orchestrator_cache:
  cached "\<lambda>(gt, dir, zones, isos, fresh, skills, flag, w). get_orchestrator gt dir zones isos fresh skills flag w" ob_orchestrator
proof unfold_locales
  fix ob :: "'a objects" and a ob' and e :: exc
  assume "(case a of (gt, dir, zones, isos, fresh, skills, flag, w) \<Rightarrow> get_orchestrator gt dir zones isos fresh skills flag w) ob
      = (Inl e, ob')"
  then show "ob_orchestrator ob' = None"
    by (auto simp: get_orchestrator_def dest!: other_slots split: prod.splits option.splits sum.splits)
qed (auto simp: get_orchestrator_def split: prod.splits option.splits sum.splits)

interpretation json_client_cache: cached "\<lambda>w held. (Inr (fst (get_json_client w held)), snd (get_json_client w held))" "\<lambda>held. held"
  by unfold_locales (auto simp: get_json_client_def get_client_def Let_def split: option.splits)

interpretation hook_client_cache: cached "\<lambda>w held. (Inr (fst (get_hook_client w held)), snd (get_hook_client w held))" "\<lambda>held. held"
  by unfold_locales (auto simp: get_hook_client_def get_client_def Let_def split: option.splits)

text \<open>
  Once a connector has been asked for, the answer stays, whatever the settings, the libraries
  and the token files become; so a token that is missing at start-up is missed until a restart.
\<close>

theorem connectors_are_fixed:
  "get_calendar_connector gt dir w ob = (Inr c, ob1) \<Longrightarrow> get_calendar_connector gt' dir' w' ob1 = (Inr c, ob1)"
  "get_email_connector gt dir w ob = (Inr c, ob1) \<Longrightarrow> get_email_connector gt' dir' w' ob1 = (Inr c, ob1)"
  using calendar_cache.answer_fixed [of "(gt, dir, w)" ob c ob1 "(gt', dir', w')"]
    email_cache.answer_fixed [of "(gt, dir, w)" ob c ob1 "(gt', dir', w')"] by simp_all

lemma missing_token_remembered:
  assumes "google_enabled w" and "gt_installed gt" and "\<not> gt_token_exists gt (google_token_path dir w)"
  shows "fst (get_calendar_connector gt' dir w (snd (get_calendar_connector gt dir w no_objects))) = Inr None"
  using assms by (simp add: get_calendar_connector_def get_connector_def build_google_service_def no_objects_def)

subsection \<open>The start of the API process\<close>

text \<open>\<open>startup\<close> of \<open>apps/api/main.py\<close>: what it puts into the state of the application, in its order.\<close>

record 's app_state =
  as_scheduler :: "'s service"
  as_orchestrator :: orchestrator
  as_router :: "channel list"
  as_calendar :: "google_service option"
  as_email :: "google_service option"
  as_breakers :: manager
  as_tasks_max :: int

definition startup_state ::
  "google_setup \<Rightarrow> string \<Rightarrow> (string \<Rightarrow> zone) \<Rightarrow> (string \<Rightarrow> datetime option) \<Rightarrow> (bool \<Rightarrow> 's)
     \<Rightarrow> ('s service \<Rightarrow> google_service option \<Rightarrow> google_service option \<Rightarrow> string \<Rightarrow> string \<Rightarrow> world \<Rightarrow> string res \<times> world)
     \<Rightarrow> bool \<Rightarrow> payload dict jfile \<Rightarrow> world \<Rightarrow> 's objects \<Rightarrow> 's app_state res \<times> 's objects" where
  "startup_state gt state_dir zones isos fresh skills llm_flag breaker_file w ob =
     (case get_scheduler_service zones fresh w ob of
        (Inl e, ob1) \<Rightarrow> (Inl e, ob1)
      | (Inr sv, ob1) \<Rightarrow>
     (case get_orchestrator gt state_dir zones isos fresh skills llm_flag w ob1 of
        (Inl e, ob2) \<Rightarrow> (Inl e, ob2)
      | (Inr oc, ob2) \<Rightarrow>
     (let (router, ob3) = get_notification_router w ob2
      in case get_calendar_connector gt state_dir w ob3 of
        (Inl e, ob4) \<Rightarrow> (Inl e, ob4)
      | (Inr cal, ob4) \<Rightarrow>
     (case get_email_connector gt state_dir w ob4 of
        (Inl e, ob5) \<Rightarrow> (Inl e, ob5)
      | (Inr mail, ob5) \<Rightarrow>
     (case get_breaker_manager breaker_file w of
        Inl e \<Rightarrow> (Inl e, ob5)
      | Inr bm \<Rightarrow>
     (case int_setting ''BENJAMIN_TASKS_MAX'' ''500'' w of
        Inl e \<Rightarrow> (Inl e, ob5)
      | Inr mx \<Rightarrow>
          (Inr \<lparr>as_scheduler = sv, as_orchestrator = oc, as_router = router, as_calendar = cal, as_email = mail,
                as_breakers = bm, as_tasks_max = mx\<rparr>, ob5)))))))"

text \<open>
  The application and the functions of \<open>deps\<close> work on the same objects, and the two stores of
  task records, the application's and the orchestrator's, keep equally many.
\<close>

theorem startup_shares_objects:
  assumes "startup_state gt dir zones isos fresh skills flag bf w no_objects = (Inr app, ob)"
  shows "ob_orchestrator ob = Some (as_orchestrator app) \<and> ob_scheduler ob = Some (as_scheduler app)
    \<and> ob_router ob = Some (as_router app) \<and> ob_calendar ob = Some (as_calendar app) \<and> ob_email ob = Some (as_email app)
    \<and> as_tasks_max app = oc_tasks_max (as_orchestrator app)"
proof -
  obtain sv ob1 where sv: "get_scheduler_service zones fresh w no_objects = (Inr sv, ob1)"
    using assms by (auto simp: startup_state_def split: prod.splits sum.splits)
  obtain oc ob2 where oc: "get_orchestrator gt dir zones isos fresh skills flag w ob1 = (Inr oc, ob2)"
    using assms sv by (auto simp: startup_state_def split: prod.splits sum.splits)
  obtain rt ob3 where rt: "get_notification_router w ob2 = (rt, ob3)" by fastforce
  obtain cal ob4 where cal: "get_calendar_connector gt dir w ob3 = (Inr cal, ob4)"
    using assms sv oc rt by (auto simp: startup_state_def split: prod.splits sum.splits)
  obtain mail ob5 where mail: "get_email_connector gt dir w ob4 = (Inr mail, ob5)"
    using assms sv oc rt cal by (auto simp: startup_state_def split: prod.splits sum.splits)
  have app: "as_scheduler app = sv" "as_orchestrator app = oc" "as_router app = rt" "as_calendar app = cal"
    "as_email app = mail" "ob = ob5" "int_setting ''BENJAMIN_TASKS_MAX'' ''500'' w = Inr (as_tasks_max app)"
    using assms sv oc rt cal mail by (auto simp: startup_state_def split: sum.splits)
  have ob1: "ob1 = no_objects\<lparr>ob_scheduler := Some sv\<rparr>"
    using sv by (auto simp: get_scheduler_service_def no_objects_def split: sum.splits)
  obtain c m where ob2: "ob2 = ob1\<lparr>ob_calendar := Some c, ob_email := Some m, ob_orchestrator := Some oc\<rparr>"
    and mx: "int_setting ''BENJAMIN_TASKS_MAX'' ''500'' w = Inr (oc_tasks_max oc)"
    using oc by (auto simp: ob1 get_orchestrator_def get_scheduler_service_def get_calendar_connector_def
        get_email_connector_def no_objects_def orchestrator_init_def split: sum.splits)
  have "ob3 = ob2\<lparr>ob_router := Some rt\<rparr>"
    using rt by (auto simp: get_notification_router_def ob2 ob1 no_objects_def Let_def)
  then have "ob4 = ob3" "ob5 = ob4" "cal = c" "mail = m"
    using cal mail by (auto simp: get_calendar_connector_def get_email_connector_def ob2)
  with \<open>ob3 = _\<close> show ?thesis using app mx by (simp add: ob2 ob1)
qed

subsection \<open>Managers overwrite each other\<close>

text \<open>
  Every manager writes all its breakers, as it knows them. When the manager of the calendar
  connector records a success after that of the mail connector has opened the mail breaker, the
  file says again that the mail breaker is closed, and after a restart mail is called at once.
\<close>

definition fails :: "world \<Rightarrow> nat res \<times> world" where
  "fails w = (Inl (RuntimeError ''boom''), w)"

definition succeeds :: "world \<Rightarrow> nat res \<times> world" where
  "succeeds w = (Inr 0, w)"

definition strict_world :: world where
  "strict_world = (empty_world 0)\<lparr>w_env := [''BENJAMIN_BREAKER_FAILURE_THRESHOLD'' \<mapsto> ''1'']\<rparr>"

definition reloaded_state :: "manager \<Rightarrow> bstate res" where
  "reloaded_state m = map_sum id (\<lambda>m'. cb_state (breaker_of ''gmail'' m')) (get_breaker_manager (bm_file m) strict_world)"

definition mail_then_calendar :: "(bstate res \<times> bstate res) option" where
  "mail_then_calendar =
     (case (get_breaker_manager Missing strict_world, get_breaker_manager Missing strict_world) of
        (Inr mail, Inr calendar) \<Rightarrow>
          (let mail' = fst (snd (wrap ''gmail'' fails mail strict_world));
               calendar' = fst (snd (wrap ''calendar'' succeeds (shares_file mail' calendar) strict_world))
           in Some (reloaded_state mail', reloaded_state calendar'))
      | _ \<Rightarrow> None)"

theorem managers_overwrite: "mail_then_calendar = Some (Inr Open, Inr Closed)"
  by code_simp

end
