(* ===== verification/LogLines.thy ===== *)
theory LogLines
  imports TimeText
begin

section \<open>Log lines: secrets and context\<close>

text \<open>
  \<open>core/logging/redact.py\<close>, \<open>context.py\<close> and \<open>json_formatter.py\<close>: the two regular
  expressions that take secrets out of a text, as the scanners they are, the redaction of the
  environment, the context variables whose values every log line carries, and the line itself.
\<close>

subsection \<open>Secrets\<close>

definition SECRET_WORDS :: "string list" where
  "SECRET_WORDS = [''token'', ''key'', ''secret'', ''webhook'']"

definition value_char :: "char \<Rightarrow> bool" where
  \<comment> \<open>\<open>[^\s,;]\<close>\<close>
  "value_char c \<longleftrightarrow> \<not> is_space c \<and> c \<noteq> CHR '','' \<and> c \<noteq> CHR '';''"

text \<open>The word of the alternation that a text starts with, in any case.\<close>

definition word_at :: "string list \<Rightarrow> string \<Rightarrow> string option" where
  "word_at ws s = find (\<lambda>w. startswith (casefold s) w) ws"

text \<open>\<open>_SECRET_VALUE_RE\<close> at the start of a text: what is kept, and what follows the value.\<close>

definition secret_at :: "string \<Rightarrow> (string \<times> string) option" where
  "secret_at s =
     (case word_at SECRET_WORDS s of
        None \<Rightarrow> None
      | Some w \<Rightarrow>
          (let s1 = drop (length w) s; ws1 = takeWhile is_space s1
           in case dropWhile is_space s1 of
                [] \<Rightarrow> None
              | c # s2 \<Rightarrow>
                  (let ws2 = takeWhile is_space s2; s3 = dropWhile is_space s2
                   in if c \<notin> {CHR ''='', CHR '':''} \<or> takeWhile value_char s3 = [] then None
                      else Some (take (length w) s @ ws1 @ [c] @ ws2, dropWhile value_char s3))))"

text \<open>\<open>_BEARER_RE\<close> at the start of a text.\<close>

definition bearer_at :: "string \<Rightarrow> (string \<times> string) option" where
  "bearer_at s =
     (case word_at [''bearer''] s of
        None \<Rightarrow> None
      | Some w \<Rightarrow>
          (let s1 = drop (length w) s; ws = takeWhile is_space s1; s2 = dropWhile is_space s1
           in if ws = [] \<or> takeWhile (\<lambda>c. \<not> is_space c) s2 = [] then None
              else Some (take (length w) s @ ws, dropWhile (\<lambda>c. \<not> is_space c) s2)))"

text \<open>\<open>re.sub\<close>: the leftmost match is replaced, and the scan goes on behind it.\<close>

definition mask :: string where
  "mask = ''***''"

lemma length_dropWhile_less: "takeWhile P s \<noteq> [] \<Longrightarrow> length (dropWhile P s) < length s"
  by (cases s) (auto simp: less_Suc_eq_le length_dropWhile_le split: if_splits)

lemma secret_at_shorter:
  assumes "secret_at s = Some (keep, rest)"
  shows "length rest < length s"
proof -
  obtain w where w: "word_at SECRET_WORDS s = Some w" using assms by (cases "word_at SECRET_WORDS s") (auto simp: secret_at_def)
  obtain c s2 where c: "dropWhile is_space (drop (length w) s) = c # s2"
    using assms w by (cases "dropWhile is_space (drop (length w) s)") (auto simp: secret_at_def)
  have v: "takeWhile value_char (dropWhile is_space s2) \<noteq> []" and r: "rest = dropWhile value_char (dropWhile is_space s2)"
    using assms w c by (simp_all add: secret_at_def Let_def split: if_splits)
  have "length rest < length (dropWhile is_space s2)" using v r length_dropWhile_less by blast
  also have "\<dots> \<le> length s2" by (rule length_dropWhile_le)
  also have "\<dots> < length s" using c length_dropWhile_le [of is_space "drop (length w) s"] by simp
  finally show ?thesis .
qed

lemma bearer_at_shorter:
  assumes "bearer_at s = Some (keep, rest)"
  shows "length rest < length s"
proof -
  obtain w where w: "word_at [''bearer''] s = Some w" using assms by (cases "word_at [''bearer''] s") (auto simp: bearer_at_def)
  let ?s2 = "dropWhile is_space (drop (length w) s)"
  have v: "takeWhile (\<lambda>c. \<not> is_space c) ?s2 \<noteq> []" and r: "rest = dropWhile (\<lambda>c. \<not> is_space c) ?s2"
    using assms w by (simp_all add: bearer_at_def Let_def split: if_splits)
  have "length rest < length ?s2" using v r length_dropWhile_less by blast
  also have "\<dots> \<le> length s" using length_dropWhile_le [of is_space "drop (length w) s"] by simp
  finally show ?thesis .
qed

function redact_values :: "string \<Rightarrow> string" where
  "redact_values s =
     (case secret_at s of
        Some (keep, rest) \<Rightarrow> keep @ mask @ redact_values rest
      | None \<Rightarrow> (case s of [] \<Rightarrow> [] | c # cs \<Rightarrow> c # redact_values cs))"
  by pat_completeness auto
termination
  by (relation "measure length") (auto dest: secret_at_shorter)

function redact_bearer :: "string \<Rightarrow> string" where
  "redact_bearer s =
     (case bearer_at s of
        Some (keep, rest) \<Rightarrow> keep @ mask @ redact_bearer rest
      | None \<Rightarrow> (case s of [] \<Rightarrow> [] | c # cs \<Rightarrow> c # redact_bearer cs))"
  by pat_completeness auto
termination
  by (relation "measure length") (auto dest: bearer_at_shorter)

declare redact_values.simps [simp del] redact_bearer.simps [simp del]

definition redact_string :: "string \<Rightarrow> string" where
  "redact_string s = redact_bearer (redact_values s)"

text \<open>\<open>_SECRET_KEY_RE.search\<close> and the redaction of an environment.\<close>

definition secret_key :: "string \<Rightarrow> bool" where
  "secret_key k \<longleftrightarrow> list_ex (\<lambda>w. str_in w (casefold k)) SECRET_WORDS"

definition redact_env :: "string dict \<Rightarrow> string dict" where
  "redact_env env = map (\<lambda>(k, v). (k, if secret_key k then mask else v)) env"

subsection \<open>A named value does not reach the output\<close>

definition letter :: "char \<Rightarrow> bool" where
  "letter c \<longleftrightarrow> 97 \<le> (of_char (casefold_char c) :: nat) \<and> (of_char (casefold_char c) :: nat) \<le> 122"

text \<open>An assignment to a secret: a word, the sign, the value, and what ends the value.\<close>

definition assignment :: "string \<Rightarrow> char \<Rightarrow> string \<Rightarrow> string \<Rightarrow> string" where
  "assignment w c v b = w @ c # v @ b"

definition ends_value :: "string \<Rightarrow> bool" where
  "ends_value b \<longleftrightarrow> (case b of [] \<Rightarrow> True | c # _ \<Rightarrow> \<not> value_char c)"

subsection \<open>The context of a log line\<close>

text \<open>The context variables, by name; \<open>None\<close> is their default.\<close>

type_synonym log_ctx = "string \<Rightarrow> string option"

definition CONTEXT_VARS :: "string list" where
  "CONTEXT_VARS = [''correlation_id'', ''task_id'', ''approval_id'', ''rule_id'', ''job_id'']"

text \<open>\<open>set_context\<close> returns a token per variable it sets: the value it had.\<close>

fun set_context :: "(string \<times> string option) list \<Rightarrow> log_ctx \<Rightarrow> (string \<times> string option) list \<times> log_ctx" where
  "set_context [] ctx = ([], ctx)"
| "set_context ((k, v) # kvs) ctx =
     (if k \<in> set CONTEXT_VARS
      then (let (tokens, ctx') = set_context kvs (ctx(k := v)) in ((k, ctx k) # tokens, ctx'))
      else set_context kvs ctx)"

definition reset_context :: "(string \<times> string option) list \<Rightarrow> log_ctx \<Rightarrow> log_ctx" where
  "reset_context tokens ctx = fold (\<lambda>(k, v) c. if k \<in> set CONTEXT_VARS then c(k := v) else c) tokens ctx"

text \<open>The arguments of \<open>log_context\<close>, in the order of the variables: all five are set.\<close>

definition log_context :: "string option list \<Rightarrow> (log_ctx \<Rightarrow> 'a \<times> log_ctx) \<Rightarrow> log_ctx \<Rightarrow> 'a \<times> log_ctx" where
  "log_context values body ctx =
     (let (tokens, ctx1) = set_context (zip CONTEXT_VARS values) ctx; (r, ctx2) = body ctx1
      in (r, reset_context tokens ctx2))"

definition get_log_context :: "log_ctx \<Rightarrow> string dict" where
  "get_log_context ctx = List.map_filter (\<lambda>k. map_option (Pair k) (ctx k)) CONTEXT_VARS"

subsection \<open>One line of the log\<close>

text \<open>
  A record of the logging library: level, logger, message, the extra fields when they are an
  object, and of an exception its type, its text and its traceback.
\<close>

record log_record =
  lg_level :: string
  lg_name :: string
  lg_msg :: string
  lg_extra :: "json dict option"
  lg_exc :: "(string \<times> string \<times> string) option"

definition update_all :: "json dict \<Rightarrow> json dict \<Rightarrow> json dict" where
  \<comment> \<open>\<open>payload.update(...)\<close>\<close>
  "update_all new d = fold (\<lambda>(k, v). AList.update k v) new d"

definition exc_fields :: "(string \<times> string \<times> string) option \<Rightarrow> json dict" where
  "exc_fields x =
     (case x of None \<Rightarrow> []
      | Some (ty, txt, stack) \<Rightarrow> [(''exc_type'', JStr ty), (''exc_msg'', JStr txt), (''stack'', JStr stack)])"

definition log_payload :: "int \<Rightarrow> log_ctx \<Rightarrow> log_record \<Rightarrow> json dict" where
  "log_payload now ctx r =
     update_all (exc_fields (lg_exc r))
       (update_all (case lg_extra r of None \<Rightarrow> [] | Some e \<Rightarrow> e)
         (update_all (map (\<lambda>(k, v). (k, JStr v)) (get_log_context ctx))
           [(''ts_iso_utc'', JStr (str_replace ''+00:00'' ''Z'' (iso_text now))), (''level'', JStr (lg_level r)),
            (''logger'', JStr (lg_name r)), (''msg'', JStr (lg_msg r))]))"

definition format_record :: "int \<Rightarrow> log_ctx \<Rightarrow> log_record \<Rightarrow> string" where
  "format_record now ctx r = dumps_with '','' '':'' (JDict (log_payload now ctx r))"

subsection \<open>What is not redacted\<close>

text \<open>
  Two forms in which a secret stays: after a colon the word \<open>Bearer\<close> is taken for the value and
  the token behind it is left, and a quoted JSON key is not followed by the sign.
\<close>

theorem redaction_leaks:
  "redact_string ''token: Bearer abc'' = ''token: *** abc''
   \<and> redact_string [CHR 0x22, CHR ''k'', CHR ''e'', CHR ''y'', CHR 0x22, CHR '':'', CHR ''v''] = [CHR 0x22, CHR ''k'', CHR ''e'', CHR ''y'', CHR 0x22, CHR '':'', CHR ''v'']"
proof
  show "redact_string ''token: Bearer abc'' = ''token: *** abc''" by code_simp
  show "redact_string [CHR 0x22, CHR ''k'', CHR ''e'', CHR ''y'', CHR 0x22, CHR '':'', CHR ''v''] = [CHR 0x22, CHR ''k'', CHR ''e'', CHR ''y'', CHR 0x22, CHR '':'', CHR ''v'']"
    by code_simp
qed

subsection \<open>Proof that a named value is hidden\<close>

lemma startswith_split:
  "length p \<le> length a \<Longrightarrow> startswith (a @ t) p = startswith a p"
  by (simp add: startswith_def)

lemma casefold_append [simp]: "casefold (a @ b) = casefold a @ casefold b"
  by (simp add: casefold_def)

lemma SECRET_WORDS_letters: "w \<in> set SECRET_WORDS \<Longrightarrow> c \<in> set w \<Longrightarrow> 97 \<le> (of_char c :: nat) \<and> (of_char c :: nat) \<le> 122"
  by (auto simp: SECRET_WORDS_def)

text \<open>A word that starts in a prefix ending in no letter ends in it.\<close>

lemma word_within:
  assumes "w \<in> set SECRET_WORDS" and "startswith (casefold (a @ t)) w" and "a \<noteq> []" and "\<not> letter (last a)"
  shows "length w \<le> length a"
proof (rule ccontr)
  assume "\<not> length w \<le> length a"
  then have "take (length a) w = casefold a"
    using assms(2) startswithD [OF assms(2)] by (metis append_eq_append_conv_if casefold_append casefold_def length_map linorder_le_cases)
  then have "set (casefold a) \<subseteq> set w" by (metis set_take_subset)
  then have "casefold_char (last a) \<in> set w" using assms(3) by (auto simp: casefold_def)
  then show False using SECRET_WORDS_letters [OF assms(1)] assms(4) by (simp add: letter_def)
qed

text \<open>A text without a gap that starts with a letter: the assignment up to the end of its value.\<close>

definition solid :: "string \<Rightarrow> bool" where
  "solid x \<longleftrightarrow> x \<noteq> [] \<and> list_all value_char x \<and> letter (hd x)"

lemma letter_plain: "letter c \<Longrightarrow> \<not> is_space c \<and> c \<notin> {CHR ''='', CHR '':''}"
proof -
  assume "letter c"
  then have "97 \<le> (of_char (casefold_char c) :: nat)"
    by (simp add: letter_def)
  then have "65 \<le> (of_char c :: nat)" by (auto simp: casefold_char_def split: if_splits)
  then show ?thesis by (auto simp: is_space_def Let_def)
qed

lemma solid_start: "solid x \<Longrightarrow> \<exists>c cs. x = c # cs \<and> letter c \<and> \<not> is_space c \<and> c \<notin> {CHR ''='', CHR '':''} \<and> value_char c"
  using letter_plain by (cases x) (auto simp: solid_def)

lemma word_at_prefix:
  assumes "a \<noteq> []" and "\<not> letter (last a)"
  shows "word_at SECRET_WORDS (a @ t) = word_at SECRET_WORDS a"
proof -
  have "startswith (casefold (a @ t)) w = startswith (casefold a) w" if "w \<in> set SECRET_WORDS" for w
  proof (cases "length w \<le> length a")
    case True
    then show ?thesis by (simp add: startswith_split casefold_def)
  next
    case False
    then have "\<not> startswith (casefold a) w" by (auto simp: startswith_def casefold_def)
    then show ?thesis using False word_within [OF that _ assms] by blast
  qed
  then show ?thesis unfolding word_at_def by (intro find_cong) auto
qed

lemma spaces_before:
  assumes "solid x"
  shows "takeWhile is_space (a @ x @ b) = takeWhile is_space a" and "dropWhile is_space (a @ x @ b) = dropWhile is_space a @ x @ b"
  using solid_start [OF assms] by (auto simp: takeWhile_append dropWhile_append takeWhile_eq_all_conv [THEN iffD2])

lemma value_before:
  assumes "solid x" and "ends_value b"
  shows "takeWhile value_char (a @ x @ b) = (if list_all value_char a then a @ x else takeWhile value_char a)"
    and "dropWhile value_char (a @ x @ b) = (if list_all value_char a then b else dropWhile value_char a @ x @ b)"
proof -
  have b: "takeWhile value_char b = []" "dropWhile value_char b = b"
    using assms(2) by (cases b; simp add: ends_value_def)+
  have x: "\<forall>c\<in>set x. value_char c" using assms(1) by (simp add: solid_def list_all_iff)
  then have "takeWhile value_char (x @ b) = x" "dropWhile value_char (x @ b) = b"
    using b by (simp_all add: takeWhile_append dropWhile_append)
  then show "takeWhile value_char (a @ x @ b) = (if list_all value_char a then a @ x else takeWhile value_char a)"
    "dropWhile value_char (a @ x @ b) = (if list_all value_char a then b else dropWhile value_char a @ x @ b)"
    by (auto simp: takeWhile_append dropWhile_append list_all_iff)
qed

text \<open>A match in front of an assignment ends before it, or swallows it to the end of its value.\<close>

datatype scan = NoMatch | Swallows string | Before string string

definition scan_of :: "string \<Rightarrow> scan" where
  "scan_of a =
     (case word_at SECRET_WORDS a of
        None \<Rightarrow> NoMatch
      | Some w \<Rightarrow>
          (let a1 = drop (length w) a
           in case dropWhile is_space a1 of
                [] \<Rightarrow> NoMatch
              | c # a2 \<Rightarrow>
                  (let a3 = dropWhile is_space a2;
                       keep = take (length w) a @ takeWhile is_space a1 @ [c] @ takeWhile is_space a2
                   in if c \<notin> {CHR ''='', CHR '':''} then NoMatch
                      else if list_all value_char a3 then Swallows keep
                      else if takeWhile value_char a3 = [] then NoMatch
                      else Before keep (dropWhile value_char a3))))"

lemma secret_at_scan:
  assumes "a \<noteq> []" and "\<not> letter (last a)" and x: "solid x" and b: "ends_value b"
  shows "secret_at (a @ x @ b) =
    (case scan_of a of NoMatch \<Rightarrow> None | Swallows keep \<Rightarrow> Some (keep, b) | Before keep r \<Rightarrow> Some (keep, r @ x @ b))"
proof (cases "word_at SECRET_WORDS a")
  case None
  then show ?thesis using word_at_prefix [OF assms(1,2)] by (simp add: secret_at_def scan_of_def)
next
  case (Some w)
  then have w: "w \<in> set SECRET_WORDS" "startswith (casefold a) w" by (auto simp: word_at_def find_Some_iff)
  then have len: "length w \<le> length a"
    using startswithD [OF w(2)] by (metis casefold_def length_append length_map le_add1)
  let ?a1 = "drop (length w) a"
  have d: "drop (length w) (a @ x @ b) = ?a1 @ x @ b" "take (length w) (a @ x @ b) = take (length w) a" using len by simp_all
  show ?thesis
  proof (cases "dropWhile is_space ?a1")
    case Nil
    obtain c cs where "x = c # cs" "c \<notin> {CHR ''='', CHR '':''}" using solid_start [OF x] by blast
    then have "secret_at (a @ x @ b) = None"
      unfolding secret_at_def word_at_prefix [OF assms(1,2)] Some option.case Let_def d spaces_before [OF x] Nil by simp
    moreover have "scan_of a = NoMatch" unfolding scan_of_def Some option.case Let_def Nil by simp
    ultimately show ?thesis by simp
  next
    case (Cons c a2)
    have "x \<noteq> []" using x by (simp add: solid_def)
    then show ?thesis
      unfolding secret_at_def scan_of_def word_at_prefix [OF assms(1,2)] Some option.case Let_def d spaces_before [OF x] Cons
        append_Cons list.case value_before [OF x b]
      by simp
  qed
qed

lemma last_dropWhile: "dropWhile P s \<noteq> [] \<Longrightarrow> last (dropWhile P s) = last s"
  by (induction s) auto

lemma scan_before:
  assumes "scan_of a = Before keep r"
  shows "length r < length a" and "r \<noteq> []" and "last r = last a"
proof -
  obtain w where w: "word_at SECRET_WORDS a = Some w" using assms by (cases "word_at SECRET_WORDS a") (auto simp: scan_of_def)
  obtain c a2 where c: "dropWhile is_space (drop (length w) a) = c # a2"
    using assms w by (cases "dropWhile is_space (drop (length w) a)") (auto simp: scan_of_def)
  let ?a3 = "dropWhile is_space a2"
  have r: "r = dropWhile value_char ?a3" "\<not> list_all value_char ?a3"
    using assms w c by (simp_all add: scan_of_def Let_def split: if_splits)
  then show ne: "r \<noteq> []" by (auto simp: list_all_iff)
  then have "last r = last ?a3" unfolding r(1) by (rule last_dropWhile)
  moreover have a3: "?a3 \<noteq> []" using ne r(1) by (cases ?a3) simp_all
  then have "last ?a3 = last a2" by (rule last_dropWhile)
  moreover have "a2 \<noteq> []" using a3 by (cases a2) simp_all
  moreover have "last (c # a2) = last (drop (length w) a)"
    using last_dropWhile [of is_space "drop (length w) a"] unfolding c by simp
  moreover have "length w < length a" using c by (cases "length w < length a") simp_all
  ultimately show "last r = last a" by simp
  have "length r \<le> length a2" using length_dropWhile_le r(1) le_trans by metis
  also have "\<dots> < length a" using c length_dropWhile_le [of is_space "drop (length w) a"] by simp
  finally show "length r < length a" .
qed

text \<open>What the scan makes of a prefix; behind an assignment it goes on with the rest.\<close>

lemma hidden_behind:
  assumes "solid x" "solid y" "ends_value b" "redact_values (x @ b) = redact_values (y @ b)" "a = [] \<or> \<not> letter (last a)"
  shows "redact_values (a @ x @ b) = redact_values (a @ y @ b)"
  using assms(5)
proof (induction "length a" arbitrary: a rule: less_induct)
  case less
  show ?case
  proof (cases "a = []")
    case False
    with less.prems have l: "\<not> letter (last a)" by simp
    note scan = secret_at_scan [OF False l _ assms(3)]
    show ?thesis
    proof (cases "scan_of a")
      case NoMatch
      obtain c cs where a: "a = c # cs" using False by (cases a) auto
      have "cs = [] \<or> \<not> letter (last cs)" using l a by (cases cs) auto
      then have "redact_values (cs @ x @ b) = redact_values (cs @ y @ b)" using less.hyps a by simp
      then show ?thesis
        using NoMatch scan [OF assms(1)] scan [OF assms(2)] a
        by (simp add: redact_values.simps [of "c # cs @ x @ b"] redact_values.simps [of "c # cs @ y @ b"])
    next
      case (Swallows keep)
      then show ?thesis
        using scan [OF assms(1)] scan [OF assms(2)]
        by (simp add: redact_values.simps [of "a @ x @ b"] redact_values.simps [of "a @ y @ b"])
    next
      case (Before keep r)
      have "redact_values (r @ x @ b) = redact_values (r @ y @ b)"
        using scan_before [OF Before] l by (intro less.hyps) simp_all
      then show ?thesis
        using Before scan [OF assms(1)] scan [OF assms(2)]
        by (simp add: redact_values.simps [of "a @ x @ b"] redact_values.simps [of "a @ y @ b"])
    qed
  qed (simp add: assms(4))
qed

text \<open>An assignment itself is matched, and its value replaced.\<close>

definition secret_word :: "string \<Rightarrow> bool" where
  "secret_word w \<longleftrightarrow> casefold w \<in> set SECRET_WORDS"

definition secret_value :: "string \<Rightarrow> bool" where
  "secret_value v \<longleftrightarrow> v \<noteq> [] \<and> list_all value_char v"

lemma word_at_word:
  assumes "secret_word w"
  shows "word_at SECRET_WORDS (w @ t) = Some (casefold w)"
proof -
  have "casefold w \<in> {''token'', ''key'', ''secret'', ''webhook''}" using assms by (auto simp: secret_word_def SECRET_WORDS_def)
  then show ?thesis by (elim insertE emptyE) (simp_all add: word_at_def SECRET_WORDS_def startswith_def)
qed

lemma letter_value_char: "letter c \<Longrightarrow> value_char c"
proof -
  assume l: "letter c"
  then have "97 \<le> (of_char (casefold_char c) :: nat)" by (simp add: letter_def)
  then have "65 \<le> (of_char c :: nat)" by (auto simp: casefold_char_def split: if_splits)
  then show "value_char c" using letter_plain [OF l] by (auto simp: value_char_def)
qed

lemma secret_word_letters: "secret_word w \<Longrightarrow> list_all letter w \<and> w \<noteq> []"
proof -
  assume w: "secret_word w"
  then have "letter c" if "c \<in> set w" for c
    using SECRET_WORDS_letters [of "casefold w" "casefold_char c"] that by (simp add: secret_word_def letter_def casefold_def)
  moreover have "w \<noteq> []" using w by (auto simp: secret_word_def SECRET_WORDS_def casefold_def)
  ultimately show ?thesis by (simp add: list_all_iff)
qed

lemma assignment_solid:
  assumes "secret_word w" and "c \<in> {CHR ''='', CHR '':''}" and "secret_value v"
  shows "solid (w @ c # v)"
proof -
  have w: "list_all letter w" "w \<noteq> []" using secret_word_letters [OF assms(1)] by auto
  have "value_char c" using assms(2) by (auto simp: value_char_def is_space_def Let_def)
  moreover have "list_all value_char w" using w(1) letter_value_char by (auto simp: list_all_iff)
  moreover have "letter (hd w)" using w by (simp add: list_all_iff)
  ultimately show ?thesis using assms(3) w(2) by (simp add: solid_def secret_value_def)
qed

lemma assignment_masked:
  assumes "secret_word w" and "c \<in> {CHR ''='', CHR '':''}" and "secret_value v" and "ends_value b"
  shows "redact_values (w @ c # v @ b) = w @ [c] @ mask @ redact_values b"
proof -
  have c: "\<not> is_space c" using assms(2) by (auto simp: is_space_def Let_def)
  obtain x xs where v: "v = x # xs" using assms(3) by (cases v) (auto simp: secret_value_def)
  then have x: "\<not> is_space x" using assms(3) by (simp add: secret_value_def value_char_def)
  have b: "takeWhile value_char b = []" "dropWhile value_char b = b"
    using assms(4) by (cases b; simp add: ends_value_def)+
  have "\<forall>y\<in>set v. value_char y" using assms(3) by (simp add: secret_value_def list_all_iff)
  then have tv: "takeWhile value_char (v @ b) = v" "dropWhile value_char (v @ b) = b"
    using b by (simp_all add: takeWhile_append dropWhile_append)
  have sp: "takeWhile is_space (v @ b) = []" "dropWhile is_space (v @ b) = v @ b" using v x by simp_all
  have len: "length (casefold w) = length w" by (simp add: casefold_def)
  have ne: "v \<noteq> []" using v by simp
  have "secret_at (w @ c # v @ b) = Some (w @ [c], b)"
    unfolding secret_at_def word_at_word [OF assms(1)] option.case Let_def len append_eq_conv_conj
    using c assms(2) ne by (simp add: tv sp)
  then show ?thesis by (simp add: redact_values.simps [of "w @ c # v @ b"])
qed

text \<open>
  C37. Redaction hides a secret that is assigned: in \<open>TOKEN=value\<close>, \<open>key:value\<close> and the like,
  in any case and wherever it stands after a character that is no letter, the redacted line
  does not depend on the value.
\<close>

theorem redact_hides_value:
  assumes "secret_word w" and "c \<in> {CHR ''='', CHR '':''}" and "secret_value v" and "secret_value v'"
    and "ends_value b" and "a = [] \<or> \<not> letter (last a)"
  shows "redact_string (a @ assignment w c v b) = redact_string (a @ assignment w c v' b)"
proof -
  have "redact_values (a @ (w @ c # v) @ b) = redact_values (a @ (w @ c # v') @ b)"
    using hidden_behind [OF assignment_solid [OF assms(1,2,3)] assignment_solid [OF assms(1,2,4)] assms(5) _ assms(6)]
      assignment_masked [OF assms(1,2,3,5)] assignment_masked [OF assms(1,2,4,5)] by simp
  then show ?thesis by (simp add: redact_string_def assignment_def)
qed

theorem redact_hides_value_witness:
  "redact_string ''API_KEY=abc, x'' = redact_string ''API_KEY=xyz, x''"
proof -
  have a: "''API_KEY=abc, x'' = ''API_'' @ assignment ''KEY'' (CHR ''='') ''abc'' '', x''"
    "''API_KEY=xyz, x'' = ''API_'' @ assignment ''KEY'' (CHR ''='') ''xyz'' '', x''"
    by (simp_all add: assignment_def)
  have "secret_word ''KEY''" "secret_value ''abc''" "secret_value ''xyz''" "ends_value '', x''" "\<not> letter (last ''API_'')" by code_simp+
  then show ?thesis unfolding a by (intro redact_hides_value) simp_all
qed

subsection \<open>A log line is one line of JSON\<close>

definition line_char :: "char \<Rightarrow> bool" where
  "line_char c \<longleftrightarrow> 32 \<le> (of_char c :: nat)"

lemma hex_digit_line: "d < 16 \<Longrightarrow> line_char (hex_digit d)"
  by (simp add: hex_digit_def line_char_def)

lemma esc_char_line: "list_all line_char (esc_char c)"
  using hex_digit_line [of "of_char c div 16"] hex_digit_line [of "of_char c mod 16"]
  by (auto simp: esc_char_def line_char_def Let_def)

lemma dumps_str_line: "list_all line_char (dumps_str s)"
  using esc_char_line by (auto simp: dumps_str_def list_all_iff line_char_def)

lemma show_int_line: "list_all line_char (show_int i)"
  using show_nat_digits [of "nat i"] show_nat_digits [of "nat (- i)"]
  by (auto simp: show_int_def list_all_iff line_char_def is_digit_def)

lemma dumps_line:
  assumes "list_all line_char is" and "list_all line_char ks"
  shows "list_all line_char (dumps_with is ks j)" "list_all line_char (dumps_elems is ks xs)" "list_all line_char (dumps_items is ks d)"
  using assms
  by (induction "is" ks j and "is" ks xs and "is" ks d rule: dumps_with_dumps_elems_dumps_items.induct)
    (simp_all add: dumps_str_line show_int_line line_char_def)

lemma update_all_wf: "wf_json (JDict new) \<Longrightarrow> wf_json (JDict d) \<Longrightarrow> wf_json (JDict (update_all new d))"
  unfolding update_all_def by (rule wf_dict_fold) simp

lemma map_of_update_all: "distinct (map fst new) \<Longrightarrow> map_of (update_all new d) = map_of d ++ map_of new"
proof (induction new arbitrary: d)
  case (Cons kv new)
  obtain k v where kv: "kv = (k, v)" by (cases kv)
  with Cons.prems have "map_of new k = None" by (simp add: map_of_eq_None_iff)
  with Cons kv show ?case by (auto simp: update_all_def update_conv' fun_eq_iff map_add_def split: option.split)
qed (simp add: update_all_def)

lemma map_of_filtered:
  "map_of (map (\<lambda>(k, v). (k, f v)) (List.map_filter (\<lambda>k. map_option (Pair k) (c k)) ks)) k
     = (if k \<in> set ks then map_option f (c k) else None)"
  by (induction ks) (auto simp: List.map_filter_simps split: option.split)

lemma map_of_context: "map_of (map (\<lambda>(k, v). (k, JStr v)) (get_log_context ctx)) k = (if k \<in> set CONTEXT_VARS then map_option JStr (ctx k) else None)"
  unfolding get_log_context_def by (rule map_of_filtered)

text \<open>
  C36. What the formatter writes is one line (no control character) of JSON, from which every
  field of the record can be read back, when the extra fields are JSON: the time in UTC, the
  level, the logger and the message; over these the context variables that are set, over
  these the extra fields, and over all the exception.
\<close>

theorem log_line_roundtrip:
  assumes "case lg_extra r of None \<Rightarrow> True | Some e \<Rightarrow> wf_json (JDict e)"
  shows "list_all line_char (format_record now ctx r)
    \<and> (\<exists>d. loads (format_record now ctx r) = Some (JDict d)
         \<and> map_of d = [''ts_iso_utc'' \<mapsto> JStr (str_replace ''+00:00'' ''Z'' (iso_text now)), ''level'' \<mapsto> JStr (lg_level r),
                        ''logger'' \<mapsto> JStr (lg_name r), ''msg'' \<mapsto> JStr (lg_msg r)]
              ++ (\<lambda>k. if k \<in> {''correlation_id'', ''task_id'', ''approval_id'', ''rule_id'', ''job_id''} then map_option JStr (ctx k) else None)
              ++ (case lg_extra r of None \<Rightarrow> Map.empty | Some e \<Rightarrow> map_of e)
              ++ (case lg_exc r of None \<Rightarrow> Map.empty
                  | Some (ty, txt, stack) \<Rightarrow> [''exc_type'' \<mapsto> JStr ty, ''exc_msg'' \<mapsto> JStr txt, ''stack'' \<mapsto> JStr stack]))"
proof -
  let ?base = "[(''ts_iso_utc'', JStr (str_replace ''+00:00'' ''Z'' (iso_text now))), (''level'', JStr (lg_level r)),
            (''logger'', JStr (lg_name r)), (''msg'', JStr (lg_msg r))]"
  let ?ctx = "map (\<lambda>(k, v). (k, JStr v)) (get_log_context ctx)"
  let ?extra = "case lg_extra r of None \<Rightarrow> [] | Some e \<Rightarrow> e"
  have wf: "wf_json (JDict ?ctx)"
    by (auto simp: get_log_context_def CONTEXT_VARS_def List.map_filter_def)
  have wfx: "wf_json (JDict (exc_fields x))" for x by (auto simp: exc_fields_def split: option.split)
  have wfe: "wf_json (JDict ?extra)" using assms by (cases "lg_extra r") simp_all
  have "wf_json (JDict (log_payload now ctx r))"
    unfolding log_payload_def using wf wfx wfe by (intro update_all_wf) simp_all
  then have "loads (format_record now ctx r) = Some (JDict (log_payload now ctx r)) \<and> list_all line_char (format_record now ctx r)"
    unfolding format_record_def
    using loads_dumps_with [OF style_dumps(2)] dumps_line(1) [of "'',''" "'':''"] by (simp add: line_char_def del: dumps_with.simps wf_json.simps)
  moreover have "map_of (log_payload now ctx r) = map_of ?base ++ map_of ?ctx ++ map_of ?extra ++ map_of (exc_fields (lg_exc r))"
    unfolding log_payload_def using wf wfx wfe by (simp add: map_of_update_all)
  moreover have "map_of ?base = [''ts_iso_utc'' \<mapsto> JStr (str_replace ''+00:00'' ''Z'' (iso_text now)), ''level'' \<mapsto> JStr (lg_level r),
                        ''logger'' \<mapsto> JStr (lg_name r), ''msg'' \<mapsto> JStr (lg_msg r)]"
    by (simp add: fun_eq_iff)
  moreover have "map_of ?ctx = (\<lambda>k. if k \<in> {''correlation_id'', ''task_id'', ''approval_id'', ''rule_id'', ''job_id''} then map_option JStr (ctx k) else None)"
    by (simp add: fun_eq_iff map_of_context CONTEXT_VARS_def)
  moreover have "map_of ?extra = (case lg_extra r of None \<Rightarrow> Map.empty | Some e \<Rightarrow> map_of e)" by (cases "lg_extra r") simp_all
  moreover have "map_of (exc_fields (lg_exc r)) = (case lg_exc r of None \<Rightarrow> Map.empty
                  | Some (ty, txt, stack) \<Rightarrow> [''exc_type'' \<mapsto> JStr ty, ''exc_msg'' \<mapsto> JStr txt, ''stack'' \<mapsto> JStr stack])"
    by (auto simp: exc_fields_def fun_eq_iff split: option.split)
  ultimately show ?thesis by (intro conjI exI [of _ "log_payload now ctx r"]) simp_all
qed

theorem log_line_roundtrip_witness:
  "\<exists>d. loads (format_record 0 ((\<lambda>_. None)(''task_id'' := Some ''t1'')) \<lparr>lg_level = ''INFO'', lg_name = ''x'', lg_msg = [CHR 0x0A], lg_extra = None, lg_exc = None\<rparr>) = Some (JDict d)
     \<and> map_of d ''msg'' = Some (JStr [CHR 0x0A]) \<and> map_of d ''task_id'' = Some (JStr ''t1'')"
proof -
  let ?r = "\<lparr>lg_level = ''INFO'', lg_name = ''x'', lg_msg = [CHR 0x0A], lg_extra = None, lg_exc = None\<rparr> :: log_record"
  have "case lg_extra ?r of None \<Rightarrow> True | Some e \<Rightarrow> wf_json (JDict e)" by simp
  from log_line_roundtrip [OF this, of 0 "(\<lambda>_. None)(''task_id'' := Some ''t1'')"]
  obtain d where "loads (format_record 0 ((\<lambda>_. None)(''task_id'' := Some ''t1'')) ?r) = Some (JDict d)"
    and "map_of d = [''ts_iso_utc'' \<mapsto> JStr (str_replace ''+00:00'' ''Z'' (iso_text 0)), ''level'' \<mapsto> JStr ''INFO'',
                        ''logger'' \<mapsto> JStr ''x'', ''msg'' \<mapsto> JStr [CHR 0x0A]]
              ++ (\<lambda>k. if k \<in> {''correlation_id'', ''task_id'', ''approval_id'', ''rule_id'', ''job_id''}
                     then map_option JStr (((\<lambda>_. None)(''task_id'' := Some ''t1'')) k) else None)"
    by (simp only: log_record.simps option.case map_add_empty) (elim conjE exE)
  then show ?thesis by (intro exI [of _ d]) (simp add: map_add_def)
qed

subsection \<open>Contexts\<close>

text \<open>The context inside \<open>log_context\<close>: the variables as given, others as before.\<close>

definition inside :: "string option list \<Rightarrow> log_ctx \<Rightarrow> log_ctx" where
  "inside values ctx = snd (set_context (zip CONTEXT_VARS values) ctx)"

lemma inside_five:
  "inside [c, t, a, r, j] ctx =
     ctx(''correlation_id'' := c, ''task_id'' := t, ''approval_id'' := a, ''rule_id'' := r, ''job_id'' := j)"
  by (simp add: inside_def CONTEXT_VARS_def)

lemma tokens_five:
  "fst (set_context (zip CONTEXT_VARS [c, t, a, r, j]) ctx) = map (\<lambda>k. (k, ctx k)) CONTEXT_VARS"
  by (simp add: CONTEXT_VARS_def)

lemma reset_all: "reset_context (map (\<lambda>k. (k, old k)) CONTEXT_VARS) ctx k = (if k \<in> set CONTEXT_VARS then old k else ctx k)"
  by (simp add: reset_context_def CONTEXT_VARS_def)

lemma log_context_five:
  "log_context [c, t, a, r, j] body ctx =
     (fst (body (inside [c, t, a, r, j] ctx)),
      reset_context (map (\<lambda>k. (k, ctx k)) CONTEXT_VARS) (snd (body (inside [c, t, a, r, j] ctx))))"
  using tokens_five [of c t a r j ctx]
  by (simp add: log_context_def inside_def split_def Let_def del: set_context.simps)

text \<open>
  A context lasts as long as its body: inside it the log carries exactly the identifiers
  given, and afterwards every variable has its value from before, whatever the body set.
\<close>

theorem log_context_restores:
  "snd (log_context [c, t, a, r, j] body ctx) k = (if k \<in> set CONTEXT_VARS then ctx k else snd (body (inside [c, t, a, r, j] ctx)) k)
   \<and> fst (log_context [c, t, a, r, j] body ctx) = fst (body (inside [c, t, a, r, j] ctx))
   \<and> get_log_context (inside [c, t, a, r, j] ctx) =
       List.map_filter (\<lambda>(n, v). map_option (Pair n) v) (zip CONTEXT_VARS [c, t, a, r, j])"
proof (intro conjI)
  show "snd (log_context [c, t, a, r, j] body ctx) k = (if k \<in> set CONTEXT_VARS then ctx k else snd (body (inside [c, t, a, r, j] ctx)) k)"
    by (simp add: log_context_five reset_all)
  show "fst (log_context [c, t, a, r, j] body ctx) = fst (body (inside [c, t, a, r, j] ctx))"
    by (simp add: log_context_five)
  have "zip CONTEXT_VARS [c, t, a, r, j] = map (\<lambda>k. (k, inside [c, t, a, r, j] ctx k)) CONTEXT_VARS"
    by (simp add: inside_five CONTEXT_VARS_def)
  then show "get_log_context (inside [c, t, a, r, j] ctx) =
       List.map_filter (\<lambda>(n, v). map_option (Pair n) v) (zip CONTEXT_VARS [c, t, a, r, j])"
    by (simp add: get_log_context_def List.map_filter_def filter_map o_def)
qed

text \<open>
  A context inside another hides its identifiers: the arguments that are not given are set to
  \<open>None\<close>, so a rule evaluated inside a job logs without the job.
\<close>

lemma nested_context_hides:
  "get_log_context (inside [Some c, None, None, Some r, None] (inside [Some c, None, None, None, Some job] ctx)) =
     [(''correlation_id'', c), (''rule_id'', r)]"
  by (simp add: inside_five get_log_context_def CONTEXT_VARS_def List.map_filter_simps)

end
