(* ===== verification/LogSetup.thy ===== *)
theory LogSetup
  imports Health
begin

section \<open>The handlers of the log\<close>

text \<open>
  \<open>core/logging/setup.py\<close>: the logger of the application gets one handler that writes to the
  standard output and one that writes to a rotating file; calling the function again is meant
  to add nothing. \<open>mkdir\<close> creates a directory or raises, \<open>abspath\<close> is
  \<open>os.path.abspath\<close>, which the file handler applies to its name.
\<close>

subsection \<open>Loggers\<close>

text \<open>Handlers carry the mark of this function, or not; other handlers are somebody else's.\<close>

datatype handler =
    StdoutHandler bool
  | FileHandler (fh_base: string) (fh_max: int) (fh_backups: int) (fh_marked: bool)
  | OtherHandler string

record logger =
  lo_level :: int
  lo_propagate :: bool
  lo_handlers :: "handler list"

fun marked :: "handler \<Rightarrow> bool" where
  "marked (StdoutHandler b) = b"
| "marked (FileHandler p m n b) = b"
| "marked (OtherHandler s) = False"

definition upper_char :: "char \<Rightarrow> char" where
  "upper_char c =
     (if 97 \<le> (of_char c :: nat) \<and> (of_char c :: nat) \<le> 122 then char_of ((of_char c :: nat) - 32) else c)"

definition LEVELS :: "(string \<times> int) list" where
  "LEVELS = [(''CRITICAL'', 50), (''FATAL'', 50), (''ERROR'', 40), (''WARNING'', 30), (''WARN'', 30), (''INFO'', 20),
             (''DEBUG'', 10), (''NOTSET'', 0)]"

text \<open>\<open>getattr(logging, name, logging.INFO)\<close>; the library's format text is an attribute in capitals too, and no level.\<close>

definition parse_level :: "string \<Rightarrow> int res" where
  "parse_level raw =
     (let name = map upper_char (strip raw)
      in if name = ''BASIC_FORMAT'' then Inl (ValueError ''Unknown level'')
         else Inr (case map_of LEVELS name of None \<Rightarrow> 20 | Some l \<Rightarrow> l))"

subsection \<open>Configuration\<close>

definition log_dir :: "string \<Rightarrow> world \<Rightarrow> string" where
  "log_dir state_dir w = str_or (w_env w ''BENJAMIN_LOG_DIR'') (state_dir @ ''/logs'')"

definition log_path :: "string \<Rightarrow> world \<Rightarrow> string" where
  "log_path state_dir w = log_dir state_dir w @ ''/benjamin.log''"

definition add_handler :: "handler \<Rightarrow> logger \<Rightarrow> logger" where
  "add_handler h lo = lo\<lparr>lo_handlers := lo_handlers lo @ [h]\<rparr>"

definition add_stdout :: "logger \<Rightarrow> logger" where
  "add_stdout lo = (if list_ex marked (lo_handlers lo) then lo else add_handler (StdoutHandler True) lo)"

definition writes_to :: "string \<Rightarrow> handler \<Rightarrow> bool" where
  "writes_to path h = (case h of FileHandler p m n b \<Rightarrow> b \<and> p = path | _ \<Rightarrow> False)"

definition add_file :: "(string \<Rightarrow> unit res) \<Rightarrow> (string \<Rightarrow> string) \<Rightarrow> string \<Rightarrow> world \<Rightarrow> logger \<Rightarrow> unit res \<times> logger" where
  "add_file mkdir abspath state_dir w lo =
     (case mkdir (log_dir state_dir w) of
        Inl e \<Rightarrow> (Inl e, lo)
      | Inr _ \<Rightarrow>
          (case (py_int (getenv ''BENJAMIN_LOG_MAX_BYTES'' ''5000000'' w), py_int (getenv ''BENJAMIN_LOG_BACKUP_COUNT'' ''5'' w)) of
             (Some mx, Some n) \<Rightarrow>
               (Inr (), if list_ex (writes_to (log_path state_dir w)) (lo_handlers lo) then lo
                        else add_handler (FileHandler (abspath (log_path state_dir w)) mx n True) lo)
           | _ \<Rightarrow> (Inl (ValueError ''invalid literal for int() with base 10''), lo)))"

definition configure_logging ::
  "(string \<Rightarrow> unit res) \<Rightarrow> (string \<Rightarrow> string) \<Rightarrow> string \<Rightarrow> world \<Rightarrow> logger \<Rightarrow> unit res \<times> logger" where
  "configure_logging mkdir abspath state_dir w lo =
     (case parse_level (getenv ''BENJAMIN_LOG_LEVEL'' ''INFO'' w) of
        Inl e \<Rightarrow> (Inl e, lo)
      | Inr level \<Rightarrow>
          (let lo1 = add_stdout (lo\<lparr>lo_level := level, lo_propagate := False\<rparr>)
           in if is_on ''BENJAMIN_LOG_TO_FILE'' ''on'' w then add_file mkdir abspath state_dir w lo1 else (Inr (), lo1)))"

subsection \<open>Configuring again adds nothing\<close>

lemma add_stdout_handlers:
  "\<exists>hs. lo_handlers (add_stdout lo) = lo_handlers lo @ hs \<and> list_all marked hs \<and> list_ex marked (lo_handlers (add_stdout lo))"
  by (cases "list_ex marked (lo_handlers lo)") (auto simp: add_stdout_def add_handler_def)

lemma add_stdout_again [simp]: "list_ex marked (lo_handlers lo) \<Longrightarrow> add_stdout lo = lo"
  by (simp add: add_stdout_def)

lemma add_stdout_fields [simp]: "lo_level (add_stdout lo) = lo_level lo" "lo_propagate (add_stdout lo) = lo_propagate lo"
  by (simp_all add: add_stdout_def add_handler_def)

lemma add_file_handlers:
  assumes "add_file mkdir abspath dir w lo = (Inr (), lo1)"
  obtains hs where "lo_handlers lo1 = lo_handlers lo @ hs" and "list_all marked hs"
    and "lo_level lo1 = lo_level lo" and "lo_propagate lo1 = lo_propagate lo"
  using assms by (auto simp: add_file_def add_handler_def split: sum.splits option.splits if_splits)

lemma add_file_again:
  assumes "add_file mkdir abspath dir w lo = (Inr (), lo1)" and "abspath (log_path dir w) = log_path dir w"
  shows "add_file mkdir abspath dir w lo1 = (Inr (), lo1)"
  using assms by (auto simp: add_file_def add_handler_def writes_to_def split: sum.splits option.splits if_splits)

lemma settings_kept: "lo_level lo = l \<Longrightarrow> lo_propagate lo = p \<Longrightarrow> lo\<lparr>lo_level := l, lo_propagate := p\<rparr> = lo"
  by simp

lemma filter_unmarked: "list_all marked hs \<Longrightarrow> filter (\<lambda>h. \<not> marked h) hs = []"
  by (simp add: list_all_iff filter_empty_conv)

text \<open>
  Configuring the log a second time adds no handler and changes nothing, provided that the
  directory of the log is an absolute path; handlers of others stay, in their order, and the
  application has a handler of its own.
\<close>

theorem configure_logging_idempotent:
  assumes "configure_logging mkdir abspath dir w lo = (Inr (), lo1)" and "abspath (log_path dir w) = log_path dir w"
  shows "configure_logging mkdir abspath dir w lo1 = (Inr (), lo1)
    \<and> filter (\<lambda>h. \<not> marked h) (lo_handlers lo1) = filter (\<lambda>h. \<not> marked h) (lo_handlers lo)
    \<and> list_ex marked (lo_handlers lo1)"
proof -
  obtain level where l: "parse_level (getenv ''BENJAMIN_LOG_LEVEL'' ''INFO'' w) = Inr level"
    using assms(1) by (auto simp: configure_logging_def split: sum.splits)
  let ?lo = "add_stdout (lo\<lparr>lo_level := level, lo_propagate := False\<rparr>)"
  obtain hs where hs: "lo_handlers ?lo = lo_handlers lo @ hs" "list_all marked hs" "list_ex marked (lo_handlers ?lo)"
    using add_stdout_handlers [of "lo\<lparr>lo_level := level, lo_propagate := False\<rparr>"] by auto
  show ?thesis
  proof (cases "is_on ''BENJAMIN_LOG_TO_FILE'' ''on'' w")
    case True
    then have f: "add_file mkdir abspath dir w ?lo = (Inr (), lo1)" using assms(1) l by (simp add: configure_logging_def)
    then obtain hs' where h: "lo_handlers lo1 = lo_handlers ?lo @ hs'" "list_all marked hs'" "lo_level lo1 = level"
      "lo_propagate lo1 = False" by (rule add_file_handlers) simp
    have "list_ex marked (lo_handlers lo1)" using hs(3) h(1) by simp
    then have "configure_logging mkdir abspath dir w lo1 = (Inr (), lo1)"
      using l True add_file_again [OF f assms(2)] by (simp add: configure_logging_def settings_kept [OF h(3,4)])
    then show ?thesis using hs h by (auto simp: filter_unmarked)
  next
    case False
    then have e: "lo1 = ?lo" using assms(1) l by (simp add: configure_logging_def)
    then have "lo_level lo1 = level" "lo_propagate lo1 = False" by simp_all
    then have "configure_logging mkdir abspath dir w lo1 = (Inr (), lo1)"
      using hs(3) e l False by (simp add: configure_logging_def settings_kept)
    then show ?thesis using hs e by (simp add: filter_unmarked)
  qed
qed

definition fresh_logger :: logger where
  "fresh_logger = \<lparr>lo_level = 0, lo_propagate = True, lo_handlers = [OtherHandler ''pytest'']\<rparr>"

text \<open>What two calls in a row make of a logger.\<close>

definition configured_twice :: "(string \<Rightarrow> string) \<Rightarrow> world \<Rightarrow> handler list" where
  "configured_twice abspath w =
     lo_handlers (snd (configure_logging (\<lambda>_. Inr ()) abspath ''/state'' w (snd (configure_logging (\<lambda>_. Inr ()) abspath ''/state'' w fresh_logger))))"

definition small_world :: world where
  "small_world = (empty_world 0)\<lparr>w_env := [''BENJAMIN_LOG_MAX_BYTES'' \<mapsto> ''9'']\<rparr>"

definition relative_world :: world where
  "relative_world = (empty_world 0)\<lparr>w_env := [''BENJAMIN_LOG_DIR'' \<mapsto> ''logs'', ''BENJAMIN_LOG_MAX_BYTES'' \<mapsto> ''9'']\<rparr>"

theorem configure_logging_idempotent_witness:
  "configured_twice id small_world
     = [OtherHandler ''pytest'', StdoutHandler True, FileHandler ''/state/logs/benjamin.log'' 9 5 True]"
proof -
  let ?c = "configure_logging (\<lambda>_. Inr ()) id ''/state'' small_world"
  have r: "fst (?c fresh_logger) = Inr ()" "lo_handlers (snd (?c fresh_logger))
      = [OtherHandler ''pytest'', StdoutHandler True, FileHandler ''/state/logs/benjamin.log'' 9 5 True]" by code_simp+
  then obtain lo1 where "?c fresh_logger = (Inr (), lo1)" by (metis prod.collapse)
  with configure_logging_idempotent [OF this] r show ?thesis by (simp add: configured_twice_def)
qed

text \<open>
  With a relative directory the handler's absolute name never equals the path it is compared
  with: every further call adds one more file handler, and every line is written twice.
\<close>

theorem relative_log_dir_duplicates:
  "filter (writes_to ''/srv/logs/benjamin.log'') (configured_twice (\<lambda>p. ''/srv/'' @ p) relative_world)
     = replicate 2 (FileHandler ''/srv/logs/benjamin.log'' 9 5 True)"
  by code_simp

end
