(* ===== verification/WebPages.thy ===== *)
theory WebPages
  imports ApprovalFlow Query Access
begin

section \<open>The web pages and the small routes\<close>

text \<open>
  The pages of \<open>apps/api/routes_ui.py\<close> that are not in other theories, and the routes of
  \<open>routes_approvals.py\<close>, \<open>routes_memory.py\<close>, \<open>routes_tasks.py\<close> and the run search of
  \<open>main.py\<close>: what a page shows, as a value, and what a form changes. Templates and the
  redirections after a form are left out.
\<close>

subsection \<open>Approvals\<close>

definition list_approvals :: "approval_status option \<Rightarrow> world \<Rightarrow> approval list res \<times> world" where
  "list_approvals status w =
     (case cleanup_expired w of (Inl e, w') \<Rightarrow> (Inl e, w') | (Inr _, w') \<Rightarrow> (Inr (approvals_list_all status w'), w'))"

definition scope_flags :: "policy \<Rightarrow> string list \<Rightarrow> (string \<times> bool) list" where
  \<comment> \<open>\<open>{scope: policy.is_scope_enabled(scope) for ...}\<close>\<close>
  "scope_flags p scopes = map (\<lambda>s. (s, is_scope_enabled p s)) (remdups scopes)"

lemma scope_flags_lookup: "s \<in> set xs \<Longrightarrow> map_of (scope_flags p xs) s = Some (is_scope_enabled p s)"
  by (simp add: scope_flags_def map_of_map_restrict)

definition ui_approvals :: "world \<Rightarrow> (approval list \<times> (string \<times> bool) list) res \<times> world" where
  "ui_approvals w =
     (case list_approvals None w of
        (Inl e, w') \<Rightarrow> (Inl e, w')
      | (Inr rs, w') \<Rightarrow> (Inr (rs, scope_flags (permissions_policy w') (concat (map ap_scopes rs))), w'))"

definition approve_approval ::
  "(string \<Rightarrow> string) \<Rightarrow> int \<Rightarrow> string \<Rightarrow> string option \<Rightarrow> registry \<Rightarrow> world \<Rightarrow> approval res \<times> world" where
  "approve_approval = approve"

definition reject_approval :: "string \<Rightarrow> string option \<Rightarrow> world \<Rightarrow> approval res \<times> world" where
  "reject_approval = reject"

text \<open>The forms turn an empty note or reason into none.\<close>

definition none_if_empty :: "string \<Rightarrow> string option" where
  "none_if_empty s = (if s = [] then None else Some s)"

definition ui_approve ::
  "(string \<Rightarrow> string) \<Rightarrow> int \<Rightarrow> string \<Rightarrow> string \<Rightarrow> registry \<Rightarrow> world \<Rightarrow> approval res \<times> world" where
  "ui_approve sha mx i note reg = approve sha mx i (none_if_empty note) reg"

definition ui_reject :: "string \<Rightarrow> string \<Rightarrow> world \<Rightarrow> approval res \<times> world" where
  "ui_reject i reason = reject i (none_if_empty reason)"

subsection \<open>Details of an approval\<close>

record policy_diff =
  pd_added :: "string list"
  pd_removed :: "string list"
  pd_rules_changed :: bool

text \<open>\<open>(snapshot or {}).get("scopes_enabled", [])\<close>\<close>

definition snapshot_scopes :: "policy_snapshot option \<Rightarrow> string list" where
  "snapshot_scopes s = (case s of None \<Rightarrow> [] | Some p \<Rightarrow> sn_scopes_enabled p)"

definition snapshot_rules :: "policy_snapshot option \<Rightarrow> string list" where
  "snapshot_rules s = (case s of None \<Rightarrow> [] | Some p \<Rightarrow> sn_rules_allowed p)"

definition policy_snapshot_diff :: "policy_snapshot option \<Rightarrow> policy_snapshot option \<Rightarrow> policy_diff" where
  "policy_snapshot_diff before after =
     \<lparr>pd_added = sorted_set (filter (\<lambda>s. s \<notin> set (snapshot_scopes before)) (snapshot_scopes after)),
      pd_removed = sorted_set (filter (\<lambda>s. s \<notin> set (snapshot_scopes after)) (snapshot_scopes before)),
      pd_rules_changed = (set (snapshot_rules before) \<noteq> set (snapshot_rules after))\<rparr>"

record approval_detail =
  ad_record :: approval
  ad_key :: string
  ad_timeline :: "ledger_record list"
  ad_correlation :: string
  ad_scopes :: "(string \<times> bool) list"
  ad_diff :: policy_diff

definition ui_run_approval_detail :: "(string \<Rightarrow> string) \<Rightarrow> string \<Rightarrow> world \<Rightarrow> approval_detail res" where
  "ui_run_approval_detail sha i w =
     (case approval_get i w of
        None \<Rightarrow> Inl (HTTPException 404 ''approval not found'')
      | Some r \<Rightarrow>
          (let key = approval_execution_key sha (ap_id r) (ap_step r)
           in Inr \<lparr>ad_record = r, ad_key = key,
                   ad_timeline = filter (\<lambda>l. lr_key l = key) (ledger_search key 50 w),
                   ad_correlation = py_str (jor (jget ''correlation_id'' (ap_requester r)) (JStr [])),
                   ad_scopes = scope_flags (permissions_policy w) (ap_scopes r),
                   ad_diff = policy_snapshot_diff (ap_snapshot r) (ap_snapshot_at_approve r)\<rparr>))"

subsection \<open>Runs\<close>

record run_search =
  rn_kind :: string
  rn_status :: string
  rn_query :: string
  rn_limit :: int
  rn_sections :: sections

definition normalized_kind :: "string \<Rightarrow> string" where
  "normalized_kind kind = (if kind \<in> {''chat'', ''rule'', ''job'', ''approval'', ''policy'', ''all''} then kind else ''all'')"

definition normalized_status :: "string \<Rightarrow> string" where
  "normalized_status status = (if status \<in> {''ok'', ''failed'', ''skipped'', ''all''} then status else ''all'')"

definition runs_search :: "string \<Rightarrow> int \<Rightarrow> string \<Rightarrow> string \<Rightarrow> world \<Rightarrow> run_search" where
  "runs_search q limit kind status w =
     (let k = normalized_kind kind; st = normalized_status status; n = max 1 (min 200 limit)
      in \<lparr>rn_kind = k, rn_status = st, rn_query = q, rn_limit = n, rn_sections = search_runs k st q n w\<rparr>)"

definition ui_runs :: "string \<Rightarrow> string \<Rightarrow> string \<Rightarrow> int \<Rightarrow> world \<Rightarrow> run_search" where
  "ui_runs kind status q limit w = runs_search q limit kind status w"

definition ui_correlation_view :: "string \<Rightarrow> world \<Rightarrow> correlation_view" where
  "ui_correlation_view corr w = build_correlation_view corr 200 w"

definition ui_run_chat_detail :: "string \<Rightarrow> world \<Rightarrow> task_record res" where
  "ui_run_chat_detail i w =
     (case task_get i w of None \<Rightarrow> Inl (HTTPException 404 ''task not found'') | Some t \<Rightarrow> Inr t)"

subsection \<open>Memory\<close>

definition list_semantic :: "string option \<Rightarrow> world \<Rightarrow> semantic_fact list" where
  "list_semantic scope w = semantic_list_all scope w"

definition upsert_semantic :: "string \<Rightarrow> string \<Rightarrow> string \<Rightarrow> string list \<Rightarrow> world \<Rightarrow> semantic_fact \<times> world" where
  "upsert_semantic = semantic_upsert"

text \<open>\<open>Query(ge=1, le=200)\<close>: another limit is refused before the handler.\<close>

definition list_episodic :: "int \<Rightarrow> world \<Rightarrow> episode list res" where
  "list_episodic limit w =
     (if limit < 1 \<or> 200 < limit then Inl (HTTPException 422 ''limit'') else Inr (episodic_list_recent limit w))"

definition ui_memory :: "world \<Rightarrow> semantic_fact list \<times> episode list" where
  "ui_memory w = (semantic_list_all None w, episodic_list_recent 50 w)"

definition ui_memory_upsert :: "string \<Rightarrow> string \<Rightarrow> string \<Rightarrow> world \<Rightarrow> semantic_fact \<times> world" where
  "ui_memory_upsert key val scope = semantic_upsert key val scope []"

text \<open>A task that is queued is only echoed.\<close>

definition create_task :: "string \<Rightarrow> string \<times> string" where
  "create_task task = (task, ''queued'')"

subsection \<open>Scopes\<close>

definition ui_scopes :: "world \<Rightarrow> policy_snapshot \<times> bool" where
  "ui_scopes w =
     (let snap = snapshot_model (permissions_policy w)
      in (snap, \<not> sn_overrides_enabled snap \<or> is_safe_mode_enabled w))"

definition ui_scopes_save :: "string list \<Rightarrow> string list \<Rightarrow> world \<Rightarrow> unit res \<times> world" where
  "ui_scopes_save scopes_enabled rules_allowed w =
     (if \<not> po_overrides_enabled (permissions_policy w) then
        (Inl (HTTPException 409 ''policy overrides are disabled (env controlled)''), w)
      else if is_safe_mode_enabled w then
        (Inl (HTTPException 409 ''Safe mode enabled; scope changes disabled''), w)
      else
        (Inr (), overrides_save [(''scopes_enabled'', jstrs (sorted_set (filter known_scope scopes_enabled))),
                                 (''rules_allowed_scopes'', jstrs (sorted_set (filter known_scope rules_allowed)))] w))"

subsection \<open>The scopes page decides the policy\<close>

text \<open>
  C8. A saved scopes page is the policy: afterwards the scopes enabled beyond the mode, and
  those rules may ask for, are exactly the known ones among the boxes that were ticked,
  whatever was in force before; and it is only saved outside safe mode, with overrides on.
\<close>

theorem scopes_page_decides:
  assumes "ui_scopes_save scopes_enabled rules_allowed w = (Inr u, w')"
  shows "po_explicit (permissions_policy w') = set scopes_enabled \<inter> set ALL_SCOPES
    \<and> po_rules_allowed (permissions_policy w') = set rules_allowed \<inter> set ALL_SCOPES
    \<and> po_mode (permissions_policy w') = po_mode (permissions_policy w)
    \<and> \<not> is_safe_mode_enabled w \<and> po_overrides_enabled (permissions_policy w)"
proof -
  let ?d = "[(''scopes_enabled'', jstrs (sorted_set (filter known_scope scopes_enabled))),
             (''rules_allowed_scopes'', jstrs (sorted_set (filter known_scope rules_allowed)))]"
  have on: "po_overrides_enabled (env_policy w)" and g: "\<not> is_safe_mode_enabled w" "po_overrides_enabled (permissions_policy w)"
    and w': "w' = overrides_save ?d w"
    using assms by (auto simp: ui_scopes_save_def policy_overrides_flag split: if_splits)
  have e: "map_of ?d ''scopes_enabled'' = Some (jstrs (sorted_set (filter known_scope scopes_enabled)))"
    "map_of ?d ''rules_allowed_scopes'' = Some (jstrs (sorted_set (filter known_scope rules_allowed)))" by simp_all
  show ?thesis
    using on g apply_overrides_explicit [OF e(1)] apply_overrides_rules [OF e(2)]
    unfolding w' by (auto simp: policy_after_save policy_mode known_scope_def)
qed

theorem scopes_page_decides_witness:
  "po_explicit (permissions_policy (snd (ui_scopes_save [''gmail.send'', ''no.such''] [] (empty_world 0)))) = {''gmail.send''}"
proof -
  have "po_overrides_enabled (env_policy (empty_world 0))"
    by (simp add: env_policy_def getenv_def empty_world_def Let_def) code_simp
  moreover have "\<not> is_safe_mode_enabled (empty_world 0)" by code_simp
  ultimately have "fst (ui_scopes_save [''gmail.send'', ''no.such''] [] (empty_world 0)) = Inr ()"
    by (simp add: ui_scopes_save_def policy_overrides_flag)
  then have "ui_scopes_save [''gmail.send'', ''no.such''] [] (empty_world 0)
      = (Inr (), snd (ui_scopes_save [''gmail.send'', ''no.such''] [] (empty_world 0)))" by (metis prod.collapse)
  from scopes_page_decides [OF this] show ?thesis by (auto simp: ALL_SCOPES_def READ_SCOPES_def WRITE_SCOPES_def)
qed

text \<open>
  Safe mode closes the page (\<open>Safe mode enabled; scope changes disabled\<close>) but not the
  route of the API, which changes the same file.
\<close>

theorem safe_mode_closes_only_the_page:
  "\<exists>w. is_safe_mode_enabled w \<and> fst (ui_scopes_save [''gmail.send''] [] w) = Inl (HTTPException 409 ''Safe mode enabled; scope changes disabled'')
     \<and> (case enable_scopes [''gmail.send''] w of (Inr p, w') \<Rightarrow> is_scope_enabled (permissions_policy w') ''gmail.send'' | _ \<Rightarrow> False)"
proof -
  let ?w = "(empty_world 0)\<lparr>w_env := [''BENJAMIN_SAFE_MODE'' \<mapsto> ''on'']\<rparr>"
  have "is_safe_mode_enabled ?w" by code_simp
  moreover have "fst (ui_scopes_save [''gmail.send''] [] ?w) = Inl (HTTPException 409 ''Safe mode enabled; scope changes disabled'')"
    by code_simp
  moreover have "case enable_scopes [''gmail.send''] ?w of (Inr p, w') \<Rightarrow> is_scope_enabled (permissions_policy w') ''gmail.send'' | _ \<Rightarrow> False"
    by code_simp
  ultimately show ?thesis by (intro exI [of _ ?w]) simp
qed

subsection \<open>The difference of two policies\<close>

text \<open>
  The difference an approval shows is what turns the policy of its creation into the one of
  its approval: dropping the removed scopes and adding the added ones gives exactly the later
  scopes, the two lists are disjoint and sorted, and nothing is listed that did not change.
\<close>

theorem policy_diff_exact:
  "set (snapshot_scopes after) =
     (set (snapshot_scopes before) - set (pd_removed (policy_snapshot_diff before after))) \<union> set (pd_added (policy_snapshot_diff before after))
   \<and> set (pd_added (policy_snapshot_diff before after)) \<inter> set (snapshot_scopes before) = {}
   \<and> set (pd_removed (policy_snapshot_diff before after)) \<subseteq> set (snapshot_scopes before) - set (snapshot_scopes after)
   \<and> sorted (pd_added (policy_snapshot_diff before after)) \<and> sorted (pd_removed (policy_snapshot_diff before after))
   \<and> (\<not> pd_rules_changed (policy_snapshot_diff before after) \<longleftrightarrow> set (snapshot_rules before) = set (snapshot_rules after))"
  by (auto simp: policy_snapshot_diff_def sorted_set_def)

subsection \<open>What the pages show\<close>

text \<open>
  The approvals page shows no request that has lapsed, and every scope of a shown request
  with what the policy says of it; opening it removes lapsed requests, and changes no other.
\<close>

theorem approvals_page_current:
  assumes "ui_approvals w = (Inr (rs, flags), w')"
  shows "(\<forall>r\<in>set rs. \<not> lapsed (w_now w) r) \<and> set rs = set (approvals w')
    \<and> (\<forall>r\<in>set rs. \<forall>s\<in>set (ap_scopes r). map_of flags s = Some (is_scope_enabled (permissions_policy w') s))
    \<and> (autoclean w \<longrightarrow> approvals w' = filter (\<lambda>r. \<not> lapsed (w_now w) r) (approvals w))"
proof -
  obtain n where c: "cleanup_expired w = (Inr n, w')" and rs: "rs = approvals_list_all None w'"
      "flags = scope_flags (permissions_policy w') (concat (map ap_scopes rs))"
    using assms by (auto simp: ui_approvals_def list_approvals_def split: prod.splits sum.splits)
  then have a: "approvals w' = (if autoclean w then filter (\<lambda>r. \<not> lapsed (w_now w) r) (approvals w)
             else map (\<lambda>r. if lapsed (w_now w) r then r\<lparr>ap_status := Expired\<rparr> else r) (approvals w))"
    using cleanup_expired_exact [of w] by auto
  have set_rs: "set rs = set (approvals w')" by (simp add: rs approvals_list_all_def sorted_desc_def)
  moreover have "\<forall>r\<in>set (approvals w'). \<not> lapsed (w_now w) r" unfolding a by (auto simp: lapsed_def)
  moreover have "map_of flags s = Some (is_scope_enabled (permissions_policy w') s)" if "r \<in> set rs" "s \<in> set (ap_scopes r)" for r s
    unfolding rs(2) by (rule scope_flags_lookup) (use that in auto)
  moreover have "autoclean w \<longrightarrow> approvals w' = filter (\<lambda>r. \<not> lapsed (w_now w) r) (approvals w)" by (simp add: a)
  ultimately show ?thesis by blast
qed

theorem approvals_page_current_witness:
  "fst (ui_approvals (demo_world\<lparr>w_now := 1000\<rparr>)) = Inr ([], []) \<and> approvals (snd (ui_approvals (demo_world\<lparr>w_now := 1000\<rparr>))) = []"
proof -
  have f: "fst (ui_approvals (demo_world\<lparr>w_now := 1000\<rparr>)) = Inr ([], [])" by code_simp
  then have "ui_approvals (demo_world\<lparr>w_now := 1000\<rparr>) = (Inr ([], []), snd (ui_approvals (demo_world\<lparr>w_now := 1000\<rparr>)))"
    by (metis prod.collapse)
  from approvals_page_current [OF this] f show ?thesis by auto
qed

text \<open>Saving a fact from the page drops its tags: the form sends none, and the store writes none.\<close>

theorem memory_page_drops_tags:
  "let (f, w1) = upsert_semantic ''name'' ''Ann'' ''global'' [''person''] (empty_world 0);
       (f2, w2) = ui_memory_upsert ''name'' ''Anna'' ''global'' w1
   in sf_tags f = [''person''] \<and> sf_id f2 = sf_id f \<and> sf_tags f2 = []"
  by code_simp

end
