(* ===== verification/ChatPages.thy ===== *)
theory ChatPages
  imports Access Orchestrator
begin

section \<open>The chat pages and the session of a browser\<close>

text \<open>
  The chat route (\<open>apps/api/routes_chat.py\<close>), the pages for chatting, logging in and logging out
  (\<open>apps/api/routes_ui.py\<close>), the two short health routes (\<open>apps/api/main.py\<close>), and what a browser
  that keeps the cookies sees of them.
\<close>

subsection \<open>Routes\<close>

definition chat ::
  "orchestrator \<Rightarrow> outside \<Rightarrow> string \<Rightarrow> manager \<Rightarrow> world \<Rightarrow> (web_response res \<times> manager) \<times> world" where
  "chat oc os message m w =
     (case handle oc os message m w of
        ((Inl e, m'), w') \<Rightarrow> ((Inl e, m'), w')
      | ((Inr r, m'), w') \<Rightarrow>
          ((Inr (json_response 200 (JDict [(''response'', JStr (ch_response r)), (''task_id'', JStr (ch_task_id r))])), m'), w'))"

text \<open>What the chat page is rendered from.\<close>

record chat_page =
  cp_safe_mode :: bool
  cp_result :: "chat_result option"
  cp_message :: string

definition ui_chat :: "world \<Rightarrow> chat_page" where
  "ui_chat w = \<lparr>cp_safe_mode = is_safe_mode_enabled w, cp_result = None, cp_message = []\<rparr>"

definition ui_chat_post ::
  "orchestrator \<Rightarrow> outside \<Rightarrow> string \<Rightarrow> manager \<Rightarrow> world \<Rightarrow> (chat_page res \<times> manager) \<times> world" where
  "ui_chat_post oc os message m w =
     (case handle oc os message m w of
        ((Inl e, m'), w') \<Rightarrow> ((Inl e, m'), w')
      | ((Inr r, m'), w') \<Rightarrow>
          ((Inr \<lparr>cp_safe_mode = is_safe_mode_enabled w', cp_result = Some r, cp_message = message\<rparr>, m'), w'))"

definition ui_root :: web_response where
  "ui_root = redirect_response ''/ui/chat'' 303"

definition ui_login :: "world \<Rightarrow> web_response" where
  "ui_login w =
     \<lparr>rs_status = 200, rs_headers = [], rs_cookies = [],
      rs_body = Page ''login.html'' [(''safe_mode_enabled'', JBool (is_safe_mode_enabled w)), (''error'', JNull),
        (''auth_enabled'', JBool (is_auth_enabled w))]\<rparr>"

text \<open>\<open>delete_cookie\<close> sets the cookie to nothing, expired.\<close>

definition ui_logout :: web_response where
  "ui_logout = (redirect_response ''/ui/login'' 303)\<lparr>rs_cookies := [(''benjamin_token'', [])]\<rparr>"

definition health_route :: web_response where
  "health_route = json_response 200 (JDict [(''status'', JStr ''ok'')])"

definition healthz_route :: web_response where
  "healthz_route = json_response 200 (JDict [(''ok'', JBool True)])"

text \<open>Page and route give the same answer to the same message, in the same state.\<close>

lemma page_answers_as_route:
  "fst (chat oc os message m w) =
     (case fst (ui_chat_post oc os message m w) of
        (Inl e, m') \<Rightarrow> (Inl e, m')
      | (Inr page, m') \<Rightarrow>
          (Inr (json_response 200 (JDict [(''response'', JStr (ch_response (the (cp_result page)))),
             (''task_id'', JStr (ch_task_id (the (cp_result page))))])), m'))
   \<and> snd (chat oc os message m w) = snd (ui_chat_post oc os message m w)"
  by (simp add: chat_def ui_chat_post_def split: prod.split sum.split)

subsection \<open>A browser\<close>

text \<open>The cookies it holds; a response sets some, and an empty one is one that was deleted.\<close>

type_synonym jar = "string dict"

definition receive :: "jar \<Rightarrow> web_response \<Rightarrow> jar" where
  "receive jar resp = filter (\<lambda>(k, v). v \<noteq> []) (dict_update jar (rs_cookies resp))"

text \<open>What its user does: log in with a token, log out, open a page.\<close>

datatype action = Login string | Logout | Visit string string

fun request_of :: "action \<Rightarrow> jar \<Rightarrow> web_request" where
  "request_of (Login t) jar = \<lparr>wr_method = ''POST'', wr_path = ''/ui/login'', wr_headers = [], wr_cookies = jar\<rparr>"
| "request_of Logout jar = \<lparr>wr_method = ''POST'', wr_path = ''/ui/logout'', wr_headers = [], wr_cookies = jar\<rparr>"
| "request_of (Visit m p) jar = \<lparr>wr_method = m, wr_path = p, wr_headers = [], wr_cookies = jar\<rparr>"

text \<open>The handlers behind the middlewares; \<open>app\<close> stands for those of all other routes.\<close>

fun handler_of :: "handler \<Rightarrow> action \<Rightarrow> handler" where
  "handler_of app (Login t) = (\<lambda>req w. (ui_login_post t w, w))"
| "handler_of app Logout = (\<lambda>req w. (Inr ui_logout, w))"
| "handler_of app (Visit m p) = app"

definition session_step :: "handler \<Rightarrow> action \<Rightarrow> jar \<Rightarrow> world \<Rightarrow> web_response res \<times> jar \<times> world" where
  "session_step app act jar w =
     (let (r, w') = serve (handler_of app act) (request_of act jar) w
      in (r, (case r of Inl e \<Rightarrow> jar | Inr resp \<Rightarrow> receive jar resp), w'))"

fun session_run :: "handler \<Rightarrow> action list \<Rightarrow> jar \<Rightarrow> world \<Rightarrow> web_response res list \<times> jar \<times> world" where
  "session_run app [] jar w = ([], jar, w)"
| "session_run app (act # acts) jar w =
     (let (r, jar1, w1) = session_step app act jar w; (rs, jar2, w2) = session_run app acts jar1 w1
      in (r # rs, jar2, w2))"

subsection \<open>The same with one bit\<close>

text \<open>
  Tokens, cookies and the middleware come down to whether the browser is logged in: then every
  page is there, and otherwise the login page only.
\<close>

fun open_to_all :: "action \<Rightarrow> bool" where
  "open_to_all (Login t) \<longleftrightarrow> True"
| "open_to_all Logout \<longleftrightarrow> False"
| "open_to_all (Visit m p) \<longleftrightarrow> p = ''/ui/login'' \<and> upper m \<in> {''GET'', ''POST''}"

fun logged_in_after :: "string \<Rightarrow> action \<Rightarrow> bool \<Rightarrow> bool" where
  "logged_in_after t (Login t') b \<longleftrightarrow> b \<or> t' = t"
| "logged_in_after t Logout b \<longleftrightarrow> False"
| "logged_in_after t (Visit m p) b \<longleftrightarrow> b"

definition jar_of :: "string \<Rightarrow> bool \<Rightarrow> jar" where
  "jar_of t b = (if b then [(''benjamin_token'', t)] else [])"

definition portal_step :: "string \<Rightarrow> handler \<Rightarrow> action \<Rightarrow> bool \<Rightarrow> world \<Rightarrow> web_response res \<times> bool \<times> world" where
  "portal_step t app act b w =
     (if b \<or> open_to_all act
      then (let (r, w') = request_context_middleware (handler_of app act) (request_of act (jar_of t b)) w
            in (r, logged_in_after t act b, w'))
      else (Inr (redirect_response ''/ui/login'' 302), b, w))"

fun portal_run :: "string \<Rightarrow> handler \<Rightarrow> action list \<Rightarrow> bool \<Rightarrow> world \<Rightarrow> web_response res list \<times> bool \<times> world" where
  "portal_run t app [] b w = ([], b, w)"
| "portal_run t app (act # acts) b w =
     (let (r, b1, w1) = portal_step t app act b w; (rs, b2, w2) = portal_run t app acts b1 w1
      in (r # rs, b2, w2))"

definition token_set :: "string \<Rightarrow> world \<Rightarrow> bool" where
  "token_set t w \<longleftrightarrow> is_auth_enabled w \<and> getenv ''BENJAMIN_AUTH_TOKEN'' [] w = t \<and> t \<noteq> [] \<and> is_ascii t"

text \<open>The other routes set no cookies and leave the settings alone.\<close>

definition quiet :: "handler \<Rightarrow> bool" where
  "quiet app \<longleftrightarrow> (\<forall>req w. w_env (snd (app req w)) = w_env w
     \<and> (case fst (app req w) of Inl e \<Rightarrow> True | Inr resp \<Rightarrow> rs_cookies resp = []))"

fun on_pages :: "action \<Rightarrow> bool" where
  "on_pages (Visit m p) \<longleftrightarrow> startswith p ''/ui''"
| "on_pages _ \<longleftrightarrow> True"

lemma token_set_cong: "w_env w' = w_env w \<Longrightarrow> token_set t w' = token_set t w"
  by (simp add: token_set_def is_auth_enabled_def get_auth_mode_def getenv_def)

lemma handler_env: "quiet app \<Longrightarrow> w_env (snd (handler_of app act req w)) = w_env w"
  by (cases act) (simp_all add: quiet_def)

lemma handler_jar:
  assumes "token_set t w" and "quiet app" and "b \<or> open_to_all act" and "fst (handler_of app act req w) = r"
  shows "(case r of Inl e \<Rightarrow> jar_of t b | Inr resp \<Rightarrow> receive (jar_of t b) resp) = jar_of t (logged_in_after t act b)"
proof (cases act)
  case (Login t')
  then show ?thesis using assms(1,4)
    by (auto simp: token_set_def ui_login_post_def get_required_token_def redirect_response_def receive_def jar_of_def dict_update_def)
next
  case Logout
  then show ?thesis using assms
    by (auto simp: ui_logout_def redirect_response_def receive_def jar_of_def dict_update_def)
next
  case (Visit m p)
  then have "case r of Inl e \<Rightarrow> True | Inr resp \<Rightarrow> rs_cookies resp = []"
    using assms(2,4) unfolding quiet_def by auto
  then show ?thesis using Visit assms(1)
    by (auto simp: receive_def dict_update_def jar_of_def token_set_def split: sum.splits)
qed

text \<open>The middleware of the correlation runs the handler once, in a state with the same settings.\<close>

lemma context_middleware_runs:
  obtains w0 where "w_env w0 = w_env w"
    and "case fst (handler req w0) of
           Inl e \<Rightarrow> fst (request_context_middleware handler req w) = Inl e
         | Inr resp \<Rightarrow> \<exists>hs. fst (request_context_middleware handler req w) = Inr (resp\<lparr>rs_headers := hs\<rparr>)"
    and "w_env (snd (request_context_middleware handler req w)) = w_env (snd (handler req w0))"
proof -
  obtain corr w1 where c: "(case header_get ''X-Correlation-ID'' req of None \<Rightarrow> uuid4 w
      | Some c \<Rightarrow> if c = [] then uuid4 w else (c, w)) = (corr, w1)" by fastforce
  have e: "w_env w1 = w_env w" using c by (auto simp: uuid4_def split: option.splits if_splits)
  obtain r w2 where h: "handler req (w1\<lparr>w_corr := Some corr\<rparr>) = (r, w2)" by fastforce
  show ?thesis
    by (rule that [of "w1\<lparr>w_corr := Some corr\<rparr>"])
      (use c e h in \<open>auto simp: request_context_middleware_def with_corr_def split: sum.splits\<close>)
qed

lemma receive_headers [simp]: "receive jar (resp\<lparr>rs_headers := hs\<rparr>) = receive jar resp"
  by (simp add: receive_def)

lemma context_middleware_jar:
  assumes "token_set t w" and "quiet app" and "b \<or> open_to_all act"
    and "request_context_middleware (handler_of app act) req w = (r, w')"
  shows "(case r of Inl e \<Rightarrow> jar_of t b | Inr resp \<Rightarrow> receive (jar_of t b) resp) = jar_of t (logged_in_after t act b)"
    and "w_env w' = w_env w"
proof -
  obtain w0 where w0: "w_env w0 = w_env w"
    and runs: "case fst (handler_of app act req w0) of
           Inl e \<Rightarrow> fst (request_context_middleware (handler_of app act) req w) = Inl e
         | Inr resp \<Rightarrow> \<exists>hs. fst (request_context_middleware (handler_of app act) req w) = Inr (resp\<lparr>rs_headers := hs\<rparr>)"
    and env: "w_env (snd (request_context_middleware (handler_of app act) req w)) = w_env (snd (handler_of app act req w0))"
    by (rule context_middleware_runs)
  have "token_set t w0" using assms(1) token_set_cong [OF w0] by simp
  from handler_jar [OF this assms(2,3) refl, of req] runs
  show "(case r of Inl e \<Rightarrow> jar_of t b | Inr resp \<Rightarrow> receive (jar_of t b) resp) = jar_of t (logged_in_after t act b)"
    using assms(4) by (auto split: sum.splits)
  show "w_env w' = w_env w" using env w0 handler_env [OF assms(2)] assms(4) by simp
qed

lemma serve_pages:
  assumes "token_set t w" and "on_pages act"
  shows "serve handler (request_of act (jar_of t b)) w =
    (if b \<or> open_to_all act then request_context_middleware handler (request_of act (jar_of t b)) w
     else (Inr (redirect_response ''/ui/login'' 302), w))"
proof -
  define req where "req = request_of act (jar_of t b)"
  have auth: "is_request_authenticated req w = Inr b"
    using assms(1) by (cases act)
      (auto simp: req_def token_set_def is_request_authenticated_def get_required_token_def compare_digest_def extract_token_def
        header_get_def jar_of_def)
  have ui: "startswith (wr_path req) ''/ui''"
    using assms(2) by (cases act) (simp_all add: startswith_def req_def)
  then have "\<not> startswith (wr_path req) ''/healthz''"
    by (cases "wr_path req"; cases "tl (wr_path req)") (auto simp: startswith_def)
  moreover have "open_to_all act \<longleftrightarrow> wr_path req = ''/ui/login'' \<and> upper (wr_method req) \<in> {''GET'', ''POST''}"
    by (cases act) (auto simp: upper_def upper_char_def req_def)
  ultimately show ?thesis using auth ui assms(1) unfolding req_def [symmetric]
    by (auto simp: serve_def auth_middleware_def require_token_def token_set_def Let_def)
qed

lemma session_step_portal:
  assumes "token_set t w" and "quiet app" and "on_pages act"
  shows "session_step app act (jar_of t b) w = (let (r, b', w') = portal_step t app act b w in (r, jar_of t b', w'))"
    and "w_env (snd (snd (portal_step t app act b w))) = w_env w"
proof -
  show "session_step app act (jar_of t b) w = (let (r, b', w') = portal_step t app act b w in (r, jar_of t b', w'))"
  proof (cases "b \<or> open_to_all act")
    case True
    obtain r w' where m: "request_context_middleware (handler_of app act) (request_of act (jar_of t b)) w = (r, w')" by fastforce
    then show ?thesis using True context_middleware_jar(1) [OF assms(1,2) True m]
      by (simp add: session_step_def portal_step_def serve_pages [OF assms(1,3)])
  next
    case False
    then have "serve (handler_of app act) (request_of act (jar_of t b)) w = (Inr (redirect_response ''/ui/login'' 302), w)"
      using serve_pages [OF assms(1,3)] by simp
    moreover have "receive (jar_of t b) (redirect_response ''/ui/login'' 302) = jar_of t b"
      using assms(1) by (simp add: receive_def dict_update_def redirect_response_def jar_of_def token_set_def)
    ultimately show ?thesis using False by (simp add: session_step_def portal_step_def)
  qed
  show "w_env (snd (snd (portal_step t app act b w))) = w_env w"
    using context_middleware_jar(2) [OF assms(1,2), of b act]
    by (auto simp: portal_step_def split: prod.split)
qed

text \<open>
  C7. With authentication on, a browser that keeps the cookies it is sent sees the pages as if
  there were one bit, logged in or not: along any sequence of logins with right and wrong
  tokens, logouts and visits, the responses and the state are those of the portal that asks
  only for this bit, and the browser holds the token exactly when it is logged in.
\<close>

theorem session_refines_portal:
  assumes "token_set t w" and "quiet app" and "list_all on_pages acts"
  shows "session_run app acts (jar_of t b) w = (let (rs, b', w') = portal_run t app acts b w in (rs, jar_of t b', w'))"
  using assms(1,3)
proof (induction acts arbitrary: b w)
  case (Cons act acts)
  obtain r b1 w1 where p: "portal_step t app act b w = (r, b1, w1)" by (metis prod_cases3)
  have s: "session_step app act (jar_of t b) w = (r, jar_of t b1, w1)"
    using session_step_portal(1) [OF Cons.prems(1) assms(2), of act b] Cons.prems(2) p by simp
  have "token_set t w1"
    using session_step_portal(2) [OF Cons.prems(1) assms(2), of act b] Cons.prems p token_set_cong [of w1 w t] by simp
  then show ?case using Cons.IH [of w1 b1] Cons.prems(2) p s by (simp add: split_beta Let_def)
qed simp

definition page_app :: handler where
  "page_app req w = (Inr (json_response 200 (JStr (wr_path req))), w)"

theorem session_refines_portal_witness:
  "map (map_sum id rs_status) (fst (session_run page_app
       [Visit ''GET'' ''/ui/jobs'', Login ''guess'', Visit ''GET'' ''/ui/jobs'', Login ''s3cret'', Visit ''GET'' ''/ui/jobs'', Logout,
        Visit ''GET'' ''/ui/jobs''] [] locked_world))
   = map Inr [302, 401, 302, 303, 200, 303, 302]"
proof -
  have t: "token_set ''s3cret'' locked_world" by (simp add: token_set_def) code_simp
  have q: "quiet page_app" by (simp add: quiet_def page_app_def json_response_def)
  let ?acts = "[Visit ''GET'' ''/ui/jobs'', Login ''guess'', Visit ''GET'' ''/ui/jobs'', Login ''s3cret'', Visit ''GET'' ''/ui/jobs'',
    Logout, Visit ''GET'' ''/ui/jobs'']"
  have "list_all on_pages ?acts" by (simp add: startswith_def)
  from session_refines_portal [OF t q this, of False]
  have "fst (session_run page_app ?acts [] locked_world) = fst (portal_run ''s3cret'' page_app ?acts False locked_world)"
    by (simp add: jar_of_def split_beta Let_def del: session_run.simps portal_run.simps)
  moreover have "map (map_sum id rs_status) (fst (portal_run ''s3cret'' page_app ?acts False locked_world))
      = map Inr [302, 401, 302, 303, 200, 303, 302]" by code_simp
  ultimately show ?thesis by simp
qed

end
