(* ===== verification/FileSearch.thy ===== *)
theory FileSearch
  imports PyLines
begin

section \<open>The file search of the first version\<close>

text \<open>
  \<open>benjamin/core/skills/builtin/filesystem.py\<close>: a directory tree is walked from the top, every
  readable text file gives the first of its lines that contains the query, and the walk stops
  when there are enough. The order of the entries is that of the directory listing.
\<close>

subsection \<open>Directory trees\<close>

text \<open>
  A file holds text, or something that cannot be read as text; links are not followed; other
  entries (devices, sockets) are no files.
\<close>

datatype node = File "string option" | Dir "(string \<times> node) list" | Link | Special

type_synonym entries = "(string \<times> node) list"

definition SKIPPED_DIRS :: "string list" where
  "SKIPPED_DIRS = [''.git'', ''.venv'', ''node_modules'', ''__pycache__'']"

definition walked :: "string \<Rightarrow> bool" where
  "walked name \<longleftrightarrow> \<not> startswith name ''.'' \<and> name \<notin> set SKIPPED_DIRS"

text \<open>\<open>Path(current_root) / name\<close>, as text.\<close>

definition path_join :: "string \<Rightarrow> string \<Rightarrow> string" where
  "path_join p name =
     (if p = ''.'' then name else if endswith p ''/'' then p @ name else p @ ''/'' @ name)"

text \<open>\<open>os.walk\<close> with the pruning of \<open>dirs\<close>: each directory before those in it.\<close>

fun walk_subdirs :: "string \<Rightarrow> entries \<Rightarrow> (string \<times> entries) list" where
  "walk_subdirs p [] = []"
| "walk_subdirs p ((name, Dir sub) # es) =
     (if walked name then (path_join p name, sub) # walk_subdirs (path_join p name) sub else []) @ walk_subdirs p es"
| "walk_subdirs p ((name, File x) # es) = walk_subdirs p es"
| "walk_subdirs p ((name, Link) # es) = walk_subdirs p es"
| "walk_subdirs p ((name, Special) # es) = walk_subdirs p es"

definition walk :: "string \<Rightarrow> entries \<Rightarrow> (string \<times> entries) list" where
  "walk p es = (p, es) # walk_subdirs p es"

subsection \<open>One file\<close>

record file_match =
  fm_path :: string
  fm_snippet :: string

definition snippet_of :: "string \<Rightarrow> string" where
  "snippet_of line = (let s = strip line in if 200 < length s then take 197 s @ ''...'' else s)"

definition match_text :: "string \<Rightarrow> string \<Rightarrow> string \<Rightarrow> file_match option" where
  "match_text query path content =
     map_option (\<lambda>l. \<lparr>fm_path = path, fm_snippet = snippet_of l\<rparr>)
       (find (\<lambda>l. str_in query (casefold l)) (splitlines content))"

subsection \<open>The search\<close>

text \<open>The files of one directory; true when the search is to end.\<close>

fun scan_files :: "string \<Rightarrow> int \<Rightarrow> string \<Rightarrow> entries \<Rightarrow> file_match list \<Rightarrow> file_match list \<times> bool" where
  "scan_files query mx p [] acc = (acc, False)"
| "scan_files query mx p ((name, File (Some content)) # es) acc =
     (let acc' = acc @ (case match_text query (path_join p name) content of None \<Rightarrow> [] | Some m \<Rightarrow> [m])
      in if mx \<le> int (length acc') then (acc', True) else scan_files query mx p es acc')"
| "scan_files query mx p ((name, File None) # es) acc = scan_files query mx p es acc"
| "scan_files query mx p ((name, Dir sub) # es) acc = scan_files query mx p es acc"
| "scan_files query mx p ((name, Link) # es) acc = scan_files query mx p es acc"
| "scan_files query mx p ((name, Special) # es) acc = scan_files query mx p es acc"

fun scan_dirs :: "string \<Rightarrow> int \<Rightarrow> (string \<times> entries) list \<Rightarrow> file_match list \<Rightarrow> file_match list" where
  "scan_dirs query mx [] acc = acc"
| "scan_dirs query mx ((p, es) # ds) acc =
     (case scan_files query mx p es acc of (acc', True) \<Rightarrow> acc' | (acc', False) \<Rightarrow> scan_dirs query mx ds acc')"

text \<open>\<open>fs\<close> gives the directory at a path, with the path as \<open>Path\<close> writes it; \<open>None\<close> when there is none.\<close>

type_synonym file_system = "string \<Rightarrow> (string \<times> entries) option"

definition search_read :: "file_system \<Rightarrow> string \<Rightarrow> string \<Rightarrow> int \<Rightarrow> file_match list" where
  "search_read fs query0 cwd mx =
     (let query = strip (casefold query0)
      in case fs cwd of
           None \<Rightarrow> []
         | Some (root, es) \<Rightarrow> (if query = [] then [] else scan_dirs query mx (walk root es) []))"

subsection \<open>The search finds the first matching files\<close>

text \<open>What there is to find: the match of every readable file of the walked directories, in the order of the walk.\<close>

fun file_hits :: "string \<Rightarrow> string \<Rightarrow> entries \<Rightarrow> file_match list" where
  "file_hits query p [] = []"
| "file_hits query p ((name, File (Some content)) # es) =
     (case match_text query (path_join p name) content of None \<Rightarrow> [] | Some m \<Rightarrow> [m]) @ file_hits query p es"
| "file_hits query p (_ # es) = file_hits query p es"

definition all_matches :: "string \<Rightarrow> string \<Rightarrow> entries \<Rightarrow> file_match list" where
  "all_matches query root es = concat (map (\<lambda>(p, ds). file_hits query p ds) (walk root es))"

lemma scan_files_take:
  assumes "int (length acc) < mx"
  shows "scan_files query mx p es acc
    = (take (nat mx) (acc @ file_hits query p es), mx \<le> int (length (acc @ file_hits query p es)))"
  using assms
proof (induction query mx p es acc rule: scan_files.induct)
  case (2 query mx p name content es acc)
  let ?h = "case match_text query (path_join p name) content of None \<Rightarrow> [] | Some m \<Rightarrow> [m]"
  show ?case
  proof (cases "mx \<le> int (length (acc @ ?h))")
    case True
    have "length ?h \<le> 1" by (simp split: option.split)
    with True 2(2) have "nat mx = length (acc @ ?h)" by simp
    then show ?thesis using True by (simp add: Let_def)
  next
    case False
    then show ?thesis using 2(1) [of "acc @ ?h"] by (simp add: Let_def)
  qed
qed simp_all

lemma scan_dirs_take:
  assumes "int (length acc) < mx"
  shows "scan_dirs query mx ds acc = take (nat mx) (acc @ concat (map (\<lambda>(p, es). file_hits query p es) ds))"
  using assms
proof (induction ds arbitrary: acc)
  case (Cons d ds)
  obtain p es where d: "d = (p, es)" by fastforce
  show ?case
  proof (cases "mx \<le> int (length (acc @ file_hits query p es))")
    case True
    then show ?thesis using scan_files_take [OF Cons.prems] d by simp
  next
    case False
    then show ?thesis using scan_files_take [OF Cons.prems] d Cons.IH [of "acc @ file_hits query p es"] by simp
  qed
qed simp

lemma search_read_take:
  assumes "fs cwd = Some (root, es)" and "strip (casefold query) \<noteq> []" and "1 \<le> mx"
  shows "search_read fs query cwd mx = take (nat mx) (all_matches (strip (casefold query)) root es)"
  using assms scan_dirs_take [of "[]" mx] by (simp add: search_read_def all_matches_def)

text \<open>
  The search with its early exits returns the first \<open>max_results\<close> of the matches there
  are, one for each readable text file with a line that contains the query, in the order of
  the walk; a blank query or a path that is no directory finds nothing.
\<close>

theorem search_read_exact:
  assumes "1 \<le> mx"
  shows "search_read fs query cwd mx =
    (case fs cwd of
       None \<Rightarrow> []
     | Some (root, es) \<Rightarrow>
         if strip (casefold query) = [] then [] else take (nat mx) (all_matches (strip (casefold query)) root es))"
  using search_read_take assms by (auto simp: search_read_def split: option.split)

definition demo_tree :: entries where
  "demo_tree =
     [(''a.txt'', File (Some (''apple'' @ [CHR 0x0A] @ ''  Banana split ''))), (''.git'', Dir [(''b'', File (Some ''banana''))]),
      (''blob'', File None), (''sub'', Dir [(''c.txt'', File (Some ''ripe banana''))]), (''l'', Link)]"

lemma demo_matches:
  "strip (casefold '' BANANA '') = ''banana''"
  "take 5 (all_matches ''banana'' ''r'' demo_tree)
     = [\<lparr>fm_path = ''r/a.txt'', fm_snippet = ''Banana split''\<rparr>, \<lparr>fm_path = ''r/sub/c.txt'', fm_snippet = ''ripe banana''\<rparr>]"
  by code_simp+

theorem search_read_exact_witness:
  "search_read (\<lambda>_. Some (''r'', demo_tree)) '' BANANA '' ''r'' 5
     = [\<lparr>fm_path = ''r/a.txt'', fm_snippet = ''Banana split''\<rparr>, \<lparr>fm_path = ''r/sub/c.txt'', fm_snippet = ''ripe banana''\<rparr>]"
  using search_read_exact [of 5 "\<lambda>_. Some (''r'', demo_tree)" "'' BANANA ''" "''r''"] by (simp add: demo_matches)

subsection \<open>What is never looked at\<close>

text \<open>The tree without what the search does not see: pruned directories, links, special and unreadable files.\<close>

fun visible :: "entries \<Rightarrow> entries" where
  "visible [] = []"
| "visible ((name, Dir sub) # es) = (if walked name then [(name, Dir (visible sub))] else []) @ visible es"
| "visible ((name, File (Some content)) # es) = (name, File (Some content)) # visible es"
| "visible (_ # es) = visible es"

lemma scan_files_visible: "scan_files query mx p (visible es) acc = scan_files query mx p es acc"
  by (induction es arbitrary: acc rule: visible.induct) (simp_all add: Let_def)

lemma walk_visible: "walk_subdirs p (visible es) = map (\<lambda>(q, ds). (q, visible ds)) (walk_subdirs p es)"
proof (induction p es rule: walk_subdirs.induct)
  case (3 p name x es)
  then show ?case by (cases x) simp_all
qed simp_all

lemma scan_dirs_visible: "scan_dirs query mx (map (\<lambda>(q, ds). (q, visible ds)) ws) acc = scan_dirs query mx ws acc"
  by (induction ws arbitrary: acc) (auto simp: scan_files_visible split: prod.split bool.split)

text \<open>
  Hidden directories, version control and dependency directories, links and unreadable
  files do not influence the search, whatever they hold.
\<close>

theorem search_skips_hidden:
  "search_read (\<lambda>cwd. map_option (\<lambda>(root, es). (root, visible es)) (fs cwd)) query cwd mx = search_read fs query cwd mx"
  using scan_dirs_visible [of "strip (casefold query)" mx "walk r es" "[]" for r es]
  by (auto simp: search_read_def walk_def walk_visible scan_files_visible Let_def split: option.split)

subsection \<open>A bound of zero\<close>

text \<open>
  With a bound of zero (or below) the search still reads the first readable file, and returns
  its match.
\<close>

theorem zero_results_returns_one:
  "length (search_read (\<lambda>_. Some (''r'', demo_tree)) ''banana'' ''r'' 0) = 1"
  by code_simp

end
