(* ===== verification/Prototype.thy ===== *)
theory Prototype
  imports FileSearch JsonFields Policy Stores
begin

section \<open>The first version of the program\<close>

text \<open>
  The tree \<open>benjamin/\<close> beside \<open>src/\<close>: the chat of the first version. A plan comes from a
  model behind HTTP or from a keyword, an executor runs its steps on two reading skills (file
  search and a stub of a web search), and the answer is made of the first result. Records and
  functions have the names of that tree with the prefix \<open>mvp_\<close>.
\<close>

subsection \<open>Schemas\<close>

record mvp_request =
  mq_message :: string
  mq_cwd :: "string option"

record mvp_step =
  ms_id :: string
  ms_skill :: string
  ms_args :: "json dict"
  ms_why :: string
  ms_approval :: bool

record mvp_result =
  mr_step :: string
  mr_skill :: string
  mr_ok :: bool
  mr_output :: "json dict option"
  mr_error :: "string option"

type_synonym mvp_event = "iso \<times> string \<times> json dict"

record mvp_trace =
  mt_task :: string
  mt_events :: "mvp_event list"

definition mvp_trace_new :: "world \<Rightarrow> mvp_trace \<times> world" where
  "mvp_trace_new w0 = (let (u, w) = uuid4 w0 in (\<lparr>mt_task = ''task-'' @ u, mt_events = []\<rparr>, w))"

definition mvp_add_event :: "string \<Rightarrow> json dict \<Rightarrow> world \<Rightarrow> mvp_trace \<Rightarrow> mvp_trace" where
  "mvp_add_event event_type data w tr = tr\<lparr>mt_events := mt_events tr @ [(now_iso w, event_type, data)]\<rparr>"

definition mvp_dump_step :: "mvp_step \<Rightarrow> json" where
  "mvp_dump_step s =
     JDict [(''id'', JStr (ms_id s)), (''skill_name'', JStr (ms_skill s)), (''args'', JDict (ms_args s)),
            (''why'', JStr (ms_why s)), (''requires_approval'', JBool (ms_approval s))]"

text \<open>\<open>Plan.model_validate\<close>\<close>

definition mvp_step_of :: "json \<Rightarrow> mvp_step option" where
  "mvp_step_of j =
     (case j of
        JDict d \<Rightarrow>
          (case (str_field ''id'' None d, str_field ''skill_name'' None d, sub_field ''args'' (Some []) Some d,
                 str_field ''why'' None d, bool_field ''requires_approval'' False d) of
             (Some i, Some n, Some a, Some y, Some r) \<Rightarrow>
               Some \<lparr>ms_id = i, ms_skill = n, ms_args = a, ms_why = y, ms_approval = r\<rparr>
           | _ \<Rightarrow> None)
      | _ \<Rightarrow> None)"

fun mvp_steps_of :: "json list \<Rightarrow> mvp_step list option" where
  "mvp_steps_of [] = Some []"
| "mvp_steps_of (j # js) =
     (case (mvp_step_of j, mvp_steps_of js) of (Some s, Some ss) \<Rightarrow> Some (s # ss) | _ \<Rightarrow> None)"

definition mvp_plan_of :: "json dict \<Rightarrow> mvp_step list option" where
  "mvp_plan_of d =
     (case map_of d ''steps'' of None \<Rightarrow> Some [] | Some (JList js) \<Rightarrow> mvp_steps_of js | Some _ \<Rightarrow> None)"

subsection \<open>Skills and their registry\<close>

text \<open>
  A skill validates its arguments with its input model, runs, and its result has to fit its
  output model; a model is what it makes of an object, \<open>None\<close> for a validation error.
\<close>

record mvp_skill =
  mk_name :: string
  mk_side_effect :: string
  mk_input :: "json dict \<Rightarrow> json dict option"
  mk_output :: "json dict \<Rightarrow> json dict option"
  mk_run :: "json dict \<Rightarrow> string \<Rightarrow> world \<Rightarrow> json dict res \<times> world"

type_synonym mvp_registry = "mvp_skill dict"

definition mvp_invalid :: exc where
  "mvp_invalid = ValueError ''validation error''"

definition mvp_skill_execute :: "mvp_skill \<Rightarrow> json dict \<Rightarrow> string \<Rightarrow> world \<Rightarrow> json dict res \<times> world" where
  "mvp_skill_execute sk args cwd w =
     (case mk_input sk args of
        None \<Rightarrow> (Inl mvp_invalid, w)
      | Some input_data \<Rightarrow>
          (case mk_run sk input_data cwd w of
             (Inl e, w') \<Rightarrow> (Inl e, w')
           | (Inr out, w') \<Rightarrow> ((case mk_output sk out of None \<Rightarrow> Inl mvp_invalid | Some x \<Rightarrow> Inr x), w')))"

definition mvp_register :: "mvp_skill \<Rightarrow> mvp_registry \<Rightarrow> mvp_registry" where
  "mvp_register sk reg = AList.update (mk_name sk) sk reg"

definition mvp_get :: "mvp_registry \<Rightarrow> string \<Rightarrow> mvp_skill res" where
  "mvp_get reg name = (case map_of reg name of None \<Rightarrow> Inl (KeyError name) | Some sk \<Rightarrow> Inr sk)"

definition mvp_list :: "mvp_registry \<Rightarrow> string list" where
  "mvp_list reg = sort (map fst reg)"

subsection \<open>The built-in skills\<close>

definition file_query :: "json dict \<Rightarrow> json dict option" where
  "file_query d =
     (case (str_field ''query'' None d, str_field ''cwd'' None d, int_field ''max_results'' 20 d) of
        (Some q, Some c, Some n) \<Rightarrow> Some [(''query'', JStr q), (''cwd'', JStr c), (''max_results'', JInt n)]
      | _ \<Rightarrow> None)"

definition match_json :: "file_match \<Rightarrow> json" where
  "match_json m = JDict [(''path'', JStr (fm_path m)), (''snippet'', JStr (fm_snippet m))]"

definition filesystem_skill :: "file_system \<Rightarrow> mvp_skill" where
  "filesystem_skill fs =
     \<lparr>mk_name = ''filesystem.search_read'', mk_side_effect = ''read'', mk_input = file_query, mk_output = Some,
      mk_run = (\<lambda>d _ w. (case (jget ''query'' d, jget ''cwd'' d, jget ''max_results'' d) of
          (JStr q, JStr c, JInt n) \<Rightarrow> Inr [(''matches'', JList (map match_json (search_read fs q c n)))]
        | _ \<Rightarrow> Inl mvp_invalid, w))\<rparr>"

definition NO_WEB_SEARCH :: string where
  "NO_WEB_SEARCH = ''web.search is not implemented yet''"

definition web_search_skill :: mvp_skill where
  "web_search_skill =
     \<lparr>mk_name = ''web.search'', mk_side_effect = ''read'',
      mk_input = (\<lambda>d. map_option (\<lambda>q. [(''query'', JStr q)]) (str_field ''query'' None d)), mk_output = Some,
      mk_run = (\<lambda>_ _ w. (Inr [(''results'', JList []), (''reason'', JStr NO_WEB_SEARCH)], w))\<rparr>"

definition register_builtins :: "file_system \<Rightarrow> mvp_registry \<Rightarrow> mvp_registry" where
  "register_builtins fs reg0 =
     fold (\<lambda>sk reg. if mk_name sk \<in> set (mvp_list reg) then reg else mvp_register sk reg)
       [filesystem_skill fs, web_search_skill] reg0"

subsection \<open>The executor\<close>

definition mvp_requires_approval :: "mvp_skill \<Rightarrow> bool" where
  "mvp_requires_approval sk \<longleftrightarrow> mk_side_effect sk = ''write''"

definition BLOCKED :: string where
  "BLOCKED = ''Step blocked by policy: write skill requires approval''"

definition step_data :: "mvp_step \<Rightarrow> json dict" where
  "step_data s = [(''step_id'', JStr (ms_id s)), (''skill_name'', JStr (ms_skill s))]"

definition failed_step :: "mvp_step \<Rightarrow> string \<Rightarrow> mvp_result" where
  "failed_step s msg =
     \<lparr>mr_step = ms_id s, mr_skill = ms_skill s, mr_ok = False, mr_output = None, mr_error = Some msg\<rparr>"

text \<open>One step: any exception is its result.\<close>

definition mvp_run_step ::
  "mvp_registry \<Rightarrow> string \<Rightarrow> mvp_step \<Rightarrow> mvp_trace \<Rightarrow> world \<Rightarrow> mvp_result \<times> mvp_trace \<times> world" where
  "mvp_run_step reg cwd s tr0 w =
     (let tr = mvp_add_event ''StepStarted'' (step_data s) w tr0;
          failed = (\<lambda>msg w'. (failed_step s msg,
                       mvp_add_event ''StepFailed'' (step_data s @ [(''error'', JStr msg)]) w' tr, w'))
      in case mvp_get reg (ms_skill s) of
           Inl e \<Rightarrow> failed (exc_str e) w
         | Inr sk \<Rightarrow>
             (if mvp_requires_approval sk then failed BLOCKED w
              else case mvp_skill_execute sk (ms_args s) cwd w of
                (Inl e, w') \<Rightarrow> failed (exc_str e) w'
              | (Inr out, w') \<Rightarrow>
                  (\<lparr>mr_step = ms_id s, mr_skill = ms_skill s, mr_ok = True, mr_output = Some out, mr_error = None\<rparr>,
                   mvp_add_event ''StepFinished'' (step_data s) w' tr, w')))"

fun mvp_execute ::
  "mvp_registry \<Rightarrow> string \<Rightarrow> mvp_step list \<Rightarrow> mvp_trace \<Rightarrow> world \<Rightarrow> mvp_result list \<times> mvp_trace \<times> world" where
  "mvp_execute reg cwd [] tr w = ([], tr, w)"
| "mvp_execute reg cwd (s # ss) tr w =
     (let (r, tr', w') = mvp_run_step reg cwd s tr w; (rs, tr'', w'') = mvp_execute reg cwd ss tr' w'
      in (r # rs, tr'', w''))"

subsection \<open>The model and its planner\<close>

record mvp_llm =
  ml_mode :: string
  ml_url :: string
  ml_token :: string

definition mvp_llm_init :: "world \<Rightarrow> mvp_llm" where
  "mvp_llm_init w =
     \<lparr>ml_mode = (let m = casefold (strip (getenv ''BENJAMIN_LLM_MODE'' ''off'' w)) in if m = [] then ''off'' else m),
      ml_url = strip (getenv ''BENJAMIN_LLM_HTTP_URL'' [] w), ml_token = strip (getenv ''BENJAMIN_LLM_HTTP_TOKEN'' [] w)\<rparr>"

text \<open>
  The HTTP library: a POST with headers and a JSON body gives the body of the answer as JSON,
  or raises (no connection, a status that is an error, no JSON).
\<close>

type_synonym mvp_server = "string \<Rightarrow> (string \<times> string) list \<Rightarrow> json \<Rightarrow> world \<Rightarrow> json res \<times> world"

definition quoted :: "string \<Rightarrow> string" where
  "quoted s = [CHR 0x27] @ s @ [CHR 0x27]"

definition mvp_complete_json ::
  "mvp_server \<Rightarrow> mvp_llm \<Rightarrow> string \<Rightarrow> string \<Rightarrow> json \<Rightarrow> world \<Rightarrow> json dict res \<times> world" where
  "mvp_complete_json post lm system user hint w =
     (if ml_mode lm = ''off'' then (Inl (RuntimeError ''LLM mode is off''), w)
      else if ml_mode lm \<noteq> ''http'' then (Inl (RuntimeError (''Unsupported LLM mode: '' @ ml_mode lm)), w)
      else if ml_url lm = [] then (Inl (RuntimeError ''BENJAMIN_LLM_HTTP_URL is required for http mode''), w)
      else case post (ml_url lm)
                  ((''Content-Type'', ''application/json'')
                   # (if ml_token lm = [] then [] else [(''Authorization'', ''Bearer '' @ ml_token lm)]))
                  (JDict [(''system'', JStr system), (''user'', JStr user), (''schema'', hint)]) w of
        (Inl e, w') \<Rightarrow> (Inl e, w')
      | (Inr (JDict body), w') \<Rightarrow>
          ((case jget ''json'' body of
              JDict p \<Rightarrow> Inr p | _ \<Rightarrow> Inl (RuntimeError (''LLM response must contain object field '' @ quoted ''json''))), w')
      | (Inr _, w') \<Rightarrow> (Inl (AttributeError (''object has no attribute '' @ quoted ''get'')), w'))"

definition typed :: "string \<Rightarrow> json dict" where
  "typed name = [(''type'', JStr name)]"

definition mvp_schema_hint :: json where
  "mvp_schema_hint =
     JDict (typed ''object'' @
       [(''properties'', JDict [(''steps'', JDict (typed ''array'' @
           [(''items'', JDict (typed ''object'' @
             [(''properties'', JDict [(''id'', JDict (typed ''string'')), (''skill_name'', JDict (typed ''string'')),
                (''args'', JDict (typed ''object'')), (''why'', JDict (typed ''string'')),
                (''requires_approval'', JDict (typed ''boolean''))]),
              (''required'', jstrs [''id'', ''skill_name'', ''args'', ''why'', ''requires_approval''])]))]))]),
        (''required'', jstrs [''steps''])])"

definition mvp_system_prompt :: "string list \<Rightarrow> string" where
  "mvp_system_prompt available =
     ''You are BENJAMIN planner. Return ONLY JSON matching this exact structure: ''
     @ ''{\"steps\":[{\"id\":\"...\",\"skill_name\":\"...\",\"args\":{},\"why\":\"...\",''
     @ ''\"requires_approval\":false}]}. '' @ ''Use only these skills: '' @ join '', '' available @ ''. ''
     @ ''Prefer minimal steps.''"

definition mvp_user_prompt :: "string \<Rightarrow> string \<Rightarrow> string" where
  "mvp_user_prompt message cwd =
     ''User message: '' @ message @ [CHR 0x0A] @ ''Current working directory: '' @ cwd @ [CHR 0x0A] @ ''Produce a plan now.''"

definition mvp_make_plan ::
  "mvp_server \<Rightarrow> mvp_llm \<Rightarrow> string \<Rightarrow> string \<Rightarrow> mvp_registry \<Rightarrow> world \<Rightarrow> mvp_step list res \<times> world" where
  "mvp_make_plan post lm message cwd reg w =
     (let available = mvp_list reg
      in case mvp_complete_json post lm (mvp_system_prompt available) (mvp_user_prompt message cwd) mvp_schema_hint w of
           (Inl e, w') \<Rightarrow> (Inl e, w')
         | (Inr d, w') \<Rightarrow>
             ((case mvp_plan_of d of
                 None \<Rightarrow> Inl mvp_invalid
               | Some steps \<Rightarrow>
                   (let unknown = filter (\<lambda>n. n \<notin> set available) (map ms_skill steps)
                    in if unknown \<noteq> []
                       then Inl (RuntimeError (''Planner returned unknown skills: '' @ py_str (jstrs unknown)))
                       else Inr steps)), w'))"

subsection \<open>The orchestrator\<close>

definition KEYWORDS :: "string list" where
  "KEYWORDS = [''search'', ''find'', ''lookup'']"

text \<open>\<open>re.sub(rf"\b{keyword}\b", "", message, count=1, flags=re.IGNORECASE)\<close>; \<open>prev\<close>: a word character precedes.\<close>

fun remove_word :: "string \<Rightarrow> bool \<Rightarrow> string \<Rightarrow> string" where
  "remove_word kw prev [] = []"
| "remove_word kw prev (c # cs) =
     (let rest = drop (length kw) (c # cs)
      in if \<not> prev \<and> startswith (casefold (c # cs)) kw \<and> (rest = [] \<or> \<not> is_word_char (hd rest)) then rest
         else c # remove_word kw (is_word_char c) cs)"

text \<open>What a message with one of the keywords asks for: what is left of it, or all of it.\<close>

definition keyword_query :: "string \<Rightarrow> string option" where
  "keyword_query message0 =
     (let message = strip message0
      in case find (\<lambda>k. str_in k (casefold message)) KEYWORDS of
           None \<Rightarrow> None
         | Some keyword \<Rightarrow> (let q = strip (remove_word keyword False message) in Some (if q = [] then message else q)))"

definition build_keyword_plan :: "string \<Rightarrow> string \<Rightarrow> mvp_step list" where
  "build_keyword_plan message cwd =
     (case keyword_query message of
        None \<Rightarrow> []
      | Some query \<Rightarrow>
          [\<lparr>ms_id = ''step-1'', ms_skill = ''filesystem.search_read'',
            ms_args = [(''query'', JStr query), (''cwd'', JStr cwd), (''max_results'', JInt 10)],
            ms_why = ''User asked to search/find content in files'', ms_approval = False\<rparr>])"

definition plan_with_fallback ::
  "mvp_server \<Rightarrow> mvp_llm \<Rightarrow> mvp_registry \<Rightarrow> string \<Rightarrow> string \<Rightarrow> mvp_trace \<Rightarrow> world
     \<Rightarrow> mvp_step list \<times> mvp_trace \<times> world" where
  "plan_with_fallback post lm reg message cwd tr0 w =
     (if ml_mode lm = ''off'' then (build_keyword_plan message cwd, tr0, w)
      else
        (let tr = mvp_add_event ''PlannerAttempted''
                    [(''mode'', JStr (ml_mode lm)), (''message_preview'', JStr (take 120 message))] w tr0;
             failed = (\<lambda>msg w'. (build_keyword_plan message cwd,
                          mvp_add_event ''PlannerFailed'' [(''error'', JStr msg)] w' tr, w'))
         in case mvp_make_plan post lm message cwd reg w of
              (Inl e, w') \<Rightarrow> failed (exc_str e) w'
            | (Inr [], w') \<Rightarrow> failed ''Planner returned empty plan'' w'
            | (Inr steps, w') \<Rightarrow>
                (steps, mvp_add_event ''PlannerSucceeded'' [(''step_count'', JInt (int (length steps)))] w' tr, w')))"

text \<open>The lines of the answer, numbered; an item without path or snippet is an error.\<close>

fun item_lines :: "int \<Rightarrow> json list \<Rightarrow> string list res" where
  "item_lines n [] = Inr []"
| "item_lines n (JDict d # xs) =
     (case (map_of d ''path'', map_of d ''snippet'') of
        (Some p, Some s) \<Rightarrow> map_sum id ((#) (show_int n @ ''. '' @ py_str p @ '': '' @ py_str s)) (item_lines (n + 1) xs)
      | (None, _) \<Rightarrow> Inl (KeyError ''path'') | _ \<Rightarrow> Inl (KeyError ''snippet''))"
| "item_lines n (_ # xs) = Inl (TypeError ''not subscriptable'')"

definition format_answer :: "mvp_result list \<Rightarrow> string res" where
  "format_answer results =
     (case results of
        [] \<Rightarrow> Inr ''No steps were executed.''
      | r # _ \<Rightarrow>
          (if \<not> mr_ok r then Inr (''I couldn't complete the search: '' @ (case mr_error r of None \<Rightarrow> ''None'' | Some e \<Rightarrow> e))
           else let out = (case mr_output r of None \<Rightarrow> [] | Some d \<Rightarrow> d)
           in if mr_skill r = ''web.search'' then
                Inr (''Web search is currently unavailable: ''
                     @ py_str (case map_of out ''reason'' of None \<Rightarrow> JStr NO_WEB_SEARCH | Some x \<Rightarrow> x))
              else (case (case map_of out ''matches'' of None \<Rightarrow> JList [] | Some x \<Rightarrow> x) of
                  JList (m # ms) \<Rightarrow>
                    map_sum id (\<lambda>ls. join [CHR 0x0A] (''Found matches:'' # ls)) (item_lines 1 (take 10 (m # ms)))
                | x \<Rightarrow> (if truthy x then Inl (TypeError ''not subscriptable'') else Inr ''No matching text found in files.''))))"

text \<open>The quotation marks of the hint are typographic ones in the code.\<close>

definition HINT :: string where
  "HINT = ''I can search files. Try: '' @ quoted ''search <term>''"

text \<open>\<open>here\<close> is the working directory of the process. An answer is its text and the trace.\<close>

definition mvp_handle ::
  "mvp_server \<Rightarrow> mvp_llm \<Rightarrow> mvp_registry \<Rightarrow> string \<Rightarrow> mvp_request \<Rightarrow> world \<Rightarrow> (string \<times> mvp_trace) res \<times> world" where
  "mvp_handle post lm reg here req w0 =
     (let (tr0, w1) = mvp_trace_new w0;
          cwd = str_or (mq_cwd req) here;
          tr1 = mvp_add_event ''RequestReceived'' [(''message'', JStr (mq_message req)), (''cwd'', JStr cwd)] w1 tr0;
          (steps, tr2, w2) = plan_with_fallback post lm reg (mq_message req) cwd tr1 w1;
          tr3 = mvp_add_event ''PlanCreated'' [(''steps'', JList (map mvp_dump_step steps))] w2 tr2
      in if steps = [] then (Inr (HINT, mvp_add_event ''FallbackResponse'' [(''answer'', JStr HINT)] w2 tr3), w2)
         else let (results, tr4, w4) = mvp_execute reg cwd steps tr3 w2
         in case format_answer results of
              Inl e \<Rightarrow> (Inl e, w4)
            | Inr answer \<Rightarrow> (Inr (answer, mvp_add_event ''ResponseReady'' [(''answer'', JStr answer)] w4 tr4), w4))"

text \<open>The chat route: the orchestrator of the process, with no skills but the built-in ones.\<close>

definition mvp_chat ::
  "mvp_server \<Rightarrow> file_system \<Rightarrow> string \<Rightarrow> world \<Rightarrow> mvp_request \<Rightarrow> world \<Rightarrow> (string \<times> mvp_trace) res \<times> world" where
  \<comment> \<open>\<open>env\<close> is the state when the orchestrator was made: it reads the environment once\<close>
  "mvp_chat post fs here env req w = mvp_handle post (mvp_llm_init env) (register_builtins fs []) here req w"

subsection \<open>Writing skills never run\<close>

text \<open>The registry with other run functions in its writing skills.\<close>

definition rearm :: "(string \<Rightarrow> json dict \<Rightarrow> string \<Rightarrow> world \<Rightarrow> json dict res \<times> world) \<Rightarrow> mvp_registry \<Rightarrow> mvp_registry" where
  "rearm run reg = map (\<lambda>(n, sk). (n, if mvp_requires_approval sk then sk\<lparr>mk_run := run n\<rparr> else sk)) reg"

lemma rearm_get:
  "mvp_get (rearm run reg) n =
     map_sum id (\<lambda>sk. if mvp_requires_approval sk then sk\<lparr>mk_run := run n\<rparr> else sk) (mvp_get reg n)"
  by (induction reg) (auto simp: mvp_get_def rearm_def)

lemma rearm_step: "mvp_run_step (rearm run reg) cwd s tr w = mvp_run_step reg cwd s tr w"
  by (cases "mvp_get reg (ms_skill s)") (auto simp: mvp_run_step_def rearm_get mvp_requires_approval_def Let_def)

lemma rearm_execute: "mvp_execute (rearm run reg) cwd ss tr w = mvp_execute reg cwd ss tr w"
  by (induction ss arbitrary: tr w) (simp_all add: rearm_step)

lemma run_step_ids: "mvp_run_step reg cwd s tr w = (r, tr', w') \<Longrightarrow> mr_step r = ms_id s \<and> mr_skill r = ms_skill s"
  by (auto simp: mvp_run_step_def failed_step_def Let_def split: sum.splits if_splits prod.splits)

lemma run_step_blocked:
  "mvp_get reg (ms_skill s) = Inr sk \<Longrightarrow> mvp_requires_approval sk \<Longrightarrow> fst (mvp_run_step reg cwd s tr w) = failed_step s BLOCKED"
  by (simp add: mvp_run_step_def Let_def)

lemma execute_blocked:
  "mvp_execute reg cwd ss tr w = (rs, tr', w') \<Longrightarrow>
   list_all2 (\<lambda>s r. mr_step r = ms_id s \<and> mr_skill r = ms_skill s
      \<and> (\<forall>sk. mvp_get reg (ms_skill s) = Inr sk \<and> mvp_requires_approval sk \<longrightarrow> r = failed_step s BLOCKED)) ss rs"
proof (induction ss arbitrary: rs tr w)
  case (Cons s ss)
  obtain r tr1 w1 where r: "mvp_run_step reg cwd s tr w = (r, tr1, w1)" by (metis prod_cases3)
  obtain rs2 tr2 w2 where rs2: "mvp_execute reg cwd ss tr1 w1 = (rs2, tr2, w2)" by (metis prod_cases3)
  have "rs = r # rs2" and "mvp_execute reg cwd ss tr1 w1 = (rs2, tr', w')" using Cons.prems r rs2 by simp_all
  then show ?case using Cons.IH run_step_ids [OF r] run_step_blocked [of reg s _ cwd tr w] r by auto
qed simp

text \<open>
  Executing a plan never runs a writing skill: whatever its run function would do, results,
  trace and state are the same. Every step has one result under its id, in the order of the
  plan, and that of a writing step says that it was blocked.
\<close>

theorem mvp_writes_blocked:
  "mvp_execute (rearm run reg) cwd steps tr w = mvp_execute reg cwd steps tr w
   \<and> list_all2 (\<lambda>s r. mr_step r = ms_id s \<and> mr_skill r = ms_skill s
      \<and> (\<forall>sk. mvp_get reg (ms_skill s) = Inr sk \<and> mvp_requires_approval sk \<longrightarrow> r = failed_step s BLOCKED))
     steps (fst (mvp_execute reg cwd steps tr w))"
  using execute_blocked [of reg cwd steps tr w]
  by (cases "mvp_execute reg cwd steps tr w") (simp add: rearm_execute)

subsection \<open>Every request is answered\<close>

interpretation mvp_skills: readable_store "\<lambda>reg n. map_of reg n" mvp_register mk_name "\<lambda>sk. sk"
  by unfold_locales (simp_all add: mvp_register_def update_conv')

text \<open>A skill the caller registered under the name of a built-in one stays.\<close>

lemma register_builtins_keeps:
  assumes "mvp_get reg n = Inr sk"
  shows "mvp_get (register_builtins fs reg) n = Inr sk"
proof -
  have n: "map_of reg n = Some sk" using assms by (simp add: mvp_get_def split: option.splits)
  have step: "map_of (if mk_name b \<in> set (mvp_list reg') then reg' else mvp_register b reg') n = Some sk"
    if "map_of reg' n = Some sk" for b reg'
    using that map_of_SomeD [OF that] by (auto simp: mvp_list_def mvp_skills.lookup_put image_iff)
  show ?thesis
    using step [OF step [OF n]] by (simp add: mvp_get_def register_builtins_def)
qed

lemma builtin_registry:
  "register_builtins fs [] = [(''filesystem.search_read'', filesystem_skill fs), (''web.search'', web_search_skill)]"
  by (simp add: register_builtins_def mvp_list_def mvp_register_def filesystem_skill_def web_search_skill_def)

text \<open>What the answer is made of: a failure, the stub's result, or matches.\<close>

definition answerable :: "mvp_result \<Rightarrow> bool" where
  "answerable r \<longleftrightarrow> \<not> mr_ok r \<or> mr_skill r = ''web.search''
     \<or> (\<exists>ms. mr_output r = Some [(''matches'', JList (map match_json ms))])"

fun number_lines :: "int \<Rightarrow> file_match list \<Rightarrow> string list" where
  "number_lines n [] = []"
| "number_lines n (m # ms) = (show_int n @ ''. '' @ fm_path m @ '': '' @ fm_snippet m) # number_lines (n + 1) ms"

lemma item_lines_matches: "item_lines n (map match_json ms) = Inr (number_lines n ms)"
  by (induction ms arbitrary: n) (simp_all add: match_json_def)

definition matches_answer :: "file_match list \<Rightarrow> string" where
  "matches_answer ms =
     (if ms = [] then ''No matching text found in files.''
      else join [CHR 0x0A] (''Found matches:'' # number_lines 1 (take 10 ms)))"

lemma format_matches:
  "mr_ok r \<Longrightarrow> mr_skill r \<noteq> ''web.search'' \<Longrightarrow> mr_output r = Some [(''matches'', JList (map match_json ms))]
   \<Longrightarrow> format_answer (r # rs) = Inr (matches_answer ms)"
proof -
  assume r: "mr_ok r" "mr_skill r \<noteq> ''web.search''" "mr_output r = Some [(''matches'', JList (map match_json ms))]"
  have "item_lines 1 (take 10 (map match_json ms)) = Inr (number_lines 1 (take 10 ms))"
    by (simp only: take_map item_lines_matches)
  then show ?thesis using r by (cases ms) (simp_all add: format_answer_def matches_answer_def)
qed

lemma format_answerable: "rs = [] \<or> answerable (hd rs) \<Longrightarrow> \<exists>answer. format_answer rs = Inr answer"
proof (cases rs)
  case (Cons r rs')
  assume "rs = [] \<or> answerable (hd rs)"
  then have "answerable r" using Cons by simp
  then consider "\<not> mr_ok r" | "mr_skill r = ''web.search''"
    | ms where "mr_ok r" "mr_skill r \<noteq> ''web.search''" "mr_output r = Some [(''matches'', JList (map match_json ms))]"
    unfolding answerable_def by blast
  then show ?thesis
    by cases (use Cons format_matches in \<open>auto simp: format_answer_def Let_def\<close>)
qed (simp add: format_answer_def)

lemma builtin_step_answerable:
  assumes "mvp_run_step (register_builtins fs []) cwd s tr w = (r, tr', w')"
  shows "answerable r"
  using assms
  by (auto simp: mvp_run_step_def builtin_registry mvp_get_def failed_step_def answerable_def mvp_skill_execute_def
      filesystem_skill_def file_query_def jget_def mvp_requires_approval_def Let_def
      split: sum.splits if_splits prod.splits option.splits) blast

lemma builtin_execute_answerable:
  assumes "mvp_execute (register_builtins fs []) cwd ss tr w = (rs, tr', w')"
  shows "rs = [] \<or> answerable (hd rs)"
proof (cases ss)
  case (Cons s ss')
  obtain r tr1 w1 where r: "mvp_run_step (register_builtins fs []) cwd s tr w = (r, tr1, w1)" by (metis prod_cases3)
  show ?thesis using assms Cons r builtin_step_answerable [OF r] by (auto split: prod.splits)
qed (use assms in simp)

definition event_types :: "mvp_trace \<Rightarrow> string list" where
  "event_types tr = map (\<lambda>(ts, ty, d). ty) (mt_events tr)"

lemma event_types_add [simp]: "event_types (mvp_add_event ty d w tr) = event_types tr @ [ty]"
  by (simp add: event_types_def mvp_add_event_def)

lemma step_events:
  "mvp_run_step reg cwd s tr w = (r, tr', w') \<Longrightarrow>
   event_types tr' = event_types tr @ [''StepStarted'', if mr_ok r then ''StepFinished'' else ''StepFailed'']"
  by (auto simp: mvp_run_step_def failed_step_def Let_def split: sum.splits if_splits prod.splits)

lemma execute_events:
  "mvp_execute reg cwd ss tr w = (rs, tr', w') \<Longrightarrow>
   event_types tr' = event_types tr @ concat (map (\<lambda>r. [''StepStarted'', if mr_ok r then ''StepFinished'' else ''StepFailed'']) rs)"
proof (induction ss arbitrary: rs tr w)
  case (Cons s ss)
  obtain r tr1 w1 where r: "mvp_run_step reg cwd s tr w = (r, tr1, w1)" by (metis prod_cases3)
  then show ?case using Cons step_events [OF r] by (auto split: prod.splits)
qed simp

lemma fallback_events:
  "plan_with_fallback post lm reg message cwd tr w = (steps, tr', w') \<Longrightarrow> \<exists>es. event_types tr' = event_types tr @ es"
  by (auto simp: plan_with_fallback_def Let_def split: if_splits sum.splits prod.splits list.splits)

text \<open>
  Every request is answered, whatever the model server does and whatever the disk holds:
  the handler raises nothing, and the trace begins with the request and ends with the answer.
\<close>

theorem mvp_always_answers:
  "\<exists>answer tr w'. mvp_chat post fs here env req w = (Inr (answer, tr), w')
     \<and> hd (event_types tr) = ''RequestReceived''
     \<and> last (event_types tr) \<in> {''FallbackResponse'', ''ResponseReady''}"
proof -
  obtain tr0 w1 where t0: "mvp_trace_new w = (tr0, w1)" by fastforce
  then have e0: "event_types tr0 = []" by (auto simp: mvp_trace_new_def event_types_def uuid4_def)
  let ?cwd = "str_or (mq_cwd req) here" and ?reg = "register_builtins fs []"
  let ?tr1 = "mvp_add_event ''RequestReceived'' [(''message'', JStr (mq_message req)), (''cwd'', JStr ?cwd)] w1 tr0"
  obtain steps tr2 w2 where p: "plan_with_fallback post (mvp_llm_init env) ?reg (mq_message req) ?cwd ?tr1 w1 = (steps, tr2, w2)"
    by (metis prod_cases3)
  obtain es where e2: "event_types tr2 = ''RequestReceived'' # es" using fallback_events [OF p] e0 by auto
  let ?tr3 = "mvp_add_event ''PlanCreated'' [(''steps'', JList (map mvp_dump_step steps))] w2 tr2"
  obtain rs tr4 w4 where x: "mvp_execute ?reg ?cwd steps ?tr3 w2 = (rs, tr4, w4)" by (metis prod_cases3)
  obtain answer where a: "format_answer rs = Inr answer" using format_answerable builtin_execute_answerable [OF x] by blast
  obtain es4 where e4: "event_types tr4 = ''RequestReceived'' # es4" using execute_events [OF x] e2 by auto
  show ?thesis
    using t0 p x a e2 e4 by (cases "steps = []") (simp_all add: mvp_chat_def mvp_handle_def)
qed

subsection \<open>A search message is answered with the matches\<close>

lemma strip_casefold: "strip (casefold s) = casefold (strip s)"
  by (simp add: strip_def rstrip_def lstrip_def casefold_def dropWhile_map rev_map o_def)

lemma casefold_Nil: "casefold [] = []"
  by (simp add: casefold_def)

lemma keyword_query_nonempty: "keyword_query message = Some q \<Longrightarrow> strip q = q \<and> q \<noteq> []"
  by (auto simp: keyword_query_def Let_def KEYWORDS_def casefold_Nil split: option.splits if_splits)

text \<open>
  With the model off, a message with a keyword is answered by the first ten of the matches
  there are for what is left of it, numbered in the order of the walk, or by the note that there
  are none; nothing else of the state changes than that an identifier is used.
\<close>

theorem mvp_search_answers:
  assumes "ml_mode (mvp_llm_init env) = ''off''" and "keyword_query (mq_message req) = Some q"
    and "fs (str_or (mq_cwd req) here) = Some (root, es)"
  shows "\<exists>tr. mvp_chat post fs here env req w = (Inr (matches_answer (take 10 (all_matches (casefold q) root es)), tr), snd (uuid4 w))
    \<and> event_types tr = [''RequestReceived'', ''PlanCreated'', ''StepStarted'', ''StepFinished'', ''ResponseReady'']"
proof -
  let ?cwd = "str_or (mq_cwd req) here" and ?reg = "register_builtins fs []"
  obtain tr0 where t0: "mvp_trace_new w = (tr0, snd (uuid4 w))" and e0: "event_types tr0 = []"
    by (auto simp: mvp_trace_new_def event_types_def uuid4_def)
  let ?w1 = "snd (uuid4 w)" and ?ms = "search_read fs q ?cwd 10"
  let ?tr1 = "mvp_add_event ''RequestReceived'' [(''message'', JStr (mq_message req)), (''cwd'', JStr ?cwd)] ?w1 tr0"
  obtain s where s: "build_keyword_plan (mq_message req) ?cwd = [s]" and sk: "ms_skill s = ''filesystem.search_read''"
    and args: "ms_args s = [(''query'', JStr q), (''cwd'', JStr ?cwd), (''max_results'', JInt 10)]"
    using assms(2) by (simp add: build_keyword_plan_def)
  have p: "plan_with_fallback post (mvp_llm_init env) ?reg (mq_message req) ?cwd ?tr1 ?w1 = ([s], ?tr1, ?w1)"
    using assms(1) s by (simp add: plan_with_fallback_def)
  let ?tr3 = "mvp_add_event ''PlanCreated'' [(''steps'', JList (map mvp_dump_step [s]))] ?w1 ?tr1"
  obtain r tr4 where x: "mvp_run_step ?reg ?cwd s ?tr3 ?w1 = (r, tr4, ?w1)"
    and r: "mr_ok r" "mr_skill r \<noteq> ''web.search''" "mr_output r = Some [(''matches'', JList (map match_json ?ms))]"
    by (simp add: mvp_run_step_def builtin_registry mvp_get_def sk args filesystem_skill_def mvp_requires_approval_def
        mvp_skill_execute_def file_query_def str_field_def int_field_def jget_def Let_def)
  have q: "strip q = q" "q \<noteq> []" using keyword_query_nonempty [OF assms(2)] by simp_all
  then have "casefold q \<noteq> []" by (simp add: casefold_def)
  then have "?ms = take 10 (all_matches (casefold q) root es)"
    using search_read_take [of fs ?cwd root es q 10] assms(3) q by (simp add: strip_casefold)
  then show ?thesis
    using t0 p x format_matches [OF r, of "[]"] step_events [OF x] e0 r(1) by (simp add: mvp_chat_def mvp_handle_def)
qed

lemma demo_search:
  "ml_mode (mvp_llm_init (empty_world 0)) = ''off''"
  "keyword_query ''Please SEARCH Banana'' = Some ''Please  Banana''"
  "keyword_query ''find banana'' = Some ''banana''"
  "matches_answer (take 10 (all_matches (casefold ''banana'') ''r'' demo_tree))
     = ''Found matches:'' @ [CHR 0x0A] @ ''1. r/a.txt: Banana split'' @ [CHR 0x0A] @ ''2. r/sub/c.txt: ripe banana''"
  by code_simp+

theorem mvp_search_answers_witness:
  "\<exists>tr. mvp_chat (\<lambda>_ _ _ w. (Inl (RuntimeError ''unused''), w)) (\<lambda>_. Some (''r'', demo_tree)) ''r'' (empty_world 0)
       \<lparr>mq_message = ''find banana'', mq_cwd = None\<rparr> (empty_world 0)
     = (Inr (''Found matches:'' @ [CHR 0x0A] @ ''1. r/a.txt: Banana split'' @ [CHR 0x0A] @ ''2. r/sub/c.txt: ripe banana'', tr),
        snd (uuid4 (empty_world 0)))"
  using mvp_search_answers [of "empty_world 0" "\<lparr>mq_message = ''find banana'', mq_cwd = None\<rparr>" "''banana''"
      "\<lambda>_. Some (''r'', demo_tree)" "''r''" "''r''" demo_tree "\<lambda>_ _ _ w. (Inl (RuntimeError ''unused''), w)" "empty_world 0"]
  by (simp add: demo_search) blast

end
