(* ===== verification/RecordText.thy ===== *)
theory RecordText
  imports Memory Ledger JsonFields LogLines "HOL-Library.Monad_Syntax"
begin

section \<open>The text of the record files\<close>

text \<open>
  What the stores of facts, episodes and executions find and leave in their files: text, read
  line by line (\<open>for line in handle\<close>, \<open>strip\<close>, \<open>json.loads\<close>, \<open>model_validate\<close>) and written
  one JSON object per line. The records are the pydantic models with their time stamps as
  text. One contract, \<open>row_format\<close>, gives for every model that a written file reads back, that
  appending to a file of complete lines appends a row, and that a rewrite keeps what was read.
\<close>

subsection \<open>Lines\<close>

text \<open>A text file in universal newline mode: LF, CR and CR LF end a line; the last line may lack its end.\<close>

fun text_lines :: "string \<Rightarrow> string \<Rightarrow> string list" where
  "text_lines l [] = (if l = [] then [] else [l])"
| "text_lines l [c] = (if c = CHR 0x0A \<or> c = CHR 0x0D then [l] else [l @ [c]])"
| "text_lines l (c # d # cs) =
     (if c = CHR 0x0A then l # text_lines [] (d # cs)
      else if c = CHR 0x0D then l # (if d = CHR 0x0A then text_lines [] cs else text_lines [] (d # cs))
      else text_lines (l @ [c]) (d # cs))"

definition read_row :: "(json \<Rightarrow> 'r option) \<Rightarrow> string \<Rightarrow> 'r line" where
  "read_row model l =
     (let raw = strip l
      in if raw = [] then BlankLine
         else case loads raw of
                None \<Rightarrow> BadJson raw
              | Some j \<Rightarrow> (case model j of None \<Rightarrow> BadRecord j | Some r \<Rightarrow> Row r))"

definition read_rows :: "(json \<Rightarrow> 'r option) \<Rightarrow> string \<Rightarrow> 'r line list" where
  "read_rows model t = map (read_row model) (text_lines [] t)"

definition row_text :: "string \<Rightarrow> string \<Rightarrow> ('r \<Rightarrow> json dict) \<Rightarrow> 'r \<Rightarrow> string" where
  "row_text is ks dump r = dumps_with is ks (JDict (dump r)) @ [CHR 0x0A]"

definition rows_text :: "string \<Rightarrow> string \<Rightarrow> ('r \<Rightarrow> json dict) \<Rightarrow> 'r list \<Rightarrow> string" where
  "rows_text is ks dump rs = concat (map (row_text is ks dump) rs)"

text \<open>Every line of the file has its end.\<close>

definition complete_lines :: "string \<Rightarrow> bool" where
  "complete_lines t \<longleftrightarrow> t = [] \<or> last t = CHR 0x0A"

lemma text_lines_plain:
  "list_all line_char l \<Longrightarrow> text_lines p (l @ CHR 0x0A # t) = (p @ l) # text_lines [] t"
proof (induction l arbitrary: p)
  case Nil
  then show ?case by (cases t) simp_all
next
  case (Cons c l)
  then have "c \<noteq> CHR 0x0A" "c \<noteq> CHR 0x0D" by (auto simp: line_char_def)
  with Cons show ?case by (cases "l @ CHR 0x0A # t") auto
qed

lemma text_lines_append:
  "last t = CHR 0x0A \<Longrightarrow> t \<noteq> [] \<Longrightarrow> text_lines p (t @ u) = text_lines p t @ text_lines [] u"
proof (induction p t rule: text_lines.induct)
  case (2 l c)
  then show ?case by (cases u) simp_all
next
  case (3 l c d cs)
  then show ?case by (cases cs) auto
qed simp

lemma complete_append:
  "complete_lines t \<Longrightarrow> text_lines [] (t @ u) = text_lines [] t @ text_lines [] u"
  using text_lines_append [of t "[]" u] by (cases "t = []") (auto simp: complete_lines_def)

lemma read_rows_append: "complete_lines t \<Longrightarrow> read_rows model (t @ u) = read_rows model t @ read_rows model u"
  by (simp add: read_rows_def complete_append)

lemma complete_row [simp]: "complete_lines (t @ row_text is ks dump r)"
  by (simp add: complete_lines_def row_text_def)

lemma complete_rows [simp]: "complete_lines (rows_text is ks dump rs)"
proof (induction rs rule: rev_induct)
  case (snoc r rs)
  then show ?case using complete_row [of "rows_text is ks dump rs"] by (simp add: rows_text_def)
qed (simp add: rows_text_def complete_lines_def)

lemma strip_braces: "strip (CHR ''{'' # s @ ''}'') = CHR ''{'' # s @ ''}''"
  by (simp add: strip_def lstrip_def rstrip_def is_space_def)

lemma read_row_loaded: "Row r \<in> set (read_rows model t) \<Longrightarrow> \<exists>j. wf_json j \<and> model j = Some r"
  by (auto simp: read_rows_def read_row_def Let_def dest!: loads_wf split: if_splits option.splits)

lemma set_load_rows: "r \<in> set (load_rows ls) \<longleftrightarrow> Row r \<in> set ls"
proof (induction ls)
  case (Cons x ls)
  then show ?case by (cases x) (auto simp: load_rows_def)
qed (simp add: load_rows_def)

subsection \<open>The contract of a row format\<close>

locale row_format =
  fixes model :: "json \<Rightarrow> 'r option"
    and dump :: "'r \<Rightarrow> json dict"
    and valid :: "'r \<Rightarrow> bool"
    and isep :: string
    and ksep :: string
  assumes style: "style_ok isep ksep" "list_all line_char isep" "list_all line_char ksep"
    and dump_wf: "valid r \<Longrightarrow> wf_json (JDict (dump r))"
    and model_dump: "valid r \<Longrightarrow> model (JDict (dump r)) = Some r"
    and model_valid: "wf_json j \<Longrightarrow> model j = Some r \<Longrightarrow> valid r"
begin

lemma read_written_row: "valid r \<Longrightarrow> read_row model (dumps_with isep ksep (JDict (dump r))) = Row r"
  using loads_dumps_with [OF style(1) dump_wf] model_dump
    strip_braces [of "dumps_items isep ksep (dump r)"]
  by (simp add: read_row_def)

lemma read_written:
  assumes "list_all valid rs"
  shows "read_rows model (rows_text isep ksep dump rs) = write_rows rs"
  using assms
proof (induction rs)
  case (Cons r rs)
  have "list_all line_char (dumps_with isep ksep (JDict (dump r)))" using dumps_line(1) style(2,3) by blast
  then show ?case using Cons read_written_row [of r]
    by (simp add: read_rows_def rows_text_def row_text_def write_rows_def text_lines_plain [where p = "[]"] del: dumps_with.simps)
qed (simp add: read_rows_def rows_text_def write_rows_def)

lemma append_row:
  assumes "complete_lines t" and "valid r"
  shows "read_rows model (t @ row_text isep ksep dump r) = read_rows model t @ [Row r]"
  using read_written [of "[r]"] assms by (simp add: read_rows_append rows_text_def write_rows_def)

lemma loaded_valid: "list_all valid (load_rows (read_rows model t))"
proof -
  have "valid r" if "r \<in> set (load_rows (read_rows model t))" for r
  proof -
    from that have "Row r \<in> set (read_rows model t)" by (simp add: set_load_rows)
    from read_row_loaded [OF this] obtain j where "wf_json j" "model j = Some r" by (elim exE conjE)
    then show ?thesis by (rule model_valid)
  qed
  then show ?thesis by (simp add: list_all_iff)
qed

text \<open>A rewrite keeps the records and drops the rest.\<close>

lemma rewrite_loaded:
  "read_rows model (rows_text isep ksep dump (load_rows (read_rows model t))) = write_rows (load_rows (read_rows model t))"
  by (rule read_written [OF loaded_valid])

end

subsection \<open>Facts\<close>

record fact_row =
  fx_id :: string
  fx_key :: string
  fx_value :: string
  fx_scope :: string
  fx_tags :: "string list"
  fx_created :: string
  fx_updated :: string

definition fact_dump :: "fact_row \<Rightarrow> json dict" where
  "fact_dump f =
     [(''id'', JStr (fx_id f)), (''key'', JStr (fx_key f)), (''value'', JStr (fx_value f)),
      (''scope'', JStr (fx_scope f)), (''tags'', JList (map JStr (fx_tags f))),
      (''created_at_iso'', JStr (fx_created f)), (''updated_at_iso'', JStr (fx_updated f))]"

text \<open>\<open>model_validate\<close>: required fields have no default; a value that is no object is rejected.\<close>

fun fact_model :: "json \<Rightarrow> fact_row option" where
  "fact_model (JDict d) =
     do { i \<leftarrow> str_field ''id'' None d; k \<leftarrow> str_field ''key'' None d; v \<leftarrow> str_field ''value'' None d;
          s \<leftarrow> str_field ''scope'' (Some ''global'') d; ts \<leftarrow> strs_field ''tags'' (Some []) d;
          c \<leftarrow> str_field ''created_at_iso'' None d; u \<leftarrow> str_field ''updated_at_iso'' None d;
          Some \<lparr>fx_id = i, fx_key = k, fx_value = v, fx_scope = s, fx_tags = ts, fx_created = c, fx_updated = u\<rparr> }"
| "fact_model _ = None"

lemma json_strs_map [simp]: "json_strs (map JStr xs) = Some xs"
  by (induction xs) simp_all

lemma wf_list_strs [simp]: "wf_list (map JStr xs)"
  by (induction xs) simp_all

interpretation fact_file: row_format fact_model fact_dump "\<lambda>_. True" "'', ''" "'': ''"
  by unfold_locales (simp_all add: style_dumps line_char_def fact_dump_def str_field_def strs_field_def)

subsection \<open>Episodes\<close>

record episode_row =
  ex_id :: string
  ex_kind :: string
  ex_summary :: string
  ex_ts :: string
  ex_meta :: "json dict"

definition episode_dump :: "episode_row \<Rightarrow> json dict" where
  "episode_dump e =
     [(''id'', JStr (ex_id e)), (''kind'', JStr (ex_kind e)), (''summary'', JStr (ex_summary e)),
      (''ts_iso'', JStr (ex_ts e)), (''meta'', JDict (ex_meta e))]"

fun episode_model :: "json \<Rightarrow> episode_row option" where
  "episode_model (JDict d) =
     do { i \<leftarrow> str_field ''id'' None d; k \<leftarrow> str_field ''kind'' None d; s \<leftarrow> str_field ''summary'' None d;
          t \<leftarrow> str_field ''ts_iso'' None d; m \<leftarrow> sub_field ''meta'' (Some []) Some d;
          Some \<lparr>ex_id = i, ex_kind = k, ex_summary = s, ex_ts = t, ex_meta = m\<rparr> }"
| "episode_model _ = None"

lemma sub_field_wf: "sub_field k (Some []) Some d = Some m \<Longrightarrow> wf_json (JDict d) \<Longrightarrow> wf_json (JDict m)"
  by (auto simp: sub_field_def split: option.splits json.splits dest: wf_items_lookup)

interpretation episode_file: row_format episode_model episode_dump "\<lambda>e. wf_json (JDict (ex_meta e))" "'', ''" "'': ''"
proof unfold_locales
  show "wf_json (JDict (ex_meta r))" if "wf_json j" "episode_model j = Some r" for j r
    using that by (cases j) (auto simp: Option.bind_eq_Some_conv simp del: wf_json.simps dest: sub_field_wf)
qed (simp_all add: style_dumps line_char_def episode_dump_def str_field_def sub_field_def)

subsection \<open>Executions\<close>

record ledger_row =
  lx_key :: string
  lx_kind :: ledger_kind
  lx_status :: ledger_status
  lx_ts :: string
  lx_corr :: "string option"
  lx_meta :: "json dict"

definition ledger_dump :: "ledger_row \<Rightarrow> json dict" where
  "ledger_dump r =
     [(''key'', JStr (lx_key r)), (''kind'', JStr (kind_str (lx_kind r))), (''status'', JStr (status_str (lx_status r))),
      (''ts_iso'', JStr (lx_ts r)), (''correlation_id'', (case lx_corr r of None \<Rightarrow> JNull | Some c \<Rightarrow> JStr c)),
      (''meta'', JDict (lx_meta r))]"

text \<open>A \<open>Literal\<close> field takes one of its texts.\<close>

definition literal :: "('a \<Rightarrow> string) \<Rightarrow> 'a list \<Rightarrow> string \<Rightarrow> 'a option" where
  "literal show xs s = find (\<lambda>x. show x = s) xs"

fun ledger_model :: "json \<Rightarrow> ledger_row option" where
  "ledger_model (JDict d) =
     do { k \<leftarrow> str_field ''key'' None d;
          ks \<leftarrow> str_field ''kind'' None d; kind \<leftarrow> literal kind_str [ApprovalExec, JobRun, RuleAction] ks;
          ss \<leftarrow> str_field ''status'' None d; status \<leftarrow> literal status_str [Started, Succeeded, Skipped, Failed] ss;
          t \<leftarrow> str_field ''ts_iso'' None d; c \<leftarrow> opt_field ''correlation_id'' d; m \<leftarrow> sub_field ''meta'' (Some []) Some d;
          Some \<lparr>lx_key = k, lx_kind = kind, lx_status = status, lx_ts = t, lx_corr = c, lx_meta = m\<rparr> }"
| "ledger_model _ = None"

lemma literal_kind [simp]: "literal kind_str [ApprovalExec, JobRun, RuleAction] (kind_str k) = Some k"
  by (cases k) (simp_all add: literal_def)

lemma literal_status [simp]: "literal status_str [Started, Succeeded, Skipped, Failed] (status_str s) = Some s"
  by (cases s) (simp_all add: literal_def)

interpretation ledger_file: row_format ledger_model ledger_dump "\<lambda>r. wf_json (JDict (lx_meta r))" "'',''" "'':''"
proof unfold_locales
  show "wf_json (JDict (lx_meta r))" if "wf_json j" "ledger_model j = Some r" for j r
    using that by (cases j) (auto simp: Option.bind_eq_Some_conv simp del: wf_json.simps dest: sub_field_wf)
qed (simp_all add: style_dumps line_char_def ledger_dump_def str_field_def opt_field_def sub_field_def split: option.split)

end
