(* ===== verification/FileStores.thy ===== *)
theory FileStores
  imports RecordText
begin

section \<open>The stores on the text of their files\<close>

text \<open>
  \<open>SemanticMemoryStore\<close>, \<open>EpisodicMemoryStore\<close> and \<open>ExecutionLedger\<close> down to the text of
  \<open>semantic.jsonl\<close>, \<open>episodic.jsonl\<close> and \<open>executions.jsonl\<close>: an upsert reads, changes and
  rewrites the file, an append adds one line at its end. The main fact is that they are the
  operations of \<open>Memory\<close> and \<open>Ledger\<close> on rows, for every reading \<open>rd\<close> of time stamps that
  reads those the program writes, as long as the appended files have complete lines; the last
  part shows what happens when a crash tore a line.
\<close>

subsection \<open>The state directory\<close>

record state_text =
  fl_semantic :: string
  fl_episodic :: string
  fl_executions :: string
  fl_uuids :: "nat \<Rightarrow> string"
  fl_uuid :: nat

definition load_facts :: "string \<Rightarrow> fact_row list" where
  "load_facts t = load_rows (read_rows fact_model t)"

definition write_facts :: "fact_row list \<Rightarrow> string" where
  "write_facts fs = rows_text '', '' '': '' fact_dump fs"

definition read_all_records :: "string \<Rightarrow> ledger_row list" where
  "read_all_records t = load_rows (read_rows ledger_model t)"

subsection \<open>Operations\<close>

definition text_upsert ::
  "string \<Rightarrow> string \<Rightarrow> string \<Rightarrow> string list \<Rightarrow> string \<Rightarrow> state_text \<Rightarrow> fact_row \<times> state_text" where
  "text_upsert key val scope tags now s =
     (let facts = load_facts (fl_semantic s); same = (\<lambda>f. (fx_scope f, fx_key f) = (scope, key))
      in case find same facts of
           Some f0 \<Rightarrow>
             (let updated = f0\<lparr>fx_value := val, fx_tags := tags, fx_updated := now\<rparr>
              in (updated, s\<lparr>fl_semantic := write_facts (upsert_first same updated facts)\<rparr>))
         | None \<Rightarrow>
             (let new_fact = \<lparr>fx_id = fl_uuids s (fl_uuid s), fx_key = key, fx_value = val, fx_scope = scope,
                              fx_tags = tags, fx_created = now, fx_updated = now\<rparr>
              in (new_fact, s\<lparr>fl_uuid := Suc (fl_uuid s), fl_semantic := write_facts (facts @ [new_fact])\<rparr>)))"

definition text_append :: "string \<Rightarrow> string \<Rightarrow> json dict \<Rightarrow> string \<Rightarrow> state_text \<Rightarrow> episode_row \<times> state_text" where
  "text_append kind summary meta now s =
     (let e = \<lparr>ex_id = fl_uuids s (fl_uuid s), ex_kind = kind, ex_summary = summary, ex_ts = now, ex_meta = meta\<rparr>
      in (e, s\<lparr>fl_uuid := Suc (fl_uuid s),
               fl_episodic := fl_episodic s @ row_text '', '' '': '' episode_dump e\<rparr>))"

definition text_trim :: "int \<Rightarrow> string \<Rightarrow> string" where
  "text_trim mx t =
     (if mx \<le> 0 then t
      else let records = read_all_records t
           in if int (length records) \<le> mx then t else rows_text '','' '':'' ledger_dump (last_n mx records))"

definition text_record :: "int \<Rightarrow> ledger_row \<Rightarrow> state_text \<Rightarrow> state_text" where
  "text_record mx r s = s\<lparr>fl_executions := text_trim mx (fl_executions s @ row_text '','' '':'' ledger_dump r)\<rparr>"

definition text_latest :: "string \<Rightarrow> string \<Rightarrow> ledger_row option" where
  "text_latest t = fold (\<lambda>r m. m(lx_key r \<mapsto> r)) (read_all_records t) Map.empty"

definition text_try_start ::
  "int \<Rightarrow> string \<Rightarrow> ledger_kind \<Rightarrow> string option \<Rightarrow> json dict \<Rightarrow> string \<Rightarrow> state_text \<Rightarrow> bool \<times> state_text" where
  "text_try_start mx k kind corr meta now s =
     (let start = (True, text_record mx \<lparr>lx_key = k, lx_kind = kind, lx_status = Started, lx_ts = now,
                                         lx_corr = corr, lx_meta = meta\<rparr> s)
      in case text_latest (fl_executions s) k of
           None \<Rightarrow> start
         | Some r \<Rightarrow> (if lx_status r \<in> {Succeeded, Started} then (False, s) else start))"

definition text_mark :: "int \<Rightarrow> string \<Rightarrow> ledger_status \<Rightarrow> json dict \<Rightarrow> string \<Rightarrow> state_text \<Rightarrow> state_text" where
  "text_mark mx k status meta_update now s =
     (let latest = text_latest (fl_executions s) k
      in text_record mx
           \<lparr>lx_key = k,
            lx_kind = (case latest of None \<Rightarrow> JobRun | Some r \<Rightarrow> lx_kind r),
            lx_status = status, lx_ts = now,
            lx_corr = (case latest of None \<Rightarrow> None | Some r \<Rightarrow> lx_corr r),
            lx_meta = dict_update (case latest of None \<Rightarrow> [] | Some r \<Rightarrow> lx_meta r) meta_update\<rparr> s)"

subsection \<open>Runs of calls\<close>

datatype file_call =
    Remember string string string "string list"
  | LogEpisode string string "json dict"
  | TryStart string ledger_kind "string option" "json dict"
  | Mark string ledger_status "json dict"

datatype ('f, 'e) file_answer = Fact 'f | Logged 'e | Granted bool | Marked

fun text_call :: "int \<Rightarrow> file_call \<Rightarrow> string \<Rightarrow> state_text \<Rightarrow> (fact_row, episode_row) file_answer \<times> state_text" where
  "text_call mx (Remember key val scope tags) now s = map_prod Fact id (text_upsert key val scope tags now s)"
| "text_call mx (LogEpisode kind summary meta) now s = map_prod Logged id (text_append kind summary meta now s)"
| "text_call mx (TryStart k kind corr meta) now s = map_prod Granted id (text_try_start mx k kind corr meta now s)"
| "text_call mx (Mark k status meta) now s = (Marked, text_mark mx k status meta now s)"

fun row_call :: "int \<Rightarrow> file_call \<Rightarrow> world \<Rightarrow> (semantic_fact, episode) file_answer \<times> world" where
  "row_call mx (Remember key val scope tags) w = map_prod Fact id (semantic_upsert key val scope tags w)"
| "row_call mx (LogEpisode kind summary meta) w = map_prod Logged id (episodic_append kind summary meta w)"
| "row_call mx (TryStart k kind corr meta) w = map_prod Granted id (try_start mx k kind corr meta w)"
| "row_call mx (Mark k status meta) w = (Marked, mark mx k status meta w)"

text \<open>Calls at given instants.\<close>

fun text_run :: "int \<Rightarrow> (int \<times> file_call) list \<Rightarrow> state_text \<Rightarrow> (fact_row, episode_row) file_answer list \<times> state_text" where
  "text_run mx [] s = ([], s)"
| "text_run mx ((t, c) # cs) s =
     (let (a, s1) = text_call mx c (iso_text t) s; (answers, s2) = text_run mx cs s1 in (a # answers, s2))"

fun row_run :: "int \<Rightarrow> (int \<times> file_call) list \<Rightarrow> world \<Rightarrow> (semantic_fact, episode) file_answer list \<times> world" where
  "row_run mx [] w = ([], w)"
| "row_run mx ((t, c) # cs) w =
     (let (a, w1) = row_call mx c (w\<lparr>w_now := t\<rparr>); (answers, w2) = row_run mx cs w1 in (a # answers, w2))"

subsection \<open>What the text shows\<close>

definition fact_of :: "(string \<Rightarrow> iso) \<Rightarrow> fact_row \<Rightarrow> semantic_fact" where
  "fact_of rd f = \<lparr>sf_id = fx_id f, sf_key = fx_key f, sf_value = fx_value f, sf_scope = fx_scope f,
     sf_tags = fx_tags f, sf_created = rd (fx_created f), sf_updated = rd (fx_updated f)\<rparr>"

definition episode_of :: "(string \<Rightarrow> iso) \<Rightarrow> episode_row \<Rightarrow> episode" where
  "episode_of rd e = \<lparr>ep_id = ex_id e, ep_kind = ex_kind e, ep_summary = ex_summary e, ep_ts = rd (ex_ts e), ep_meta = ex_meta e\<rparr>"

definition record_of :: "(string \<Rightarrow> iso) \<Rightarrow> ledger_row \<Rightarrow> ledger_record" where
  "record_of rd r = \<lparr>lr_key = lx_key r, lr_kind = lx_kind r, lr_status = lx_status r, lr_ts = rd (lx_ts r),
     lr_corr = lx_corr r, lr_meta = lx_meta r\<rparr>"

text \<open>The rows of the world are what its files say, and the appended files have complete lines.\<close>

definition shows_rows :: "(string \<Rightarrow> iso) \<Rightarrow> state_text \<Rightarrow> world \<Rightarrow> bool" where
  "shows_rows rd s w \<longleftrightarrow>
     w_semantic w = map (map_line (fact_of rd)) (read_rows fact_model (fl_semantic s)) \<and>
     w_episodic w = map (map_line (episode_of rd)) (read_rows episode_model (fl_episodic s)) \<and>
     w_ledger w = map (map_line (record_of rd)) (read_rows ledger_model (fl_executions s)) \<and>
     complete_lines (fl_episodic s) \<and> complete_lines (fl_executions s) \<and>
     w_uuids w = fl_uuids s \<and> w_uuid w = fl_uuid s"

text \<open>Metadata are dictionaries: no key occurs twice.\<close>

fun call_ok :: "file_call \<Rightarrow> bool" where
  "call_ok (Remember _ _ _ _) = True"
| "call_ok (LogEpisode _ _ meta) = wf_json (JDict meta)"
| "call_ok (TryStart _ _ _ meta) = wf_json (JDict meta)"
| "call_ok (Mark _ _ meta) = wf_json (JDict meta)"

subsection \<open>Simulation\<close>

lemma load_rows_map [simp]: "load_rows (map (map_line f) ls) = map f (load_rows ls)"
proof (induction ls)
  case (Cons x ls)
  then show ?case by (cases x) (simp_all add: load_rows_def)
qed simp

lemma write_rows_map: "map (map_line f) (write_rows rs) = write_rows (map f rs)"
  by (simp add: write_rows_def)

lemma find_map_by: "(\<And>x. p (f x) \<longleftrightarrow> q x) \<Longrightarrow> find p (map f xs) = map_option f (find q xs)"
  by (induction xs) simp_all

lemma upsert_first_map:
  "(\<And>x. p (f x) \<longleftrightarrow> q x) \<Longrightarrow> upsert_first p (f r) (map f xs) = map f (upsert_first q r xs)"
  by (induction xs) simp_all

lemma fact_of_ident: "sf_ident (fact_of rd f) = (fx_scope f, fx_key f)"
  by (simp add: fact_of_def sf_ident_def)

lemma read_write_facts: "read_rows fact_model (write_facts fs) = write_rows fs"
  unfolding write_facts_def by (rule fact_file.read_written) (simp add: list_all_iff)

lemma upsert_simulated:
  assumes "shows_rows rd s w" and "rd now = now_iso w"
  shows "fst (semantic_upsert key val scope tags w) = fact_of rd (fst (text_upsert key val scope tags now s))"
    and "shows_rows rd (snd (text_upsert key val scope tags now s)) (snd (semantic_upsert key val scope tags w))"
proof -
  let ?same = "\<lambda>f. (fx_scope f, fx_key f) = (scope, key)"
  have facts: "load_rows (w_semantic w) = map (fact_of rd) (load_facts (fl_semantic s))"
    using assms(1) by (simp add: shows_rows_def load_facts_def)
  have found: "rows_find sf_ident (w_semantic w) (scope, key) = map_option (fact_of rd) (find ?same (load_facts (fl_semantic s)))"
    unfolding rows_find_def facts by (rule find_map_by) (simp add: fact_of_ident)
  have "fst (semantic_upsert key val scope tags w) = fact_of rd (fst (text_upsert key val scope tags now s))
        \<and> shows_rows rd (snd (text_upsert key val scope tags now s)) (snd (semantic_upsert key val scope tags w))"
  proof (cases "find ?same (load_facts (fl_semantic s))")
    case None
    with assms found facts show ?thesis
      by (simp add: semantic_upsert_def text_upsert_def Let_def uuid4_def shows_rows_def read_write_facts write_rows_map)
        (simp add: fact_of_def)
  next
    case (Some f0)
    define u where "u = f0\<lparr>fx_value := val, fx_tags := tags, fx_updated := now\<rparr>"
    have same: "?same f0" using find_SomeD [OF Some] by simp
    have fu: "(fact_of rd f0)\<lparr>sf_value := val, sf_tags := tags, sf_updated := now_iso w\<rparr> = fact_of rd u"
      using assms(2) by (simp add: fact_of_def u_def)
    have iu: "sf_ident (fact_of rd u) = (scope, key)" using same by (simp add: fact_of_ident u_def)
    have rows: "rows_upsert sf_ident (fact_of rd u) (w_semantic w)
        = write_rows (map (fact_of rd) (upsert_first ?same u (load_facts (fl_semantic s))))"
      unfolding rows_upsert_def facts iu
      by (rule arg_cong [where f = write_rows], rule upsert_first_map) (simp add: fact_of_ident)
    show ?thesis using Some found fu rows assms
      by (simp add: semantic_upsert_def text_upsert_def Let_def u_def [symmetric] shows_rows_def read_write_facts write_rows_map)
  qed
  then show "fst (semantic_upsert key val scope tags w) = fact_of rd (fst (text_upsert key val scope tags now s))"
    and "shows_rows rd (snd (text_upsert key val scope tags now s)) (snd (semantic_upsert key val scope tags w))"
    by simp_all
qed

lemma append_simulated:
  assumes "shows_rows rd s w" and "rd now = now_iso w" and "wf_json (JDict meta)"
  shows "fst (episodic_append kind summary meta w) = episode_of rd (fst (text_append kind summary meta now s))"
    and "shows_rows rd (snd (text_append kind summary meta now s)) (snd (episodic_append kind summary meta w))"
  using assms
  by (simp_all add: episodic_append_def text_append_def uuid4_def Let_def shows_rows_def episode_file.append_row
      episode_of_def del: wf_json.simps)

text \<open>The ledger keeps metadata well formed: what is read is, and updates keep it.\<close>

lemma read_all_valid: "r \<in> set (read_all_records t) \<Longrightarrow> wf_json (JDict (lx_meta r))"
  using ledger_file.loaded_valid [of t] by (simp add: read_all_records_def list_all_iff del: wf_json.simps)

lemma latest_in: "fold (\<lambda>r m. m(key r \<mapsto> r)) rs m k = Some r \<Longrightarrow> r \<in> set rs \<or> m k = Some r"
  by (induction rs arbitrary: m) (fastforce split: if_splits)+

lemma text_latest_valid: "text_latest t k = Some r \<Longrightarrow> wf_json (JDict (lx_meta r))"
  unfolding text_latest_def using latest_in [of lx_key "read_all_records t" Map.empty k r] read_all_valid by auto

lemma dict_update_wf: "wf_json (JDict d) \<Longrightarrow> wf_json (JDict u) \<Longrightarrow> wf_json (JDict (dict_update d u))"
  unfolding dict_update_def by (rule wf_dict_fold) simp_all

lemma latest_map:
  "(\<And>r. key (f r) = key' r) \<Longrightarrow>
   fold (\<lambda>r m. m(key r \<mapsto> r)) (map f rs) (\<lambda>k. map_option f (m k)) = (\<lambda>k. map_option f (fold (\<lambda>r m. m(key' r \<mapsto> r)) rs m k))"
proof (induction rs arbitrary: m)
  case (Cons r rs)
  have "(\<lambda>k. map_option f (m k))(key' r \<mapsto> f r) = (\<lambda>k. map_option f ((m(key' r \<mapsto> r)) k))" by auto
  then show ?case using Cons.IH [OF Cons.prems, of "m(key' r \<mapsto> r)"] Cons.prems by (simp del: fun_upd_apply)
qed simp

lemma latest_shown: "shows_rows rd s w \<Longrightarrow> latest_record_by_key (w_ledger w) k = map_option (record_of rd) (text_latest (fl_executions s) k)"
  using latest_map [of lr_key "record_of rd" lx_key "read_all_records (fl_executions s)" Map.empty]
  by (simp add: latest_record_by_key_def text_latest_def shows_rows_def read_all_records_def record_of_def fun_eq_iff)

lemma record_simulated:
  assumes "shows_rows rd s w" and "wf_json (JDict (lx_meta r))"
  shows "shows_rows rd (text_record mx r s) (ledger_append mx (record_of rd r) w)"
proof -
  define t where "t = fl_executions s @ row_text '','' '':'' ledger_dump r"
  have t: "map (map_line (record_of rd)) (read_rows ledger_model t) = w_ledger w @ [Row (record_of rd r)]"
    using assms by (simp add: t_def shows_rows_def ledger_file.append_row del: wf_json.simps)
  have valid: "list_all (\<lambda>r. wf_json (JDict (lx_meta r))) (last_n mx (read_all_records t))"
    using read_all_valid set_drop_subset by (fastforce simp: list_all_iff last_n_def simp del: wf_json.simps)
  have "map (map_line (record_of rd)) (read_rows ledger_model (text_trim mx t)) = ledger_trim mx (w_ledger w @ [Row (record_of rd r)])"
    using ledger_file.read_written [OF valid]
    by (simp add: text_trim_def ledger_trim_def Let_def t [symmetric] write_rows_map read_all_records_def last_n_def drop_map)
  moreover have "complete_lines (text_trim mx t)" by (simp add: text_trim_def Let_def t_def)
  ultimately show ?thesis using assms(1) by (simp add: shows_rows_def text_record_def ledger_append_def t_def)
qed

lemma try_start_simulated:
  assumes "shows_rows rd s w" and "rd now = now_iso w" and "wf_json (JDict meta)"
  shows "fst (try_start mx k kind corr meta w) = fst (text_try_start mx k kind corr meta now s)"
    and "shows_rows rd (snd (text_try_start mx k kind corr meta now s)) (snd (try_start mx k kind corr meta w))"
  using latest_shown [OF assms(1), of k] record_simulated [OF assms(1), of "\<lparr>lx_key = k, lx_kind = kind, lx_status = Started,
      lx_ts = now, lx_corr = corr, lx_meta = meta\<rparr>" mx] assms
  by (auto simp: try_start_def text_try_start_def Let_def record_of_def simp del: wf_json.simps split: option.splits)

lemma mark_simulated:
  assumes "shows_rows rd s w" and "rd now = now_iso w" and "wf_json (JDict meta)"
  shows "shows_rows rd (text_mark mx k status meta now s) (mark mx k status meta w)"
proof -
  define r where "r = \<lparr>lx_key = k, lx_kind = (case text_latest (fl_executions s) k of None \<Rightarrow> JobRun | Some r \<Rightarrow> lx_kind r),
    lx_status = status, lx_ts = now, lx_corr = (case text_latest (fl_executions s) k of None \<Rightarrow> None | Some r \<Rightarrow> lx_corr r),
    lx_meta = dict_update (case text_latest (fl_executions s) k of None \<Rightarrow> [] | Some r \<Rightarrow> lx_meta r) meta\<rparr>"
  have "wf_json (JDict (case text_latest (fl_executions s) k of None \<Rightarrow> [] | Some r \<Rightarrow> lx_meta r))"
    using text_latest_valid by (cases "text_latest (fl_executions s) k") auto
  then have "wf_json (JDict (lx_meta r))" unfolding r_def by (simp add: dict_update_wf assms(3) del: wf_json.simps)
  from record_simulated [OF assms(1) this, of mx] show ?thesis
    using latest_shown [OF assms(1), of k] assms(2)
    by (cases "text_latest (fl_executions s) k") (simp_all add: mark_def text_mark_def Let_def record_of_def r_def)
qed

lemma call_simulated:
  assumes "shows_rows rd s w" and "rd now = now_iso w" and "call_ok c"
    and "text_call mx c now s = (a, s')" and "row_call mx c w = (b, w')"
  shows "b = map_file_answer (fact_of rd) (episode_of rd) a \<and> shows_rows rd s' w'"
proof (cases c)
  case (Remember key val scope tags)
  with assms(4,5) upsert_simulated [OF assms(1,2), of key val scope tags] show ?thesis
    by (auto simp: map_prod_def split: prod.splits)
next
  case (LogEpisode kind summary meta)
  with assms(3-5) append_simulated [OF assms(1,2), of meta kind summary] show ?thesis
    by (auto simp: map_prod_def simp del: wf_json.simps split: prod.splits)
next
  case (TryStart k kind corr meta)
  with assms(3-5) try_start_simulated [OF assms(1,2), of meta mx k kind corr] show ?thesis
    by (auto simp: map_prod_def simp del: wf_json.simps split: prod.splits)
next
  case (Mark k status meta)
  with assms(3-5) mark_simulated [OF assms(1,2), of meta mx k status] show ?thesis by auto
qed

lemma shows_rows_now [simp]: "shows_rows rd s (w\<lparr>w_now := t\<rparr>) = shows_rows rd s w"
  by (simp add: shows_rows_def)

text \<open>
  C15. Any sequence of upserts, appends and ledger calls on the text of the files answers, and
  leaves text that shows, what the same calls on rows do, for every reading of time stamps that
  reads the ones written.
\<close>

theorem files_refine_rows:
  assumes "shows_rows rd s w"
    and "list_all (\<lambda>(t, c). rd (iso_text t) = isoformat (Aware t) \<and> call_ok c) cs"
    and "text_run mx cs s = (xs, s')" and "row_run mx cs w = (ys, w')"
  shows "ys = map (map_file_answer (fact_of rd) (episode_of rd)) xs \<and> shows_rows rd s' w'"
  using assms
proof (induction cs arbitrary: s w xs ys)
  case (Cons tc cs)
  obtain t c where tc: "tc = (t, c)" by (cases tc)
  obtain a s1 xs1 where tx: "text_call mx c (iso_text t) s = (a, s1)" "text_run mx cs s1 = (xs1, s')" "xs = a # xs1"
    using Cons.prems(3) by (auto simp: tc split: prod.splits)
  obtain b w1 ys1 where row: "row_call mx c (w\<lparr>w_now := t\<rparr>) = (b, w1)" "row_run mx cs w1 = (ys1, w')" "ys = b # ys1"
    using Cons.prems(4) by (auto simp: tc split: prod.splits)
  have "b = map_file_answer (fact_of rd) (episode_of rd) a \<and> shows_rows rd s1 w1"
    using Cons.prems(1,2) by (intro call_simulated [OF _ _ _ tx(1) row(1)]) (simp_all add: tc now_iso_def)
  with Cons.IH [OF _ _ tx(2) row(2)] Cons.prems(2) tx(3) row(3) show ?case by simp
qed simp

definition demo_text :: state_text where
  "demo_text = \<lparr>fl_semantic = ''garbage'', fl_episodic = [], fl_executions = [], fl_uuids = (\<lambda>n. ''id-'' @ show_nat n), fl_uuid = 0\<rparr>"

definition demo_rd :: "string \<Rightarrow> iso" where
  "demo_rd s = (if s = iso_text 0 then Iso (Aware 0) else NotIso s)"

definition demo_calls :: "(int \<times> file_call) list" where
  "demo_calls = [(0, Remember ''k'' ''v'' ''global'' []), (0, LogEpisode ''task'' [CHR 0x0A] [(''a'', JNull)]),
     (0, TryStart ''x'' JobRun None []), (0, TryStart ''x'' JobRun None [])]"

theorem files_refine_rows_witness:
  "shows_rows demo_rd (snd (text_run 5 demo_calls demo_text))
     (snd (row_run 5 demo_calls ((empty_world 0)\<lparr>w_semantic := [BadJson ''garbage'']\<rparr>)))"
proof (rule files_refine_rows [THEN conjunct2, OF _ _ prod.collapse [symmetric] prod.collapse [symmetric]])
  have "read_rows fact_model ''garbage'' = [BadJson ''garbage'']" by code_simp
  then show "shows_rows demo_rd demo_text ((empty_world 0)\<lparr>w_semantic := [BadJson ''garbage'']\<rparr>)"
    by (simp add: shows_rows_def demo_text_def empty_world_def read_rows_def complete_lines_def)
  show "list_all (\<lambda>(t, c). demo_rd (iso_text t) = isoformat (Aware t) \<and> call_ok c) demo_calls"
    by (simp add: demo_calls_def demo_rd_def isoformat_def)
qed

subsection \<open>A torn line\<close>

text \<open>
  A process that dies while it writes can leave the last line of an appended file without its
  end. The next record is then appended to the torn line, which no longer is JSON: the record
  is lost to every reader, and for the ledger that means that a key is granted twice.
\<close>

definition torn_ledger :: state_text where
  "torn_ledger = demo_text\<lparr>fl_executions := take 20 (row_text '','' '':'' ledger_dump
     \<lparr>lx_key = ''old'', lx_kind = JobRun, lx_status = Started, lx_ts = iso_text 0, lx_corr = None, lx_meta = []\<rparr>)\<rparr>"

theorem torn_line_grants_twice:
  "fst (text_run 5 [(0, TryStart ''x'' ApprovalExec None []), (0, TryStart ''x'' ApprovalExec None [])] torn_ledger)
   = [Granted True, Granted True]"
  by code_simp

theorem complete_file_grants_once:
  "fst (text_run 5 [(0, TryStart ''x'' ApprovalExec None []), (0, TryStart ''x'' ApprovalExec None [])] demo_text)
   = [Granted True, Granted False]"
  by code_simp

end
